(* ===== verification/Prelude.thy ===== *)
theory Prelude
  imports Complex_Main
begin

text \<open>
  What the components share: the C string functions the code calls, read on the bytes before the
  terminator, and the fact collections of the component proofs. A C string pointer that the code
  compares with \<open>NULL\<close> is a \<open>string option\<close>; one that it uses without a test is a \<open>string\<close>.
\<close>

named_theorems c_string "the C string functions"
named_theorems layout "definitions that only select or project"

section \<open>Characters\<close>

abbreviation code_of :: "char \<Rightarrow> nat" where
  "code_of c \<equiv> of_char c"

definition is_digit :: "char \<Rightarrow> bool" where
  "is_digit c \<longleftrightarrow> code_of CHR ''0'' \<le> code_of c \<and> code_of c \<le> code_of CHR ''9''"

definition digit_value :: "char \<Rightarrow> nat" where
  "digit_value c = code_of c - code_of CHR ''0''"

lemma digit_value_le: "is_digit c \<Longrightarrow> digit_value c \<le> 9"
  unfolding is_digit_def digit_value_def by simp linarith

text \<open>The character a C array holds at an index: the terminator at and after the end.\<close>

definition char_at :: "string \<Rightarrow> nat \<Rightarrow> char" where
  "char_at s i = (if i < length s then s ! i else CHR 0x00)"

lemma char_at_in [simp]: "i < length s \<Longrightarrow> char_at s i = s ! i"
  by (simp add: char_at_def)

lemma char_at_out [simp]: "length s \<le> i \<Longrightarrow> char_at s i = CHR 0x00"
  by (simp add: char_at_def)

lemma not_digit_nul [simp]: "\<not> is_digit CHR 0x00"
  by (simp add: is_digit_def)

section \<open>Searching\<close>

definition starts_with :: "string \<Rightarrow> string \<Rightarrow> bool" where
  "starts_with s prefix \<longleftrightarrow> take (length prefix) s = prefix"

fun strstr :: "string \<Rightarrow> string \<Rightarrow> string option" where
  "strstr [] needle = (if needle = [] then Some [] else None)"
| "strstr (c # s) needle = (if starts_with (c # s) needle then Some (c # s) else strstr s needle)"

fun strchr :: "string \<Rightarrow> char \<Rightarrow> string option" where
  "strchr [] k = None"
| "strchr (c # s) k = (if c = k then Some (c # s) else strchr s k)"

fun strrchr :: "string \<Rightarrow> char \<Rightarrow> string option" where
  "strrchr [] k = None"
| "strrchr (c # s) k =
     (case strrchr s k of Some r \<Rightarrow> Some r | None \<Rightarrow> if c = k then Some (c # s) else None)"

definition ends_with :: "string \<Rightarrow> string \<Rightarrow> bool" where
  "ends_with s suffix \<longleftrightarrow> length suffix \<le> length s \<and> drop (length s - length suffix) s = suffix"

lemma starts_with_iff: "starts_with s p \<longleftrightarrow> (\<exists>r. s = p @ r)"
  unfolding starts_with_def by (metis append_eq_conv_conj append_take_drop_id)

lemma strchr_None_iff: "strchr s k = None \<longleftrightarrow> k \<notin> set s"
  by (induction s) auto

lemma strrchr_None_iff: "strrchr s k = None \<longleftrightarrow> k \<notin> set s"
  by (induction s) (auto split: option.splits)

lemma strrchr_Some: "strrchr s k = Some r \<Longrightarrow> \<exists>p t. s = p @ r \<and> r = k # t \<and> k \<notin> set t"
proof (induction s arbitrary: r)
  case Nil
  then show ?case by simp
next
  case (Cons c s)
  show ?case
  proof (cases "strrchr s k")
    case None
    then have "k \<notin> set s" by (simp add: strrchr_None_iff)
    with Cons.prems None show ?thesis by (auto split: if_splits)
  next
    case (Some r')
    with Cons.IH[OF Some] Cons.prems show ?thesis
      by (metis append_Cons option.inject option.simps(5) strrchr.simps(2))
  qed
qed

lemma strstr_Some: "strstr s n = Some r \<Longrightarrow> \<exists>p t. s = p @ r \<and> r = n @ t"
proof (induction s)
  case Nil
  then show ?case by (simp split: if_splits)
next
  case (Cons c s)
  then show ?case
    by (metis append_Cons append_Nil option.inject starts_with_iff strstr.simps(2))
qed

lemma strstr_None_iff: "strstr s n = None \<longleftrightarrow> (\<nexists>p t. s = p @ n @ t)"
proof (induction s)
  case Nil
  then show ?case by auto
next
  case (Cons c s)
  show ?case
  proof (cases "starts_with (c # s) n")
    case True
    then show ?thesis by (auto simp: starts_with_iff) (metis append_Nil)
  next
    case False
    then have "(\<exists>p t. c # s = p @ n @ t) \<longleftrightarrow> (\<exists>p t. s = p @ n @ t)"
      by (auto simp: starts_with_iff Cons_eq_append_conv)
    with False Cons.IH show ?thesis by simp
  qed
qed

section \<open>Bounded copies\<close>

text \<open>
  \<open>strlcpy\<close> and its GLib name \<open>g_strlcpy\<close>: at most \<open>capacity - 1\<close> bytes are copied and the length of
  the source is returned, so a result below the capacity means that everything was copied.
\<close>

definition strlcpy :: "string \<Rightarrow> nat \<Rightarrow> string \<times> nat" where
  "strlcpy source capacity = (take (capacity - 1) source, length source)"

lemma strlcpy_fits: "length s < n \<Longrightarrow> strlcpy s n = (s, length s)"
  by (simp add: strlcpy_def)

text \<open>The first element with a result.\<close>

lemma first_Cons:
  "(\<exists>i < length (d # ds). A ((d # ds) ! i) r \<and> (\<forall>j < i. \<forall>r'. \<not> A ((d # ds) ! j) r')) \<longleftrightarrow>
   A d r \<or> (\<forall>r'. \<not> A d r') \<and> (\<exists>i < length ds. A (ds ! i) r \<and> (\<forall>j < i. \<forall>r'. \<not> A (ds ! j) r'))"
  by (simp add: Ex_less_Suc2 All_less_Suc2) blast

end
