(* ===== verification/Doubles.thy ===== *)
theory Doubles
  imports Prelude
begin

text \<open>
  The C type \<open>double\<close>: a finite value is the rational it denotes, arithmetic rounds to nearest
  (ties to even) with a 53-bit significand and the exponent range of binary64, and overflow gives
  an infinity. The two zeros are one value here: no comparison of the code tells them apart.
  The lemmas of this theory are monotonicity and symmetry of the rounding and its exactness on
  short dyadic numbers, which is what the range proofs of the coordinate code need.
\<close>

section \<open>Rounding\<close>

text \<open>The binary logarithm of a positive rational, rounded down.\<close>

function ilog2 :: "rat \<Rightarrow> int" where
  "ilog2 x = (if 2 \<le> x then ilog2 (x / 2) + 1
              else if 0 < x \<and> x < 1 then ilog2 (2 * x) - 1 else 0)"
  by pat_completeness auto
termination
proof (relation "measure (\<lambda>x::rat. if 2 \<le> x then nat \<lfloor>x\<rfloor>
                                  else if 0 < x \<and> x < 1 then nat \<lceil>1 / x\<rceil> else 0)", goal_cases)
  case 1 show ?case by simp
next
  case (2 x)
  have a: "1 \<le> x / 2" using 2 by simp
  have "\<lfloor>x / 2\<rfloor> < \<lfloor>x\<rfloor>"
  proof -
    have "of_int \<lfloor>x / 2\<rfloor> + 1 \<le> x"
      using of_int_floor_le[of "x/2"] 2 by linarith
    then have "\<lfloor>x / 2\<rfloor> + 1 \<le> \<lfloor>x\<rfloor>" by (simp add: le_floor_iff)
    then show ?thesis by simp
  qed
  moreover have "2 \<le> \<lfloor>x\<rfloor>" using 2 by (simp add: le_floor_iff)
  ultimately show ?case using 2 a by auto
next
  case (3 x)
  then have p: "0 < x" "x < 1" by auto
  define y where "y = 1 / x"
  have y1: "1 < y" using p by (simp add: y_def)
  have y2: "1 / (2 * x) = y / 2" by (simp add: y_def)
  show ?case
  proof (cases "2 * x < 1")
    case True
    then have "2 < y" using p by (simp add: y_def field_simps)
    have "y / 2 \<le> y - 1" using \<open>2 < y\<close> by simp
    also have "\<dots> \<le> of_int (\<lceil>y\<rceil> - 1)" using le_of_int_ceiling[of y] by simp
    finally have "\<lceil>y / 2\<rceil> \<le> \<lceil>y\<rceil> - 1" by (simp only: ceiling_le_iff)
    then have lt: "\<lceil>1 / (2 * x)\<rceil> < \<lceil>1 / x\<rceil>" by (simp only: y2 y_def)
    have gt: "0 < \<lceil>1 / (2 * x)\<rceil>" using y1 by (simp add: y2 less_ceiling_iff del: times_divide_eq_right)
    have "(2 * x, x) \<in> measure (\<lambda>x::rat. if 2 \<le> x then nat \<lfloor>x\<rfloor>
                                  else if 0 < x \<and> x < 1 then nat \<lceil>1 / x\<rceil> else 0)
          \<longleftrightarrow> nat \<lceil>1 / (2 * x)\<rceil> < nat \<lceil>1 / x\<rceil>" using p True by simp
    then show ?thesis using lt gt by linarith
  next
    case False
    have "0 < \<lceil>y\<rceil>" using y1 by (simp add: less_ceiling_iff)
    then show ?thesis using p False y2 by (auto simp: y_def)
  qed
qed

declare ilog2.simps [simp del]

lemma ilog2_bounds: "0 < x \<Longrightarrow> 2 powi (ilog2 x) \<le> x \<and> x < 2 powi (ilog2 x + 1)"
proof (induction x rule: ilog2.induct)
  case (1 x)
  consider "2 \<le> x" | "x < 1" | "1 \<le> x" "x < 2" by linarith
  then show ?case
  proof cases
    case 1
    with "1.IH"(1) have "2 powi (ilog2 (x/2)) \<le> x / 2 \<and> x / 2 < 2 powi (ilog2 (x/2) + 1)" by simp
    then show ?thesis using 1 by (simp add: ilog2.simps[of x] power_int_add)
  next
    case 2
    with "1.IH"(2) "1.prems" have "2 powi (ilog2 (2*x)) \<le> 2 * x \<and> 2 * x < 2 powi (ilog2 (2*x) + 1)" by simp
    then show ?thesis using 2 "1.prems" by (simp add: ilog2.simps[of x] power_int_diff power_int_add)
  next
    case 3
    then show ?thesis using "1.prems" by (simp add: ilog2.simps[of x])
  qed
qed


lemma ilog2_mono: "0 < x \<Longrightarrow> x \<le> y \<Longrightarrow> ilog2 x \<le> ilog2 y"
proof (rule ccontr)
  assume "0 < x" "x \<le> y" "\<not> ilog2 x \<le> ilog2 y"
  then have "ilog2 y + 1 \<le> ilog2 x" by simp
  then have "(2::rat) powi (ilog2 y + 1) \<le> 2 powi (ilog2 x)" by (intro power_int_increasing) auto
  then show False using ilog2_bounds[of x] ilog2_bounds[of y] \<open>0 < x\<close> \<open>x \<le> y\<close> by linarith
qed

definition round_half_even :: "rat \<Rightarrow> int" where
  "round_half_even y =
     (let f = \<lfloor>y\<rfloor>; d = y - of_int f in
      if d < 1 / 2 then f else if 1 / 2 < d then f + 1 else if even f then f else f + 1)"

lemma round_half_even_int [simp]: "round_half_even (of_int k) = k"
  by (simp add: round_half_even_def)

lemma round_half_even_bounds: "\<lfloor>y\<rfloor> \<le> round_half_even y \<and> round_half_even y \<le> \<lfloor>y\<rfloor> + 1"
  by (simp add: round_half_even_def Let_def)

lemma round_half_even_mono: "x \<le> y \<Longrightarrow> round_half_even x \<le> round_half_even y"
proof (cases "\<lfloor>x\<rfloor> = \<lfloor>y\<rfloor>")
  case True
  assume "x \<le> y"
  with True show ?thesis by (auto simp: round_half_even_def Let_def)
next
  case False
  assume "x \<le> y"
  then have "\<lfloor>x\<rfloor> \<le> \<lfloor>y\<rfloor>" by (rule floor_mono)
  with False have "\<lfloor>x\<rfloor> + 1 \<le> \<lfloor>y\<rfloor>" by simp
  with round_half_even_bounds[of x] round_half_even_bounds[of y] show ?thesis by linarith
qed

lemma round_half_even_neg: "round_half_even (- y) = - round_half_even y"
proof (cases "of_int \<lfloor>y\<rfloor> = y")
  case True
  then obtain k where "y = of_int k" by metis
  then show ?thesis by (metis of_int_minus round_half_even_int)
next
  case False
  define f where "f = \<lfloor>y\<rfloor>"
  have b: "of_int f < y" "y < of_int f + 1"
    using False of_int_floor_le[of y] floor_correct[of y] unfolding f_def by linarith+
  have n: "\<lfloor>- y\<rfloor> = - f - 1" by (rule floor_unique) (use b in auto)
  have "even (- f - 1) = odd f" by simp
  then show ?thesis using b n unfolding round_half_even_def Let_def n f_def[symmetric] by auto
qed

text \<open>The exponent of the last place of a 53-bit significand, subnormal numbers included.\<close>

definition ulp_exp :: "rat \<Rightarrow> int" where
  "ulp_exp x = max (ilog2 \<bar>x\<bar> - 52) (- 1074)"

definition on_grid :: "int \<Rightarrow> rat \<Rightarrow> rat" where
  "on_grid e x = of_int (round_half_even (x / 2 powi e)) * 2 powi e"

definition round53 :: "rat \<Rightarrow> rat" where
  "round53 x = on_grid (ulp_exp x) x"

lemma on_grid_mono: "x \<le> y \<Longrightarrow> on_grid e x \<le> on_grid e y"
  unfolding on_grid_def
  by (intro mult_right_mono, simp only: of_int_le_iff, intro round_half_even_mono divide_right_mono) auto

lemma on_grid_neg: "on_grid e (- x) = - on_grid e x"
  by (simp add: on_grid_def round_half_even_neg)

lemma on_grid_exact:
  assumes "e \<le> n"
  shows "on_grid e (of_int k * 2 powi n) = of_int k * 2 powi n"
proof -
  have "(2::rat) powi n / 2 powi e = 2 powi (n - e)" by (simp add: power_int_diff)
  also have "\<dots> = of_int (2 ^ nat (n - e))" using assms by (simp add: power_int_def)
  finally have q: "of_int k * (2::rat) powi n / 2 powi e = of_int (k * 2 ^ nat (n - e))"
    by (metis of_int_mult times_divide_eq_right)
  then have "on_grid e (of_int k * 2 powi n) = of_int (k * 2 ^ nat (n - e)) * 2 powi e"
    by (simp only: on_grid_def round_half_even_int)
  also have "\<dots> = of_int k * 2 powi n" unfolding q[symmetric] by simp
  finally show ?thesis .
qed

lemma round53_0 [simp]: "round53 0 = 0"
  by (simp add: round53_def on_grid_def round_half_even_def)

lemma round53_neg: "round53 (- x) = - round53 x"
  by (simp add: round53_def on_grid_neg ulp_exp_def)

lemma round53_mono_pos:
  assumes "0 < x" "x \<le> y"
  shows "round53 x \<le> round53 y"
proof -
  have le: "ulp_exp x \<le> ulp_exp y"
    using ilog2_mono[OF assms] assms by (simp add: ulp_exp_def)
  show ?thesis
  proof (cases "ulp_exp x = ulp_exp y")
    case True
    then show ?thesis using on_grid_mono[OF assms(2)] by (simp add: round53_def)
  next
    case False
    define B where "B = (2::rat) powi (ilog2 y)"
    have ey: "ulp_exp y = ilog2 y - 52" using False le assms by (simp add: ulp_exp_def max_def split: if_splits)
    have "ilog2 x - 52 \<le> ulp_exp x" using assms by (simp add: ulp_exp_def)
    then have "ilog2 x + 1 \<le> ilog2 y" using False le ey by linarith
    then have "(2::rat) powi (ilog2 x + 1) \<le> B" unfolding B_def by (intro power_int_increasing) auto
    then have xB: "x \<le> B" using ilog2_bounds[OF assms(1)] by linarith
    have By: "B \<le> y" using ilog2_bounds[of y] assms unfolding B_def by auto
    have 1: "on_grid (ulp_exp x) B = B" using on_grid_exact[of "ulp_exp x" "ilog2 y" 1] False le ey
      by (simp add: B_def)
    have 2: "on_grid (ulp_exp y) B = B" using on_grid_exact[of "ulp_exp y" "ilog2 y" 1] ey
      by (simp add: B_def)
    show ?thesis using on_grid_mono[OF xB, of "ulp_exp x"] on_grid_mono[OF By, of "ulp_exp y"] 1 2
      by (simp add: round53_def)
  qed
qed

lemma on_grid_nonneg: "0 \<le> x \<Longrightarrow> 0 \<le> on_grid e x"
  using on_grid_mono[of 0 x e] by (simp add: on_grid_def round_half_even_def)

lemma round53_nonneg: "0 \<le> x \<Longrightarrow> 0 \<le> round53 x"
  by (simp add: round53_def on_grid_nonneg)

lemma round53_mono: "x \<le> y \<Longrightarrow> round53 x \<le> round53 y"
proof -
  assume xy: "x \<le> y"
  consider "0 < x" | "y < 0" | "x \<le> 0" "0 \<le> y" by linarith
  then show ?thesis
  proof cases
    case 1 then show ?thesis using round53_mono_pos xy by blast
  next
    case 2 then show ?thesis using round53_mono_pos[of "-y" "-x"] xy by (simp add: round53_neg)
  next
    case 3 then show ?thesis using round53_nonneg[of y] round53_nonneg[of "-x"] by (simp add: round53_neg)
  qed
qed

lemma round53_exact:
  assumes "\<bar>k\<bar> < 2 ^ 53" "- 1074 \<le> n"
  shows "round53 (of_int k * 2 powi n) = of_int k * 2 powi n"
proof (cases "k = 0")
  case True then show ?thesis by simp
next
  case False
  define x where "x = of_int k * (2::rat) powi n"
  have ax: "\<bar>x\<bar> = of_int \<bar>k\<bar> * 2 powi n" by (simp add: x_def abs_mult)
  have pos: "0 < \<bar>x\<bar>" using False by (simp add: x_def)
  have "(of_int \<bar>k\<bar> :: rat) < 2 ^ 53" using assms(1) by (metis of_int_less_iff of_int_numeral of_int_power)
  then have "\<bar>x\<bar> < 2 ^ 53 * 2 powi n" unfolding ax by (intro mult_strict_right_mono) auto
  also have "\<dots> = 2 powi (53 + n)" by (simp add: power_int_add)
  finally have "(2::rat) powi (ilog2 \<bar>x\<bar>) < 2 powi (53 + n)" using ilog2_bounds[OF pos] by linarith
  then have "ilog2 \<bar>x\<bar> < 53 + n" using power_int_increasing[of "53 + n" "ilog2 \<bar>x\<bar>" "2::rat"] by linarith
  then have "ulp_exp x \<le> n" using assms(2) by (simp add: ulp_exp_def)
  then show ?thesis unfolding round53_def x_def by (rule on_grid_exact)
qed


lemma round53_of_nat: "k < 2 ^ 53 \<Longrightarrow> round53 (of_nat k) = of_nat k"
proof -
  assume "k < 2 ^ 53"
  then have "\<bar>int k\<bar> < 2 ^ 53" by (metis abs_of_nat of_nat_less_iff of_nat_numeral of_nat_power)
  then show ?thesis using round53_exact[of "int k" 0] by simp
qed

lemma round53_1024: "\<bar>k\<bar> < 2 ^ 53 \<Longrightarrow> round53 (of_int k / 1024) = of_int k / 1024"
proof -
  have "(of_int k / 1024 :: rat) = of_int k * 2 powi (- 10)" by (simp add: power_int_def power_divide)
  then show "\<bar>k\<bar> < 2 ^ 53 \<Longrightarrow> ?thesis" using round53_exact[of k "- 10"] by simp
qed

section \<open>Values and operations\<close>

datatype double = NaN | PInf | NInf | Fin rat

definition round64 :: "rat \<Rightarrow> double" where
  "round64 x = (let r = round53 x in
     if 2 ^ 1024 \<le> r then PInf else if r \<le> - (2 ^ 1024) then NInf else Fin r)"

fun isfinite :: "double \<Rightarrow> bool" where
  "isfinite (Fin _) = True"
| "isfinite _ = False"

fun dneg :: "double \<Rightarrow> double" where
  "dneg (Fin a) = Fin (- a)"
| "dneg PInf = NInf"
| "dneg NInf = PInf"
| "dneg NaN = NaN"

fun dadd :: "double \<Rightarrow> double \<Rightarrow> double" where
  "dadd (Fin a) (Fin b) = round64 (a + b)"
| "dadd NaN _ = NaN"
| "dadd _ NaN = NaN"
| "dadd PInf NInf = NaN"
| "dadd NInf PInf = NaN"
| "dadd PInf _ = PInf"
| "dadd _ PInf = PInf"
| "dadd NInf _ = NInf"
| "dadd _ NInf = NInf"

definition dsub :: "double \<Rightarrow> double \<Rightarrow> double" where
  "dsub a b = dadd a (dneg b)"

text \<open>The code multiplies by a sign and divides by the literals 60 and 3600 only.\<close>

fun dmul_int :: "int \<Rightarrow> double \<Rightarrow> double" where
  "dmul_int k (Fin a) = round64 (of_int k * a)"
| "dmul_int k NaN = NaN"
| "dmul_int k PInf = (if 0 < k then PInf else if k < 0 then NInf else NaN)"
| "dmul_int k NInf = (if 0 < k then NInf else if k < 0 then PInf else NaN)"

fun ddiv_nat :: "double \<Rightarrow> nat \<Rightarrow> double" where
  "ddiv_nat (Fin a) n = round64 (a / of_nat n)"
| "ddiv_nat x n = x"

fun dlt :: "double \<Rightarrow> double \<Rightarrow> bool" where
  "dlt (Fin a) (Fin b) = (a < b)"
| "dlt (Fin _) PInf = True"
| "dlt NInf (Fin _) = True"
| "dlt NInf PInf = True"
| "dlt _ _ = False"

fun dle :: "double \<Rightarrow> double \<Rightarrow> bool" where
  "dle (Fin a) (Fin b) = (a \<le> b)"
| "dle NaN _ = False"
| "dle _ NaN = False"
| "dle NInf _ = True"
| "dle _ PInf = True"
| "dle _ _ = False"

abbreviation dzero :: double where "dzero \<equiv> Fin 0"

lemma round64_small: "\<bar>x\<bar> \<le> 2 ^ 1023 \<Longrightarrow> round64 x = Fin (round53 x)"
proof -
  assume a: "\<bar>x\<bar> \<le> 2 ^ 1023"
  have b: "round53 (2 ^ 1023) = 2 ^ 1023" using round53_exact[of 1 1023] by (simp add: power_int_def)
  have "round53 x \<le> 2 ^ 1023" using round53_mono[of x "2 ^ 1023"] a b by simp
  moreover have "- (2 ^ 1023) \<le> round53 x" using round53_mono[of "- (2 ^ 1023)" x] a b by (simp add: round53_neg)
  moreover have "(2::rat) ^ 1023 < 2 ^ 1024" by (rule power_strict_increasing) simp_all
  ultimately show ?thesis by (simp add: round64_def Let_def)
qed

lemma round64_0 [simp]: "round64 0 = dzero"
  by (simp add: round64_small)

lemma round64_neg: "round64 (- x) = dneg (round64 x)"
proof -
  have "(0::rat) < 2 ^ 1024" by simp
  then show ?thesis by (auto simp: round64_def Let_def round53_neg)
qed

lemma dneg_dneg [simp]: "dneg (dneg x) = x"
  by (cases x) auto

lemma dneg_dadd: "dneg (dadd a b) = dadd (dneg a) (dneg b)"
proof (cases "\<exists>x y. a = Fin x \<and> b = Fin y")
  case True
  then obtain x y where "a = Fin x" "b = Fin y" by auto
  then show ?thesis using round64_neg[of "x + y"] by (simp add: algebra_simps)
next
  case False
  then show ?thesis by (cases a; cases b) auto
qed

lemma dadd_comm: "dadd a b = dadd b a"
  by (cases a; cases b) (auto simp: add.commute)

lemma dsub_swap: "dsub b a = dneg (dsub a b)"
  by (simp add: dsub_def dneg_dadd dadd_comm)

lemma dsub_self [simp]: "dsub (Fin a) (Fin a) = dzero"
  by (simp add: dsub_def)

definition dabs :: "double \<Rightarrow> double" where
  "dabs d = (if dlt d dzero then dneg d else d)"

lemma dabs_dneg: "dabs (dneg d) = dabs d"
  by (cases d) (auto simp: dabs_def)

text \<open>A comparison that holds is between numbers.\<close>

lemma dle_finite: "dle (Fin a) x \<Longrightarrow> dle x (Fin b) \<Longrightarrow> \<exists>r. x = Fin r \<and> a \<le> r \<and> r \<le> b"
  by (cases x) auto

lemma isfinite_iff: "isfinite x \<longleftrightarrow> (\<exists>r. x = Fin r)"
  by (cases x) auto

text \<open>Sums and differences below a whole number stay below it.\<close>

lemma dadd_small:
  assumes "\<bar>a + b\<bar> \<le> of_nat n" "n < 2 ^ 53"
  shows "\<exists>r. dadd (Fin a) (Fin b) = Fin r \<and> \<bar>r\<bar> \<le> of_nat n"
proof -
  have "(of_nat n :: rat) \<le> of_nat (2 ^ 53)" using assms(2) by (simp only: of_nat_le_iff less_imp_le)
  also have "\<dots> \<le> 2 ^ 1023" by simp
  finally have e: "dadd (Fin a) (Fin b) = Fin (round53 (a + b))" using assms(1) by (simp add: round64_small)
  have n: "round53 (of_nat n) = of_nat n" by (rule round53_of_nat) (rule assms(2))
  have "round53 (a + b) \<le> of_nat n" using round53_mono[of "a + b" "of_nat n"] assms(1) n by simp
  moreover have "- of_nat n \<le> round53 (a + b)"
    using round53_mono[of "- of_nat n" "a + b"] assms(1) n by (simp add: round53_neg)
  ultimately show ?thesis using e by auto
qed

lemma dsub_small:
  "\<bar>a - b\<bar> \<le> of_nat n \<Longrightarrow> n < 2 ^ 53 \<Longrightarrow> \<exists>r. dsub (Fin a) (Fin b) = Fin r \<and> \<bar>r\<bar> \<le> of_nat n"
  using dadd_small[of a "- b" n] by (simp add: dsub_def)

end
