(* ===== verification/Common.thy ===== *)
theory Common
  imports Doubles
begin

text \<open>
  The interface of Infiltrator Common (\<open>src/vendor/infiltratr-common\<close>, a git submodule whose source
  is not in the repository): its temporal policy structure as the code reads and writes it, and its
  functions as the fields of a record that every definition using one takes as an argument. What
  the code relies on is a named predicate on that record; no predicate is built into a definition.
\<close>

section \<open>Data\<close>

text \<open>\<open>InfiltratrTemporalPolicyV3\<close>, with the fields the code uses.\<close>

record policy =
  clock_mode :: string
  calendar :: string
  show_seconds :: bool
  location_configured :: bool
  latitude :: double
  longitude :: double

text \<open>\<open>InfiltratrTemporalClockModeInfo\<close>.\<close>

record clock_mode_info =
  mode_id :: string
  mode_name :: string
  requires_latitude :: bool
  requires_longitude :: bool
  supports_seconds :: bool

text \<open>\<open>InfiltratrClockProfile\<close>: the three values the code names and the others.\<close>

datatype clock_profile =
    CONVENTIONAL_12
  | CONVENTIONAL_24
  | DECIMAL_10
  | OTHER_PROFILE nat

text \<open>\<open>InfiltratrIoResult\<close>.\<close>

datatype io_result = IO_OK | IO_INVALID_VALUE | IO_EMPTY | IO_OTHER nat

section \<open>Pure functions\<close>

record common =
  ascii_equal_ci :: "string \<Rightarrow> string \<Rightarrow> bool"
  string_equal :: "string \<Rightarrow> string \<Rightarrow> bool"
  copy_string :: "nat \<Rightarrow> string \<Rightarrow> string"
  clock_mode_find :: "string \<Rightarrow> clock_mode_info option"
  temporal_id_valid :: "string option \<Rightarrow> bool"
  sizeof_clock_mode :: nat
  sizeof_calendar :: nat
  policy_v3_default :: "policy option"
  policy_v3_parse :: "string \<Rightarrow> policy option"
  policy_v3_serialize :: "policy \<Rightarrow> nat \<Rightarrow> string option"
  calendar_catalogue :: "(string \<times> string) list"
  parse_double_range :: "string \<Rightarrow> double \<Rightarrow> double \<Rightarrow> double option"

definition ascii_lower :: "char \<Rightarrow> char" where
  "ascii_lower c = (if 65 \<le> code_of c \<and> code_of c \<le> 90 then char_of (code_of c + 32) else c)"

text \<open>\<open>infiltratr_ascii_equal_ci\<close> and \<open>infiltratr_string_equal\<close> compare whole strings.\<close>

definition equality_documented :: "common \<Rightarrow> bool" where
  "equality_documented cm \<longleftrightarrow>
     (\<forall>a b. ascii_equal_ci cm a b \<longleftrightarrow> map ascii_lower a = map ascii_lower b) \<and>
     (\<forall>a b. string_equal cm a b \<longleftrightarrow> a = b)"

text \<open>
  \<open>infiltratr_copy_string\<close> is the bounded copy, a catalogue entry carries the identifier it was found
  by, and identifiers that pass their validation fit the fields of the policy.
\<close>

definition catalogue_documented :: "common \<Rightarrow> bool" where
  "catalogue_documented cm \<longleftrightarrow>
     (\<forall>n s. copy_string cm n s = take (n - 1) s) \<and>
     (\<forall>s i. clock_mode_find cm s = Some i \<longrightarrow> mode_id i = s \<and> length s < sizeof_clock_mode cm) \<and>
     (\<forall>s. temporal_id_valid cm (Some s) \<longrightarrow> length s < sizeof_calendar cm) \<and>
     \<not> temporal_id_valid cm None"

section \<open>An instance\<close>

text \<open>
  A small Common: five clock systems, identifiers of lower-case letters, digits and dashes, and a
  policy format with four documents. It shows that the documented behaviours can hold together.
\<close>

definition id_char :: "char \<Rightarrow> bool" where
  "id_char c \<longleftrightarrow> is_digit c \<or> (97 \<le> code_of c \<and> code_of c \<le> 122) \<or> c = CHR ''-''"

definition sample_policy :: policy where
  "sample_policy = \<lparr>clock_mode = ''standard-12'', calendar = ''gregorian'', show_seconds = False,
     location_configured = False, latitude = dzero, longitude = dzero\<rparr>"

definition sample_documents :: "(string \<times> policy) list" where
  "sample_documents =
     [(''P'', sample_policy),
      (''S'', sample_policy\<lparr>clock_mode := ''standard''\<rparr>),
      (''Q'', sample_policy\<lparr>show_seconds := True\<rparr>),
      (''L'', sample_policy\<lparr>location_configured := True, latitude := Fin 10, longitude := Fin (- 61)\<rparr>)]"

fun document_of :: "(string \<times> policy) list \<Rightarrow> policy \<Rightarrow> string option" where
  "document_of [] p = None"
| "document_of ((t, q) # ds) p = (if q = p then Some t else document_of ds p)"

definition sample_mode :: "string \<Rightarrow> clock_mode_info" where
  "sample_mode s = \<lparr>mode_id = s, mode_name = s, requires_latitude = False,
     requires_longitude = (s = ''sidereal''), supports_seconds = True\<rparr>"

definition sample_common :: common where
  "sample_common = \<lparr>
     ascii_equal_ci = (\<lambda>a b. map ascii_lower a = map ascii_lower b),
     string_equal = (\<lambda>a b. a = b),
     copy_string = (\<lambda>n s. take (n - 1) s),
     clock_mode_find = (\<lambda>s. if s \<in> set [''standard'', ''standard-12'', ''standard-24'', ''decimal'', ''sidereal'']
                            then Some (sample_mode s) else None),
     temporal_id_valid = (\<lambda>s. case s of None \<Rightarrow> False | Some t \<Rightarrow> t \<noteq> [] \<and> length t < 64 \<and> list_all id_char t),
     sizeof_clock_mode = 64,
     sizeof_calendar = 64,
     policy_v3_default = Some sample_policy,
     policy_v3_parse = map_of sample_documents,
     policy_v3_serialize = (\<lambda>p capacity. document_of sample_documents p),
     calendar_catalogue = [(''gregorian'', ''Gregorian''), (''french-republican'', ''French Republican'')],
     parse_double_range = (\<lambda>s lo hi. if s = ''10'' then Some (Fin 10)
                                     else if s = ''-61'' then Some (Fin (- 61)) else None)\<rparr>"

lemma sample_equality: "equality_documented sample_common"
  by (simp add: equality_documented_def sample_common_def)

lemma sample_catalogue: "catalogue_documented sample_common"
  by (auto simp: catalogue_documented_def sample_common_def sample_mode_def split: if_splits)

end
