(* ===== verification/ManualTime.thy ===== *)
theory ManualTime
  imports Common
begin

text \<open>
  \<open>native-clock-policy.c\<close> and \<open>manual-time.c\<close>: which policy identifiers are the desktop's own 12/24-hour
  clock, and the parser of the manual time entry. The C out-parameters are results here: \<open>None\<close>
  is the return value \<open>false\<close> with the parameter unchanged. The C integers are \<open>int\<close>: every field
  has at most two digits, so no operation leaves the range of its C type (see \<open>manual_time_in_day\<close>).
\<close>

section \<open>The native clock policy\<close>

definition ss_native_clock_mode_id :: "bool \<Rightarrow> string" where
  "ss_native_clock_mode_id use_24h = (if use_24h then ''standard-24'' else ''standard-12'')"

definition ss_native_clock_mode_profile :: "string option \<Rightarrow> bool \<Rightarrow> clock_profile option" where
  "ss_native_clock_mode_profile mode desktop_use_24h =
     (case mode of None \<Rightarrow> None
      | Some m \<Rightarrow>
          if m = ''standard'' then Some (if desktop_use_24h then CONVENTIONAL_24 else CONVENTIONAL_12)
          else if m = ''standard-24'' then Some CONVENTIONAL_24
          else if m = ''standard-12'' then Some CONVENTIONAL_12
          else None)"

definition ss_native_clock_mode_is_legacy_default :: "string option \<Rightarrow> bool" where
  "ss_native_clock_mode_is_legacy_default mode \<longleftrightarrow> mode \<noteq> None \<and> mode = Some ''standard''"

definition ss_native_clock_mode_is_conventional :: "string option \<Rightarrow> bool" where
  "ss_native_clock_mode_is_conventional mode =
     (case mode of None \<Rightarrow> False | Some m \<Rightarrow> m = ''standard-12'' \<or> m = ''standard-24'')"

definition ss_native_clock_mode_tracks_desktop :: "string option \<Rightarrow> bool" where
  "ss_native_clock_mode_tracks_desktop mode \<longleftrightarrow>
     ss_native_clock_mode_is_legacy_default mode \<or> ss_native_clock_mode_is_conventional mode"

definition ss_clock_presentation_refresh_interval_ms :: "string option \<Rightarrow> bool \<Rightarrow> nat" where
  "ss_clock_presentation_refresh_interval_ms mode seconds =
     (if \<not> seconds \<or> ss_native_clock_mode_tracks_desktop mode then 1000 else 500)"

section \<open>The parser\<close>

definition US_PER_SECOND :: int where "US_PER_SECOND = 1000000"
definition US_PER_DAY :: int where "US_PER_DAY = 86400 * US_PER_SECOND"

definition profile_for_mode :: "string option \<Rightarrow> bool \<Rightarrow> clock_profile option" where
  "profile_for_mode mode desktop_use_24h =
     (case mode of None \<Rightarrow> None
      | Some m \<Rightarrow>
          (case ss_native_clock_mode_profile (Some m) desktop_use_24h of
             Some p \<Rightarrow> Some p
           | None \<Rightarrow> if m = ''decimal'' then Some DECIMAL_10 else None))"

definition ss_manual_time_mode_supported :: "string option \<Rightarrow> bool" where
  "ss_manual_time_mode_supported mode \<longleftrightarrow> profile_for_mode mode True \<noteq> None"

text \<open>The retired formatter ignores its arguments.\<close>

definition ss_manual_time_format ::
  "string option \<Rightarrow> bool \<Rightarrow> int \<Rightarrow> int \<Rightarrow> bool \<Rightarrow> nat \<Rightarrow> string option" where
  "ss_manual_time_format mode desktop_use_24h unix_us offset seconds capacity = None"

text \<open>The loop of \<open>parse_field\<close> over the cursor; \<open>digits\<close> counts what has been read.\<close>

fun parse_field_loop :: "string \<Rightarrow> int \<Rightarrow> nat \<Rightarrow> string \<times> int \<times> nat" where
  "parse_field_loop [] number digits = ([], number, digits)"
| "parse_field_loop (c # p) number digits =
     (if is_digit c \<and> digits < 2
      then parse_field_loop p (number * 10 + int (digit_value c)) (digits + 1)
      else (c # p, number, digits))"

definition parse_field :: "string \<Rightarrow> (string \<times> int) option" where
  "parse_field cursor =
     (let (p, number, digits) = parse_field_loop cursor 0 0
      in if digits = 0 \<or> is_digit (char_at p 0) then None else Some (p, number))"

definition parse_fields :: "string \<Rightarrow> (string \<times> int \<times> int \<times> int) option" where
  "parse_fields cursor =
     (case parse_field cursor of None \<Rightarrow> None
      | Some (p, hour) \<Rightarrow>
          if char_at p 0 \<noteq> CHR '':'' then None
          else (case parse_field (tl p) of None \<Rightarrow> None
                | Some (q, minute) \<Rightarrow>
                    if char_at q 0 = CHR '':''
                    then (case parse_field (tl q) of None \<Rightarrow> None
                          | Some (r, second) \<Rightarrow> Some (r, hour, minute, second))
                    else Some (q, hour, minute, 0)))"

definition parse_24_hour :: "string \<Rightarrow> int option" where
  "parse_24_hour text =
     (case parse_fields text of None \<Rightarrow> None
      | Some (rest, hour, minute, second) \<Rightarrow>
          if rest \<noteq> [] \<or> 23 < hour \<or> 59 < minute \<or> 59 < second then None
          else Some ((hour * 3600 + minute * 60 + second) * US_PER_SECOND))"

fun skip_blanks :: "string \<Rightarrow> string" where
  "skip_blanks [] = []"
| "skip_blanks (c # s) = (if c = CHR '' '' \<or> c = CHR 0x09 then skip_blanks s else c # s)"

definition parse_12_hour :: "common \<Rightarrow> string \<Rightarrow> int option" where
  "parse_12_hour cm text =
     (case parse_fields text of None \<Rightarrow> None
      | Some (rest, hour, minute, second) \<Rightarrow>
          if hour < 1 \<or> 12 < hour \<or> 59 < minute \<or> 59 < second then None
          else
            (let marker = skip_blanks rest in
             if \<not> ascii_equal_ci cm marker ''AM'' \<and> \<not> ascii_equal_ci cm marker ''PM'' then None
             else
               (let h = hour mod 12; h = (if ascii_equal_ci cm marker ''PM'' then h + 12 else h)
                in Some ((h * 3600 + minute * 60 + second) * US_PER_SECOND))))"

definition parse_decimal :: "string \<Rightarrow> int option" where
  "parse_decimal text =
     (case parse_fields text of None \<Rightarrow> None
      | Some (rest, hour, minute, second) \<Rightarrow>
          if rest \<noteq> [] \<or> 9 < hour then None
          else
            (let us = (hour * 10000 + minute * 100 + second) * 864000
             in if us < US_PER_DAY then Some us else None))"

definition ss_manual_time_parse ::
  "common \<Rightarrow> string option \<Rightarrow> bool \<Rightarrow> string option \<Rightarrow> int option" where
  "ss_manual_time_parse cm mode desktop_use_24h text =
     (case text of None \<Rightarrow> None
      | Some t \<Rightarrow>
          (case profile_for_mode mode desktop_use_24h of None \<Rightarrow> None
           | Some CONVENTIONAL_12 \<Rightarrow> parse_12_hour cm t
           | Some CONVENTIONAL_24 \<Rightarrow> parse_24_hour t
           | Some DECIMAL_10 \<Rightarrow> parse_decimal t
           | Some (OTHER_PROFILE _) \<Rightarrow> None))"

section \<open>The accepted texts\<close>

text \<open>A field is one or two digits; its value is read in base ten.\<close>

definition field :: "string \<Rightarrow> int \<Rightarrow> bool" where
  "field t v \<longleftrightarrow>
     (\<exists>a. is_digit a \<and> t = [a] \<and> v = int (digit_value a)) \<or>
     (\<exists>a b. is_digit a \<and> is_digit b \<and> t = [a, b] \<and> v = int (10 * digit_value a + digit_value b))"

definition hms :: "string \<Rightarrow> int \<Rightarrow> int \<Rightarrow> int \<Rightarrow> string \<Rightarrow> bool" where
  "hms text h m s rest \<longleftrightarrow> \<not> is_digit (char_at rest 0) \<and>
     (\<exists>a b. field a h \<and> field b m \<and>
        (text = a @ '':'' @ b @ rest \<and> s = 0 \<and> char_at rest 0 \<noteq> CHR '':'' \<or>
         (\<exists>c. field c s \<and> text = a @ '':'' @ b @ '':'' @ c @ rest)))"

lemma field_bounds: "field t v \<Longrightarrow> 0 \<le> v \<and> v \<le> 99"
  unfolding field_def by (auto dest!: digit_value_le)

lemma colon_not_digit [simp]: "\<not> is_digit CHR '':''"
  by (simp add: is_digit_def)

lemma parse_field_loop_2: "parse_field_loop p n 2 = (p, n, 2)"
  by (cases p) auto

lemma parse_field_complete:
  assumes "field t v" "\<not> is_digit (char_at rest 0)"
  shows "parse_field (t @ rest) = Some (rest, v)"
proof (cases rest)
  case Nil
  with assms(1) show ?thesis by (auto simp: field_def parse_field_def)
next
  case (Cons c r)
  with assms show ?thesis
    by (auto simp: field_def parse_field_def parse_field_loop_2 numeral_2_eq_2[symmetric])
qed

lemma parse_field_sound:
  assumes "parse_field s = Some (rest, v)"
  shows "\<exists>t. s = t @ rest \<and> field t v \<and> \<not> is_digit (char_at rest 0)"
proof -
  consider "s = []" | a where "s = [a]" | a b r where "s = a # b # r" by (metis list.exhaust)
  then show ?thesis
  proof cases
    case 1
    with assms show ?thesis by (simp add: parse_field_def)
  next
    case 2
    with assms show ?thesis by (auto simp: parse_field_def field_def split: if_splits)
  next
    case 3
    have two: "parse_field_loop r n (Suc (Suc 0)) = (r, n, 2)" for n
      using parse_field_loop_2[of r n] by (simp add: numeral_2_eq_2)
    show ?thesis
    proof (cases "is_digit a \<and> is_digit b")
      case True
      with assms 3 have "rest = r \<and> v = int (10 * digit_value a + digit_value b) \<and> \<not> is_digit (char_at r 0)"
        by (auto simp: parse_field_def two split: if_splits)
      with 3 True show ?thesis by (intro exI[of _ "[a, b]"]) (auto simp: field_def)
    next
      case False
      with assms 3 have "is_digit a \<and> rest = b # r \<and> v = int (digit_value a) \<and> \<not> is_digit b"
        by (auto simp: parse_field_def split: if_splits)
      with 3 show ?thesis by (intro exI[of _ "[a]"]) (auto simp: field_def)
    qed
  qed
qed

lemma parse_fields_iff:
  "parse_fields text = Some (rest, h, m, s) \<longleftrightarrow> hms text h m s rest"
proof
  assume "parse_fields text = Some (rest, h, m, s)"
  then obtain p q where p: "parse_field text = Some (p, h)" and pc: "char_at p 0 = CHR '':''"
    and q: "parse_field (tl p) = Some (q, m)"
    and r: "(char_at q 0 = CHR '':'' \<and> parse_field (tl q) = Some (rest, s)) \<or>
            (char_at q 0 \<noteq> CHR '':'' \<and> rest = q \<and> s = 0)"
    by (auto simp: parse_fields_def split: option.splits if_splits)
  have nz: "x = CHR '':'' # tl x" if "char_at x 0 = CHR '':''" for x :: string
    using that by (cases x) auto
  from parse_field_sound[OF p] obtain a where a: "text = a @ p" "field a h" by auto
  from parse_field_sound[OF q] obtain b where b: "tl p = b @ q" "field b m" "\<not> is_digit (char_at q 0)" by auto
  have tx: "text = a @ '':'' @ b @ q" using a nz[OF pc] b by simp
  show "hms text h m s rest"
  proof (cases "char_at q 0 = CHR '':''")
    case True
    with r have "parse_field (tl q) = Some (rest, s)" by simp
    from parse_field_sound[OF this] obtain c where c: "tl q = c @ rest" "field c s" "\<not> is_digit (char_at rest 0)" by auto
    with nz[OF True] have "q = '':'' @ c @ rest" by simp
    with tx a b c show ?thesis unfolding hms_def by blast
  next
    case False
    with r tx a b show ?thesis unfolding hms_def by blast
  qed
next
  assume "hms text h m s rest"
  then obtain a b where nd: "\<not> is_digit (char_at rest 0)" and a: "field a h" and b: "field b m"
    and alt: "text = a @ '':'' @ b @ rest \<and> s = 0 \<and> char_at rest 0 \<noteq> CHR '':'' \<or>
              (\<exists>c. field c s \<and> text = a @ '':'' @ b @ '':'' @ c @ rest)"
    unfolding hms_def by blast
  have f: "parse_field (a @ '':'' @ x) = Some ('':'' @ x, h)" "parse_field (b @ '':'' @ x) = Some ('':'' @ x, m)" for x
    using parse_field_complete[OF a, of "'':'' @ x"] parse_field_complete[OF b, of "'':'' @ x"] by auto
  from alt show "parse_fields text = Some (rest, h, m, s)"
  proof (elim disjE exE conjE)
    assume "text = a @ '':'' @ b @ rest" "s = 0" "char_at rest 0 \<noteq> CHR '':''"
    then show ?thesis using f(1)[of "b @ rest"] parse_field_complete[OF b nd] by (simp add: parse_fields_def)
  next
    fix c assume c: "field c s" and t: "text = a @ '':'' @ b @ '':'' @ c @ rest"
    then show ?thesis using f(1)[of "b @ '':'' @ c @ rest"] f(2)[of "c @ rest"] parse_field_complete[OF c nd]
      by (simp add: parse_fields_def)
  qed
qed

lemma hms_bounds: "hms text h m s rest \<Longrightarrow> 0 \<le> h \<and> h \<le> 99 \<and> 0 \<le> m \<and> m \<le> 99 \<and> 0 \<le> s \<and> s \<le> 99"
  unfolding hms_def using field_bounds by force

lemmas unit_defs = US_PER_SECOND_def US_PER_DAY_def

lemma parse_fields_bounds:
  "parse_fields t = Some (r, h, m, s) \<Longrightarrow> 0 \<le> h \<and> h \<le> 99 \<and> 0 \<le> m \<and> m \<le> 99 \<and> 0 \<le> s \<and> s \<le> 99"
  unfolding parse_fields_iff by (rule hms_bounds)

lemma parse_24_hour_day: "parse_24_hour t = Some us \<Longrightarrow> 0 \<le> us \<and> us < US_PER_DAY"
  by (auto simp: parse_24_hour_def unit_defs dest!: parse_fields_bounds split: option.splits if_splits)

lemma parse_12_hour_iff:
  "parse_12_hour cm t = Some us \<longleftrightarrow>
     (\<exists>r h m s. hms t h m s r \<and> 1 \<le> h \<and> h \<le> 12 \<and> m \<le> 59 \<and> s \<le> 59 \<and>
        (if ascii_equal_ci cm (skip_blanks r) ''PM''
         then us = ((h mod 12 + 12) * 3600 + m * 60 + s) * US_PER_SECOND
         else ascii_equal_ci cm (skip_blanks r) ''AM'' \<and>
              us = (h mod 12 * 3600 + m * 60 + s) * US_PER_SECOND))"
proof (cases "parse_fields t")
  case None
  then show ?thesis by (simp add: parse_12_hour_def parse_fields_iff[symmetric])
next
  case (Some x)
  obtain r h m s where x: "x = (r, h, m, s)" by (cases x) auto
  have uniq: "hms t h' m' s' r' \<longleftrightarrow> h' = h \<and> m' = m \<and> s' = s \<and> r' = r" for h' m' s' r'
    using Some x by (auto simp: parse_fields_iff[symmetric])
  show ?thesis unfolding parse_12_hour_def uniq Some x Let_def option.case prod.case
    by (auto split: if_splits)
qed

lemma parse_12_hour_day: "parse_12_hour cm t = Some us \<Longrightarrow> 0 \<le> us \<and> us < US_PER_DAY"
proof -
  assume "parse_12_hour cm t = Some us"
  then obtain r h m s where p: "hms t h m s r" and m: "m \<le> 59" "s \<le> 59"
    and alt: "if ascii_equal_ci cm (skip_blanks r) ''PM''
         then us = ((h mod 12 + 12) * 3600 + m * 60 + s) * US_PER_SECOND
         else ascii_equal_ci cm (skip_blanks r) ''AM'' \<and> us = (h mod 12 * 3600 + m * 60 + s) * US_PER_SECOND"
    unfolding parse_12_hour_iff by blast
  then obtain k where k: "k = h mod 12 \<or> k = h mod 12 + 12" and us: "us = (k * 3600 + m * 60 + s) * US_PER_SECOND"
    by (metis (full_types))
  have "0 \<le> h mod 12" "h mod 12 < 12" by simp_all
  with k have "0 \<le> k" "k \<le> 23" by auto
  with m hms_bounds[OF p] us show ?thesis by (simp add: unit_defs)
qed

lemma parse_decimal_day: "parse_decimal t = Some us \<Longrightarrow> 0 \<le> us \<and> us < US_PER_DAY"
  by (auto simp: parse_decimal_def Let_def unit_defs dest!: parse_fields_bounds split: option.splits if_splits)

text \<open>The marker of a 12-hour time, after any blanks.\<close>

definition marker :: "string \<Rightarrow> bool \<Rightarrow> bool" where
  "marker rest pm \<longleftrightarrow> map ascii_lower (skip_blanks rest) = (if pm then ''pm'' else ''am'')"

lemma lower_pm: "map ascii_lower ''PM'' = ''pm''" by code_simp
lemma lower_am: "map ascii_lower ''AM'' = ''am''" by code_simp

section \<open>Properties\<close>

text \<open>
  Whatever the clock mode and the text, an accepted manual time is a number of microseconds
  inside one day, the range the header promises.
\<close>

theorem manual_time_in_day:
  assumes "ss_manual_time_parse cm mode desktop_use_24h text = Some us"
  shows "0 \<le> us \<and> us < US_PER_DAY"
  using assms parse_24_hour_day parse_12_hour_day parse_decimal_day
  by (auto simp: ss_manual_time_parse_def split: option.splits clock_profile.splits)

theorem manual_time_in_day_witness:
  "ss_manual_time_parse sample_common (Some ''standard-12'') False (Some ''6:57:18 PM'') = Some 68238000000 \<and>
   (0::int) \<le> 68238000000 \<and> 68238000000 < US_PER_DAY"
proof -
  have h: "ss_manual_time_parse sample_common (Some ''standard-12'') False (Some ''6:57:18 PM'') = Some 68238000000"
    by code_simp
  show ?thesis using h manual_time_in_day[OF h] by simp
qed

text \<open>
  The 24-hour parser accepts exactly the texts \<open>H:M\<close> and \<open>H:M:S\<close> of one- or two-digit fields with
  hour below 24 and minute and second below 60, nothing before, between or after, and returns
  the microseconds after midnight they name.
\<close>

theorem parse_24_hour_exact:
  "parse_24_hour text = Some us \<longleftrightarrow>
     (\<exists>h m s. hms text h m s [] \<and> h < 24 \<and> m < 60 \<and> s < 60 \<and>
        us = (h * 3600 + m * 60 + s) * 1000000)"
  by (cases "parse_fields text")
     (auto simp: parse_24_hour_def parse_fields_iff[symmetric] US_PER_SECOND_def split: if_splits)

text \<open>
  The 12-hour parser accepts exactly an hour from 1 to 12 with minute and second below 60,
  followed by blanks and AM or PM in either case, and the time is the 24-hour time that clock
  face and marker name (12 AM is midnight, 12 PM is noon).
\<close>

theorem parse_12_hour_exact:
  assumes "equality_documented cm"
  shows "parse_12_hour cm text = Some us \<longleftrightarrow>
     (\<exists>rest h m s pm. hms text h m s rest \<and> 1 \<le> h \<and> h \<le> 12 \<and> m < 60 \<and> s < 60 \<and> marker rest pm \<and>
        us = ((if h = 12 then 0 else h) + (if pm then 12 else 0)) * 3600000000 + m * 60000000 + s * 1000000)"
    (is "_ \<longleftrightarrow> ?R")
proof -
  have ci: "ascii_equal_ci cm x ''PM'' \<longleftrightarrow> map ascii_lower x = ''pm''"
           "ascii_equal_ci cm x ''AM'' \<longleftrightarrow> map ascii_lower x = ''am''" for x
    using assms lower_pm lower_am by (simp_all only: equality_documented_def)
  have md: "h mod 12 = (if h = 12 then 0 else h)" if "1 \<le> h" "h \<le> 12" for h :: int using that by simp
  show ?thesis
  proof
    assume "parse_12_hour cm text = Some us"
    then obtain r h m s where hm: "hms text h m s r" "1 \<le> h" "h \<le> 12" "m \<le> 59" "s \<le> 59"
      and alt: "if map ascii_lower (skip_blanks r) = ''pm''
         then us = ((h mod 12 + 12) * 3600 + m * 60 + s) * US_PER_SECOND
         else map ascii_lower (skip_blanks r) = ''am'' \<and> us = (h mod 12 * 3600 + m * 60 + s) * US_PER_SECOND"
      unfolding parse_12_hour_iff ci by blast
    show ?R
      by (rule exI[of _ r], rule exI[of _ h], rule exI[of _ m], rule exI[of _ s],
          rule exI[of _ "map ascii_lower (skip_blanks r) = ''pm''"])
         (use hm alt md[OF hm(2,3)] in \<open>auto simp: marker_def US_PER_SECOND_def split: if_splits\<close>)
  next
    assume ?R
    then obtain r h m s pm where "hms text h m s r" "1 \<le> h" "h \<le> 12" "m < 60" "s < 60" "marker r pm"
      "us = ((if h = 12 then 0 else h) + (if pm then 12 else 0)) * 3600000000 + m * 60000000 + s * 1000000"
      by blast
    then show "parse_12_hour cm text = Some us"
      unfolding parse_12_hour_iff ci
      by (intro exI[of _ r] exI[of _ h] exI[of _ m] exI[of _ s])
         (cases pm, simp_all add: marker_def US_PER_SECOND_def md)
  qed
qed

theorem parse_12_hour_exact_witness:
  "equality_documented sample_common \<and>
   parse_12_hour sample_common ''12:05 am'' = Some 300000000 \<and>
   (\<exists>rest h m s pm. hms ''12:05 am'' h m s rest \<and> 1 \<le> h \<and> h \<le> 12 \<and> m < 60 \<and> s < 60 \<and> marker rest pm \<and>
      300000000 = ((if h = 12 then 0 else h) + (if pm then 12 else 0)) * 3600000000 + m * 60000000 + s * 1000000)"
proof -
  have h: "parse_12_hour sample_common ''12:05 am'' = Some 300000000" by code_simp
  show ?thesis using sample_equality h parse_12_hour_exact[OF sample_equality, of "''12:05 am''" 300000000] by blast
qed

text \<open>
  The decimal parser accepts exactly the hundred thousand decimal seconds of a day, and the
  conversion is exact: decimal second \<open>n\<close> is the instant \<open>n / 100000\<close> of the day, never rounded.
\<close>

theorem parse_decimal_exact:
  "parse_decimal text = Some us \<longleftrightarrow>
     (\<exists>h m s. hms text h m s [] \<and> h \<le> 9 \<and> us * 100000 = (h * 10000 + m * 100 + s) * US_PER_DAY)"
proof
  assume "parse_decimal text = Some us"
  then obtain h m s where "hms text h m s []" "h \<le> 9" "us = (h * 10000 + m * 100 + s) * 864000"
    by (auto simp: parse_decimal_def Let_def parse_fields_iff split: option.splits if_splits)
  then show "\<exists>h m s. hms text h m s [] \<and> h \<le> 9 \<and> us * 100000 = (h * 10000 + m * 100 + s) * US_PER_DAY"
    by (intro exI[of _ h] exI[of _ m] exI[of _ s]) (simp add: unit_defs)
next
  assume "\<exists>h m s. hms text h m s [] \<and> h \<le> 9 \<and> us * 100000 = (h * 10000 + m * 100 + s) * US_PER_DAY"
  then obtain h m s where p: "hms text h m s []" and h: "h \<le> 9"
    and "us * 100000 = (h * 10000 + m * 100 + s) * US_PER_DAY" by blast
  then have us: "us = (h * 10000 + m * 100 + s) * 864000" by (simp add: unit_defs)
  with hms_bounds[OF p] h have "us < US_PER_DAY" by (simp add: unit_defs)
  with p h us show "parse_decimal text = Some us"
    by (simp add: parse_decimal_def Let_def parse_fields_iff[symmetric])
qed

end
