(* ===== verification/Glib.thy ===== *)
theory Glib
  imports Prelude "HOL-Library.List_Lexorder" "HOL-Library.Char_ord"
begin

text \<open>
  GLib as the code uses it. Its arrays of strings (\<open>GPtrArray\<close>, \<open>GStrv\<close>) are lists, its string sets
  (\<open>GHashTable\<close>) are lists read by membership, sorting one with \<open>strcmp\<close> is sorting in the
  lexicographic order of the bytes, and the allocators never fail, as GLib aborts instead. Every
  function that computes on text is a field of a record, an argument of the definitions that call it.
\<close>

record glib =
  g_strsplit :: "string \<Rightarrow> string \<Rightarrow> int \<Rightarrow> string list"
  g_strchomp :: "string \<Rightarrow> string"
  g_strstrip :: "string \<Rightarrow> string"
  g_ascii_strcasecmp :: "string \<Rightarrow> string \<Rightarrow> int"
  g_utf8_validate :: "string \<Rightarrow> bool"
  g_canonicalize_filename :: "string \<Rightarrow> string \<Rightarrow> string"
  g_build_filename :: "string list \<Rightarrow> string"
  g_path_get_dirname :: "string \<Rightarrow> string"

text \<open>Cutting a text at one delimiter character, with at most \<open>n\<close> pieces when \<open>n\<close> is positive.\<close>

fun split_at :: "char \<Rightarrow> int \<Rightarrow> string \<Rightarrow> string \<Rightarrow> string list" where
  "split_at d n piece [] = [rev piece]"
| "split_at d n piece (c # s) =
     (if c = d \<and> n \<noteq> 1 then rev piece # split_at d (n - 1) [] s
      else split_at d n (c # piece) s)"

definition is_space :: "char \<Rightarrow> bool" where
  "is_space c \<longleftrightarrow> c = CHR '' '' \<or> (9 \<le> code_of c \<and> code_of c \<le> 13)"

text \<open>\<open>g_ascii_isspace\<close>, which leaves out the vertical tab.\<close>

definition ascii_isspace :: "char \<Rightarrow> bool" where
  "ascii_isspace c \<longleftrightarrow> code_of c \<in> {9, 10, 12, 13, 32}"

definition chomp :: "string \<Rightarrow> string" where
  "chomp s = rev (dropWhile ascii_isspace (rev s))"

definition strip :: "string \<Rightarrow> string" where
  "strip s = dropWhile ascii_isspace (chomp s)"

text \<open>The documented behaviour of the splitting and trimming functions on the calls of the code.\<close>

definition text_documented :: "glib \<Rightarrow> bool" where
  "text_documented gl \<longleftrightarrow>
     (\<forall>s d n. g_strsplit gl s [d] n = (if s = [] then [] else split_at d n [] s)) \<and>
     (\<forall>s. g_strchomp gl s = chomp s) \<and>
     (\<forall>s. g_strstrip gl s = strip s)"

lemma split_at_ne [simp]: "split_at d n piece s \<noteq> []"
  by (induction s arbitrary: n piece) auto

text \<open>Pieces without the delimiter are found again.\<close>

lemma split_at_piece: "d \<notin> set x \<Longrightarrow> split_at d n piece x = [rev piece @ x]"
  by (induction x arbitrary: piece) auto

lemma split_at_append:
  "d \<notin> set x \<Longrightarrow> n \<noteq> 1 \<Longrightarrow> split_at d n piece (x @ d # s) = (rev piece @ x) # split_at d (n - 1) [] s"
  by (induction x arbitrary: piece) auto

fun join_lines :: "string list \<Rightarrow> string" where
  "join_lines [] = []"
| "join_lines (l # ls) = l @ CHR 0x0A # join_lines ls"

lemma split_join_lines:
  "\<forall>l \<in> set ls. CHR 0x0A \<notin> set l \<Longrightarrow> n \<le> 0 \<Longrightarrow> split_at (CHR 0x0A) n [] (join_lines ls) = ls @ [[]]"
  by (induction ls arbitrary: n) (auto simp: split_at_append)

lemma chomp_id: "s = [] \<or> \<not> ascii_isspace (last s) \<Longrightarrow> chomp s = s"
  by (cases s rule: rev_cases) (auto simp: chomp_def)

section \<open>An instance\<close>

definition sample_glib :: glib where
  "sample_glib = \<lparr>
     g_strsplit = (\<lambda>s d n. case d of [c] \<Rightarrow> (if s = [] then [] else split_at c n [] s) | _ \<Rightarrow> [s]),
     g_strchomp = chomp,
     g_strstrip = strip,
     g_ascii_strcasecmp = (\<lambda>a b. if a = b then 0 else 1),
     g_utf8_validate = list_all (\<lambda>c. code_of c < 128),
     g_canonicalize_filename = (\<lambda>f d. if char_at f 0 = CHR ''/'' then f else d @ ''/'' @ f),
     g_build_filename = (\<lambda>ps. case ps of [] \<Rightarrow> [] | p # qs \<Rightarrow> p @ concat (map (\<lambda>q. CHR ''/'' # q) qs)),
     g_path_get_dirname = (\<lambda>p. rev (tl (dropWhile (\<lambda>c. c \<noteq> CHR ''/'') (rev p))))\<rparr>"

lemma sample_text: "text_documented sample_glib"
  by (simp add: text_documented_def sample_glib_def)

end
