(* ===== verification/RegionalContext.thy ===== *)
theory RegionalContext
  imports Doubles Glib
begin

text \<open>
  \<open>regional-context.c\<close>: validation of IANA time-zone identifiers, the zone table parser, the
  nearest-zone search and the time-zone catalogue. The files and the local zone the code reads are
  an argument of type \<open>regional_env\<close>; a table that cannot be read is \<open>None\<close>.
\<close>

record regional_env =
  file_contents :: "string \<Rightarrow> string option"
  file_link :: "string \<Rightarrow> string option"
  local_zone_identifier :: "string option"

record regional_context =
  timezone_id :: string
  timezone_city :: string
  reference_latitude :: double
  reference_longitude :: double
  has_reference_coordinates :: bool

definition SS_TIMEZONE_ID_CAPACITY :: nat where "SS_TIMEZONE_ID_CAPACITY = 128"
definition SS_TIMEZONE_CITY_CAPACITY :: nat where "SS_TIMEZONE_CITY_CAPACITY = 96"

abbreviation TAB :: string where "TAB \<equiv> [CHR 0x09]"
abbreviation NL :: string where "NL \<equiv> [CHR 0x0A]"

section \<open>Identifiers\<close>

definition timezone_char :: "char \<Rightarrow> bool" where
  "timezone_char ch \<longleftrightarrow>
     (65 \<le> code_of ch \<and> code_of ch \<le> 90) \<or> (97 \<le> code_of ch \<and> code_of ch \<le> 122) \<or>
     (48 \<le> code_of ch \<and> code_of ch \<le> 57) \<or>
     ch = CHR ''/'' \<or> ch = CHR ''_'' \<or> ch = CHR ''-'' \<or> ch = CHR ''+''"

fun timezone_chars_ok :: "string \<Rightarrow> bool" where
  "timezone_chars_ok [] = True"
| "timezone_chars_ok (c # s) = (if timezone_char c then timezone_chars_ok s else False)"

definition timezone_id_valid :: "string option \<Rightarrow> bool" where
  "timezone_id_valid value =
     (case value of None \<Rightarrow> False
      | Some v \<Rightarrow>
          if v = [] \<or> SS_TIMEZONE_ID_CAPACITY \<le> length v then False
          else if \<not> timezone_chars_ok v then False
          else strstr v ''..'' = None)"

definition copy_timezone_id :: "nat \<Rightarrow> string option \<Rightarrow> string option" where
  "copy_timezone_id capacity value =
     (if capacity = 0 \<or> \<not> timezone_id_valid value then None
      else (case value of None \<Rightarrow> None
            | Some v \<Rightarrow> (let (copy, n) = strlcpy v capacity in if n < capacity then Some copy else None)))"

definition read_timezone_file :: "glib \<Rightarrow> regional_env \<Rightarrow> nat \<Rightarrow> string option" where
  "read_timezone_file gl env capacity =
     (case file_contents env ''/etc/timezone'' of None \<Rightarrow> None
      | Some contents \<Rightarrow>
          if length contents = 0 then None
          else copy_timezone_id capacity (Some (g_strstrip gl contents)))"

definition zoneinfo_marker :: string where
  "zoneinfo_marker = ''/usr/share/zoneinfo/''"

definition read_timezone_localtime_link :: "glib \<Rightarrow> regional_env \<Rightarrow> nat \<Rightarrow> string option" where
  "read_timezone_localtime_link gl env capacity =
     (case file_link env ''/etc/localtime'' of None \<Rightarrow> None
      | Some link \<Rightarrow>
          (case strstr (g_canonicalize_filename gl link ''/etc'') zoneinfo_marker of None \<Rightarrow> None
           | Some zone \<Rightarrow> copy_timezone_id capacity (Some (drop (length zoneinfo_marker) zone))))"

definition read_timezone_glib :: "regional_env \<Rightarrow> nat \<Rightarrow> string option" where
  "read_timezone_glib env capacity =
     (case local_zone_identifier env of None \<Rightarrow> None
      | Some identifier \<Rightarrow> copy_timezone_id capacity (Some identifier))"

section \<open>Coordinates\<close>

fun all_digits_from :: "string \<Rightarrow> nat \<Rightarrow> nat \<Rightarrow> bool" where
  "all_digits_from text index 0 = True"
| "all_digits_from text index (Suc n) =
     (if is_digit (char_at text index) then all_digits_from text (index + 1) n else False)"

fun degrees_from :: "string \<Rightarrow> nat \<Rightarrow> nat \<Rightarrow> nat \<Rightarrow> nat" where
  "degrees_from text index 0 degrees = degrees"
| "degrees_from text index (Suc n) degrees =
     degrees_from text (index + 1) n (degrees * 10 + digit_value (char_at text (1 + index)))"

definition dms_value :: "int \<Rightarrow> nat \<Rightarrow> nat \<Rightarrow> nat \<Rightarrow> double" where
  "dms_value sign degrees minutes seconds =
     dmul_int sign
       (dadd (dadd (Fin (of_nat degrees)) (ddiv_nat (Fin (of_nat minutes)) 60))
             (ddiv_nat (Fin (of_nat seconds)) 3600))"

definition parse_component :: "string \<Rightarrow> nat \<Rightarrow> nat \<Rightarrow> nat \<Rightarrow> double option" where
  "parse_component text len degree_digits maximum =
     (if (char_at text 0 \<noteq> CHR ''+'' \<and> char_at text 0 \<noteq> CHR ''-'') \<or>
         (len \<noteq> 1 + degree_digits + 2 \<and> len \<noteq> 1 + degree_digits + 4) then None
      else
        (let sign = (if char_at text 0 = CHR ''-'' then - 1 else 1) in
         if \<not> all_digits_from text 1 (len - 1) then None
         else
           (let degrees = degrees_from text 0 degree_digits 0;
                minutes = digit_value (char_at text (1 + degree_digits)) * 10 +
                          digit_value (char_at text (2 + degree_digits));
                seconds = (if len = 1 + degree_digits + 4
                           then digit_value (char_at text (3 + degree_digits)) * 10 +
                                digit_value (char_at text (4 + degree_digits))
                           else 0)
            in if 60 \<le> minutes \<or> 60 \<le> seconds \<or>
                  dlt (Fin (of_nat maximum)) (Fin (of_nat degrees)) \<or>
                  (Fin (of_nat degrees) = Fin (of_nat maximum) \<and> (minutes \<noteq> 0 \<or> seconds \<noteq> 0))
               then None
               else Some (dms_value sign degrees minutes seconds))))"

text \<open>The index of the sign that starts the longitude, or the length.\<close>

fun find_split :: "string \<Rightarrow> nat \<Rightarrow> nat" where
  "find_split [] split = split"
| "find_split (c # s) split =
     (if c = CHR ''+'' \<or> c = CHR ''-'' then split else find_split s (split + 1))"

definition parse_zone_coordinate :: "string \<Rightarrow> (double \<times> double) option" where
  "parse_zone_coordinate coordinate =
     (let len = length coordinate;
          split = find_split (drop 1 coordinate) 1
      in if len \<le> split then None
         else (case parse_component coordinate split 2 90 of None \<Rightarrow> None
               | Some lat \<Rightarrow>
                   (case parse_component (drop split coordinate) (len - split) 3 180 of None \<Rightarrow> None
                    | Some lon \<Rightarrow> Some (lat, lon))))"

section \<open>The zone table\<close>

text \<open>A line that is empty or a comment is skipped; the others are cut at tabs into four fields.\<close>

definition skipped_line :: "string \<Rightarrow> bool" where
  "skipped_line line \<longleftrightarrow> char_at line 0 = CHR 0x00 \<or> char_at line 0 = CHR ''#''"

definition line_fields :: "glib \<Rightarrow> string \<Rightarrow> (string \<times> string \<times> string) option" where
  "line_fields gl line =
     (if skipped_line line then None
      else (case g_strsplit gl line TAB 4 of f0 # f1 # f2 # _ \<Rightarrow> Some (f0, f1, f2) | _ \<Rightarrow> None))"

text \<open>
  What \<open>*latitude\<close> holds after \<open>parse_zone_coordinate\<close>: a coordinate whose longitude is malformed is
  refused after its latitude was written.
\<close>

definition written_latitude :: "string \<Rightarrow> double \<Rightarrow> double" where
  "written_latitude coordinate previous =
     (let split = find_split (drop 1 coordinate) 1
      in if length coordinate \<le> split then previous
         else (case parse_component coordinate split 2 90 of None \<Rightarrow> previous | Some lat \<Rightarrow> lat))"

text \<open>The loop keeps \<open>*latitude\<close> and \<open>*longitude\<close>; the first component of the result is \<open>found\<close>.\<close>

fun lookup_lines :: "glib \<Rightarrow> string \<Rightarrow> string list \<Rightarrow> double \<Rightarrow> double \<Rightarrow> bool \<times> double \<times> double" where
  "lookup_lines gl zone [] lat lon = (False, lat, lon)"
| "lookup_lines gl zone (line # lines) lat lon =
     (case line_fields gl line of
        None \<Rightarrow> lookup_lines gl zone lines lat lon
      | Some (f0, f1, f2) \<Rightarrow>
          if g_strchomp gl f2 = zone
          then (case parse_zone_coordinate f1 of
                  Some (a, b) \<Rightarrow> (True, a, b)
                | None \<Rightarrow> lookup_lines gl zone lines (written_latitude f1 lat) lon)
          else lookup_lines gl zone lines lat lon)"

definition ss_regional_context_lookup_timezone_reference ::
  "glib \<Rightarrow> regional_env \<Rightarrow> string option \<Rightarrow> string option \<Rightarrow> double \<Rightarrow> double \<Rightarrow> bool \<times> double \<times> double" where
  "ss_regional_context_lookup_timezone_reference gl env zone_tab_path zone lat lon =
     (case zone_tab_path of None \<Rightarrow> (False, lat, lon)
      | Some path \<Rightarrow>
          (case zone of None \<Rightarrow> (False, lat, lon)
           | Some z \<Rightarrow>
               if \<not> timezone_id_valid (Some z) then (False, lat, lon)
               else (case file_contents env path of None \<Rightarrow> (False, lat, lon)
                     | Some contents \<Rightarrow> lookup_lines gl z (g_strsplit gl contents NL (- 1)) lat lon)))"

definition ss_regional_context_city_name :: "string option \<Rightarrow> nat \<Rightarrow> string option" where
  "ss_regional_context_city_name zone capacity =
     (if capacity = 0 \<or> \<not> timezone_id_valid zone then None
      else (case zone of None \<Rightarrow> None
            | Some z \<Rightarrow>
                (let source = (case strrchr z CHR ''/'' of Some s \<Rightarrow> tl s | None \<Rightarrow> z);
                     len = length source
                 in if len = 0 \<or> capacity \<le> len then None
                    else Some (map (\<lambda>c. if c = CHR ''_'' then CHR '' '' else c) source))))"

fun any_equal_ci :: "glib \<Rightarrow> string list \<Rightarrow> string \<Rightarrow> bool" where
  "any_equal_ci gl [] code = False"
| "any_equal_ci gl (p # ps) code = (if g_ascii_strcasecmp gl p code = 0 then True else any_equal_ci gl ps code)"

definition country_field_matches :: "glib \<Rightarrow> string \<Rightarrow> string \<Rightarrow> bool" where
  "country_field_matches gl fld country_code =
     (if country_code = [] then False else any_equal_ci gl (g_strsplit gl fld '','' (- 1)) country_code)"

definition longitude_distance :: "double \<Rightarrow> double \<Rightarrow> double" where
  "longitude_distance left right =
     (let distance = dsub left right;
          distance = (if dlt distance dzero then dneg distance else distance)
      in if dlt (Fin 180) distance then dsub (Fin 360) distance else distance)"

text \<open>The candidate a line offers: its score and its zone.\<close>

definition zone_score :: "double \<Rightarrow> double \<Rightarrow> double \<Rightarrow> double \<Rightarrow> double" where
  "zone_score candidate_latitude candidate_longitude lat lon =
     (let d = dsub candidate_latitude lat;
          d = (if dlt d dzero then dneg d else d)
      in dadd d (longitude_distance candidate_longitude lon))"

definition candidate :: "glib \<Rightarrow> string \<Rightarrow> double \<Rightarrow> double \<Rightarrow> string \<Rightarrow> (double \<times> string) option" where
  "candidate gl country_code lat lon line =
     (case line_fields gl line of
        None \<Rightarrow> None
      | Some (f0, f1, f2) \<Rightarrow>
          if \<not> country_field_matches gl f0 country_code then None
          else (case parse_zone_coordinate f1 of None \<Rightarrow> None
                | Some (clat, clon) \<Rightarrow>
                    if \<not> timezone_id_valid (Some (g_strchomp gl f2)) then None
                    else Some (zone_score clat clon lat lon, g_strchomp gl f2)))"

text \<open>The loop state is \<open>found\<close> with \<open>best_score\<close> and the zone buffer; \<open>None\<close> is \<open>found = false\<close>.\<close>

fun nearest_lines ::
  "glib \<Rightarrow> string \<Rightarrow> double \<Rightarrow> double \<Rightarrow> nat \<Rightarrow> string list \<Rightarrow> (double \<times> string) option \<Rightarrow> (double \<times> string) option"
  where
  "nearest_lines gl cc lat lon capacity [] best = best"
| "nearest_lines gl cc lat lon capacity (line # lines) best =
     (case candidate gl cc lat lon line of
        None \<Rightarrow> nearest_lines gl cc lat lon capacity lines best
      | Some (score, zone) \<Rightarrow>
          if (case best of None \<Rightarrow> True | Some (best_score, _) \<Rightarrow> dlt score best_score)
          then (let (copy, n) = strlcpy zone capacity in
                if capacity \<le> n then None
                else nearest_lines gl cc lat lon capacity lines (Some (score, copy)))
          else nearest_lines gl cc lat lon capacity lines best)"

definition nearest_timezone_in_file ::
  "glib \<Rightarrow> regional_env \<Rightarrow> string \<Rightarrow> string \<Rightarrow> double \<Rightarrow> double \<Rightarrow> nat \<Rightarrow> string option" where
  "nearest_timezone_in_file gl env path country_code lat lon capacity =
     (if capacity = 0 then None
      else (case file_contents env path of None \<Rightarrow> None
            | Some contents \<Rightarrow>
                map_option snd
                  (nearest_lines gl country_code lat lon capacity (g_strsplit gl contents NL (- 1)) None)))"

definition ss_regional_context_nearest_timezone ::
  "glib \<Rightarrow> regional_env \<Rightarrow> string option \<Rightarrow> double \<Rightarrow> double \<Rightarrow> nat \<Rightarrow> string option" where
  "ss_regional_context_nearest_timezone gl env country_code lat lon capacity =
     (case country_code of None \<Rightarrow> None
      | Some cc \<Rightarrow>
          if capacity = 0 \<or> \<not> isfinite lat \<or> \<not> isfinite lon \<or>
             dlt lat (Fin (- 90)) \<or> dlt (Fin 90) lat \<or> dlt lon (Fin (- 180)) \<or> dlt (Fin 180) lon
          then None
          else (case nearest_timezone_in_file gl env ''/usr/share/zoneinfo/zone1970.tab'' cc lat lon capacity of
                  Some z \<Rightarrow> Some z
                | None \<Rightarrow> nearest_timezone_in_file gl env ''/usr/share/zoneinfo/zone.tab'' cc lat lon capacity))"

section \<open>The catalogue\<close>

fun catalogue_lines :: "glib \<Rightarrow> string list \<Rightarrow> string list \<Rightarrow> string list \<Rightarrow> string list \<times> string list" where
  "catalogue_lines gl [] zones seen = (zones, seen)"
| "catalogue_lines gl (line # lines) zones seen =
     (case line_fields gl line of
        None \<Rightarrow> catalogue_lines gl lines zones seen
      | Some (f0, f1, f2) \<Rightarrow>
          (let zone = g_strchomp gl f2 in
           if \<not> timezone_id_valid (Some zone) \<or> zone \<in> set seen
           then catalogue_lines gl lines zones seen
           else catalogue_lines gl lines (zones @ [zone]) (zone # seen)))"

definition ss_regional_context_list_timezones_from_file ::
  "glib \<Rightarrow> regional_env \<Rightarrow> string option \<Rightarrow> string option \<Rightarrow> string list" where
  "ss_regional_context_list_timezones_from_file gl env zone_tab_path current =
     (let (zones, seen) =
        (case zone_tab_path of None \<Rightarrow> ([''Etc/UTC''], [''Etc/UTC''])
         | Some path \<Rightarrow>
             (case file_contents env path of None \<Rightarrow> ([''Etc/UTC''], [''Etc/UTC''])
              | Some contents \<Rightarrow>
                  catalogue_lines gl (g_strsplit gl contents NL (- 1)) [''Etc/UTC''] [''Etc/UTC'']))
      in (case current of None \<Rightarrow> sort zones
          | Some c \<Rightarrow>
              if timezone_id_valid (Some c) \<and> c \<notin> set seen then sort (zones @ [c]) else sort zones))"

definition ss_regional_context_list_timezones :: "glib \<Rightarrow> regional_env \<Rightarrow> string option \<Rightarrow> string list" where
  "ss_regional_context_list_timezones gl env current =
     (let zones = ss_regional_context_list_timezones_from_file gl env (Some ''/usr/share/zoneinfo/zone.tab'') None
      in if length zones = 1
         then ss_regional_context_list_timezones_from_file gl env (Some ''/usr/share/zoneinfo/zone1970.tab'') current
         else (case current of None \<Rightarrow> zones
               | Some c \<Rightarrow>
                   if timezone_id_valid (Some c) \<and> \<not> (\<exists>z \<in> set zones. z = c)
                   then sort (zones @ [c]) else zones))"

section \<open>Detection\<close>

definition ss_regional_context_detect :: "glib \<Rightarrow> regional_env \<Rightarrow> bool \<times> regional_context" where
  "ss_regional_context_detect gl env =
     (let cleared = \<lparr>timezone_id = [], timezone_city = [], reference_latitude = dzero,
                     reference_longitude = dzero, has_reference_coordinates = False\<rparr>;
          zone = (case read_timezone_localtime_link gl env SS_TIMEZONE_ID_CAPACITY of
                    Some z \<Rightarrow> Some z
                  | None \<Rightarrow> (case read_timezone_file gl env SS_TIMEZONE_ID_CAPACITY of
                               Some z \<Rightarrow> Some z
                             | None \<Rightarrow> read_timezone_glib env SS_TIMEZONE_ID_CAPACITY))
      in (case zone of None \<Rightarrow> (False, cleared)
          | Some z \<Rightarrow>
              (let city = (case ss_regional_context_city_name (Some z) SS_TIMEZONE_CITY_CAPACITY of
                             Some c \<Rightarrow> c | None \<Rightarrow> []);
                   named = cleared\<lparr>timezone_id := z, timezone_city := city\<rparr>;
                   (found1, lat1, lon1) =
                     ss_regional_context_lookup_timezone_reference gl env
                       (Some ''/usr/share/zoneinfo/zone1970.tab'') (Some z) dzero dzero;
                   (found2, lat2, lon2) =
                     (if found1 then (True, lat1, lon1)
                      else ss_regional_context_lookup_timezone_reference gl env
                             (Some ''/usr/share/zoneinfo/zone.tab'') (Some z) lat1 lon1)
               in (True, named\<lparr>reference_latitude := lat2, reference_longitude := lon2,
                               has_reference_coordinates := found2\<rparr>))))"

section \<open>Range of the coordinates\<close>

lemma minutes_bound: "m < 60 \<Longrightarrow> \<exists>q. ddiv_nat (Fin (of_nat m)) 60 = Fin q \<and> 0 \<le> q \<and> q \<le> 1007 / 1024 \<and> (m = 0 \<longrightarrow> q = 0)"
proof -
  assume m: "m < 60"
  have up: "(of_nat m / 60 :: rat) \<le> 1007 / 1024" using m by simp
  have "(of_nat m / 60 :: rat) \<le> 2 ^ 1023" using up by (rule order_trans) simp
  then have e: "ddiv_nat (Fin (of_nat m)) 60 = Fin (round53 (of_nat m / 60))" by (simp add: round64_small)
  show ?thesis unfolding e using round53_mono[OF up] round53_1024[of 1007] round53_nonneg[of "of_nat m / 60"]
    by simp
qed

lemma seconds_bound: "s < 60 \<Longrightarrow> \<exists>q. ddiv_nat (Fin (of_nat s)) 3600 = Fin q \<and> 0 \<le> q \<and> q \<le> 17 / 1024 \<and> (s = 0 \<longrightarrow> q = 0)"
proof -
  assume m: "s < 60"
  have up: "(of_nat s / 3600 :: rat) \<le> 17 / 1024" using m by simp
  have "(of_nat s / 3600 :: rat) \<le> 2 ^ 1023" using up by (rule order_trans) simp
  then have e: "ddiv_nat (Fin (of_nat s)) 3600 = Fin (round53 (of_nat s / 3600))" by (simp add: round64_small)
  show ?thesis unfolding e using round53_mono[OF up] round53_1024[of 17] round53_nonneg[of "of_nat s / 3600"]
    by simp
qed

text \<open>Adding a fraction below \<open>k / 1024\<close> to a number below \<open>d + j / 1024\<close> keeps the sum below both.\<close>

lemma round_add_bound:
  assumes "0 \<le> x" "x \<le> of_nat d + of_nat j / 1024" "0 \<le> q" "q \<le> of_nat k / 1024"
    and "d \<le> 200" "j \<le> 1024" "k \<le> 1024"
  shows "\<exists>r. dadd (Fin x) (Fin q) = Fin r \<and> 0 \<le> r \<and> r \<le> of_nat d + of_nat (j + k) / 1024"
proof -
  let ?B = "of_nat d + of_nat (j + k) / 1024 :: rat"
  have B: "?B = of_int (int (1024 * d + j + k)) / 1024" by (simp add: field_simps)
  have le: "x + q \<le> ?B" using assms by (simp add: field_simps)
  have "?B \<le> 202" using assms by (simp add: field_simps)
  also have "\<dots> \<le> (2::rat) ^ 1023" by simp
  finally have small: "x + q \<le> 2 ^ 1023" using le by simp
  have rB: "round53 ?B = ?B" unfolding B by (rule round53_1024) (use assms in simp)
  have e: "dadd (Fin x) (Fin q) = Fin (round53 (x + q))" using small assms by (simp add: round64_small)
  show ?thesis unfolding e using round53_mono[OF le] rB round53_nonneg[of "x + q"] assms by auto
qed

lemma dms_bound:
  assumes "m < 60" "s < 60" "d < M \<or> (d = M \<and> m = 0 \<and> s = 0)" "M \<le> 200"
  shows "\<exists>r. dadd (dadd (Fin (of_nat d)) (ddiv_nat (Fin (of_nat m)) 60)) (ddiv_nat (Fin (of_nat s)) 3600) = Fin r
           \<and> 0 \<le> r \<and> r \<le> of_nat M"
proof -
  obtain q where q: "ddiv_nat (Fin (of_nat m)) 60 = Fin q" "0 \<le> q" "q \<le> 1007 / 1024" "m = 0 \<longrightarrow> q = 0"
    using minutes_bound[OF assms(1)] by auto
  obtain p where p: "ddiv_nat (Fin (of_nat s)) 3600 = Fin p" "0 \<le> p" "p \<le> 17 / 1024" "s = 0 \<longrightarrow> p = 0"
    using seconds_bound[OF assms(2)] by auto
  have rd: "dadd (Fin (of_nat d)) dzero = Fin (of_nat d)"
  proof -
    have "(of_nat d :: rat) \<le> 200" using assms by auto
    also have "\<dots> \<le> 2 ^ 1023" by simp
    finally have "round64 (of_nat d) = Fin (round53 (of_nat d))" by (simp add: round64_small)
    moreover have "d < 2 ^ 53" using assms by auto
    ultimately show ?thesis using round53_of_nat[of d] by simp
  qed
  from assms(3) show ?thesis
  proof
    assume dM: "d < M"
    obtain r where r: "dadd (Fin (of_nat d)) (Fin q) = Fin r" "0 \<le> r" "r \<le> of_nat d + of_nat (0 + 1007) / 1024"
      using round_add_bound[of "of_nat d" d 0 q 1007] q dM assms by auto
    obtain t where t: "dadd (Fin r) (Fin p) = Fin t" "0 \<le> t" "t \<le> of_nat d + of_nat (1007 + 17) / 1024"
      using round_add_bound[of r d 1007 p 17] r p dM assms by auto
    have "(of_nat d + 1 :: rat) \<le> of_nat M" using dM by (metis Suc_leI of_nat_Suc of_nat_le_iff add.commute)
    with q p r t show ?thesis by simp
  next
    assume "d = M \<and> m = 0 \<and> s = 0"
    with q p rd show ?thesis by simp
  qed
qed

lemma parse_component_range:
  assumes "parse_component text len dd M = Some v" "M \<le> 200"
  shows "\<exists>r. v = Fin r \<and> - of_nat M \<le> r \<and> r \<le> of_nat M"
proof -
  from assms(1) obtain sign d m s where sg: "sign = 1 \<or> sign = (- 1 :: int)" and ms: "m < 60" "s < 60"
    and d: "\<not> dlt (Fin (of_nat M)) (Fin (of_nat d))" "Fin (of_nat d) = Fin (of_nat M) \<longrightarrow> m = 0 \<and> s = 0"
    and v: "v = dms_value sign d m s"
  proof -
    let ?d = "degrees_from text 0 dd 0" and ?sign = "if char_at text 0 = CHR ''-'' then - 1 else 1 :: int"
    let ?m = "digit_value (char_at text (1 + dd)) * 10 + digit_value (char_at text (2 + dd))"
    let ?s = "if len = 1 + dd + 4 then digit_value (char_at text (3 + dd)) * 10 + digit_value (char_at text (4 + dd)) else 0"
    have "\<not> (60 \<le> ?m \<or> 60 \<le> ?s \<or> dlt (Fin (of_nat M)) (Fin (of_nat ?d)) \<or>
             (Fin (of_nat ?d) = Fin (of_nat M) \<and> (?m \<noteq> 0 \<or> ?s \<noteq> 0))) \<and> v = dms_value ?sign ?d ?m ?s"
      using assms(1) unfolding parse_component_def Let_def
      by (simp only: if_distrib[of "\<lambda>x. x = Some v"] option.distinct if_bool_eq_disj option.inject) metis
    then show thesis by (intro that[of ?sign ?m ?s ?d]) auto
  qed
  from d have "d < M \<or> (d = M \<and> m = 0 \<and> s = 0)" by auto
  from dms_bound[OF ms this assms(2)] obtain r where
    r: "dadd (dadd (Fin (of_nat d)) (ddiv_nat (Fin (of_nat m)) 60)) (ddiv_nat (Fin (of_nat s)) 3600) = Fin r"
       "0 \<le> r" "r \<le> of_nat M" by blast
  have "(of_nat M :: rat) \<le> 200" using assms(2) by (metis of_nat_le_iff of_nat_numeral)
  also have "\<dots> \<le> 2 ^ 1023" by simp
  finally have "\<bar>of_int sign * r\<bar> \<le> 2 ^ 1023" using r sg by auto
  then have v: "v = Fin (round53 (of_int sign * r))" unfolding v dms_value_def r(1) by (simp add: round64_small)
  have rM: "round53 r \<le> of_nat M" using round53_mono[OF r(3)] round53_of_nat[of M] assms(2) by simp
  have "0 \<le> round53 r" using r(2) by (rule round53_nonneg)
  then show ?thesis unfolding v using sg rM by (auto simp: round53_neg)
qed

lemma zone_coordinate_Fin:
  assumes "parse_zone_coordinate coordinate = Some (lat, lon)"
  shows "\<exists>a b. lat = Fin a \<and> lon = Fin b \<and> - 90 \<le> a \<and> a \<le> 90 \<and> - 180 \<le> b \<and> b \<le> 180"
proof -
  from assms obtain split where la: "parse_component coordinate split 2 90 = Some lat"
    and lo: "parse_component (drop split coordinate) (length coordinate - split) 3 180 = Some lon"
    by (auto simp: parse_zone_coordinate_def Let_def split: if_splits option.splits)
  obtain a where "lat = Fin a" "- of_nat 90 \<le> a" "a \<le> of_nat 90" using parse_component_range[OF la] by auto
  moreover obtain b where "lon = Fin b" "- of_nat 180 \<le> b" "b \<le> of_nat 180" using parse_component_range[OF lo] by auto
  ultimately show ?thesis by simp
qed

text \<open>
  A coordinate pair read from a zone table is a pair of finite numbers with the latitude in
  [-90, 90] and the longitude in [-180, 180], whatever the text, with the rounding of the division
  and of the additions taken into account.
\<close>

theorem zone_coordinate_range:
  assumes "parse_zone_coordinate coordinate = Some (lat, lon)"
  shows "dle (Fin (- 90)) lat \<and> dle lat (Fin 90) \<and> dle (Fin (- 180)) lon \<and> dle lon (Fin 180)"
proof -
  obtain a b where "lat = Fin a" "lon = Fin b" "- 90 \<le> a" "a \<le> 90" "- 180 \<le> b" "b \<le> 180"
    using zone_coordinate_Fin[OF assms] by blast
  then show ?thesis by simp
qed

theorem zone_coordinate_range_witness:
  "\<exists>lat lon. parse_zone_coordinate ''+1039-06131'' = Some (lat, lon) \<and>
     dle (Fin (- 90)) lat \<and> dle lat (Fin 90) \<and> dle (Fin (- 180)) lon \<and> dle lon (Fin 180)"
proof -
  have "parse_zone_coordinate ''+1039-06131'' \<noteq> None"
    by (simp add: parse_zone_coordinate_def parse_component_def is_digit_def digit_value_def
          char_at_def numeral_eq_Suc Let_def del: dadd.simps ddiv_nat.simps)
  then obtain c where h: "parse_zone_coordinate ''+1039-06131'' = Some (fst c, snd c)" by auto
  show ?thesis using h zone_coordinate_range[OF h] by blast
qed

section \<open>The catalogue\<close>

lemma utc_valid: "timezone_id_valid (Some ''Etc/UTC'')"
  by code_simp

lemma catalogue_lines_inv:
  assumes "set seen = set zones" "distinct zones" "\<forall>z \<in> set zones. timezone_id_valid (Some z)"
    and "catalogue_lines gl lines zones seen = (zs, sn)"
  shows "set sn = set zs \<and> distinct zs \<and> set zones \<subseteq> set zs \<and> (\<forall>z \<in> set zs. timezone_id_valid (Some z))"
  using assms
proof (induction lines arbitrary: zones seen)
  case Nil
  then show ?case by simp
next
  case (Cons line lines)
  show ?case
  proof (cases "line_fields gl line")
    case None
    with Cons.prems(4) have "catalogue_lines gl lines zones seen = (zs, sn)" by simp
    from Cons.IH[OF Cons.prems(1-3) this] show ?thesis .
  next
    case (Some f)
    obtain f0 f1 f2 where f: "f = (f0, f1, f2)" by (cases f) auto
    define zone where "zone = g_strchomp gl f2"
    show ?thesis
    proof (cases "\<not> timezone_id_valid (Some zone) \<or> zone \<in> set seen")
      case True
      with Some f zone_def Cons.prems have "catalogue_lines gl lines zones seen = (zs, sn)" by simp
      with Cons.IH[OF Cons.prems(1-3)] show ?thesis by simp
    next
      case False
      with Some f zone_def Cons.prems
      have "catalogue_lines gl lines (zones @ [zone]) (zone # seen) = (zs, sn)" by (simp add: Let_def)
      with False Cons.prems have "set sn = set zs \<and> distinct zs \<and> set (zones @ [zone]) \<subseteq> set zs \<and>
        (\<forall>z \<in> set zs. timezone_id_valid (Some z))"
        by (intro Cons.IH[of "zone # seen" "zones @ [zone]"]) auto
      then show ?thesis by auto
    qed
  qed
qed

definition catalogue_ok :: "string option \<Rightarrow> string list \<Rightarrow> bool" where
  "catalogue_ok current zones \<longleftrightarrow>
     sorted zones \<and> distinct zones \<and> ''Etc/UTC'' \<in> set zones \<and>
     (\<forall>z \<in> set zones. timezone_id_valid (Some z)) \<and>
     (\<forall>c. current = Some c \<longrightarrow> timezone_id_valid (Some c) \<longrightarrow> c \<in> set zones)"

lemma from_file_ok: "catalogue_ok current (ss_regional_context_list_timezones_from_file gl env path current)"
proof -
  let ?u = "[''Etc/UTC'']"
  obtain zs sn where p: "(case path of None \<Rightarrow> (?u, ?u)
         | Some path \<Rightarrow> (case file_contents env path of None \<Rightarrow> (?u, ?u)
              | Some contents \<Rightarrow> catalogue_lines gl (g_strsplit gl contents NL (- 1)) ?u ?u)) = (zs, sn)" (is "?p = _")
    by (cases ?p) auto
  have base: "set ?u = set ?u" "distinct ?u" "\<forall>z \<in> set ?u. timezone_id_valid (Some z)" using utc_valid by auto
  have inv: "set sn = set zs \<and> distinct zs \<and> set ?u \<subseteq> set zs \<and> (\<forall>z \<in> set zs. timezone_id_valid (Some z))"
    using p catalogue_lines_inv[OF base] base by (auto split: option.splits)
  show ?thesis
    unfolding ss_regional_context_list_timezones_from_file_def p Let_def prod.case catalogue_ok_def
    using inv by (auto split: option.splits)
qed

text \<open>
  The time-zone catalogue offered to the user is sorted, free of duplicates and made of valid
  identifiers only, always has UTC, and always has the current zone of the system when that is a
  valid identifier, for every content of the zone tables, missing and malformed ones included.
\<close>

theorem timezone_catalogue_ok:
  "catalogue_ok current (ss_regional_context_list_timezones gl env current)"
proof -
  define zs where "zs = ss_regional_context_list_timezones_from_file gl env (Some ''/usr/share/zoneinfo/zone.tab'') None"
  have zs: "catalogue_ok None zs" unfolding zs_def by (rule from_file_ok)
  show ?thesis
  proof (cases "length zs = 1")
    case True
    then show ?thesis using from_file_ok
      by (simp add: ss_regional_context_list_timezones_def zs_def[symmetric])
  next
    case False
    with zs show ?thesis
      by (auto simp: ss_regional_context_list_timezones_def zs_def[symmetric] catalogue_ok_def split: option.splits)
  qed
qed

section \<open>The nearest zone\<close>

lemma zone_score_Fin:
  assumes "\<bar>a\<bar> \<le> 90" "\<bar>b\<bar> \<le> 180" "\<bar>c\<bar> \<le> 90" "\<bar>d\<bar> \<le> 180"
  shows "\<exists>r. zone_score (Fin a) (Fin b) (Fin c) (Fin d) = Fin r"
proof -
  obtain x where x: "dsub (Fin a) (Fin c) = Fin x" "\<bar>x\<bar> \<le> of_nat 180" using dsub_small[of a c 180] assms by force
  obtain y where y: "dsub (Fin b) (Fin d) = Fin y" "\<bar>y\<bar> \<le> of_nat 360" using dsub_small[of b d 360] assms by force
  obtain w where w: "dsub (Fin 360) (Fin \<bar>y\<bar>) = Fin w" "\<bar>w\<bar> \<le> of_nat 360" using dsub_small[of 360 "\<bar>y\<bar>" 360] y by force
  have "\<exists>l. longitude_distance (Fin b) (Fin d) = Fin l \<and> \<bar>l\<bar> \<le> 360"
    using y w by (auto simp: longitude_distance_def Let_def abs_if split: if_splits)
  then obtain l where l: "longitude_distance (Fin b) (Fin d) = Fin l" "\<bar>l\<bar> \<le> 360" by auto
  obtain r where "dadd (Fin \<bar>x\<bar>) (Fin l) = Fin r" using dadd_small[of "\<bar>x\<bar>" l 540] x l by force
  then show ?thesis using x l by (auto simp: zone_score_def Let_def abs_if split: if_splits)
qed

lemma candidate_props:
  assumes "candidate gl cc (Fin c) (Fin d) line = Some (s, z)" "\<bar>c\<bar> \<le> 90" "\<bar>d\<bar> \<le> 180"
  shows "(\<exists>r. s = Fin r) \<and> timezone_id_valid (Some z)"
proof -
  from assms(1) obtain f1 x y where f: "parse_zone_coordinate f1 = Some (x, y)"
    and s: "s = zone_score x y (Fin c) (Fin d)" and v: "timezone_id_valid (Some z)"
    by (auto simp: candidate_def split: option.splits if_splits prod.splits)
  from zone_coordinate_Fin[OF f] obtain a b where "x = Fin a" "y = Fin b" "\<bar>a\<bar> \<le> 90" "\<bar>b\<bar> \<le> 180" by fastforce
  with zone_score_Fin[of a b c d] assms s v show ?thesis by auto
qed

lemma nearest_lines_min:
  assumes "\<forall>line s z. candidate gl cc lat lon line = Some (s, z) \<longrightarrow> (\<exists>r. s = Fin r)"
    and "\<forall>s z. best = Some (s, z) \<longrightarrow> (\<exists>r. s = Fin r)"
    and "nearest_lines gl cc lat lon capacity lines best = Some (s, z)"
  shows "(best = Some (s, z) \<or> (length z < capacity \<and> (\<exists>line \<in> set lines. candidate gl cc lat lon line = Some (s, z)))) \<and>
         (\<forall>b. best = Some b \<longrightarrow> dle s (fst b)) \<and>
         (\<forall>line \<in> set lines. \<forall>s' z'. candidate gl cc lat lon line = Some (s', z') \<longrightarrow> dle s s')"
  using assms(2,3)
proof (induction lines arbitrary: best)
  case Nil
  then show ?case by fastforce
next
  case (Cons line lines)
  show ?case
  proof (cases "candidate gl cc lat lon line")
    case None
    with Cons.prems(2) have "nearest_lines gl cc lat lon capacity lines best = Some (s, z)" by simp
    from Cons.IH[OF Cons.prems(1) this] None show ?thesis by auto
  next
    case (Some c)
    obtain s1 z1 where c: "c = (s1, z1)" by (cases c) auto
    obtain r1 where r1: "s1 = Fin r1" using assms(1) Some c by blast
    let ?better = "case best of None \<Rightarrow> True | Some (b, _) \<Rightarrow> dlt s1 b"
    show ?thesis
    proof (cases ?better)
      case True
      with Cons.prems(2) Some c have fits: "length z1 < capacity"
        and n: "nearest_lines gl cc lat lon capacity lines (Some (s1, z1)) = Some (s, z)"
        by (auto simp: strlcpy_def split: if_splits)
      have IH: "(Some (s1, z1) = Some (s, z) \<or> (length z < capacity \<and> (\<exists>line \<in> set lines. candidate gl cc lat lon line = Some (s, z)))) \<and>
         (\<forall>b. Some (s1, z1) = Some b \<longrightarrow> dle s (fst b)) \<and>
         (\<forall>line \<in> set lines. \<forall>s' z'. candidate gl cc lat lon line = Some (s', z') \<longrightarrow> dle s s')"
        by (rule Cons.IH[OF _ n]) (use r1 in auto)
      then have sr: "dle s s1" by auto
      have "dle s b" if "best = Some (b, w)" for b w
        using that True sr r1 by (cases s; cases b) auto
      then have B: "\<forall>b. best = Some b \<longrightarrow> dle s (fst b)" by auto
      have A: "length z < capacity \<and> (\<exists>l \<in> set (line # lines). candidate gl cc lat lon l = Some (s, z))"
        using IH Some c fits by auto
      have "\<forall>l \<in> set (line # lines). \<forall>s' z'. candidate gl cc lat lon l = Some (s', z') \<longrightarrow> dle s s'"
        using IH Some c sr by auto
      with A B show ?thesis by blast
    next
      case False
      then obtain b w where b: "best = Some (b, w)" by (auto split: option.splits)
      with Cons.prems(1) obtain rb where rb: "b = Fin rb" by blast
      from False Cons.prems(2) Some c have "nearest_lines gl cc lat lon capacity lines best = Some (s, z)" by simp
      note IH = Cons.IH[OF Cons.prems(1) this]
      then have "dle s b" using b by auto
      then have "dle s s1" using False b rb r1 by (cases s) auto
      with IH Some c show ?thesis by auto
    qed
  qed
qed

text \<open>
  The suggested time zone is the zone of a row of a zone table that names the country, its
  identifier is valid and fits the buffer, and no row for the country of that table has a smaller
  distance score, for every table content and every place the search accepts.
\<close>

theorem nearest_timezone_minimal:
  assumes "ss_regional_context_nearest_timezone gl env (Some cc) lat lon capacity = Some zone"
  shows "timezone_id_valid (Some zone) \<and> length zone < capacity \<and>
    (\<exists>path contents line score.
       path \<in> {''/usr/share/zoneinfo/zone1970.tab'', ''/usr/share/zoneinfo/zone.tab''} \<and>
       file_contents env path = Some contents \<and>
       line \<in> set (g_strsplit gl contents NL (- 1)) \<and>
       candidate gl cc lat lon line = Some (score, zone) \<and>
       (\<forall>other \<in> set (g_strsplit gl contents NL (- 1)). \<forall>s z.
          candidate gl cc lat lon other = Some (s, z) \<longrightarrow> dle score s))"
proof -
  from assms have g: "isfinite lat" "isfinite lon" "\<not> dlt lat (Fin (- 90))" "\<not> dlt (Fin 90) lat"
      "\<not> dlt lon (Fin (- 180))" "\<not> dlt (Fin 180) lon"
    and "\<exists>path \<in> {''/usr/share/zoneinfo/zone1970.tab'', ''/usr/share/zoneinfo/zone.tab''}.
           nearest_timezone_in_file gl env path cc lat lon capacity = Some zone"
    by (auto simp: ss_regional_context_nearest_timezone_def split: if_splits option.splits)
  then obtain path where path: "path \<in> {''/usr/share/zoneinfo/zone1970.tab'', ''/usr/share/zoneinfo/zone.tab''}"
    and n: "nearest_timezone_in_file gl env path cc lat lon capacity = Some zone" by blast
  obtain c d where cd: "lat = Fin c" "lon = Fin d" "\<bar>c\<bar> \<le> 90" "\<bar>d\<bar> \<le> 180"
    using g by (auto simp: isfinite_iff)
  from n obtain contents score where ct: "file_contents env path = Some contents"
    and nl: "nearest_lines gl cc lat lon capacity (g_strsplit gl contents NL (- 1)) None = Some (score, zone)"
    by (auto simp: nearest_timezone_in_file_def split: if_splits option.splits)
  have fin: "\<forall>line s z. candidate gl cc lat lon line = Some (s, z) \<longrightarrow> (\<exists>r. s = Fin r)"
    using candidate_props[of gl cc c d] cd by blast
  have "\<forall>s z. None = Some (s :: double, z :: string) \<longrightarrow> (\<exists>r. s = Fin r)" by simp
  from nearest_lines_min[OF fin this nl] obtain line where
    m: "length zone < capacity" "line \<in> set (g_strsplit gl contents NL (- 1))"
       "candidate gl cc lat lon line = Some (score, zone)"
       "\<forall>other \<in> set (g_strsplit gl contents NL (- 1)). \<forall>s z. candidate gl cc lat lon other = Some (s, z) \<longrightarrow> dle score s"
    by blast
  have "timezone_id_valid (Some zone)" using candidate_props[of gl cc c d line score zone] m(3) cd by simp
  with m path ct show ?thesis by blast
qed

section \<open>An instance\<close>

definition sample_region :: regional_env where
  "sample_region = \<lparr>
     file_contents = (\<lambda>p. if p = ''/usr/share/zoneinfo/zone.tab''
                          then Some (''TT'' @ TAB @ ''+1039-06131'' @ TAB @ ''America/Port_of_Spain'') else None),
     file_link = (\<lambda>_. None),
     local_zone_identifier = Some ''America/Port_of_Spain''\<rparr>"

lemma sample_row_lines:
  "g_strsplit sample_glib (''TT'' @ TAB @ ''+1039-06131'' @ TAB @ ''America/Port_of_Spain'') NL (- 1) =
     [''TT'' @ TAB @ ''+1039-06131'' @ TAB @ ''America/Port_of_Spain'']"
  by code_simp

lemma sample_row_fields:
  "line_fields sample_glib (''TT'' @ TAB @ ''+1039-06131'' @ TAB @ ''America/Port_of_Spain'') =
     Some (''TT'', ''+1039-06131'', ''America/Port_of_Spain'')"
  by code_simp

lemma sample_country: "country_field_matches sample_glib ''TT'' ''TT''"
  by code_simp

lemma sample_chomp: "g_strchomp sample_glib ''America/Port_of_Spain'' = ''America/Port_of_Spain''"
  by code_simp

lemma sample_zone_valid: "timezone_id_valid (Some ''America/Port_of_Spain'')"
  by code_simp

lemma sample_coordinate:
  "parse_zone_coordinate ''+1039-06131'' = Some (dms_value 1 10 39 0, dms_value (- 1) 61 31 0)"
  by (simp add: parse_zone_coordinate_def parse_component_def is_digit_def digit_value_def
        char_at_def numeral_eq_Suc Let_def)

lemmas sample_row = sample_row_lines[simplified] sample_row_fields[simplified] sample_country
  sample_chomp sample_zone_valid sample_coordinate

lemma sample_nearest:
  "ss_regional_context_nearest_timezone sample_glib sample_region (Some ''TT'') (Fin 10) (Fin (- 61)) 128 =
     Some ''America/Port_of_Spain''"
  by (simp add: ss_regional_context_nearest_timezone_def nearest_timezone_in_file_def sample_region_def
        candidate_def sample_row strlcpy_def)

theorem nearest_timezone_minimal_witness:
  "timezone_id_valid (Some ''America/Port_of_Spain'') \<and> length ''America/Port_of_Spain'' < 128 \<and>
    (\<exists>path contents line score.
       path \<in> {''/usr/share/zoneinfo/zone1970.tab'', ''/usr/share/zoneinfo/zone.tab''} \<and>
       file_contents sample_region path = Some contents \<and>
       line \<in> set (g_strsplit sample_glib contents NL (- 1)) \<and>
       candidate sample_glib ''TT'' (Fin 10) (Fin (- 61)) line = Some (score, ''America/Port_of_Spain'') \<and>
       (\<forall>other \<in> set (g_strsplit sample_glib contents NL (- 1)). \<forall>s z.
          candidate sample_glib ''TT'' (Fin 10) (Fin (- 61)) other = Some (s, z) \<longrightarrow> dle score s))"
  by (rule nearest_timezone_minimal[OF sample_nearest])

section \<open>The detected context\<close>

lemma copy_timezone_id_Some:
  "copy_timezone_id capacity value = Some z \<Longrightarrow> value = Some z \<and> timezone_id_valid (Some z) \<and> length z < capacity"
  by (auto simp: copy_timezone_id_def strlcpy_def split: if_splits option.splits)

text \<open>
  Whatever the tables hold, the structure keeps numbers in the geographic range: also a latitude that
  was written before its row was refused is one.
\<close>

definition in_range :: "double \<Rightarrow> double \<Rightarrow> bool" where
  "in_range lat lon \<longleftrightarrow>
     dle (Fin (- 90)) lat \<and> dle lat (Fin 90) \<and> dle (Fin (- 180)) lon \<and> dle lon (Fin 180)"

lemma written_latitude_range:
  assumes "in_range lat lon" shows "in_range (written_latitude c lat) lon"
proof (cases "parse_component c (find_split (drop 1 c) 1) 2 90")
  case None
  with assms show ?thesis by (simp add: written_latitude_def Let_def)
next
  case (Some v)
  obtain r where "v = Fin r" "- of_nat 90 \<le> r" "r \<le> of_nat 90" using parse_component_range[OF Some] by auto
  with assms Some show ?thesis by (simp add: written_latitude_def in_range_def Let_def)
qed

lemma lookup_lines_range:
  "lookup_lines gl zone lines lat lon = (found, lat', lon') \<Longrightarrow> in_range lat lon \<Longrightarrow> in_range lat' lon'"
proof (induction lines arbitrary: lat lon)
  case Nil
  then show ?case by simp
next
  case (Cons line lines)
  show ?case
  proof (cases "line_fields gl line")
    case None
    with Cons show ?thesis by simp
  next
    case (Some f)
    obtain f0 f1 f2 where f: "f = (f0, f1, f2)" by (cases f) auto
    show ?thesis
    proof (cases "g_strchomp gl f2 = zone")
      case False
      with Cons Some f show ?thesis by simp
    next
      case True
      show ?thesis
      proof (cases "parse_zone_coordinate f1")
        case None
        with True Cons.prems(1) Some f
        have "lookup_lines gl zone lines (written_latitude f1 lat) lon = (found, lat', lon')" by simp
        from Cons.IH[OF this written_latitude_range[OF Cons.prems(2)]] show ?thesis .
      next
        case p: (Some ab)
        obtain a b where ab: "ab = (a, b)" by (cases ab) auto
        with p True Cons.prems(1) Some f have "lat' = a" "lon' = b" by auto
        then show ?thesis using zone_coordinate_Fin[of f1 a b] p ab by (auto simp: in_range_def abs_le_iff)
      qed
    qed
  qed
qed

lemma lookup_in_range:
  "ss_regional_context_lookup_timezone_reference gl env path zone lat lon = (found, lat', lon') \<Longrightarrow>
     in_range lat lon \<Longrightarrow> in_range lat' lon'"
  by (auto simp: ss_regional_context_lookup_timezone_reference_def
        dest!: lookup_lines_range split: option.splits if_splits)

lemma city_name_length:
  "ss_regional_context_city_name zone capacity = Some c \<Longrightarrow> c \<noteq> [] \<and> length c < capacity \<and> CHR ''_'' \<notin> set c"
  by (auto simp: ss_regional_context_city_name_def Let_def split: option.splits if_splits)

text \<open>What a caller may rely on in the structure the detection fills.\<close>

definition regional_context_ok :: "bool \<Rightarrow> regional_context \<Rightarrow> bool" where
  "regional_context_ok detected c \<longleftrightarrow>
     (if detected then timezone_id_valid (Some (timezone_id c)) else timezone_id c = []) \<and>
     length (timezone_id c) < SS_TIMEZONE_ID_CAPACITY \<and>
     length (timezone_city c) < SS_TIMEZONE_CITY_CAPACITY \<and>
     in_range (reference_latitude c) (reference_longitude c) \<and>
     (has_reference_coordinates c \<longrightarrow> detected) \<and>
     (\<not> detected \<longrightarrow> reference_latitude c = dzero \<and> reference_longitude c = dzero \<and> timezone_city c = [])"

text \<open>
  The detection fills the structure so that its identifier is valid exactly when it succeeds and
  fits its buffer, the city fits its own, coordinates are offered only for a detected zone and lie
  in the geographic range, and everything is cleared when it fails, whatever the files contain.
\<close>

theorem detected_context_ok:
  "regional_context_ok (fst (ss_regional_context_detect gl env)) (snd (ss_regional_context_detect gl env))"
proof -
  define zone where "zone = (case read_timezone_localtime_link gl env SS_TIMEZONE_ID_CAPACITY of
      Some z \<Rightarrow> Some z
    | None \<Rightarrow> (case read_timezone_file gl env SS_TIMEZONE_ID_CAPACITY of
                 Some z \<Rightarrow> Some z | None \<Rightarrow> read_timezone_glib env SS_TIMEZONE_ID_CAPACITY))"
  have valid: "timezone_id_valid (Some z) \<and> length z < SS_TIMEZONE_ID_CAPACITY" if "zone = Some z" for z
    using that unfolding zone_def read_timezone_localtime_link_def read_timezone_file_def read_timezone_glib_def
    by (auto split: option.splits if_splits dest: copy_timezone_id_Some)
  have city: "length c < SS_TIMEZONE_CITY_CAPACITY"
    if "ss_regional_context_city_name (Some z) SS_TIMEZONE_CITY_CAPACITY = Some c" for z c
    using city_name_length[OF that] by simp
  have caps: "0 < SS_TIMEZONE_ID_CAPACITY" "0 < SS_TIMEZONE_CITY_CAPACITY"
    by (simp_all add: SS_TIMEZONE_ID_CAPACITY_def SS_TIMEZONE_CITY_CAPACITY_def)
  have zero: "in_range dzero dzero" by (simp add: in_range_def)
  show ?thesis
  proof (cases zone)
    case None
    then show ?thesis using caps zero
      unfolding ss_regional_context_detect_def Let_def zone_def[symmetric] regional_context_ok_def by simp
  next
    case (Some z)
    obtain f1 a1 b1 where l1: "ss_regional_context_lookup_timezone_reference gl env
        (Some ''/usr/share/zoneinfo/zone1970.tab'') (Some z) dzero dzero = (f1, a1, b1)" by (metis prod.collapse)
    obtain f2 a2 b2 where l2: "ss_regional_context_lookup_timezone_reference gl env
        (Some ''/usr/share/zoneinfo/zone.tab'') (Some z) a1 b1 = (f2, a2, b2)" by (metis prod.collapse)
    have "in_range a1 b1" "in_range a2 b2" using lookup_in_range[OF l1 zero] lookup_in_range[OF l2] by auto
    then show ?thesis using valid[OF Some] city[of z] caps l1 l2
      unfolding ss_regional_context_detect_def Let_def zone_def[symmetric] regional_context_ok_def Some
      by (cases f1) (auto split: option.splits)
  qed
qed

end
