(* ===== verification/PolicyStore.thy ===== *)
theory PolicyStore
  imports Common
begin

text \<open>
  The platform persistence interface of \<open>temporal-policy-store.h\<close>: the table of operations the model
  is given, with \<open>None\<close> for a null function pointer, over the type \<open>'w\<close> of everything outside the
  process's own variables. The locale states what the header promises of an implementation.
\<close>

record 'w store =
  st_load :: "('w \<Rightarrow> (policy \<times> bool) option \<times> 'w) option"
  st_save :: "(policy \<Rightarrow> 'w \<Rightarrow> bool \<times> 'w) option"
  st_clear :: "('w \<Rightarrow> bool \<times> 'w) option"
  st_begin_update :: "('w \<Rightarrow> bool \<times> 'w) option"
  st_end_update :: "('w \<Rightarrow> 'w) option"
  st_compatibility_matches :: "(policy \<Rightarrow> 'w \<Rightarrow> bool \<times> 'w) option"

section \<open>The contract\<close>

text \<open>
  \<open>view w\<close> is the explicit policy a reader of \<open>w\<close> finds (\<open>None\<close> when there is none or it is not a
  policy), \<open>locked w\<close> says that this process owns the update lock, \<open>fmt w p\<close> is what the document
  format keeps of \<open>p\<close>, and \<open>later w w'\<close> that \<open>w'\<close> can follow \<open>w\<close>. A failed write may have published
  its document or not; another process may publish one whenever the lock is not owned.
\<close>

locale policy_store =
  fixes ld :: "'w \<Rightarrow> (policy \<times> bool) option \<times> 'w"
    and sv :: "policy \<Rightarrow> 'w \<Rightarrow> bool \<times> 'w"
    and cl :: "'w \<Rightarrow> bool \<times> 'w"
    and bg :: "'w \<Rightarrow> bool \<times> 'w"
    and en :: "'w \<Rightarrow> 'w"
    and ok :: "'w \<Rightarrow> bool"
    and locked :: "'w \<Rightarrow> bool"
    and view :: "'w \<Rightarrow> policy option"
    and fmt :: "'w \<Rightarrow> policy \<Rightarrow> policy"
    and later :: "'w \<Rightarrow> 'w \<Rightarrow> bool"
  assumes later_refl: "later w w"
    and later_trans: "later u v \<Longrightarrow> later v w \<Longrightarrow> later u w"
    and later_ok: "later w w' \<Longrightarrow> ok w \<Longrightarrow> ok w'"
    and later_fmt: "later w w' \<Longrightarrow> fmt w' = fmt w"
    and load_law: "ok w \<Longrightarrow> ld w = (r, w') \<Longrightarrow>
          later w w' \<and> locked w' = locked w \<and> (locked w \<longrightarrow> view w' = view w) \<and>
          (\<forall>p f. r = Some (p, f) \<longrightarrow> (if f then view w' = Some p \<and> fmt w' p = p else view w' = None))"
    and save_law: "ok w \<Longrightarrow> sv p w = (b, w') \<Longrightarrow>
          later w w' \<and> locked w' = locked w \<and>
          (locked w \<longrightarrow> (if b then view w' = Some (fmt w p) else view w' = view w \<or> view w' = Some (fmt w p)))"
    and clear_law: "ok w \<Longrightarrow> cl w = (b, w') \<Longrightarrow>
          later w w' \<and> locked w' = locked w \<and>
          (locked w \<longrightarrow> (if b then view w' = None else view w' = view w \<or> view w' = None))"
    and begin_law: "ok w \<Longrightarrow> bg w = (b, w') \<Longrightarrow>
          later w w' \<and> (if b then \<not> locked w \<and> locked w' else locked w' = locked w) \<and>
          (locked w \<longrightarrow> view w' = view w)"
    and end_law: "ok w \<Longrightarrow> later w (en w) \<and> \<not> locked (en w) \<and> view (en w) = view w"
begin

lemma load_locked:
  "ok w \<Longrightarrow> locked w \<Longrightarrow> ld w = (Some (p, f), w') \<Longrightarrow>
     ok w' \<and> locked w' \<and> view w' = view w \<and> view w = (if f then Some p else None) \<and> (f \<longrightarrow> fmt w p = p)"
  using load_law[of w "Some (p, f)" w'] later_ok later_fmt by (auto split: if_splits)

lemma save_locked:
  "ok w \<Longrightarrow> locked w \<Longrightarrow> sv p w = (True, w') \<Longrightarrow> ok w' \<and> locked w' \<and> view w' = Some (fmt w p)"
  using save_law[of w p True w'] later_ok by auto

end

end
