(* ===== verification/DateTimeModel.thy ===== *)
theory DateTimeModel
  imports PolicyStore
begin

text \<open>
  \<open>date-time-model.c\<close>: the policy in memory, its publication through the store and the reversible
  location update. A model pointer is \<open>'w ss_model option\<close>, \<open>None\<close> for null; an operation returns the
  model it was given in its new state, and the new outside state.
\<close>

section \<open>State\<close>

record 'w model_private =
  mp_policy :: policy
  mp_store :: "'w store option"
  persisted_policy_present :: bool
  saving :: bool

text \<open>A model is known by its address, which the token of a location update records.\<close>

record 'w ss_model =
  address :: nat
  private_state :: "'w model_private option"

record location_update =
  update_model :: "nat option"
  previous_policy :: policy
  previous_persisted_policy_present :: bool
  active :: bool

record policy_draft =
  draft_policy :: policy

definition model_private :: "'w ss_model option \<Rightarrow> 'w model_private option" where
  "model_private model = (case model of Some m \<Rightarrow> private_state m | None \<Rightarrow> None)"

definition the_default :: "'a \<Rightarrow> 'a option \<Rightarrow> 'a" where
  "the_default d x = (case x of None \<Rightarrow> d | Some v \<Rightarrow> v)"

definition put_private :: "'w ss_model option \<Rightarrow> 'w model_private option \<Rightarrow> 'w ss_model option" where
  "put_private model p = map_option (\<lambda>m. m\<lparr>private_state := p\<rparr>) model"

section \<open>Validation and assignment\<close>

definition valid_clock_mode :: "common \<Rightarrow> string option \<Rightarrow> clock_mode_info option" where
  "valid_clock_mode cm requested = (case requested of Some s \<Rightarrow> clock_mode_find cm s | None \<Rightarrow> None)"

definition valid_calendar :: "common \<Rightarrow> string option \<Rightarrow> bool" where
  "valid_calendar cm calendar_id = temporal_id_valid cm calendar_id"

definition valid_location :: "double \<Rightarrow> double \<Rightarrow> bool" where
  "valid_location lat lon \<longleftrightarrow>
     isfinite lat \<and> isfinite lon \<and>
     dle (Fin (- 90)) lat \<and> dle lat (Fin 90) \<and> dle (Fin (- 180)) lon \<and> dle lon (Fin 180)"

definition assign_clock_mode :: "common \<Rightarrow> policy \<Rightarrow> clock_mode_info \<Rightarrow> policy" where
  "assign_clock_mode cm p info = p\<lparr>clock_mode := copy_string cm (sizeof_clock_mode cm) (mode_id info)\<rparr>"

definition assign_calendar :: "common \<Rightarrow> policy \<Rightarrow> string \<Rightarrow> policy" where
  "assign_calendar cm p calendar_id = p\<lparr>calendar := copy_string cm (sizeof_calendar cm) calendar_id\<rparr>"

definition assign_location :: "policy \<Rightarrow> bool \<Rightarrow> double \<Rightarrow> double \<Rightarrow> policy" where
  "assign_location p configured lat lon =
     p\<lparr>location_configured := configured, latitude := lat, longitude := lon\<rparr>"

section \<open>The update lock and the candidate\<close>

definition release_update_lock :: "'w model_private \<Rightarrow> 'w \<Rightarrow> 'w model_private \<times> 'w" where
  "release_update_lock p w =
     (if \<not> saving p then (p, w)
      else (p\<lparr>saving := False\<rparr>,
            case mp_store p of
              None \<Rightarrow> w
            | Some s \<Rightarrow> (case st_begin_update s of None \<Rightarrow> w
                        | Some _ \<Rightarrow> (case st_end_update s of None \<Rightarrow> w | Some en \<Rightarrow> en w))))"

definition begin_candidate ::
  "'w ss_model option \<Rightarrow> 'w \<Rightarrow> (policy \<times> bool) option \<times> 'w ss_model option \<times> 'w" where
  "begin_candidate model w =
     (case model_private model of
        None \<Rightarrow> (None, model, w)
      | Some p \<Rightarrow>
          (case mp_store p of
             None \<Rightarrow> (None, model, w)
           | Some s \<Rightarrow>
               if st_save s = None \<or> saving p then (None, model, w)
               else
                 (let p1 = p\<lparr>saving := True\<rparr> in
                  case st_begin_update s of
                    None \<Rightarrow> (Some (mp_policy p, persisted_policy_present p), put_private model (Some p1), w)
                  | Some bg \<Rightarrow>
                      (case bg w of
                         (False, w1) \<Rightarrow> (None, put_private model (Some (p1\<lparr>saving := False\<rparr>)), w1)
                       | (True, w1) \<Rightarrow>
                           (case st_load s of
                              None \<Rightarrow> (let (p2, w2) = release_update_lock p1 w1
                                       in (None, put_private model (Some p2), w2))
                            | Some ld \<Rightarrow>
                                (case ld w1 of
                                   (None, w2) \<Rightarrow> (let (p2, w3) = release_update_lock p1 w2
                                                  in (None, put_private model (Some p2), w3))
                                 | (Some (candidate, found), w2) \<Rightarrow>
                                     (Some (candidate, found), put_private model (Some p1), w2)))))))"

definition save_candidate ::
  "'w ss_model option \<Rightarrow> policy \<Rightarrow> 'w \<Rightarrow> bool \<times> 'w ss_model option \<times> 'w" where
  "save_candidate model candidate w =
     (case model_private model of
        None \<Rightarrow> (False, model, w)
      | Some p \<Rightarrow>
          (case mp_store p of
             None \<Rightarrow> (False, model, w)
           | Some s \<Rightarrow>
               (case st_save s of
                  None \<Rightarrow> (False, model, w)
                | Some sv \<Rightarrow>
                    if \<not> saving p then (False, model, w)
                    else
                      (let (saved, w1) = sv candidate w;
                           (p2, w2) = release_update_lock p w1
                       in if \<not> saved then (False, put_private model (Some p2), w2)
                          else (True,
                                put_private model
                                  (Some (p2\<lparr>mp_policy := candidate, persisted_policy_present := True\<rparr>)),
                                w2)))))"

section \<open>Lifetime\<close>

definition ss_date_time_model_reload :: "common \<Rightarrow> 'w ss_model option \<Rightarrow> 'w \<Rightarrow> bool \<times> 'w ss_model option \<times> 'w" where
  "ss_date_time_model_reload cm model w =
     (case model_private model of
        None \<Rightarrow> (False, model, w)
      | Some p \<Rightarrow>
          (case mp_store p of
             None \<Rightarrow> (False, model, w)
           | Some s \<Rightarrow>
               (case st_load s of
                  None \<Rightarrow> (False, model, w)
                | Some ld \<Rightarrow>
                    if saving p \<or> policy_v3_default cm = None then (False, model, w)
                    else (case ld w of
                            (None, w1) \<Rightarrow> (False, model, w1)
                          | (Some (loaded, found), w1) \<Rightarrow>
                              (True,
                               put_private model
                                 (Some (p\<lparr>mp_policy := loaded, persisted_policy_present := found\<rparr>)),
                               w1)))))"

definition ss_date_time_model_clear :: "'w ss_model option \<Rightarrow> 'w \<Rightarrow> 'w ss_model option \<times> 'w" where
  "ss_date_time_model_clear model w =
     (case model of
        None \<Rightarrow> (None, w)
      | Some m \<Rightarrow>
          (let w1 = (case private_state m of None \<Rightarrow> w | Some p \<Rightarrow> snd (release_update_lock p w))
           in (put_private model None, w1)))"

text \<open>\<open>allocated\<close> is whether \<open>calloc\<close> returns memory.\<close>

definition ss_date_time_model_init ::
  "common \<Rightarrow> bool \<Rightarrow> 'w ss_model option \<Rightarrow> 'w store option \<Rightarrow> 'w \<Rightarrow> bool \<times> 'w ss_model option \<times> 'w" where
  "ss_date_time_model_init cm allocated model store w =
     (case model of
        None \<Rightarrow> (False, model, w)
      | Some m \<Rightarrow>
          if private_state m \<noteq> None then (False, model, w)
          else
            (case store of
               None \<Rightarrow> (False, model, w)
             | Some s \<Rightarrow>
                 if st_load s = None \<or> st_save s = None \<or>
                    (st_begin_update s = None) \<noteq> (st_end_update s = None) then (False, model, w)
                 else if \<not> allocated then (False, model, w)
                 else
                   (case policy_v3_default cm of
                      None \<Rightarrow> (False, model, w)
                    | Some d \<Rightarrow>
                        (let model1 = put_private model
                               (Some \<lparr>mp_policy = d, mp_store = Some s,
                                      persisted_policy_present = False, saving = False\<rparr>);
                             (loaded, model2, w1) = ss_date_time_model_reload cm model1 w
                         in if \<not> loaded
                            then (let (model3, w2) = ss_date_time_model_clear model2 w1 in (False, model3, w2))
                            else (True, model2, w1)))))"

section \<open>Reading\<close>

definition ss_date_time_model_policy :: "'w ss_model option \<Rightarrow> policy option" where
  "ss_date_time_model_policy model = map_option mp_policy (model_private model)"

definition ss_date_time_model_has_persisted_policy :: "'w ss_model option \<Rightarrow> bool" where
  "ss_date_time_model_has_persisted_policy model =
     (case model_private model of None \<Rightarrow> False | Some p \<Rightarrow> persisted_policy_present p)"

definition ss_date_time_model_is_saving :: "'w ss_model option \<Rightarrow> bool" where
  "ss_date_time_model_is_saving model =
     (case model_private model of None \<Rightarrow> False | Some p \<Rightarrow> saving p)"

section \<open>Setters\<close>

definition ss_date_time_model_normalize_unpersisted_clock_mode ::
  "common \<Rightarrow> 'w ss_model option \<Rightarrow> string option \<Rightarrow> bool \<times> 'w ss_model option" where
  "ss_date_time_model_normalize_unpersisted_clock_mode cm model requested =
     (case model_private model of
        None \<Rightarrow> (False, model)
      | Some p \<Rightarrow>
          (case valid_clock_mode cm requested of
             None \<Rightarrow> (False, model)
           | Some info \<Rightarrow>
               if saving p \<or> persisted_policy_present p then (False, model)
               else (True, put_private model (Some (p\<lparr>mp_policy := assign_clock_mode cm (mp_policy p) info\<rparr>)))))"

definition ss_date_time_model_set_clock_mode ::
  "common \<Rightarrow> 'w ss_model option \<Rightarrow> string option \<Rightarrow> 'w \<Rightarrow> bool \<times> 'w ss_model option \<times> 'w" where
  "ss_date_time_model_set_clock_mode cm model requested w =
     (case valid_clock_mode cm requested of
        None \<Rightarrow> (False, model, w)
      | Some info \<Rightarrow>
          if model = None then (False, model, w)
          else (case begin_candidate model w of
                  (None, model1, w1) \<Rightarrow> (False, model1, w1)
                | (Some (candidate, _), model1, w1) \<Rightarrow>
                    save_candidate model1 (assign_clock_mode cm candidate info) w1))"

definition ss_date_time_model_set_calendar ::
  "common \<Rightarrow> 'w ss_model option \<Rightarrow> string option \<Rightarrow> 'w \<Rightarrow> bool \<times> 'w ss_model option \<times> 'w" where
  "ss_date_time_model_set_calendar cm model calendar_id w =
     (if model = None \<or> \<not> valid_calendar cm calendar_id then (False, model, w)
      else (case begin_candidate model w of
              (None, model1, w1) \<Rightarrow> (False, model1, w1)
            | (Some (candidate, _), model1, w1) \<Rightarrow>
                save_candidate model1 (assign_calendar cm candidate (the_default [] calendar_id)) w1))"

definition ss_date_time_model_set_show_seconds ::
  "'w ss_model option \<Rightarrow> bool \<Rightarrow> 'w \<Rightarrow> bool \<times> 'w ss_model option \<times> 'w" where
  "ss_date_time_model_set_show_seconds model show w =
     (if model = None then (False, model, w)
      else (case begin_candidate model w of
              (None, model1, w1) \<Rightarrow> (False, model1, w1)
            | (Some (candidate, _), model1, w1) \<Rightarrow>
                save_candidate model1 (candidate\<lparr>show_seconds := show\<rparr>) w1))"

definition ss_date_time_model_set_location ::
  "'w ss_model option \<Rightarrow> bool \<Rightarrow> double \<Rightarrow> double \<Rightarrow> 'w \<Rightarrow> bool \<times> 'w ss_model option \<times> 'w" where
  "ss_date_time_model_set_location model configured lat lon w =
     (if model = None \<or> \<not> valid_location lat lon then (False, model, w)
      else (case begin_candidate model w of
              (None, model1, w1) \<Rightarrow> (False, model1, w1)
            | (Some (candidate, _), model1, w1) \<Rightarrow>
                save_candidate model1 (assign_location candidate configured lat lon) w1))"

section \<open>The reversible location update\<close>

text \<open>An \<open>update\<close> pointer is never null at a call site; its new state is returned.\<close>

definition ss_date_time_model_begin_location_update ::
  "'w ss_model option \<Rightarrow> bool \<Rightarrow> double \<Rightarrow> double \<Rightarrow> location_update \<Rightarrow> 'w \<Rightarrow>
     bool \<times> 'w ss_model option \<times> location_update \<times> 'w" where
  "ss_date_time_model_begin_location_update model configured lat lon update w =
     (case model_private model of
        None \<Rightarrow> (False, model, update, w)
      | Some p \<Rightarrow>
          if active update \<or> \<not> valid_location lat lon then (False, model, update, w)
          else
            (case mp_store p of
               None \<Rightarrow> (False, model, update, w)
             | Some s \<Rightarrow>
                 if st_begin_update s = None \<or> st_end_update s = None \<or> st_clear s = None
                 then (False, model, update, w)
                 else
                   (case begin_candidate model w of
                      (None, model1, w1) \<Rightarrow> (False, model1, update, w1)
                    | (Some (candidate, found), model1, w1) \<Rightarrow>
                        (case (model_private model1, st_save s) of
                           (Some p1, Some sv) \<Rightarrow>
                             (let update1 = \<lparr>update_model = map_option address model,
                                             previous_policy = candidate,
                                             previous_persisted_policy_present = found,
                                             active = False\<rparr>;
                                  candidate1 = assign_location candidate configured lat lon;
                                  (saved, w2) = sv candidate1 w1
                              in if \<not> saved
                                 then (let (p2, w3) = release_update_lock p1 w2
                                       in (False, put_private model1 (Some p2),
                                           update1\<lparr>update_model := None\<rparr>, w3))
                                 else (True,
                                       put_private model1
                                         (Some (p1\<lparr>mp_policy := candidate1, persisted_policy_present := True\<rparr>)),
                                       update1\<lparr>active := True\<rparr>, w2))
                         | _ \<Rightarrow> (False, model1, update, w1)))))"

definition update_owned :: "'w ss_model option \<Rightarrow> location_update \<Rightarrow> bool" where
  "update_owned model update \<longleftrightarrow>
     active update \<and> update_model update = map_option address model \<and> ss_date_time_model_is_saving model"

definition ss_date_time_model_finish_location_update ::
  "'w ss_model option \<Rightarrow> location_update \<Rightarrow> 'w \<Rightarrow> bool \<times> 'w ss_model option \<times> location_update \<times> 'w" where
  "ss_date_time_model_finish_location_update model update w =
     (case model_private model of
        None \<Rightarrow> (False, model, update, w)
      | Some p \<Rightarrow>
          if \<not> update_owned model update then (False, model, update, w)
          else (let (p1, w1) = release_update_lock p w
                in (True, put_private model (Some p1), update\<lparr>active := False, update_model := None\<rparr>, w1)))"

definition ss_date_time_model_rollback_location_update ::
  "'w ss_model option \<Rightarrow> location_update \<Rightarrow> 'w \<Rightarrow> bool \<times> 'w ss_model option \<times> location_update \<times> 'w" where
  "ss_date_time_model_rollback_location_update model update w =
     (case model_private model of
        None \<Rightarrow> (False, model, update, w)
      | Some p \<Rightarrow>
          (case mp_store p of
             None \<Rightarrow> (False, model, update, w)
           | Some s \<Rightarrow>
               if \<not> update_owned model update then (False, model, update, w)
               else
                 (let (restored, w1) =
                        (if previous_persisted_policy_present update
                         then (case st_save s of None \<Rightarrow> (False, w) | Some sv \<Rightarrow> sv (previous_policy update) w)
                         else (case st_clear s of None \<Rightarrow> (False, w) | Some cl \<Rightarrow> cl w));
                      p1 = (if restored
                            then p\<lparr>mp_policy := previous_policy update,
                                   persisted_policy_present := previous_persisted_policy_present update\<rparr>
                            else p);
                      (p2, w2) = release_update_lock p1 w1
                  in (restored, put_private model (Some p2),
                      update\<lparr>active := False, update_model := None\<rparr>, w2))))"

section \<open>Drafts\<close>

definition ss_date_time_policy_draft_new :: "bool \<Rightarrow> policy option \<Rightarrow> policy_draft option" where
  "ss_date_time_policy_draft_new allocated base_policy =
     (case base_policy of None \<Rightarrow> None
      | Some p \<Rightarrow> if allocated then Some \<lparr>draft_policy = p\<rparr> else None)"

definition ss_date_time_policy_draft_policy :: "policy_draft option \<Rightarrow> policy option" where
  "ss_date_time_policy_draft_policy draft = map_option draft_policy draft"

definition ss_date_time_policy_draft_set_clock_mode ::
  "common \<Rightarrow> policy_draft option \<Rightarrow> string option \<Rightarrow> bool \<times> policy_draft option" where
  "ss_date_time_policy_draft_set_clock_mode cm draft requested =
     (case (draft, valid_clock_mode cm requested) of
        (Some d, Some info) \<Rightarrow> (True, Some \<lparr>draft_policy = assign_clock_mode cm (draft_policy d) info\<rparr>)
      | _ \<Rightarrow> (False, draft))"

definition ss_date_time_policy_draft_set_calendar ::
  "common \<Rightarrow> policy_draft option \<Rightarrow> string option \<Rightarrow> bool \<times> policy_draft option" where
  "ss_date_time_policy_draft_set_calendar cm draft calendar_id =
     (case draft of None \<Rightarrow> (False, draft)
      | Some d \<Rightarrow>
          if \<not> valid_calendar cm calendar_id then (False, draft)
          else (True, Some \<lparr>draft_policy = assign_calendar cm (draft_policy d) (the_default [] calendar_id)\<rparr>))"

definition ss_date_time_policy_draft_set_show_seconds ::
  "policy_draft option \<Rightarrow> bool \<Rightarrow> bool \<times> policy_draft option" where
  "ss_date_time_policy_draft_set_show_seconds draft show =
     (case draft of None \<Rightarrow> (False, draft)
      | Some d \<Rightarrow> (True, Some \<lparr>draft_policy = (draft_policy d)\<lparr>show_seconds := show\<rparr>\<rparr>))"

definition ss_date_time_policy_draft_set_location ::
  "policy_draft option \<Rightarrow> bool \<Rightarrow> double \<Rightarrow> double \<Rightarrow> bool \<times> policy_draft option" where
  "ss_date_time_policy_draft_set_location draft configured lat lon =
     (case draft of None \<Rightarrow> (False, draft)
      | Some d \<Rightarrow>
          if \<not> valid_location lat lon then (False, draft)
          else (True, Some \<lparr>draft_policy = assign_location (draft_policy d) configured lat lon\<rparr>))"

section \<open>Edits\<close>

text \<open>
  The four edits a caller can make, as the model's setters and as the draft's. \<open>edit_result\<close> is the
  policy an accepted edit makes of another.
\<close>

datatype edit =
    Clock "string option"
  | Calendar "string option"
  | Seconds bool
  | Location bool double double

fun model_edit :: "common \<Rightarrow> edit \<Rightarrow> 'w ss_model option \<Rightarrow> 'w \<Rightarrow> bool \<times> 'w ss_model option \<times> 'w" where
  "model_edit cm (Clock c) model w = ss_date_time_model_set_clock_mode cm model c w"
| "model_edit cm (Calendar c) model w = ss_date_time_model_set_calendar cm model c w"
| "model_edit cm (Seconds b) model w = ss_date_time_model_set_show_seconds model b w"
| "model_edit cm (Location b x y) model w = ss_date_time_model_set_location model b x y w"

fun draft_edit :: "common \<Rightarrow> edit \<Rightarrow> policy_draft option \<Rightarrow> bool \<times> policy_draft option" where
  "draft_edit cm (Clock c) draft = ss_date_time_policy_draft_set_clock_mode cm draft c"
| "draft_edit cm (Calendar c) draft = ss_date_time_policy_draft_set_calendar cm draft c"
| "draft_edit cm (Seconds b) draft = ss_date_time_policy_draft_set_show_seconds draft b"
| "draft_edit cm (Location b x y) draft = ss_date_time_policy_draft_set_location draft b x y"

text \<open>What a draft of a policy becomes: \<open>None\<close> when the edit is refused.\<close>

definition drafted :: "common \<Rightarrow> edit \<Rightarrow> policy \<Rightarrow> policy option" where
  "drafted cm e p =
     (case draft_edit cm e (Some \<lparr>draft_policy = p\<rparr>) of
        (True, d) \<Rightarrow> ss_date_time_policy_draft_policy d
      | (False, _) \<Rightarrow> None)"

lemma model_edit_drafted:
  "model_edit cm e model w =
     (if model = None \<or> drafted cm e q = None then (False, model, w)
      else (case begin_candidate model w of
              (None, model1, w1) \<Rightarrow> (False, model1, w1)
            | (Some (candidate, _), model1, w1) \<Rightarrow>
                save_candidate model1 (the_default candidate (drafted cm e candidate)) w1))"
  by (cases e)
     (auto simp: drafted_def ss_date_time_model_set_clock_mode_def ss_date_time_model_set_calendar_def
        ss_date_time_model_set_show_seconds_def ss_date_time_model_set_location_def
        ss_date_time_policy_draft_set_clock_mode_def ss_date_time_policy_draft_set_calendar_def
        ss_date_time_policy_draft_set_show_seconds_def ss_date_time_policy_draft_set_location_def
        ss_date_time_policy_draft_policy_def the_default_def split: option.splits prod.splits)

lemma drafted_None: "drafted cm e p = None \<longleftrightarrow> drafted cm e q = None"
  by (cases e)
     (auto simp: drafted_def
        ss_date_time_policy_draft_set_clock_mode_def ss_date_time_policy_draft_set_calendar_def
        ss_date_time_policy_draft_set_show_seconds_def ss_date_time_policy_draft_set_location_def
        ss_date_time_policy_draft_policy_def split: option.splits prod.splits)

section \<open>The model over a store that keeps its contract\<close>

definition table ::
  "('w \<Rightarrow> (policy \<times> bool) option \<times> 'w) \<Rightarrow> (policy \<Rightarrow> 'w \<Rightarrow> bool \<times> 'w) \<Rightarrow> ('w \<Rightarrow> bool \<times> 'w) \<Rightarrow>
     ('w \<Rightarrow> bool \<times> 'w) \<Rightarrow> ('w \<Rightarrow> 'w) \<Rightarrow> 'w store \<Rightarrow> bool" where
  "table ld sv cl bg en s \<longleftrightarrow>
     st_load s = Some ld \<and> st_save s = Some sv \<and> st_clear s = Some cl \<and>
     st_begin_update s = Some bg \<and> st_end_update s = Some en"

text \<open>A model bound to the store \<open>s\<close>, with its private state.\<close>

definition attached :: "'w store \<Rightarrow> 'w ss_model option \<Rightarrow> 'w model_private \<Rightarrow> bool" where
  "attached s model p \<longleftrightarrow> model_private model = Some p \<and> mp_store p = Some s"

lemma put_private_same: "model_private model = Some p \<Longrightarrow> put_private model (Some p) = model"
  by (cases model) (auto simp: model_private_def put_private_def)

lemma model_private_put [simp]:
  "model_private model = Some p \<Longrightarrow> model_private (put_private model q) = q"
  by (cases model) (auto simp: model_private_def put_private_def)

lemma put_put [simp]: "put_private (put_private model p) q = put_private model q"
  by (cases model) (auto simp: put_private_def)

lemma put_address [simp]: "map_option address (put_private model p) = map_option address model"
  by (cases model) (auto simp: put_private_def)

lemma saving_False_same: "\<not> saving p \<Longrightarrow> p\<lparr>saving := False\<rparr> = p"
  by (cases p) simp

lemma release_table:
  "table ld sv cl bg en s \<Longrightarrow> mp_store p = Some s \<Longrightarrow> saving p \<Longrightarrow>
     release_update_lock p w = (p\<lparr>saving := False\<rparr>, en w)"
  by (simp add: release_update_lock_def table_def)

context policy_store
begin

lemma begin_candidate_law:
  assumes "table ld sv cl bg en s" "attached s model p" "\<not> saving p" "ok w"
    and "begin_candidate model w = (r, model1, w1)"
  shows "later w w1 \<and> ok w1 \<and>
    (case r of
       None \<Rightarrow> model1 = model \<and> locked w1 = locked w
     | Some (base, found) \<Rightarrow>
         model1 = put_private model (Some (p\<lparr>saving := True\<rparr>)) \<and> \<not> locked w \<and> locked w1 \<and>
         (\<exists>w0. later w w0 \<and> locked w0 \<and> ld w0 = (Some (base, found), w1)) \<and>
         view w1 = (if found then Some base else None) \<and> (found \<longrightarrow> fmt w base = base))"
proof -
  note st = assms(1)[unfolded table_def] assms(2)[unfolded attached_def]
  obtain b w2 where bg: "bg w = (b, w2)" by (cases "bg w") auto
  note B = begin_law[OF assms(4) bg]
  show ?thesis
  proof (cases b)
    case False
    with assms(3,5) st bg B later_ok[of w w2] assms(4) show ?thesis
      by (auto simp: begin_candidate_def put_private_same saving_False_same)
  next
    case True
    with B assms(4) have l2: "later w w2" "ok w2" "locked w2" "\<not> locked w" using later_ok by auto
    obtain q w3 where ld: "ld w2 = (q, w3)" by (cases "ld w2") auto
    note L = load_law[OF l2(2) ld]
    have l3: "later w w3" "ok w3" "locked w3" using L l2 later_trans later_ok by blast+
    show ?thesis
    proof (cases q)
      case None
      note E = end_law[OF l3(2)]
      have "release_update_lock (p\<lparr>saving := True\<rparr>) w3 = (p, en w3)"
        using assms(3) by (subst release_table[OF assms(1)]) (use st in \<open>auto simp: saving_False_same\<close>)
      moreover have "later w (en w3)" "ok (en w3)" "\<not> locked (en w3)"
        using E later_trans[OF l3(1)] later_ok[OF _ l3(2)] by auto
      ultimately show ?thesis using None True assms(3,5) st bg ld l2
        by (auto simp: begin_candidate_def put_private_same)
    next
      case (Some pf)
      obtain base found where pf: "pf = (base, found)" by (cases pf) auto
      from Some pf True assms(3,5) st bg ld
      have r: "r = Some (base, found)" "model1 = put_private model (Some (p\<lparr>saving := True\<rparr>))" "w1 = w3"
        by (auto simp: begin_candidate_def)
      have "view w3 = (if found then Some base else None) \<and> (found \<longrightarrow> fmt w base = base)"
        using L Some pf later_fmt[OF l3(1)] by (auto split: if_splits)
      moreover have "\<exists>w0. later w w0 \<and> locked w0 \<and> ld w0 = (Some (base, found), w3)"
        using ld Some pf l2 by auto
      ultimately show ?thesis using r l2 l3 by simp
    qed
  qed
qed

lemma save_candidate_law:
  assumes "table ld sv cl bg en s" "attached s model p" "saving p" "ok w" "locked w"
    and "save_candidate model c w = (b, model1, w1)"
  shows "later w w1 \<and> ok w1 \<and> \<not> locked w1 \<and>
    (if b then view w1 = Some (fmt w c) \<and>
               model1 = put_private model (Some (p\<lparr>saving := False, mp_policy := c, persisted_policy_present := True\<rparr>))
     else (view w1 = view w \<or> view w1 = Some (fmt w c)) \<and>
          model1 = put_private model (Some (p\<lparr>saving := False\<rparr>)))"
proof -
  note st = assms(1)[unfolded table_def] assms(2)[unfolded attached_def]
  obtain q w2 where sv: "sv c w = (q, w2)" by (cases "sv c w") auto
  note S = save_law[OF assms(4) sv]
  then have w2: "later w w2" "ok w2" using later_ok assms(4) by auto
  note E = end_law[OF w2(2)]
  have "release_update_lock p w2 = (p\<lparr>saving := False\<rparr>, en w2)"
    using release_table[OF assms(1)] st assms(3) by simp
  moreover have "later w (en w2)" "ok (en w2)" "\<not> locked (en w2)" "view (en w2) = view w2"
    using E later_trans[OF w2(1)] later_ok[OF _ w2(2)] by auto
  ultimately show ?thesis using assms(3,5,6) st sv S
    by (auto simp: save_candidate_def split: if_splits)
qed

text \<open>The setters: exactly the draft's edit of the policy loaded under the lock, or no change in memory.\<close>

lemma edit_law:
  assumes "table ld sv cl bg en s" "attached s model p" "\<not> saving p" "ok w"
    and "model_edit cm e model w = (b, model1, w1)"
  shows "later w w1 \<and> ok w1 \<and>
    (if b then
       (\<exists>w0 w2 base found new.
          later w w0 \<and> locked w0 \<and> ld w0 = (Some (base, found), w2) \<and>
          view w2 = (if found then Some base else None) \<and>
          drafted cm e base = Some new \<and>
          model1 = put_private model (Some (p\<lparr>mp_policy := new, persisted_policy_present := True\<rparr>)) \<and>
          view w1 = Some (fmt w new) \<and> \<not> locked w1)
     else model1 = model \<and> locked w1 = locked w)"
proof -
  have m: "model \<noteq> None" using assms(2) by (cases model) (simp_all add: attached_def model_private_def)
  show ?thesis
  proof (cases "drafted cm e (mp_policy p) = None")
    case True
    with assms(5) model_edit_drafted[of cm e model w "mp_policy p"] have "b = False" "model1 = model" "w1 = w" by auto
    then show ?thesis using assms(4) later_refl by simp
  next
    case dr: False
    obtain r m2 w2 where bc: "begin_candidate model w = (r, m2, w2)" by (cases "begin_candidate model w") auto
    note B = begin_candidate_law[OF assms(1-4) bc]
    show ?thesis
    proof (cases r)
      case None
      with assms(5) dr m bc model_edit_drafted[of cm e model w "mp_policy p"]
      have "b = False" "model1 = m2" "w1 = w2" by auto
      with B None show ?thesis by simp
    next
      case (Some bf)
      obtain base found where bf: "bf = (base, found)" by (cases bf) auto
      from dr obtain new where new: "drafted cm e base = Some new"
        using drafted_None[of cm e base "mp_policy p"] by auto
      from assms(5) dr m bc Some bf new model_edit_drafted[of cm e model w "mp_policy p"]
      have sc: "save_candidate m2 new w2 = (b, model1, w1)" by (simp add: the_default_def)
      from B Some bf have m2: "m2 = put_private model (Some (p\<lparr>saving := True\<rparr>))"
        and l2: "later w w2" "ok w2" "locked w2" "\<not> locked w"
        and ex: "\<exists>w0. later w w0 \<and> locked w0 \<and> ld w0 = (Some (base, found), w2)"
                "view w2 = (if found then Some base else None)" by auto
      have at2: "attached s m2 (p\<lparr>saving := True\<rparr>)" using m2 assms(2) by (auto simp: attached_def)
      have sp: "saving (p\<lparr>saving := True\<rparr>)" by simp
      note S = save_candidate_law[OF assms(1) at2 sp l2(2,3) sc]
      have f2: "fmt w2 = fmt w" using later_fmt l2 by blast
      have sf: "p\<lparr>saving := True, saving := False\<rparr> = p" using assms(3) saving_False_same[of p] by simp
      have lt: "later w w1" using S l2 later_trans[of w w2 w1] by simp
      show ?thesis
      proof (cases b)
        case True
        then have "model1 = put_private model (Some (p\<lparr>mp_policy := new, persisted_policy_present := True\<rparr>))"
          using S m2 sf by simp
        moreover have "view w1 = Some (fmt w new) \<and> \<not> locked w1 \<and> ok w1" using S True f2 by simp
        ultimately show ?thesis using True lt ex new by (simp only: if_True) blast
      next
        case False
        have "model1 = put_private model (Some p)" using S m2 sf False by simp
        then have "model1 = model" using assms(2) by (simp add: put_private_same attached_def)
        then show ?thesis using False S l2 lt by simp
      qed
    qed
  qed
qed

end

context policy_store
begin

text \<open>A location update that begins leaves the lock owned and the token with the state it found.\<close>

lemma begin_update_law:
  assumes "table ld sv cl bg en s" "attached s model p" "\<not> saving p" "ok w" "\<not> active u"
    and "ss_date_time_model_begin_location_update model c x y u w = (b, model1, u1, w1)"
  shows "later w w1 \<and> ok w1 \<and>
    (if b then
       (\<exists>w0 w2 base found.
          later w w0 \<and> locked w0 \<and> ld w0 = (Some (base, found), w2) \<and>
          view w2 = (if found then Some base else None) \<and> (found \<longrightarrow> fmt w base = base) \<and>
          valid_location x y \<and> \<not> locked w \<and>
          model1 = put_private model (Some (p\<lparr>saving := True, mp_policy := assign_location base c x y,
                                              persisted_policy_present := True\<rparr>)) \<and>
          u1 = \<lparr>update_model = map_option address model, previous_policy = base,
                previous_persisted_policy_present = found, active = True\<rparr> \<and>
          view w1 = Some (fmt w (assign_location base c x y)) \<and> locked w1)
     else model1 = model \<and> locked w1 = locked w \<and> \<not> active u1)"
proof -
  note st = assms(1)[unfolded table_def] assms(2)[unfolded attached_def]
  show ?thesis
  proof (cases "valid_location x y")
    case False
    then show ?thesis using assms(4-6) st later_refl
      by (auto simp: ss_date_time_model_begin_location_update_def)
  next
    case v: True
    obtain r m2 w2 where bc: "begin_candidate model w = (r, m2, w2)" by (cases "begin_candidate model w") auto
    note B = begin_candidate_law[OF assms(1-4) bc]
    show ?thesis
    proof (cases r)
      case None
      with assms(5,6) st v bc have "b = False \<and> model1 = m2 \<and> u1 = u \<and> w1 = w2"
        by (simp add: ss_date_time_model_begin_location_update_def)
      then show ?thesis using B None assms(5) by simp
    next
      case (Some bf)
      obtain base found where bf: "bf = (base, found)" by (cases bf) auto
      let ?c = "assign_location base c x y"
      let ?p2 = "p\<lparr>saving := True\<rparr>"
      from B Some bf have m2: "m2 = put_private model (Some ?p2)"
        and l2: "later w w2" "ok w2" "locked w2" "\<not> locked w"
        and ex: "\<exists>w0. later w w0 \<and> locked w0 \<and> ld w0 = (Some (base, found), w2)"
                "view w2 = (if found then Some base else None)" "found \<longrightarrow> fmt w base = base" by auto
      have f2: "fmt w2 = fmt w" using later_fmt l2 by blast
      obtain q w3 where sv: "sv ?c w2 = (q, w3)" by (cases "sv ?c w2") auto
      note S = save_law[OF l2(2) sv]
      have l3: "later w w3" "ok w3" "locked w3"
        using S l2 later_trans[OF l2(1)] later_ok[of w2 w3] by auto
      have mp2: "model_private m2 = Some ?p2" using m2 st by simp
      show ?thesis
      proof (cases q)
        case True
        with assms(5,6) st v bc Some bf mp2 sv m2
        have R: "b = True \<and> model1 = put_private model (Some (?p2\<lparr>mp_policy := ?c, persisted_policy_present := True\<rparr>)) \<and>
           u1 = \<lparr>update_model = map_option address model, previous_policy = base,
                previous_persisted_policy_present = found, active = True\<rparr> \<and> w1 = w3"
          by (simp add: ss_date_time_model_begin_location_update_def)
        have "view w3 = Some (fmt w ?c)" using S True l2 f2 by simp
        then show ?thesis using R l3 l2 ex v by (simp only: if_True simp_thms) blast
      next
        case False
        note E = end_law[OF l3(2)]
        have e: "later w (en w3)" "ok (en w3)" "\<not> locked (en w3)"
          using E later_trans[OF l3(1)] later_ok[OF _ l3(2)] by auto
        have "release_update_lock ?p2 w3 = (?p2\<lparr>saving := False\<rparr>, en w3)"
          by (rule release_table[OF assms(1)]) (use st in auto)
        then have "release_update_lock ?p2 w3 = (p, en w3)" using assms(3) saving_False_same[of p] by simp
        with False assms(5,6) st v bc Some bf mp2 sv m2
        have R: "b = False \<and> model1 = put_private model (Some p) \<and> \<not> active u1 \<and> w1 = en w3"
          by (auto simp: ss_date_time_model_begin_location_update_def)
        then show ?thesis using e l2 st by (simp add: put_private_same)
      qed
    qed
  qed
qed

text \<open>The model and the token between the beginning and the end of a location update.\<close>

definition pending :: "'w store \<Rightarrow> 'w ss_model option \<Rightarrow> 'w model_private \<Rightarrow> location_update \<Rightarrow> 'w \<Rightarrow> bool" where
  "pending s model p u w \<longleftrightarrow>
     attached s model p \<and> saving p \<and> active u \<and> update_model u = map_option address model \<and> ok w \<and> locked w"

lemma pending_owned: "pending s model p u w \<Longrightarrow> update_owned model u"
  by (simp add: pending_def update_owned_def attached_def ss_date_time_model_is_saving_def)

lemma finish_law:
  assumes "table ld sv cl bg en s" "pending s model p u w"
  shows "ss_date_time_model_finish_location_update model u w =
           (True, put_private model (Some (p\<lparr>saving := False\<rparr>)), u\<lparr>active := False, update_model := None\<rparr>, en w) \<and>
         later w (en w) \<and> ok (en w) \<and> \<not> locked (en w) \<and> view (en w) = view w"
proof -
  from assms(2) have st: "model_private model = Some p" "mp_store p = Some s" "saving p" "ok w"
    by (auto simp: pending_def attached_def)
  note E = end_law[OF st(4)]
  have "release_update_lock p w = (p\<lparr>saving := False\<rparr>, en w)" using release_table[OF assms(1)] st by simp
  then show ?thesis using E later_ok[of w "en w"] st pending_owned[OF assms(2)]
    by (simp add: ss_date_time_model_finish_location_update_def)
qed

lemma rollback_law:
  assumes "table ld sv cl bg en s" "pending s model p u w"
    and "ss_date_time_model_rollback_location_update model u w = (b, model1, u1, w1)"
  shows "later w w1 \<and> ok w1 \<and> \<not> locked w1 \<and> \<not> active u1 \<and>
    (if b then
       model1 = put_private model (Some (p\<lparr>mp_policy := previous_policy u,
                  persisted_policy_present := previous_persisted_policy_present u, saving := False\<rparr>)) \<and>
       view w1 = (if previous_persisted_policy_present u then Some (fmt w (previous_policy u)) else None)
     else model1 = put_private model (Some (p\<lparr>saving := False\<rparr>)) \<and>
          (view w1 = view w \<or>
           view w1 = (if previous_persisted_policy_present u then Some (fmt w (previous_policy u)) else None)))"
proof -
  from assms(2) have st: "model_private model = Some p" "mp_store p = Some s" "saving p" "ok w" "locked w"
    by (auto simp: pending_def attached_def)
  note t = assms(1)[unfolded table_def]
  define act where "act = (if previous_persisted_policy_present u then sv (previous_policy u) else cl)"
  obtain q w2 where a: "act w = (q, w2)" by (cases "act w") auto
  have A: "later w w2 \<and> locked w2 \<and>
     (if q then view w2 = (if previous_persisted_policy_present u then Some (fmt w (previous_policy u)) else None)
      else view w2 = view w \<or> view w2 = (if previous_persisted_policy_present u then Some (fmt w (previous_policy u)) else None))"
    using a save_law[OF st(4), of "previous_policy u" q w2] clear_law[OF st(4), of q w2] st(5)
    by (cases "previous_persisted_policy_present u") (auto simp: act_def)
  then have w2: "later w w2" "ok w2" using later_ok st by auto
  note E = end_law[OF w2(2)]
  have e: "later w (en w2)" "ok (en w2)" "\<not> locked (en w2)" "view (en w2) = view w2"
    using E later_trans[OF w2(1)] later_ok[OF _ w2(2)] by auto
  have rel: "release_update_lock pp w2 = (pp\<lparr>saving := False\<rparr>, en w2)"
    if "mp_store pp = Some s" "saving pp" for pp using release_table[OF assms(1)] that by simp
  have "(if previous_persisted_policy_present u
         then (case st_save s of None \<Rightarrow> (False, w) | Some sv \<Rightarrow> sv (previous_policy u) w)
         else (case st_clear s of None \<Rightarrow> (False, w) | Some cl \<Rightarrow> cl w)) = (q, w2)"
    using a t by (auto simp: act_def split: if_splits)
  with assms(3) st rel pending_owned[OF assms(2)]
  have R: "b = q \<and> w1 = en w2 \<and> u1 = u\<lparr>active := False, update_model := None\<rparr> \<and>
     model1 = put_private model (Some ((if q then p\<lparr>mp_policy := previous_policy u,
          persisted_policy_present := previous_persisted_policy_present u\<rparr> else p)\<lparr>saving := False\<rparr>))"
    by (auto simp: ss_date_time_model_rollback_location_update_def)
  then show ?thesis using A e by (cases q) auto
qed

text \<open>A rollback after a beginning restores the persistent state that the beginning found.\<close>

lemma begin_rollback:
  assumes "table ld sv cl bg en s" "attached s model p" "\<not> saving p" "ok w" "\<not> active u"
    and "ss_date_time_model_begin_location_update model c x y u w = (True, model1, u1, w1)"
    and "ss_date_time_model_rollback_location_update model1 u1 w1 = (b, model2, u2, w2)"
  shows "\<not> locked w2 \<and> \<not> active u2 \<and> \<not> ss_date_time_model_is_saving model2 \<and>
    (\<exists>w0 base found wb. later w w0 \<and> ld w0 = (Some (base, found), wb) \<and>
       view wb = (if found then Some base else None) \<and>
       (if b then view w2 = view wb \<and> ss_date_time_model_policy model2 = Some base \<and>
                  ss_date_time_model_has_persisted_policy model2 = found
        else view w2 = view wb \<or> view w2 = Some (fmt w (assign_location base c x y))))"
proof -
  from begin_update_law[OF assms(1-6)] obtain w0 wb base found where B:
    "later w w1" "ok w1" "later w w0" "ld w0 = (Some (base, found), wb)"
    "view wb = (if found then Some base else None)" "found \<longrightarrow> fmt w base = base" "\<not> locked w"
    "model1 = put_private model (Some (p\<lparr>saving := True, mp_policy := assign_location base c x y,
                                         persisted_policy_present := True\<rparr>))"
    "u1 = \<lparr>update_model = map_option address model, previous_policy = base,
           previous_persisted_policy_present = found, active = True\<rparr>"
    "view w1 = Some (fmt w (assign_location base c x y))" "locked w1" by (simp only: if_True) blast
  have f: "fmt w1 = fmt w" using later_fmt B(1) by blast
  have "pending s model1 (p\<lparr>saving := True, mp_policy := assign_location base c x y,
                            persisted_policy_present := True\<rparr>) u1 w1"
    using B assms(2) by (auto simp: pending_def attached_def)
  note R = rollback_law[OF assms(1) this assms(7)]
  have mp: "model_private model = Some p" using assms(2) by (simp add: attached_def)
  have "view w2 = view wb \<and> ss_date_time_model_policy model2 = Some base \<and>
        ss_date_time_model_has_persisted_policy model2 = found \<and> \<not> ss_date_time_model_is_saving model2" if "b"
    using that R B f mp
    by (auto simp: ss_date_time_model_policy_def ss_date_time_model_has_persisted_policy_def
         ss_date_time_model_is_saving_def)
  moreover have "(view w2 = view wb \<or> view w2 = Some (fmt w (assign_location base c x y))) \<and>
        \<not> ss_date_time_model_is_saving model2" if "\<not> b"
    using that R B f mp by (auto simp: ss_date_time_model_is_saving_def)
  ultimately have "\<not> ss_date_time_model_is_saving model2 \<and>
      (if b then view w2 = view wb \<and> ss_date_time_model_policy model2 = Some base \<and>
                  ss_date_time_model_has_persisted_policy model2 = found
        else view w2 = view wb \<or> view w2 = Some (fmt w (assign_location base c x y)))"
    by (cases b) auto
  then show ?thesis using R B(3-5) by blast
qed
end

context policy_store
begin

lemma reload_law:
  assumes "table ld sv cl bg en s" "attached s model p" "\<not> saving p" "ok w"
    and "ss_date_time_model_reload cm model w = (b, model1, w1)"
  shows "later w w1 \<and> ok w1 \<and> locked w1 = locked w \<and> (locked w \<longrightarrow> view w1 = view w) \<and>
    (if b then (\<exists>p1 base found. model1 = put_private model (Some p1) \<and> ld w = (Some (base, found), w1) \<and>
                  p1 = p\<lparr>mp_policy := base, persisted_policy_present := found\<rparr> \<and>
                  view w1 = (if found then Some base else None))
     else model1 = model)"
proof -
  note st = assms(1)[unfolded table_def] assms(2)[unfolded attached_def]
  obtain r w2 where ld: "ld w = (r, w2)" by (cases "ld w") auto
  note L = load_law[OF assms(4) ld]
  then have ok2: "ok w2" using later_ok assms(4) by blast
  show ?thesis
  proof (cases "policy_v3_default cm = None")
    case True
    with assms(3-5) st later_refl show ?thesis by (simp add: ss_date_time_model_reload_def)
  next
    case False
    then show ?thesis
    proof (cases r)
      case None
      with False assms(3-5) st L ok2 ld show ?thesis by (auto simp: ss_date_time_model_reload_def)
    next
      case (Some bf)
      obtain base found where bf: "bf = (base, found)" by (cases bf) auto
      with Some False assms(3-5) st ld
      have "b = True \<and> w1 = w2 \<and> model1 = put_private model
              (Some (p\<lparr>mp_policy := base, persisted_policy_present := found\<rparr>))"
        by (auto simp: ss_date_time_model_reload_def)
      then show ?thesis using L Some bf ok2 ld by (auto split: if_splits)
    qed
  qed
qed

lemma init_law:
  assumes "table ld sv cl bg en s" "ok w" "model_private model = None" "model \<noteq> None"
    and "ss_date_time_model_init cm allocated model (Some s) w = (b, model1, w1)"
  shows "later w w1 \<and> ok w1 \<and> locked w1 = locked w \<and> (locked w \<longrightarrow> view w1 = view w) \<and>
    (if b then (\<exists>p base found. attached s model1 p \<and> \<not> saving p \<and> ld w = (Some (base, found), w1) \<and>
                  mp_policy p = base \<and> persisted_policy_present p = found \<and>
                  view w1 = (if found then Some base else None))
     else model_private model1 = None)"
proof -
  obtain m where m: "model = Some m" "private_state m = None"
    using assms(3,4) by (cases model) (auto simp: model_private_def)
  note st = assms(1)[unfolded table_def]
  show ?thesis
  proof (cases "allocated \<and> policy_v3_default cm \<noteq> None")
    case False
    with assms(2-5) m st later_refl show ?thesis
      by (auto simp: ss_date_time_model_init_def split: option.splits)
  next
    case True
    then obtain d where d: "policy_v3_default cm = Some d" by auto
    let ?p = "\<lparr>mp_policy = d, mp_store = Some s, persisted_policy_present = False, saving = False\<rparr>"
    obtain q m2 w2 where rl: "ss_date_time_model_reload cm (put_private model (Some ?p)) w = (q, m2, w2)"
      by (cases "ss_date_time_model_reload cm (put_private model (Some ?p)) w") auto
    have "attached s (put_private model (Some ?p)) ?p"
      using m by (simp add: attached_def model_private_def put_private_def)
    note R = reload_law[OF assms(1) this _ assms(2) rl, simplified put_put]
    show ?thesis
    proof (cases q)
      case True
      with rl assms(5) m st d \<open>allocated \<and> _\<close> have "b = True \<and> model1 = m2 \<and> w1 = w2"
        by (simp add: ss_date_time_model_init_def)
      moreover from R True obtain p1 base found where r: "m2 = put_private model (Some p1)"
        "ld w = (Some (base, found), w2)" "p1 = ?p\<lparr>mp_policy := base, persisted_policy_present := found\<rparr>"
        "view w2 = (if found then Some base else None)" by (simp only: if_True) auto
      moreover have "attached s m2 p1 \<and> \<not> saving p1 \<and> mp_policy p1 = base \<and> persisted_policy_present p1 = found"
        using r m by (simp add: attached_def model_private_def put_private_def)
      moreover have "later w w2 \<and> ok w2 \<and> locked w2 = locked w \<and> (locked w \<longrightarrow> view w2 = view w)"
        using R by simp
      ultimately show ?thesis by (simp only: if_True) blast
    next
      case False
      with R have m2: "m2 = put_private model (Some ?p)" by simp
      have "ss_date_time_model_clear m2 w2 = (put_private model None, w2)"
        using m m2 by (simp add: ss_date_time_model_clear_def put_private_def release_update_lock_def)
      with False rl assms(5) m st d \<open>allocated \<and> _\<close> have "b = False \<and> model1 = put_private model None \<and> w1 = w2"
        by (simp add: ss_date_time_model_init_def)
      then show ?thesis using R m by (auto simp: model_private_def put_private_def)
    qed
  qed
qed

text \<open>Clearing a model gives its lock back, also in the middle of a location update.\<close>

lemma clear_model_law:
  assumes "table ld sv cl bg en s" "attached s model p" "saving p = locked w" "ok w"
    and "ss_date_time_model_clear model w = (model1, w1)"
  shows "later w w1 \<and> ok w1 \<and> \<not> locked w1 \<and> view w1 = view w \<and> model_private model1 = None"
proof -
  from assms(2) obtain m where m: "model = Some m" "private_state m = Some p" "mp_store p = Some s"
    by (cases model) (auto simp: attached_def model_private_def)
  note E = end_law[OF assms(4)]
  have "w1 = (if saving p then en w else w) \<and> model1 = put_private model None"
    using assms(5) m release_table[OF assms(1) m(3)]
    by (auto simp: ss_date_time_model_clear_def release_update_lock_def)
  then show ?thesis using E assms(3,4) later_refl later_ok[of w "en w"] m
    by (auto simp: model_private_def put_private_def)
qed
end

end
