(* ===== verification/AdvisoryLock.thy ===== *)
theory AdvisoryLock
  imports Prelude
begin

text \<open>
  The kernel state one process sees, the system calls the code makes on it, and the advisory lock of
  \<open>linux-advisory-lock.h\<close>. Everything that is not decided by the process is read from an environment:
  the results of calls, the time that passes, the signals that arrive and what other processes write.
\<close>

section \<open>The kernel\<close>

datatype errno = EINTR | EWOULDBLOCK | EAGAIN | EEXIST | EOTHER nat

datatype flock_answer = Granted | Busy | Failed nat

datatype gvalue = GBool bool | GInt int | GString string

text \<open>
  Each field is read at the number of the call. \<open>guard p\<close> is the lock file other processes hold while
  they change the file \<open>p\<close>; they follow the protocol, so a file whose guard is held here stays as it is.
\<close>

record environment =
  guard :: "string \<Rightarrow> string"
  e_write :: "nat \<Rightarrow> (string \<Rightarrow> string option \<Rightarrow> string option) option"
  e_delay :: "nat \<Rightarrow> nat"
  e_signals :: "nat \<Rightarrow> nat"
  e_mkdir :: "nat \<Rightarrow> errno option"
  e_chmod :: "nat \<Rightarrow> bool"
  e_open :: "nat \<Rightarrow> bool"
  e_flock :: "nat \<Rightarrow> flock_answer"

record kernel =
  files :: "string \<Rightarrow> string option"
  modes :: "string \<Rightarrow> nat option"
  settings :: "string \<Rightarrow> string \<Rightarrow> gvalue option"
  descriptors :: "int \<Rightarrow> string option"
  locks :: "int list"
  next_fd :: nat
  now :: int
  slept :: int
  signals :: nat
  ticks :: nat
  env :: environment

definition protected :: "kernel \<Rightarrow> string \<Rightarrow> bool" where
  "protected k p = list_ex (\<lambda>fd. descriptors k fd = Some (guard (env k) p)) (locks k)"

text \<open>
  Between two calls time passes and the other processes may write what no lock held here guards;
  \<open>e_write\<close> is \<open>None\<close> when none of them runs.
\<close>

definition others_run :: "kernel \<Rightarrow> kernel" where
  "others_run k = k\<lparr>
     files := (case e_write (env k) (ticks k) of None \<Rightarrow> files k
               | Some f \<Rightarrow> (\<lambda>p. if protected k p then files k p else f p (files k p))),
     now := now k + int (e_delay (env k) (ticks k)),
     ticks := ticks k + 1\<rparr>"

definition g_mkdir_with_parents :: "string \<Rightarrow> kernel \<Rightarrow> errno option \<times> kernel" where
  "g_mkdir_with_parents directory k = (e_mkdir (env k) (ticks k), others_run k)"

definition g_chmod :: "string \<Rightarrow> nat \<Rightarrow> kernel \<Rightarrow> bool \<times> kernel" where
  "g_chmod path mode k =
     (if e_chmod (env k) (ticks k) then (True, (others_run k)\<lparr>modes := (modes k)(path \<mapsto> mode)\<rparr>)
      else (False, others_run k))"

text \<open>\<open>open\<close> with \<open>O_CREAT\<close>: a new descriptor, or a negative result.\<close>

definition sys_open :: "string \<Rightarrow> kernel \<Rightarrow> int \<times> kernel" where
  "sys_open path k =
     (if e_open (env k) (ticks k)
      then (let k1 = others_run k
            in (int (next_fd k1),
                k1\<lparr>descriptors := (descriptors k1)(int (next_fd k1) := Some path),
                   next_fd := next_fd k1 + 1,
                   files := (files k1)(path := (case files k1 path of None \<Rightarrow> Some [] | Some c \<Rightarrow> Some c))\<rparr>))
      else (- 1, others_run k))"

definition sys_close :: "int \<Rightarrow> kernel \<Rightarrow> kernel" where
  "sys_close fd k = k\<lparr>descriptors := (descriptors k)(fd := None), locks := filter (\<lambda>x. x \<noteq> fd) (locks k)\<rparr>"

text \<open>
  \<open>flock\<close> with \<open>LOCK_EX | LOCK_NB\<close>: a pending signal interrupts it, a lock on the same file through
  another descriptor of this process refuses it, and otherwise the environment answers.
\<close>

definition sys_flock :: "int \<Rightarrow> kernel \<Rightarrow> errno option \<times> kernel" where
  "sys_flock fd k =
     (let k1 = others_run k in
      if 0 < signals k then (Some EINTR, k1\<lparr>signals := signals k - 1\<rparr>)
      else if list_ex (\<lambda>x. x \<noteq> fd \<and> descriptors k x = descriptors k fd) (locks k) then (Some EWOULDBLOCK, k1)
      else (case e_flock (env k) (ticks k) of
              Granted \<Rightarrow> (None, k1\<lparr>locks := fd # locks k1\<rparr>)
            | Busy \<Rightarrow> (Some EWOULDBLOCK, k1)
            | Failed n \<Rightarrow> (Some (EOTHER n), k1)))"

definition sys_funlock :: "int \<Rightarrow> kernel \<Rightarrow> kernel" where
  "sys_funlock fd k = k\<lparr>locks := filter (\<lambda>x. x \<noteq> fd) (locks k)\<rparr>"

definition g_usleep :: "int \<Rightarrow> kernel \<Rightarrow> kernel" where
  "g_usleep usec k =
     (let k1 = others_run k
      in k1\<lparr>now := now k1 + usec, slept := slept k1 + usec, signals := e_signals (env k) (ticks k)\<rparr>)"

lemma others_run_simps [simp]:
  "descriptors (others_run k) = descriptors k" "locks (others_run k) = locks k"
  "next_fd (others_run k) = next_fd k" "env (others_run k) = env k" "slept (others_run k) = slept k"
  "signals (others_run k) = signals k" "modes (others_run k) = modes k" "settings (others_run k) = settings k"
  "now (others_run k) = now k + int (e_delay (env k) (ticks k))"
  by (simp_all add: others_run_def)

lemma sys_flock_now: "sys_flock fd k = (r, k') \<Longrightarrow> now k \<le> now k'"
  by (auto simp: sys_flock_def Let_def split: if_splits flock_answer.splits)

lemma sys_flock_EINTR:
  "sys_flock fd k = (Some EINTR, k') \<Longrightarrow> signals k' < signals k"
  by (auto simp: sys_flock_def Let_def split: if_splits flock_answer.splits)

section \<open>The lock\<close>

datatype lock_result = LOCK_OK | LOCK_BUSY | LOCK_IO_ERROR | LOCK_ALREADY_HELD

definition SS_LINUX_ADVISORY_LOCK_MAX_WAIT_USEC :: int where
  "SS_LINUX_ADVISORY_LOCK_MAX_WAIT_USEC = 50 * 1000"

text \<open>The loop on the open descriptor: the new value of the field \<open>fd\<close> when the lock is taken.\<close>

function acquire_loop :: "int \<Rightarrow> int \<Rightarrow> int \<Rightarrow> int \<Rightarrow> kernel \<Rightarrow> lock_result \<times> int option \<times> kernel" where
  "acquire_loop fd bounded_wait_usec deadline retry_usec k =
     (case sys_flock fd k of
        (None, k1) \<Rightarrow> (LOCK_OK, Some fd, k1)
      | (Some e, k1) \<Rightarrow>
          if e = EINTR then acquire_loop fd bounded_wait_usec deadline retry_usec k1
          else if e \<noteq> EWOULDBLOCK \<and> e \<noteq> EAGAIN then (LOCK_IO_ERROR, None, sys_close fd k1)
          else
            (let remaining = deadline - now k1 in
             if bounded_wait_usec \<le> 0 \<or> remaining \<le> 0 then (LOCK_BUSY, None, sys_close fd k1)
             else acquire_loop fd bounded_wait_usec deadline retry_usec
                    (g_usleep (min (max retry_usec 1) remaining) k1)))"
  by auto

termination
proof (relation "measures [\<lambda>(fd, b, d, r, k). nat (d - now k), \<lambda>(fd, b, d, r, k). signals k]", goal_cases)
  case 1
  then show ?case by simp
next
  case (2 fd b d r k x k1 e)
  then have "sys_flock fd k = (Some EINTR, k1)" by simp
  from sys_flock_now[OF this] sys_flock_EINTR[OF this] show ?case by auto
next
  case (3 fd b d r k x k1 e rem)
  then have "sys_flock fd k = (Some e, k1)" "rem = d - now k1" "0 < rem" by auto
  then show ?case using sys_flock_now[of fd k "Some e" k1]
    by (auto simp: g_usleep_def Let_def min_def max_def)
qed

declare acquire_loop.simps [simp del]

text \<open>A null lock pointer is \<open>None\<close>; the field \<open>fd\<close> is returned with the new kernel state.\<close>

definition ss_linux_advisory_lock_acquire ::
  "int option \<Rightarrow> string option \<Rightarrow> string option \<Rightarrow> int \<Rightarrow> int \<Rightarrow> kernel \<Rightarrow> lock_result \<times> int option \<times> kernel" where
  "ss_linux_advisory_lock_acquire lock directory lock_path wait_usec retry_usec k =
     (let bounded_wait_usec = min (max wait_usec 0) SS_LINUX_ADVISORY_LOCK_MAX_WAIT_USEC;
          deadline = now k + bounded_wait_usec
      in case (lock, directory, lock_path) of
           (Some held, Some dir, Some path) \<Rightarrow>
             if dir = [] \<or> path = [] then (LOCK_IO_ERROR, lock, k)
             else if 0 \<le> held then (LOCK_ALREADY_HELD, lock, k)
             else
               (let (made, k1) = g_mkdir_with_parents dir k in
                if made \<noteq> None \<and> made \<noteq> Some EEXIST then (LOCK_IO_ERROR, lock, k1)
                else
                  (let (changed, k2) = g_chmod dir 448 k1 in
                   if \<not> changed then (LOCK_IO_ERROR, lock, k2)
                   else
                     (let (fd, k3) = sys_open path k2 in
                      if fd < 0 then (LOCK_IO_ERROR, lock, k3)
                      else (case acquire_loop fd bounded_wait_usec deadline retry_usec k3 of
                              (r, Some fd', k4) \<Rightarrow> (r, Some fd', k4)
                            | (r, None, k4) \<Rightarrow> (r, lock, k4)))))
         | _ \<Rightarrow> (LOCK_IO_ERROR, lock, k))"

definition ss_linux_advisory_lock_release :: "int option \<Rightarrow> kernel \<Rightarrow> int option \<times> kernel" where
  "ss_linux_advisory_lock_release lock k =
     (case lock of
        None \<Rightarrow> (lock, k)
      | Some fd \<Rightarrow> if fd < 0 then (lock, k) else (Some (- 1), sys_close fd (sys_funlock fd k)))"

section \<open>What acquiring changes\<close>

text \<open>Descriptors are numbered below \<open>next_fd\<close> and locks are held on open ones.\<close>

definition wf_kernel :: "kernel \<Rightarrow> bool" where
  "wf_kernel k \<longleftrightarrow>
     (\<forall>fd. fd < 0 \<or> int (next_fd k) \<le> fd \<longrightarrow> descriptors k fd = None) \<and>
     (\<forall>fd \<in> set (locks k). descriptors k fd \<noteq> None)"

text \<open>The files guarded by the locks held in \<open>k\<close> are the same in \<open>k'\<close>.\<close>

definition guarded_same :: "kernel \<Rightarrow> kernel \<Rightarrow> bool" where
  "guarded_same k k' \<longleftrightarrow> (\<forall>p. protected k p \<longrightarrow> files k' p = files k p)"

lemma others_run_guarded: "protected k p \<Longrightarrow> files (others_run k) p = files k p"
  by (simp add: others_run_def split: option.split)

lemma protected_cong:
  "descriptors k' = descriptors k \<Longrightarrow> locks k' = locks k \<Longrightarrow> env k' = env k \<Longrightarrow> protected k' p = protected k p"
  by (simp add: protected_def)

lemma protected_more:
  "protected k p \<Longrightarrow> set (locks k) \<subseteq> set (locks k') \<Longrightarrow> env k' = env k \<Longrightarrow>
     \<forall>fd \<in> set (locks k). descriptors k' fd = descriptors k fd \<Longrightarrow> protected k' p"
  unfolding protected_def list_ex_iff by (metis subsetD)

lemma sys_flock_frame:
  "sys_flock fd k = (r, k') \<Longrightarrow>
     descriptors k' = descriptors k \<and> next_fd k' = next_fd k \<and> env k' = env k \<and> slept k' = slept k \<and>
     (\<forall>p. protected k p \<longrightarrow> files k' p = files k p) \<and>
     locks k' = (if r = None then fd # locks k else locks k) \<and>
     (r = None \<longrightarrow> (\<forall>x \<in> set (locks k). x \<noteq> fd \<longrightarrow> descriptors k x \<noteq> descriptors k fd))"
  by (auto simp: sys_flock_def Let_def others_run_guarded list_ex_iff split: if_splits flock_answer.splits)

lemma g_usleep_frame:
  "descriptors (g_usleep s k) = descriptors k" "locks (g_usleep s k) = locks k" "env (g_usleep s k) = env k"
  "next_fd (g_usleep s k) = next_fd k" "slept (g_usleep s k) = slept k + s" "now k + s \<le> now (g_usleep s k)"
  "protected k p \<Longrightarrow> files (g_usleep s k) p = files k p"
  by (simp_all add: g_usleep_def Let_def others_run_guarded)

lemma acquire_loop_frame:
  "acquire_loop fd b d r k = (res, got, k') \<Longrightarrow> fd \<notin> set (locks k) \<Longrightarrow>
     env k' = env k \<and> next_fd k' = next_fd k \<and>
     (\<forall>p. protected k p \<longrightarrow> files k' p = files k p) \<and>
     slept k' \<le> slept k + max 0 (d - now k) \<and> (b \<le> 0 \<longrightarrow> slept k' = slept k) \<and>
     (if res = LOCK_OK then got = Some fd \<and> descriptors k' = descriptors k \<and> locks k' = fd # locks k \<and>
                          (\<forall>x \<in> set (locks k). descriptors k x \<noteq> descriptors k fd)
      else got = None \<and> descriptors k' = (descriptors k)(fd := None) \<and> locks k' = locks k)"
proof (induction fd b d r k rule: acquire_loop.induct)
  case (1 fd b d r k)
  obtain q k1 where fl: "sys_flock fd k = (q, k1)" by (cases "sys_flock fd k") auto
  note F = sys_flock_frame[OF fl]
  have t: "now k \<le> now k1" using sys_flock_now[OF fl] .
  have fil: "filter (\<lambda>x. x \<noteq> fd) (locks k) = locks k"
    using "1.prems"(2) by (auto simp: filter_id_conv)
  show ?case
  proof (cases q)
    case None
    with fl "1.prems" have "res = LOCK_OK" "got = Some fd" "k' = k1" by (auto simp: acquire_loop.simps)
    with F None "1.prems"(2) show ?thesis by auto
  next
    case (Some e)
    then have k1: "descriptors k1 = descriptors k" "locks k1 = locks k" "env k1 = env k" "next_fd k1 = next_fd k"
       "slept k1 = slept k" "\<forall>p. protected k p \<longrightarrow> files k1 p = files k p" using F by auto
    have pr: "protected k1 p = protected k p" for p using k1 by (intro protected_cong) auto
    consider "e = EINTR" | "e \<noteq> EINTR" "e \<noteq> EWOULDBLOCK" "e \<noteq> EAGAIN"
      | "e \<noteq> EINTR" "e = EWOULDBLOCK \<or> e = EAGAIN" by auto
    then show ?thesis
    proof cases
      case 1
      with fl Some "1.prems" have l: "acquire_loop fd b d r k1 = (res, got, k')" by (simp add: acquire_loop.simps)
      from "1.IH"(1)[OF fl[symmetric] Some 1 l] "1.prems"(2) k1 pr t show ?thesis by auto
    next
      case 2
      with fl Some "1.prems" have "res = LOCK_IO_ERROR" "got = None" "k' = sys_close fd k1"
        by (auto simp: acquire_loop.simps)
      then show ?thesis using k1 fil by (simp add: sys_close_def)
    next
      case 3
      show ?thesis
      proof (cases "b \<le> 0 \<or> d - now k1 \<le> 0")
        case True
        with fl Some 3 "1.prems" have "res = LOCK_BUSY" "got = None" "k' = sys_close fd k1"
          by (auto simp: acquire_loop.simps)
        then show ?thesis using k1 fil by (simp add: sys_close_def)
      next
        case False
        define s where "s = min (max r 1) (d - now k1)"
        let ?s = s
        let ?k2 = "g_usleep s k1"
        have s: "s \<le> d - now k1" "0 < s" using False by (auto simp: s_def)
        from False fl Some 3 "1.prems" have l: "acquire_loop fd b d r ?k2 = (res, got, k')"
          by (auto simp: acquire_loop.simps Let_def s_def)
        have k2: "descriptors ?k2 = descriptors k" "locks ?k2 = locks k" "env ?k2 = env k"
           "next_fd ?k2 = next_fd k" "slept ?k2 = slept k + ?s" "now k1 + ?s \<le> now ?k2"
           "\<forall>p. protected k1 p \<longrightarrow> files ?k2 p = files k1 p"
          using g_usleep_frame[where s = s and k = k1] k1 by simp_all
        have pr2: "protected ?k2 p = protected k p" for p using k2 by (intro protected_cong) auto
        have fd: "fd \<notin> set (locks ?k2)" using k2 "1.prems"(2) by simp
        have IH: "acquire_loop fd b d r ?k2 = (res, got, k') \<Longrightarrow> fd \<notin> set (locks ?k2) \<Longrightarrow>
             env k' = env ?k2 \<and> next_fd k' = next_fd ?k2 \<and>
             (\<forall>p. protected ?k2 p \<longrightarrow> files k' p = files ?k2 p) \<and>
             slept k' \<le> slept ?k2 + max 0 (d - now ?k2) \<and> (b \<le> 0 \<longrightarrow> slept k' = slept ?k2) \<and>
             (if res = LOCK_OK then got = Some fd \<and> descriptors k' = descriptors ?k2 \<and> locks k' = fd # locks ?k2 \<and>
                (\<forall>x \<in> set (locks ?k2). descriptors ?k2 x \<noteq> descriptors ?k2 fd)
              else got = None \<and> descriptors k' = (descriptors ?k2)(fd := None) \<and> locks k' = locks ?k2)"
          unfolding s_def by (rule "1.IH"(2)[OF fl[symmetric] Some]) (use 3 False in auto)
        have "slept k + ?s + max 0 (d - now ?k2) \<le> slept k + max 0 (d - now k)"
          using k2(6) t s by linarith
        moreover note H = IH[OF l fd, unfolded k2(1-5) pr2]
        moreover have "\<forall>p. protected k p \<longrightarrow> files ?k2 p = files k p" using k1(6) k2(7) pr by simp
        moreover have "slept k' \<le> slept k + s + max 0 (d - now ?k2)" using H by blast
        ultimately have "slept k' \<le> slept k + max 0 (d - now k)"
          "\<forall>p. protected k p \<longrightarrow> files k' p = files k p" by (linarith, simp)
        then show ?thesis using H False by auto
      qed
    qed
  qed
qed

lemma filter_fresh: "fd \<notin> set xs \<Longrightarrow> filter (\<lambda>x. x \<noteq> fd) xs = xs"
  by (auto simp: filter_id_conv)

lemma sys_open_frame:
  assumes "sys_open path k = (fd, k')"
  shows "locks k' = locks k \<and> env k' = env k \<and> slept k' = slept k \<and> now k \<le> now k' \<and>
    (\<forall>p. protected k p \<longrightarrow> p \<noteq> path \<longrightarrow> files k' p = files k p) \<and>
    (if fd < 0 then descriptors k' = descriptors k \<and> next_fd k' = next_fd k
     else fd = int (next_fd k) \<and> next_fd k' = next_fd k + 1 \<and>
          descriptors k' = (descriptors k)(fd := Some path))"
  using assms by (auto simp: sys_open_def Let_def others_run_guarded split: if_splits option.splits)

text \<open>
  The complete effect of a call on an idle lock: on success it owns a new descriptor locked on the
  file, and on every failure the descriptors and the locks of the process are what they were.
\<close>

lemma acquire_frame:
  assumes "wf_kernel k" "h < 0"
    and "ss_linux_advisory_lock_acquire (Some h) (Some dir) (Some path) wait retry k = (res, lock', k')"
  shows "wf_kernel k' \<and> env k' = env k \<and>
    (\<forall>p. protected k p \<longrightarrow> p \<noteq> path \<longrightarrow> files k' p = files k p) \<and>
    slept k' - slept k \<le> min (max wait 0) 50000 \<and>
    (if res = LOCK_OK then
       (\<exists>fd. lock' = Some fd \<and> 0 \<le> fd \<and> descriptors k fd = None \<and> fd \<notin> set (locks k) \<and>
             descriptors k' = (descriptors k)(fd := Some path) \<and> locks k' = fd # locks k \<and>
             (\<forall>x \<in> set (locks k). descriptors k x \<noteq> Some path))
     else lock' = Some h \<and> descriptors k' = descriptors k \<and> locks k' = locks k)"
proof (cases "dir = [] \<or> path = []")
  case True
  with assms show ?thesis by (auto simp: ss_linux_advisory_lock_acquire_def Let_def)
next
  case False
  define b where "b = min (max wait 0) SS_LINUX_ADVISORY_LOCK_MAX_WAIT_USEC"
  have b: "b = min (max wait 0) 50000" "0 \<le> b" by (auto simp: b_def SS_LINUX_ADVISORY_LOCK_MAX_WAIT_USEC_def)
  obtain made k1 where mk: "g_mkdir_with_parents dir k = (made, k1)" by (cases "g_mkdir_with_parents dir k") auto
  obtain changed k2 where ch: "g_chmod dir 448 k1 = (changed, k2)" by (cases "g_chmod dir 448 k1") auto
  obtain fd k3 where op: "sys_open path k2 = (fd, k3)" by (cases "sys_open path k2") auto
  have k1: "descriptors k1 = descriptors k" "locks k1 = locks k" "env k1 = env k" "next_fd k1 = next_fd k"
     "slept k1 = slept k" "now k \<le> now k1" "\<forall>p. protected k p \<longrightarrow> files k1 p = files k p"
    using mk by (auto simp: g_mkdir_with_parents_def others_run_guarded)
  have p1: "protected k1 p = protected k p" for p using k1 by (intro protected_cong) auto
  have k2: "descriptors k2 = descriptors k" "locks k2 = locks k" "env k2 = env k" "next_fd k2 = next_fd k"
     "slept k2 = slept k" "now k \<le> now k2" "\<forall>p. protected k p \<longrightarrow> files k2 p = files k p"
    using ch k1 p1 by (auto simp: g_chmod_def others_run_guarded split: if_splits)
  have p2: "protected k2 p = protected k p" for p using k2 by (intro protected_cong) auto
  note k3 = sys_open_frame[OF op, unfolded k2(1-5) p2]
  have wf1: "wf_kernel k1" "wf_kernel k2" using assms(1) k1 k2 by (simp_all add: wf_kernel_def)
  have same: "ss_linux_advisory_lock_acquire (Some h) (Some dir) (Some path) wait retry k =
     (if made \<noteq> None \<and> made \<noteq> Some EEXIST then (LOCK_IO_ERROR, Some h, k1)
      else if \<not> changed then (LOCK_IO_ERROR, Some h, k2)
      else if fd < 0 then (LOCK_IO_ERROR, Some h, k3)
      else (case acquire_loop fd b (now k + b) retry k3 of
              (r, Some fd', k4) \<Rightarrow> (r, Some fd', k4) | (r, None, k4) \<Rightarrow> (r, Some h, k4)))"
    using False assms(2) mk ch op by (simp add: ss_linux_advisory_lock_acquire_def Let_def b_def)
  consider "made \<noteq> None \<and> made \<noteq> Some EEXIST" | "\<not> (made \<noteq> None \<and> made \<noteq> Some EEXIST)" "\<not> changed"
    | "\<not> (made \<noteq> None \<and> made \<noteq> Some EEXIST)" "changed" "fd < 0"
    | "\<not> (made \<noteq> None \<and> made \<noteq> Some EEXIST)" "changed" "0 \<le> fd" by linarith
  then show ?thesis
  proof cases
    case 1
    with assms(3) same have "res = LOCK_IO_ERROR" "lock' = Some h" "k' = k1" by auto
    with k1 wf1 b show ?thesis by simp
  next
    case 2
    with assms(3) same have "res = LOCK_IO_ERROR" "lock' = Some h" "k' = k2" by (auto split: if_splits)
    with k2 wf1 b show ?thesis by simp
  next
    case 3
    with assms(3) same have r: "res = LOCK_IO_ERROR" "lock' = Some h" "k' = k3" by (auto split: if_splits)
    have "descriptors k3 = descriptors k2" "locks k3 = locks k2" "next_fd k3 = next_fd k2" using k3 3 k2 by auto
    then have "wf_kernel k3" using wf1(2) by (simp add: wf_kernel_def)
    with r k3 3 k2 b show ?thesis by auto
  next
    case 4
    obtain q got k4 where al: "acquire_loop fd b (now k + b) retry k3 = (q, got, k4)"
      by (cases "acquire_loop fd b (now k + b) retry k3") auto
    from k3 4 have fd: "fd = int (next_fd k)" "next_fd k3 = next_fd k + 1" "locks k3 = locks k" "env k3 = env k"
      "slept k3 = slept k" "descriptors k3 = (descriptors k)(fd := Some path)"
      "\<forall>p. protected k p \<longrightarrow> p \<noteq> path \<longrightarrow> files k3 p = files k p" using k2(7) by auto
    have fresh: "descriptors k fd = None" "fd \<notin> set (locks k)" using assms(1) fd(1) by (auto simp: wf_kernel_def)
    have fr3: "fd \<notin> set (locks k3)" using fresh fd by simp
    note A = acquire_loop_frame[OF al fr3]
    have now3: "now k2 \<le> now k3" using sys_open_frame[OF op] by blast
    have pk3: "protected k p \<Longrightarrow> protected k3 p" for p
      by (rule protected_more[of k]) (use fd fresh in auto)
    have sl: "slept k4 - slept k \<le> b" using A fd(5) now3 k2(6) b by (auto simp: max_def split: if_splits)
    have fl: "\<forall>p. protected k p \<longrightarrow> p \<noteq> path \<longrightarrow> files k4 p = files k p" using A fd(7) pk3 by auto
    have other: "\<forall>x \<in> set (locks k). descriptors k3 x = descriptors k x" using fresh fd by auto
    show ?thesis
    proof (cases "q = LOCK_OK")
      case True
      with A have a: "got = Some fd" "descriptors k4 = descriptors k3" "locks k4 = fd # locks k3"
         "\<forall>x \<in> set (locks k3). descriptors k3 x \<noteq> descriptors k3 fd" "env k4 = env k3" "next_fd k4 = next_fd k3" by auto
      with assms(3) same 4 al True have r: "res = LOCK_OK" "lock' = Some fd" "k' = k4" by (auto split: if_splits)
      have wf4: "wf_kernel k4" using assms(1) a fd by (auto simp: wf_kernel_def)
      have nl: "\<forall>x \<in> set (locks k). descriptors k x \<noteq> Some path" using a fd other by auto
      have "\<exists>fd. lock' = Some fd \<and> 0 \<le> fd \<and> descriptors k fd = None \<and> fd \<notin> set (locks k) \<and>
             descriptors k' = (descriptors k)(fd := Some path) \<and> locks k' = fd # locks k \<and>
             (\<forall>x \<in> set (locks k). descriptors k x \<noteq> Some path)"
        using r a fd fresh nl 4 by (intro exI[of _ fd]) simp
      then show ?thesis using r wf4 a fd sl fl b by simp
    next
      case False
      with A have a: "got = None" "descriptors k4 = (descriptors k3)(fd := None)" "locks k4 = locks k3"
         "env k4 = env k3" "next_fd k4 = next_fd k3" by auto
      with assms(3) same 4 al have r: "res = q" "lock' = Some h" "k' = k4" by (auto split: if_splits)
      have d4: "descriptors k4 = descriptors k" using a fd fresh by (auto simp: fun_eq_iff)
      have wf4: "wf_kernel k4" using assms(1) a fd d4 by (auto simp: wf_kernel_def)
      show ?thesis using r False wf4 a fd sl fl b d4 by simp
    qed
  qed
qed

lemma release_frame:
  assumes "wf_kernel k" "0 \<le> fd"
  shows "ss_linux_advisory_lock_release (Some fd) k =
           (Some (- 1), k\<lparr>locks := filter (\<lambda>x. x \<noteq> fd) (locks k), descriptors := (descriptors k)(fd := None)\<rparr>)"
    and "wf_kernel (snd (ss_linux_advisory_lock_release (Some fd) k))"
  using assms by (auto simp: ss_linux_advisory_lock_release_def sys_close_def sys_funlock_def wf_kernel_def)

text \<open>
  C9: acquiring the advisory lock never leaks a descriptor and never sleeps longer than the wait the
  caller asked for nor than fifty milliseconds, whatever the file system answers and however often
  signals interrupt it; success owns one new descriptor locked on the file and excludes a second
  lock of the process on it, failure leaves locks, descriptors and the lock structure as they were.
\<close>

theorem advisory_lock_acquire:
  assumes "wf_kernel k" "h < 0"
    and "ss_linux_advisory_lock_acquire (Some h) (Some dir) (Some path) wait retry k = (res, lock', k')"
  shows "slept k' - slept k \<le> min (max wait 0) 50000 \<and>
    (\<forall>p. protected k p \<longrightarrow> p \<noteq> path \<longrightarrow> files k' p = files k p) \<and>
    (if res = LOCK_OK then
       (\<exists>fd. lock' = Some fd \<and> 0 \<le> fd \<and> descriptors k' = (descriptors k)(fd := Some path) \<and>
             descriptors k fd = None \<and> locks k' = fd # locks k \<and> (\<forall>x \<in> set (locks k). descriptors k x \<noteq> Some path))
     else lock' = Some h \<and> descriptors k' = descriptors k \<and> locks k' = locks k)"
  using acquire_frame[OF assms] by (cases "res = LOCK_OK") auto

section \<open>An instance\<close>

text \<open>A system on which every call succeeds, except that the lock is busy until the clock is at 2.\<close>

definition sample_environment :: environment where
  "sample_environment = \<lparr>guard = (\<lambda>p. ''lock''), e_write = (\<lambda>n. None), e_delay = (\<lambda>n. 1),
     e_signals = (\<lambda>n. 0), e_mkdir = (\<lambda>n. None), e_chmod = (\<lambda>n. True), e_open = (\<lambda>n. True),
     e_flock = (\<lambda>n. if n = 4 then Busy else Granted)\<rparr>"

definition sample_kernel :: kernel where
  "sample_kernel = \<lparr>files = (\<lambda>p. None), modes = (\<lambda>p. None), settings = (\<lambda>s k. None),
     descriptors = (\<lambda>fd. None), locks = [], next_fd = 3, now = 0, slept = 0, signals = 1, ticks = 0,
     env = sample_environment\<rparr>"

lemma sample_acquire:
  "fst (ss_linux_advisory_lock_acquire (Some (- 1)) (Some ''d'') (Some ''lock'') 50000 5000 sample_kernel) = LOCK_OK \<and>
   fst (snd (ss_linux_advisory_lock_acquire (Some (- 1)) (Some ''d'') (Some ''lock'') 50000 5000 sample_kernel)) = Some 3 \<and>
   slept (snd (snd (ss_linux_advisory_lock_acquire (Some (- 1)) (Some ''d'') (Some ''lock'') 50000 5000 sample_kernel))) = 5000"
  by code_simp

theorem advisory_lock_acquire_witness:
  "\<exists>k'. ss_linux_advisory_lock_acquire (Some (- 1)) (Some ''d'') (Some ''lock'') 50000 5000 sample_kernel = (LOCK_OK, Some 3, k') \<and>
     slept k' - slept sample_kernel \<le> min (max 50000 0) 50000"
proof -
  obtain k' where e: "ss_linux_advisory_lock_acquire (Some (- 1)) (Some ''d'') (Some ''lock'') 50000 5000 sample_kernel =
      (LOCK_OK, Some 3, k')" using sample_acquire by (metis prod.collapse)
  have "wf_kernel sample_kernel" by (simp add: wf_kernel_def sample_kernel_def)
  from advisory_lock_acquire[OF this _ e] e show ?thesis by auto
qed

end
