(* ===== verification/Linux.thy ===== *)
theory Linux
  imports Common Glib AdvisoryLock
begin

text \<open>
  The Linux process: the functions of Infiltrator Common, GLib and GSettings the platform code calls,
  as one record of parameters over the kernel state, the paths of the shared files, and what the
  code relies on of those functions.
\<close>

text \<open>What reading a whole file gives: its bytes, the error \<open>NOENT\<close>, or another file error.\<close>

datatype file_result = Contents string | NotFound | FileError

text \<open>
  \<open>GKeyFile\<close> values are raw texts by group and key. \<open>settings_set\<close> is the setter of every value type
  of \<open>GSettings\<close>; the stored values themselves are the kernel component \<open>settings\<close>.
\<close>

type_synonym key_file = "string \<Rightarrow> string \<Rightarrow> string option"

record linux_lib =
  lib_common :: common
  lib_glib :: glib
  user_config_dir :: string
  posix_policy_load :: "kernel \<Rightarrow> io_result \<times> policy \<times> bool \<times> kernel"
  posix_policy_save :: "policy \<Rightarrow> kernel \<Rightarrow> int \<times> kernel"
  unlink_durable :: "string \<Rightarrow> bool \<Rightarrow> kernel \<Rightarrow> int \<times> kernel"
  mkdir_parents :: "string \<Rightarrow> nat \<Rightarrow> kernel \<Rightarrow> int \<times> kernel"
  atomic_file_write_private :: "string \<Rightarrow> string \<Rightarrow> kernel \<Rightarrow> int \<times> kernel"
  load_file :: "string \<Rightarrow> kernel \<Rightarrow> file_result \<times> kernel"
  key_file_parse :: "string \<Rightarrow> key_file option"
  key_file_data :: "key_file \<Rightarrow> string"
  key_string_value :: "string \<Rightarrow> string option"
  key_string_raw :: "string \<Rightarrow> string"
  key_double_value :: "string \<Rightarrow> double option"
  key_double_raw :: "double \<Rightarrow> string"
  schema_source :: bool
  schema_keys :: "string \<Rightarrow> string list option"
  settings_set :: "string \<Rightarrow> string \<Rightarrow> gvalue \<Rightarrow> kernel \<Rightarrow> bool \<times> kernel"

text \<open>The process: its two lock structures, by their field \<open>fd\<close>, and the kernel.\<close>

record world =
  lib :: linux_lib
  kern :: kernel
  update_lock :: int
  locality_transaction_lock :: int

section \<open>Paths\<close>

definition infiltrator_path :: "linux_lib \<Rightarrow> string list \<Rightarrow> string" where
  "infiltrator_path L names = g_build_filename (lib_glib L) (user_config_dir L # ''infiltrator'' # names)"

abbreviation policy_path :: "linux_lib \<Rightarrow> string" where
  "policy_path L \<equiv> infiltrator_path L [''presentation.conf'']"

abbreviation policy_lock_path :: "linux_lib \<Rightarrow> string" where
  "policy_lock_path L \<equiv> g_build_filename (lib_glib L) [infiltrator_path L [], ''presentation.lock'']"

abbreviation metadata_path :: "linux_lib \<Rightarrow> string" where
  "metadata_path L \<equiv> infiltrator_path L [''system-settings'', ''location.ini'']"

abbreviation pending_path :: "linux_lib \<Rightarrow> string" where
  "pending_path L \<equiv> infiltrator_path L [''system-settings'', ''location.pending'']"

abbreviation metadata_lock_file :: "linux_lib \<Rightarrow> string" where
  "metadata_lock_file L \<equiv> infiltrator_path L [''system-settings'', ''location.lock'']"

section \<open>What the code relies on\<close>

text \<open>
  A library call leaves descriptors, locks and the environment alone and changes no file that is
  guarded here, but those of the set \<open>S\<close>.
\<close>

definition frame_but :: "string set \<Rightarrow> kernel \<Rightarrow> kernel \<Rightarrow> bool" where
  "frame_but S k k' \<longleftrightarrow>
     descriptors k' = descriptors k \<and> locks k' = locks k \<and> next_fd k' = next_fd k \<and> env k' = env k \<and>
     (\<forall>p. protected k p \<longrightarrow> p \<notin> S \<longrightarrow> files k' p = files k p)"

text \<open>What the policy format keeps of a policy.\<close>

definition stored :: "common \<Rightarrow> policy \<Rightarrow> policy" where
  "stored cm p =
     (case policy_v3_serialize cm p 1024 of None \<Rightarrow> p
      | Some t \<Rightarrow> (case policy_v3_parse cm t of None \<Rightarrow> p | Some q \<Rightarrow> q))"

definition policy_text :: "common \<Rightarrow> string option \<Rightarrow> policy option" where
  "policy_text cm contents = (case contents of None \<Rightarrow> None | Some t \<Rightarrow> policy_v3_parse cm t)"

definition format_documented :: "common \<Rightarrow> bool" where
  "format_documented cm \<longleftrightarrow> (\<forall>t p. policy_v3_parse cm t = Some p \<longrightarrow> stored cm p = p)"

definition policy_io_documented :: "linux_lib \<Rightarrow> bool" where
  "policy_io_documented L \<longleftrightarrow>
     (\<forall>k r p f k'. posix_policy_load L k = (r, p, f, k') \<longrightarrow>
        frame_but {} k k' \<and>
        (r = IO_OK \<and> f \<longrightarrow> policy_text (lib_common L) (files k' (policy_path L)) = Some p) \<and>
        (r = IO_OK \<and> \<not> f \<longrightarrow> files k' (policy_path L) = None \<and> policy_v3_default (lib_common L) = Some p) \<and>
        (r = IO_INVALID_VALUE \<or> r = IO_EMPTY \<longrightarrow>
           files k' (policy_path L) \<noteq> None \<and> policy_text (lib_common L) (files k' (policy_path L)) = None)) \<and>
     (\<forall>k p r k'. posix_policy_save L p k = (r, k') \<longrightarrow>
        frame_but {policy_path L} k k' \<and>
        (if r = 0 then policy_text (lib_common L) (files k' (policy_path L)) = Some (stored (lib_common L) p)
         else protected k (policy_path L) \<longrightarrow>
              files k' (policy_path L) = files k (policy_path L) \<or>
              policy_text (lib_common L) (files k' (policy_path L)) = Some (stored (lib_common L) p)))"

definition unlink_documented :: "linux_lib \<Rightarrow> bool" where
  "unlink_documented L \<longleftrightarrow>
     (\<forall>p m k r k'. unlink_durable L p m k = (r, k') \<longrightarrow>
        frame_but {p} k k' \<and>
        (r = 0 \<longrightarrow> files k' p = None) \<and>
        (protected k p \<longrightarrow> files k' p = files k p \<or> files k' p = None))"

definition write_documented :: "linux_lib \<Rightarrow> bool" where
  "write_documented L \<longleftrightarrow>
     (\<forall>p d k r k'. atomic_file_write_private L p d k = (r, k') \<longrightarrow>
        frame_but {p} k k' \<and>
        (r = 0 \<longrightarrow> files k' p = Some d) \<and>
        (protected k p \<longrightarrow> files k' p = files k p \<or> files k' p = Some d))"

definition read_documented :: "linux_lib \<Rightarrow> bool" where
  "read_documented L \<longleftrightarrow>
     (\<forall>p m k r k'. mkdir_parents L p m k = (r, k') \<longrightarrow> frame_but {} k k') \<and>
     (\<forall>p k r k'. load_file L p k = (r, k') \<longrightarrow>
        frame_but {} k k' \<and>
        (\<forall>c. r = Contents c \<longrightarrow> files k' p = Some c) \<and> (r = NotFound \<longrightarrow> files k' p = None))"

definition settings_documented :: "linux_lib \<Rightarrow> bool" where
  "settings_documented L \<longleftrightarrow>
     (\<forall>s key v k b k'. settings_set L s key v k = (b, k') \<longrightarrow>
        frame_but {} k k' \<and>
        settings k' = (if b then (settings k)(s := (settings k s)(key \<mapsto> v)) else settings k))"

text \<open>The other processes take the lock of a shared file before they write it, and the paths differ.\<close>

definition guards_documented :: "linux_lib \<Rightarrow> environment \<Rightarrow> bool" where
  "guards_documented L e \<longleftrightarrow>
     guard e (policy_path L) = policy_lock_path L \<and>
     guard e (metadata_path L) = metadata_lock_file L \<and>
     guard e (pending_path L) = metadata_lock_file L \<and>
     distinct [policy_path L, policy_lock_path L, metadata_path L, pending_path L, metadata_lock_file L] \<and>
     policy_lock_path L \<noteq> [] \<and> metadata_lock_file L \<noteq> []"

text \<open>A lock structure owns its file when its descriptor is open on it and locked.\<close>

definition owns :: "kernel \<Rightarrow> int \<Rightarrow> string \<Rightarrow> bool" where
  "owns k fd path \<longleftrightarrow> fd \<in> set (locks k) \<and> descriptors k fd = Some path"

definition world_ok :: "world \<Rightarrow> bool" where
  "world_ok w \<longleftrightarrow>
     format_documented (lib_common (lib w)) \<and> policy_io_documented (lib w) \<and>
     unlink_documented (lib w) \<and> write_documented (lib w) \<and>
     read_documented (lib w) \<and> settings_documented (lib w) \<and>
     guards_documented (lib w) (env (kern w)) \<and> wf_kernel (kern w) \<and>
     (0 \<le> update_lock w \<longrightarrow> owns (kern w) (update_lock w) (policy_lock_path (lib w))) \<and>
     (0 \<le> locality_transaction_lock w \<longrightarrow>
        owns (kern w) (locality_transaction_lock w) (metadata_lock_file (lib w)))"

abbreviation file_of :: "world \<Rightarrow> string \<Rightarrow> string option" where
  "file_of w p \<equiv> files (kern w) p"

definition policy_locked :: "world \<Rightarrow> bool" where
  "policy_locked w \<longleftrightarrow> 0 \<le> update_lock w"

definition locality_locked :: "world \<Rightarrow> bool" where
  "locality_locked w \<longleftrightarrow> 0 \<le> locality_transaction_lock w"

text \<open>The explicit policy a reader finds.\<close>

definition policy_view :: "world \<Rightarrow> policy option" where
  "policy_view w = policy_text (lib_common (lib w)) (file_of w (policy_path (lib w)))"

lemma frame_but_refl: "frame_but S k k"
  by (simp add: frame_but_def)

lemma frame_but_trans: "frame_but S k k1 \<Longrightarrow> frame_but T k1 k2 \<Longrightarrow> frame_but (S \<union> T) k k2"
  using protected_cong[of k1 k] by (auto simp: frame_but_def)

lemma frame_but_trans0: "frame_but {} k k1 \<Longrightarrow> frame_but {} k1 k2 \<Longrightarrow> frame_but {} k k2"
  using frame_but_trans[of "{}" k k1 "{}" k2] by simp

lemma frame_but_mono: "frame_but S k k' \<Longrightarrow> S \<subseteq> T \<Longrightarrow> frame_but T k k'"
  by (auto simp: frame_but_def)

lemma frame_but_ok:
  "frame_but S (kern w) k' \<Longrightarrow> world_ok w \<Longrightarrow> world_ok (w\<lparr>kern := k'\<rparr>)"
  by (simp add: frame_but_def world_ok_def wf_kernel_def owns_def)

lemma owned_protected:
  "owns k fd (guard (env k) p) \<Longrightarrow> protected k p"
  by (auto simp: owns_def protected_def list_ex_iff)

lemma locked_protected:
  "world_ok w \<Longrightarrow> policy_locked w \<Longrightarrow> protected (kern w) (policy_path (lib w))"
  "world_ok w \<Longrightarrow> locality_locked w \<Longrightarrow> protected (kern w) (metadata_path (lib w))"
  "world_ok w \<Longrightarrow> locality_locked w \<Longrightarrow> protected (kern w) (pending_path (lib w))"
  by (auto simp: world_ok_def guards_documented_def policy_locked_def locality_locked_def intro!: owned_protected)

lemma paths_distinct:
  "world_ok w \<Longrightarrow> distinct [policy_path (lib w), policy_lock_path (lib w), metadata_path (lib w),
                            pending_path (lib w), metadata_lock_file (lib w)]"
  by (simp add: world_ok_def guards_documented_def)

text \<open>The documented behaviours at one call.\<close>

lemma unlink_call:
  "world_ok w \<Longrightarrow> unlink_durable (lib w) p m k = (r, k') \<Longrightarrow>
     frame_but {p} k k' \<and> (r = 0 \<longrightarrow> files k' p = None) \<and>
     (protected k p \<longrightarrow> files k' p = files k p \<or> files k' p = None)"
  by (simp add: world_ok_def unlink_documented_def)

lemma write_call:
  "world_ok w \<Longrightarrow> atomic_file_write_private (lib w) p d k = (r, k') \<Longrightarrow>
     frame_but {p} k k' \<and> (r = 0 \<longrightarrow> files k' p = Some d) \<and>
     (protected k p \<longrightarrow> files k' p = files k p \<or> files k' p = Some d)"
  by (simp add: world_ok_def write_documented_def)

lemma load_file_call:
  "world_ok w \<Longrightarrow> load_file (lib w) p k = (r, k') \<Longrightarrow>
     frame_but {} k k' \<and> (\<forall>c. r = Contents c \<longrightarrow> files k' p = Some c) \<and> (r = NotFound \<longrightarrow> files k' p = None)"
  by (simp add: world_ok_def read_documented_def)

lemma mkdir_call:
  "world_ok w \<Longrightarrow> mkdir_parents (lib w) p m k = (r, k') \<Longrightarrow> frame_but {} k k'"
  by (simp add: world_ok_def read_documented_def)

section \<open>An instance\<close>

text \<open>
  A file system without failures in which nobody else writes, with the documents of \<open>sample_common\<close>
  as policies. A key file is written as the texts of its five values, each after its length in
  unary, and a number as sign, numerator and denominator in unary.
\<close>

definition unary_text :: "string \<Rightarrow> string" where
  "unary_text s = replicate (length s) CHR ''#'' @ CHR '';'' # s"

definition take_text :: "string \<Rightarrow> string \<times> string" where
  "take_text t = (let n = length (takeWhile (\<lambda>c. c = CHR ''#'') t); r = drop (n + 1) t in (take n r, drop n r))"

lemma take_unary [simp]: "take_text (unary_text s @ r) = (s, r)"
  by (simp add: take_text_def unary_text_def Let_def takeWhile_append2 takeWhile_tail)

definition sample_keys :: "string list" where
  "sample_keys = [''Name'', ''CountryCode'', ''Timezone'', ''Latitude'', ''Longitude'']"

definition sample_key_data :: "key_file \<Rightarrow> string" where
  "sample_key_data kf = concat (map (\<lambda>k. case kf ''Location'' k of None \<Rightarrow> [] | Some v \<Rightarrow> unary_text v) sample_keys)"

definition sample_key_parse :: "string \<Rightarrow> key_file option" where
  "sample_key_parse t =
     (let (n, t1) = take_text t; (c, t2) = take_text t1; (z, t3) = take_text t2;
          (x, t4) = take_text t3; (y, t5) = take_text t4
      in Some ((\<lambda>_ _. None)(''Location'' := [''Name'' \<mapsto> n, ''CountryCode'' \<mapsto> c, ''Timezone'' \<mapsto> z,
                                          ''Latitude'' \<mapsto> x, ''Longitude'' \<mapsto> y])))"

lemma sample_key_file:
  "sample_key_parse (sample_key_data ((\<lambda>_ _. None)(''Location'' := [''Name'' \<mapsto> n, ''CountryCode'' \<mapsto> c,
       ''Timezone'' \<mapsto> z, ''Latitude'' \<mapsto> x, ''Longitude'' \<mapsto> y]))) =
   Some ((\<lambda>_ _. None)(''Location'' := [''Name'' \<mapsto> n, ''CountryCode'' \<mapsto> c, ''Timezone'' \<mapsto> z,
       ''Latitude'' \<mapsto> x, ''Longitude'' \<mapsto> y]))"
  using take_unary[of y "[]"] by (simp add: sample_key_parse_def sample_key_data_def sample_keys_def)

definition sample_double_raw :: "double \<Rightarrow> string" where
  "sample_double_raw d =
     (case d of
        Fin r \<Rightarrow> (let (a, b) = quotient_of r
                  in (if a < 0 then CHR ''-'' else CHR ''+'') # replicate (nat \<bar>a\<bar>) CHR ''x'' @ replicate (nat b) CHR ''y'')
      | _ \<Rightarrow> [])"

definition sample_double_value :: "string \<Rightarrow> double option" where
  "sample_double_value s =
     (case s of [] \<Rightarrow> None
      | c # t \<Rightarrow>
          (let a = int (length (filter (\<lambda>c. c = CHR ''x'') t)); b = int (length (filter (\<lambda>c. c = CHR ''y'') t))
           in Some (Fin (of_int (if c = CHR ''-'' then - a else a) / of_int b))))"

lemma sample_double: "sample_double_value (sample_double_raw (Fin r)) = Some (Fin r)"
proof -
  obtain a b where q: "quotient_of r = (a, b)" by (cases "quotient_of r") auto
  have r: "r = of_int a / of_int b" and b: "0 < b" using quotient_of_div[OF q] quotient_of_denom_pos[OF q] by auto
  have "sample_double_value (sample_double_raw (Fin r)) = Some (Fin (of_int a / of_int b))"
    using b by (simp add: sample_double_value_def sample_double_raw_def q Let_def)
  then show ?thesis using r by simp
qed

definition sample_file :: "string list \<Rightarrow> string" where
  "sample_file names = g_build_filename sample_glib (''c'' # ''infiltrator'' # names)"

definition sample_write :: "string \<Rightarrow> string option \<Rightarrow> kernel \<Rightarrow> kernel" where
  "sample_write p c k = k\<lparr>files := (files k)(p := c)\<rparr>"

definition sample_lib :: linux_lib where
  "sample_lib = \<lparr>
     lib_common = sample_common,
     lib_glib = sample_glib,
     user_config_dir = ''c'',
     posix_policy_load = (\<lambda>k. case files k (sample_file [''presentation.conf'']) of
         None \<Rightarrow> (IO_OK, sample_policy, False, k)
       | Some t \<Rightarrow> (case map_of sample_documents t of
                      None \<Rightarrow> (IO_INVALID_VALUE, sample_policy, False, k)
                    | Some p \<Rightarrow> (IO_OK, p, True, k))),
     posix_policy_save = (\<lambda>p k. case document_of sample_documents p of
         None \<Rightarrow> (1, k)
       | Some t \<Rightarrow> (0, sample_write (sample_file [''presentation.conf'']) (Some t) k)),
     unlink_durable = (\<lambda>p m k. (0, sample_write p None k)),
     mkdir_parents = (\<lambda>p m k. (0, k)),
     atomic_file_write_private = (\<lambda>p d k. (0, sample_write p (Some d) k)),
     load_file = (\<lambda>p k. case files k p of None \<Rightarrow> (NotFound, k) | Some c \<Rightarrow> (Contents c, k)),
     key_file_parse = sample_key_parse,
     key_file_data = sample_key_data,
     key_string_value = Some,
     key_string_raw = (\<lambda>s. s),
     key_double_value = sample_double_value,
     key_double_raw = sample_double_raw,
     schema_source = True,
     schema_keys = (\<lambda>s. if s = ''org.cinnamon.desktop.interface''
                        then Some [''clock-use-24h'', ''clock-show-seconds'', ''first-day-of-week''] else None),
     settings_set = (\<lambda>s key v k. (True, k\<lparr>settings := (settings k)(s := (settings k s)(key \<mapsto> v))\<rparr>))\<rparr>"

definition sample_guard :: "string \<Rightarrow> string" where
  "sample_guard p = (if p = sample_file [''presentation.conf''] then sample_file [''presentation.lock'']
                     else sample_file [''system-settings'', ''location.lock''])"

definition sample_world :: world where
  "sample_world = \<lparr>lib = sample_lib, kern = sample_kernel\<lparr>env := sample_environment\<lparr>guard := sample_guard\<rparr>\<rparr>,
     update_lock = - 1, locality_transaction_lock = - 1\<rparr>"

lemma sample_frame: "frame_but {p} k (sample_write p c k)"
  by (simp add: frame_but_def sample_write_def)

lemma sample_write_files [simp]: "files (sample_write p c k) p = c"
  by (simp add: sample_write_def)

lemma document_of_map: "distinct (map fst ds) \<Longrightarrow> document_of ds p = Some t \<Longrightarrow> map_of ds t = Some p"
  by (induction ds) (force split: if_splits dest: map_of_SomeD simp: image_iff)+

lemma map_document_of:
  "distinct (map snd ds) \<Longrightarrow> map_of ds t = Some p \<Longrightarrow> distinct (map fst ds) \<Longrightarrow> document_of ds p = Some t"
  by (induction ds) (force split: if_splits dest: map_of_SomeD simp: image_iff)+

lemma sample_distinct: "distinct (map fst sample_documents)" "distinct (map snd sample_documents)"
  by (simp_all add: sample_documents_def sample_policy_def)

lemma sample_stored: "map_of sample_documents t = Some p \<Longrightarrow> stored sample_common p = p"
  using map_document_of[OF sample_distinct(2) _ sample_distinct(1)]
  by (simp add: stored_def sample_common_def)

lemma sample_stored_document:
  "document_of sample_documents p = Some t \<Longrightarrow> map_of sample_documents t = Some (stored sample_common p)"
  using document_of_map[OF sample_distinct(1)] sample_stored by metis

lemma sample_policy_file: "infiltrator_path sample_lib names = sample_file names"
  by (simp add: infiltrator_path_def sample_file_def sample_lib_def)

lemma sample_world_ok: "world_ok sample_world"
proof -
  have cm: "lib_common sample_lib = sample_common" "policy_v3_parse sample_common = map_of sample_documents"
    "policy_v3_default sample_common = Some sample_policy"
    by (simp_all add: sample_lib_def sample_common_def)
  have f: "format_documented sample_common"
    by (simp add: format_documented_def cm sample_stored)
  have pio: "policy_io_documented sample_lib"
    unfolding policy_io_documented_def sample_policy_file cm policy_text_def
    using sample_stored_document sample_frame frame_but_refl
    by (auto simp: sample_lib_def split: option.splits)
  have "unlink_documented sample_lib" "write_documented sample_lib" "read_documented sample_lib"
    "settings_documented sample_lib"
    by (auto simp: unlink_documented_def write_documented_def read_documented_def settings_documented_def
        sample_lib_def sample_frame frame_but_def split: option.splits)
       (simp_all add: sample_write_def)
  moreover have "guards_documented sample_lib (env (kern sample_world))"
    by (simp add: guards_documented_def sample_policy_file sample_world_def sample_guard_def)
      (simp add: sample_file_def sample_glib_def sample_lib_def)
  moreover have "wf_kernel (kern sample_world)" by (simp add: sample_world_def sample_kernel_def wf_kernel_def)
  ultimately show ?thesis using f pio cm by (simp add: world_ok_def sample_world_def)
qed

end
