(* ===== verification/LinuxStore.thy ===== *)
theory LinuxStore
  imports DateTimeModel Linux
begin

text \<open>
  \<open>cinnamon-interface.c\<close>, the Linux \<open>temporal-policy-store.c\<close> and the proof that this store keeps the
  contract of \<open>policy_store\<close>.
\<close>

section \<open>The Cinnamon interface\<close>

text \<open>A \<open>GSettings\<close> object is known by its schema; \<open>None\<close> is a null pointer.\<close>

abbreviation CINNAMON :: string where "CINNAMON \<equiv> ''org.cinnamon.desktop.interface''"
abbreviation GNOME :: string where "GNOME \<equiv> ''org.gnome.desktop.interface''"

definition ss_cinnamon_interface_settings_new :: "linux_lib \<Rightarrow> string option" where
  "ss_cinnamon_interface_settings_new L =
     (if \<not> schema_source L then None
      else (case schema_keys L CINNAMON of
              None \<Rightarrow> None
            | Some keys \<Rightarrow>
                if ''clock-use-24h'' \<notin> set keys \<or> ''clock-show-seconds'' \<notin> set keys then None
                else Some CINNAMON))"

definition lookup_interface_schema :: "linux_lib \<Rightarrow> string list option" where
  "lookup_interface_schema L = (if \<not> schema_source L then None else schema_keys L CINNAMON)"

definition ss_cinnamon_interface_has_key :: "linux_lib \<Rightarrow> string option \<Rightarrow> bool" where
  "ss_cinnamon_interface_has_key L key =
     (case key of None \<Rightarrow> False
      | Some k \<Rightarrow> (case lookup_interface_schema L of None \<Rightarrow> False | Some keys \<Rightarrow> k \<in> set keys))"

definition ss_cinnamon_interface_get_boolean ::
  "linux_lib \<Rightarrow> string option \<Rightarrow> string option \<Rightarrow> kernel \<Rightarrow> bool option" where
  "ss_cinnamon_interface_get_boolean L handle key k =
     (case (handle, key) of
        (Some s, Some name) \<Rightarrow>
          if \<not> ss_cinnamon_interface_has_key L key then None
          else (case settings k s name of Some (GBool b) \<Rightarrow> Some b | _ \<Rightarrow> None)
      | _ \<Rightarrow> None)"

definition ss_cinnamon_interface_set_boolean ::
  "linux_lib \<Rightarrow> string option \<Rightarrow> string option \<Rightarrow> bool \<Rightarrow> kernel \<Rightarrow> bool \<times> kernel" where
  "ss_cinnamon_interface_set_boolean L handle key v k =
     (case ss_cinnamon_interface_get_boolean L handle key k of
        None \<Rightarrow> (False, k)
      | Some current \<Rightarrow>
          (case (handle, key) of (Some s, Some name) \<Rightarrow> settings_set L s name (GBool v) k | _ \<Rightarrow> (False, k)))"

definition ss_cinnamon_interface_get_first_day :: "linux_lib \<Rightarrow> string option \<Rightarrow> kernel \<Rightarrow> int option" where
  "ss_cinnamon_interface_get_first_day L handle k =
     (case handle of None \<Rightarrow> None
      | Some s \<Rightarrow>
          if \<not> ss_cinnamon_interface_has_key L (Some ''first-day-of-week'') then None
          else (case settings k s ''first-day-of-week'' of Some (GInt i) \<Rightarrow> Some i | _ \<Rightarrow> None))"

definition ss_cinnamon_interface_set_first_day ::
  "linux_lib \<Rightarrow> string option \<Rightarrow> int \<Rightarrow> kernel \<Rightarrow> bool \<times> kernel" where
  "ss_cinnamon_interface_set_first_day L handle v k =
     (if (v \<noteq> 7 \<and> v \<noteq> 0 \<and> v \<noteq> 1) \<or> ss_cinnamon_interface_get_first_day L handle k = None then (False, k)
      else (case handle of None \<Rightarrow> (False, k) | Some s \<Rightarrow> settings_set L s ''first-day-of-week'' (GInt v) k))"

definition ss_cinnamon_interface_set_clock_use_24h ::
  "linux_lib \<Rightarrow> string option \<Rightarrow> bool \<Rightarrow> kernel \<Rightarrow> bool \<times> kernel" where
  "ss_cinnamon_interface_set_clock_use_24h L handle use_24h k =
     (let (ok1, k1) = ss_cinnamon_interface_set_boolean L handle (Some ''clock-use-24h'') use_24h k in
      if \<not> schema_source L then (ok1, k1)
      else (case schema_keys L GNOME of
              None \<Rightarrow> (ok1, k1)
            | Some keys \<Rightarrow>
                if ''clock-format'' \<in> set keys
                then (let (ok2, k2) = settings_set L GNOME ''clock-format''
                                        (GString (if use_24h then ''24h'' else ''12h'')) k1
                      in (ok2 \<and> ok1, k2))
                else (ok1, k1)))"

section \<open>The store\<close>

definition SS_LOCK_RETRY_USEC :: int where "SS_LOCK_RETRY_USEC = 5000"

definition begin_update :: "world \<Rightarrow> bool \<times> world" where
  "begin_update w =
     (let directory = infiltrator_path (lib w) [];
          (result, lock, k) =
            ss_linux_advisory_lock_acquire (Some (update_lock w)) (Some directory)
              (Some (g_build_filename (lib_glib (lib w)) [directory, ''presentation.lock'']))
              SS_LINUX_ADVISORY_LOCK_MAX_WAIT_USEC SS_LOCK_RETRY_USEC (kern w)
      in (result = LOCK_OK, w\<lparr>update_lock := the_default (update_lock w) lock, kern := k\<rparr>))"

definition end_update :: "world \<Rightarrow> world" where
  "end_update w =
     (let (lock, k) = ss_linux_advisory_lock_release (Some (update_lock w)) (kern w)
      in w\<lparr>update_lock := the_default (update_lock w) lock, kern := k\<rparr>)"

text \<open>The value \<open>g_settings_get_boolean\<close> reads from a key that \<open>settings_new\<close> found in the schema.\<close>

definition g_settings_get_boolean :: "kernel \<Rightarrow> string \<Rightarrow> string \<Rightarrow> bool" where
  "g_settings_get_boolean k s key = (settings k s key = Some (GBool True))"

definition load_cinnamon_defaults :: "linux_lib \<Rightarrow> kernel \<Rightarrow> policy \<Rightarrow> policy" where
  "load_cinnamon_defaults L k p =
     (case ss_cinnamon_interface_settings_new L of
        None \<Rightarrow> p
      | Some s \<Rightarrow>
          p\<lparr>clock_mode := copy_string (lib_common L) (sizeof_clock_mode (lib_common L))
                (if g_settings_get_boolean k s ''clock-use-24h'' then ''standard-24'' else ''standard-12''),
            show_seconds := g_settings_get_boolean k s ''clock-show-seconds''\<rparr>)"

definition mirror_cinnamon_compatibility :: "linux_lib \<Rightarrow> policy option \<Rightarrow> kernel \<Rightarrow> bool \<times> kernel" where
  "mirror_cinnamon_compatibility L p k =
     (case p of
        None \<Rightarrow> (False, k)
      | Some pol \<Rightarrow>
          (case ss_cinnamon_interface_settings_new L of
             None \<Rightarrow> (True, k)
           | Some s \<Rightarrow>
               (let (ok1, k1) =
                      (if string_equal (lib_common L) (clock_mode pol) ''standard-24''
                       then ss_cinnamon_interface_set_clock_use_24h L (Some s) True k
                       else if string_equal (lib_common L) (clock_mode pol) ''standard-12''
                       then ss_cinnamon_interface_set_clock_use_24h L (Some s) False k
                       else (True, k));
                    (ok2, k2) = settings_set L s ''clock-show-seconds'' (GBool (show_seconds pol)) k1
                in (ok2 \<and> ok1, k2))))"

definition platform_compatibility_matches :: "policy \<Rightarrow> world \<Rightarrow> bool \<times> world" where
  "platform_compatibility_matches pol w =
     (let L = lib w; k = kern w in
      case ss_cinnamon_interface_settings_new L of
        None \<Rightarrow> (True, w)
      | Some s \<Rightarrow>
          (let is24 = string_equal (lib_common L) (clock_mode pol) ''standard-24'';
               is12 = string_equal (lib_common L) (clock_mode pol) ''standard-12''
           in if (is24 \<or> is12) \<and>
                 ss_cinnamon_interface_get_boolean L (Some s) (Some ''clock-use-24h'') k \<noteq> Some is24
              then (False, w)
              else (ss_cinnamon_interface_get_boolean L (Some s) (Some ''clock-show-seconds'') k =
                      Some (show_seconds pol), w)))"

definition platform_load :: "world \<Rightarrow> (policy \<times> bool) option \<times> world" where
  "platform_load w =
     (let L = lib w; (result, p, found, k) = posix_policy_load L (kern w); w1 = w\<lparr>kern := k\<rparr> in
      if result = IO_INVALID_VALUE \<or> result = IO_EMPTY
      then (case policy_v3_default (lib_common L) of
              None \<Rightarrow> (None, w1)
            | Some d \<Rightarrow> (Some (load_cinnamon_defaults L k d, False), w1))
      else if result \<noteq> IO_OK then (None, w1)
      else if \<not> found then (Some (load_cinnamon_defaults L k p, False), w1)
      else (Some (p, True), w1))"

definition platform_save :: "policy \<Rightarrow> world \<Rightarrow> bool \<times> world" where
  "platform_save p w =
     (let (failure, k) = posix_policy_save (lib w) p (kern w) in
      if failure \<noteq> 0 then (False, w\<lparr>kern := k\<rparr>)
      else (True, w\<lparr>kern := snd (mirror_cinnamon_compatibility (lib w) (Some p) k)\<rparr>))"

definition platform_clear :: "world \<Rightarrow> bool \<times> world" where
  "platform_clear w =
     (let (failure, k) = unlink_durable (lib w) (policy_path (lib w)) True (kern w)
      in (failure = 0, w\<lparr>kern := k\<rparr>))"

definition ss_platform_temporal_policy_store :: "world store" where
  "ss_platform_temporal_policy_store = \<lparr>
     st_load = Some platform_load,
     st_save = Some platform_save,
     st_clear = Some platform_clear,
     st_begin_update = Some begin_update,
     st_end_update = Some end_update,
     st_compatibility_matches = Some platform_compatibility_matches\<rparr>"

section \<open>The contract\<close>

lemma settings_set_frame:
  "settings_documented L \<Longrightarrow> settings_set L s key v k = (b, k') \<Longrightarrow> frame_but {} k k'"
  unfolding settings_documented_def by blast

lemma set_boolean_frame:
  "settings_documented L \<Longrightarrow> ss_cinnamon_interface_set_boolean L h key v k = (b, k') \<Longrightarrow> frame_but {} k k'"
  by (auto simp: ss_cinnamon_interface_set_boolean_def frame_but_refl split: option.splits
      intro: settings_set_frame)

lemma set_24h_frame:
  assumes "settings_documented L" "ss_cinnamon_interface_set_clock_use_24h L h u k = (b, k')"
  shows "frame_but {} k k'"
proof -
  obtain ok1 k1 where s: "ss_cinnamon_interface_set_boolean L h (Some ''clock-use-24h'') u k = (ok1, k1)"
    by (cases "ss_cinnamon_interface_set_boolean L h (Some ''clock-use-24h'') u k") auto
  note f1 = set_boolean_frame[OF assms(1) s]
  show ?thesis
  proof (cases "k' = k1")
    case True
    with f1 show ?thesis by simp
  next
    case False
    with assms(2) s obtain ok2 where
      "settings_set L GNOME ''clock-format'' (GString (if u then ''24h'' else ''12h'')) k1 = (ok2, k')"
      by (auto simp: ss_cinnamon_interface_set_clock_use_24h_def split: if_splits option.splits prod.splits)
    from frame_but_trans0[OF f1 settings_set_frame[OF assms(1) this]] show ?thesis .
  qed
qed

lemma mirror_frame:
  assumes "settings_documented L" "mirror_cinnamon_compatibility L p k = (b, k')"
  shows "frame_but {} k k'"
proof (cases "p = None \<or> ss_cinnamon_interface_settings_new L = None")
  case True
  with assms(2) show ?thesis by (auto simp: mirror_cinnamon_compatibility_def frame_but_refl split: option.splits)
next
  case False
  then obtain pol s where ps: "p = Some pol" "ss_cinnamon_interface_settings_new L = Some s" by auto
  obtain ok1 k1 where c: "(if string_equal (lib_common L) (clock_mode pol) ''standard-24''
                       then ss_cinnamon_interface_set_clock_use_24h L (Some s) True k
                       else if string_equal (lib_common L) (clock_mode pol) ''standard-12''
                       then ss_cinnamon_interface_set_clock_use_24h L (Some s) False k
                       else (True, k)) = (ok1, k1)" (is "?c = _") by (cases ?c) auto
  obtain ok2 k2 where d: "settings_set L s ''clock-show-seconds'' (GBool (show_seconds pol)) k1 = (ok2, k2)"
    by (cases "settings_set L s ''clock-show-seconds'' (GBool (show_seconds pol)) k1") auto
  have "frame_but {} k k1" using c set_24h_frame[OF assms(1)] frame_but_refl by (auto split: if_splits)
  from frame_but_trans0[OF this settings_set_frame[OF assms(1) d]] assms(2) ps c d show ?thesis
    by (simp add: mirror_cinnamon_compatibility_def)
qed

text \<open>
  One process step after another: the parameters stay, the invariant is kept, and the files of the
  locality transaction do not change while its lock is owned.
\<close>

definition world_later :: "world \<Rightarrow> world \<Rightarrow> bool" where
  "world_later w w' \<longleftrightarrow>
     lib w' = lib w \<and> env (kern w') = env (kern w) \<and>
     locality_transaction_lock w' = locality_transaction_lock w \<and>
     (world_ok w \<longrightarrow> world_ok w' \<and>
        (locality_locked w \<longrightarrow>
           file_of w' (metadata_path (lib w)) = file_of w (metadata_path (lib w)) \<and>
           file_of w' (pending_path (lib w)) = file_of w (pending_path (lib w))))"

lemma world_later_refl: "world_later w w"
  by (simp add: world_later_def)

lemma world_later_trans: "world_later u v \<Longrightarrow> world_later v w \<Longrightarrow> world_later u w"
  by (simp add: world_later_def locality_locked_def)

lemma frame_later:
  assumes "frame_but S (kern w) k'" "S \<subseteq> {policy_path (lib w)}"
  shows "world_later w (w\<lparr>kern := k'\<rparr>)"
proof -
  have "env k' = env (kern w)" using assms(1) by (simp add: frame_but_def)
  moreover have "world_ok (w\<lparr>kern := k'\<rparr>) \<and> (locality_locked w \<longrightarrow>
       files k' (metadata_path (lib w)) = file_of w (metadata_path (lib w)) \<and>
       files k' (pending_path (lib w)) = file_of w (pending_path (lib w)))" if ok: "world_ok w"
  proof -
    have "metadata_path (lib w) \<notin> S" "pending_path (lib w) \<notin> S" using assms(2) paths_distinct[OF ok] by auto
    then show ?thesis using frame_but_ok[OF assms(1) ok] assms(1) locked_protected[OF ok] by (simp add: frame_but_def)
  qed
  ultimately show ?thesis by (simp add: world_later_def)
qed

lemma view_same:
  "world_ok w \<Longrightarrow> policy_locked w \<Longrightarrow> frame_but {} (kern w) k' \<Longrightarrow> policy_view (w\<lparr>kern := k'\<rparr>) = policy_view w"
  using locked_protected(1) by (simp add: policy_view_def frame_but_def)

lemma platform_load_law:
  assumes ok: "world_ok w" and e: "platform_load w = (r, w')"
  shows "world_later w w' \<and> policy_locked w' = policy_locked w \<and>
    (policy_locked w \<longrightarrow> policy_view w' = policy_view w) \<and>
    (\<forall>p f. r = Some (p, f) \<longrightarrow> (if f then policy_view w' = Some p \<and> stored (lib_common (lib w')) p = p
                              else policy_view w' = None))"
proof -
  obtain q p f k where l: "posix_policy_load (lib w) (kern w) = (q, p, f, k)"
    by (cases "posix_policy_load (lib w) (kern w)") auto
  have D: "frame_but {} (kern w) k" "q = IO_OK \<and> f \<longrightarrow> policy_text (lib_common (lib w)) (files k (policy_path (lib w))) = Some p"
    "q = IO_OK \<and> \<not> f \<longrightarrow> files k (policy_path (lib w)) = None"
    "q = IO_INVALID_VALUE \<or> q = IO_EMPTY \<longrightarrow> policy_text (lib_common (lib w)) (files k (policy_path (lib w))) = None"
    using ok l unfolding world_ok_def policy_io_documented_def by blast+
  have w': "w' = w\<lparr>kern := k\<rparr>" using e l by (auto simp: platform_load_def Let_def split: if_splits option.splits)
  have st: "policy_v3_parse (lib_common (lib w)) c = Some pp \<Longrightarrow> stored (lib_common (lib w)) pp = pp" for c pp
    using ok by (auto simp: world_ok_def format_documented_def policy_text_def split: option.splits)
  have "\<forall>pp ff. r = Some (pp, ff) \<longrightarrow> (if ff then policy_view w' = Some pp \<and> stored (lib_common (lib w')) pp = pp
                              else policy_view w' = None)"
    using e l D st unfolding w' by (auto simp: platform_load_def Let_def policy_view_def policy_text_def split: if_splits option.splits)
  then show ?thesis using frame_later[OF D(1)] view_same[OF ok _ D(1)] unfolding w'
    by (simp add: policy_locked_def)
qed

lemma platform_save_law:
  assumes ok: "world_ok w" and e: "platform_save p w = (b, w')"
  shows "world_later w w' \<and> policy_locked w' = policy_locked w \<and>
    (policy_locked w \<longrightarrow> (if b then policy_view w' = Some (stored (lib_common (lib w)) p)
       else policy_view w' = policy_view w \<or> policy_view w' = Some (stored (lib_common (lib w)) p)))"
proof -
  obtain q k where s: "posix_policy_save (lib w) p (kern w) = (q, k)" by (cases "posix_policy_save (lib w) p (kern w)") auto
  have D: "frame_but {policy_path (lib w)} (kern w) k"
    "if q = 0 then policy_text (lib_common (lib w)) (files k (policy_path (lib w))) = Some (stored (lib_common (lib w)) p)
     else protected (kern w) (policy_path (lib w)) \<longrightarrow>
       files k (policy_path (lib w)) = files (kern w) (policy_path (lib w)) \<or>
       policy_text (lib_common (lib w)) (files k (policy_path (lib w))) = Some (stored (lib_common (lib w)) p)"
    using ok s unfolding world_ok_def policy_io_documented_def by blast+
  have l1: "world_later w (w\<lparr>kern := k\<rparr>)" by (rule frame_later[OF D(1)]) simp
  have ok1: "world_ok (w\<lparr>kern := k\<rparr>)" by (rule frame_but_ok[OF D(1) ok])
  show ?thesis
  proof (cases "q = 0")
    case False
    with e s have "b = False" "w' = w\<lparr>kern := k\<rparr>" by (auto simp: platform_save_def)
    then show ?thesis using l1 D(2) False locked_protected(1)[OF ok] by (auto simp: policy_locked_def policy_view_def)
  next
    case True
    obtain m k2 where mi: "mirror_cinnamon_compatibility (lib w) (Some p) k = (m, k2)"
      by (cases "mirror_cinnamon_compatibility (lib w) (Some p) k") auto
    have fm: "frame_but {} k k2" using mirror_frame[OF _ mi] ok by (simp add: world_ok_def)
    from e s mi True have w': "b = True" "w' = (w\<lparr>kern := k\<rparr>)\<lparr>kern := k2\<rparr>" by (auto simp: platform_save_def)
    have "world_later (w\<lparr>kern := k\<rparr>) w'" unfolding w' by (rule frame_later[of "{}"]) (use fm in auto)
    then have l2: "world_later w w'" using l1 world_later_trans by blast
    have "policy_view w' = policy_view (w\<lparr>kern := k\<rparr>)" if "policy_locked w"
      unfolding w'(2) by (rule view_same[OF ok1]) (use that fm in \<open>auto simp: policy_locked_def\<close>)
    then show ?thesis using w' l2 D(2) True by (auto simp: policy_locked_def policy_view_def)
  qed
qed

lemma platform_clear_law:
  assumes ok: "world_ok w" and e: "platform_clear w = (b, w')"
  shows "world_later w w' \<and> policy_locked w' = policy_locked w \<and>
    (policy_locked w \<longrightarrow> (if b then policy_view w' = None else policy_view w' = policy_view w \<or> policy_view w' = None))"
proof -
  obtain q k where s: "unlink_durable (lib w) (policy_path (lib w)) True (kern w) = (q, k)"
    by (cases "unlink_durable (lib w) (policy_path (lib w)) True (kern w)") auto
  have D: "frame_but {policy_path (lib w)} (kern w) k" "q = 0 \<longrightarrow> files k (policy_path (lib w)) = None"
    "protected (kern w) (policy_path (lib w)) \<longrightarrow>
       files k (policy_path (lib w)) = files (kern w) (policy_path (lib w)) \<or> files k (policy_path (lib w)) = None"
    using unlink_call[OF ok s] by auto
  have w': "b = (q = 0)" "w' = w\<lparr>kern := k\<rparr>" using e s by (auto simp: platform_clear_def)
  have "world_later w w'" unfolding w' by (rule frame_later[OF D(1)]) simp
  moreover have "policy_locked w' = policy_locked w" unfolding w' by (simp add: policy_locked_def)
  moreover have "policy_view w' = None" if "b"
    using that D(2) unfolding w' by (simp add: policy_view_def policy_text_def)
  moreover have "policy_view w' = policy_view w \<or> policy_view w' = None" if "policy_locked w" "\<not> b"
    using that D(3) locked_protected(1)[OF ok] unfolding w' by (auto simp: policy_view_def policy_text_def)
  ultimately show ?thesis by auto
qed

lemma guard_policy: "world_ok w \<Longrightarrow> guard (env (kern w)) (policy_path (lib w)) = policy_lock_path (lib w)"
  by (simp add: world_ok_def guards_documented_def)

text \<open>Taking an idle lock of the process on a file that no lock guards.\<close>

lemma acquire_world:
  assumes ok: "world_ok w" and "h < 0"
    and a: "ss_linux_advisory_lock_acquire (Some h) (Some dir) (Some path) wait retry (kern w) = (r, l, k)"
  shows "env k = env (kern w) \<and> wf_kernel k \<and> (\<forall>fd p. owns (kern w) fd p \<longrightarrow> owns k fd p) \<and>
    (\<forall>p. protected (kern w) p \<longrightarrow> p \<noteq> path \<longrightarrow> files k p = file_of w p) \<and>
    (if r = LOCK_OK then \<exists>fd. l = Some fd \<and> 0 \<le> fd \<and> owns k fd path else l = Some h)"
proof -
  have wf: "wf_kernel (kern w)" using ok by (simp add: world_ok_def)
  note A = acquire_frame[OF wf assms(2,3)]
  show ?thesis
  proof (cases "r = LOCK_OK")
    case True
    with A obtain fd where fd: "l = Some fd" "0 \<le> fd" "descriptors (kern w) fd = None"
      "descriptors k = (descriptors (kern w))(fd := Some path)" "locks k = fd # locks (kern w)" by auto
    have "owns k fd path" using fd by (simp add: owns_def)
    moreover have "\<forall>f p. owns (kern w) f p \<longrightarrow> owns k f p" using fd by (auto simp: owns_def)
    ultimately show ?thesis using A True fd by auto
  next
    case False
    with A show ?thesis by (simp add: owns_def)
  qed
qed

lemma acquire_held:
  "0 \<le> h \<Longrightarrow> ss_linux_advisory_lock_acquire (Some h) (Some dir) (Some path) wait retry k = (r, l, k') \<Longrightarrow>
     r \<noteq> LOCK_OK \<and> l = Some h \<and> k' = k"
  by (auto simp: ss_linux_advisory_lock_acquire_def Let_def split: if_splits)

lemma world_ok_locks:
  "world_ok w \<Longrightarrow> 0 \<le> update_lock w \<Longrightarrow> owns (kern w) (update_lock w) (policy_lock_path (lib w))"
  "world_ok w \<Longrightarrow> 0 \<le> locality_transaction_lock w \<Longrightarrow>
     owns (kern w) (locality_transaction_lock w) (metadata_lock_file (lib w))"
  by (simp_all add: world_ok_def)

lemma linux_begin_update:
  assumes ok: "world_ok w" and e: "begin_update w = (b, w')"
  shows "world_later w w' \<and>
    (if b then \<not> policy_locked w \<and> policy_locked w' else policy_locked w' = policy_locked w) \<and>
    (policy_locked w \<longrightarrow> policy_view w' = policy_view w)"
proof -
  obtain r l k where a: "ss_linux_advisory_lock_acquire (Some (update_lock w)) (Some (infiltrator_path (lib w) []))
      (Some (policy_lock_path (lib w))) SS_LINUX_ADVISORY_LOCK_MAX_WAIT_USEC SS_LOCK_RETRY_USEC (kern w) = (r, l, k)"
    by (metis prod.collapse)
  have w': "b = (r = LOCK_OK)" "w' = w\<lparr>update_lock := the_default (update_lock w) l, kern := k\<rparr>"
    using e a by (auto simp: begin_update_def Let_def)
  show ?thesis
  proof (cases "0 \<le> update_lock w")
    case True
    with acquire_held[OF True a] w' have "b = False" "w' = w" by (auto simp: the_default_def)
    then show ?thesis by (simp add: world_later_refl)
  next
    case False
    note A = acquire_world[OF ok _ a]
    then obtain fd where l: "l = Some fd" "0 \<le> fd \<longrightarrow> owns k fd (policy_lock_path (lib w))"
      "(0 \<le> fd) = (r = LOCK_OK)" using False by (auto split: if_splits)
    have k: "env k = env (kern w)" "wf_kernel k" using A False by auto
    have "policy_lock_path (lib w) \<notin> {metadata_path (lib w), pending_path (lib w)}"
      using paths_distinct[OF ok] by auto
    then have fl: "locality_locked w \<longrightarrow> files k (metadata_path (lib w)) = file_of w (metadata_path (lib w)) \<and>
       files k (pending_path (lib w)) = file_of w (pending_path (lib w))"
      using A False locked_protected(2,3)[OF ok] by auto
    have own: "0 \<le> locality_transaction_lock w \<longrightarrow> owns k (locality_transaction_lock w) (metadata_lock_file (lib w))"
      using world_ok_locks(2)[OF ok] A False by auto
    have "world_ok w'" using ok own l(2) k unfolding w' by (simp add: world_ok_def the_default_def l(1))
    then have "world_later w w'" using fl k unfolding w' world_later_def by simp
    then show ?thesis using False l w' by (auto simp: policy_locked_def the_default_def)
  qed
qed

lemma linux_end_update:
  assumes ok: "world_ok w"
  shows "world_later w (end_update w) \<and> \<not> policy_locked (end_update w) \<and> policy_view (end_update w) = policy_view w"
proof (cases "0 \<le> update_lock w")
  case False
  then have "end_update w = w"
    by (simp add: end_update_def ss_linux_advisory_lock_release_def the_default_def)
  then show ?thesis using False by (simp add: world_later_refl policy_locked_def)
next
  case True
  let ?fd = "update_lock w"
  let ?k = "(kern w)\<lparr>locks := filter (\<lambda>x. x \<noteq> ?fd) (locks (kern w)), descriptors := (descriptors (kern w))(?fd := None)\<rparr>"
  have wf: "wf_kernel (kern w)" using ok by (simp add: world_ok_def)
  note R = release_frame[OF wf True]
  have e: "end_update w = w\<lparr>update_lock := - 1, kern := ?k\<rparr>"
    using R(1) by (simp add: end_update_def the_default_def)
  have wfk: "wf_kernel ?k" using R by simp
  have o1: "owns (kern w) ?fd (policy_lock_path (lib w))" using ok True by (simp add: world_ok_def)
  have "0 \<le> locality_transaction_lock w \<longrightarrow> owns ?k (locality_transaction_lock w) (metadata_lock_file (lib w))"
  proof
    assume "0 \<le> locality_transaction_lock w"
    then have o2: "owns (kern w) (locality_transaction_lock w) (metadata_lock_file (lib w))"
      using ok by (simp add: world_ok_def)
    then have "locality_transaction_lock w \<noteq> ?fd" using o1 paths_distinct[OF ok] by (auto simp: owns_def)
    then show "owns ?k (locality_transaction_lock w) (metadata_lock_file (lib w))" using o2 by (simp add: owns_def)
  qed
  then have "world_ok (end_update w)" using ok wfk unfolding e by (simp add: world_ok_def)
  then have "world_later w (end_update w)" unfolding world_later_def e by simp
  then show ?thesis unfolding e by (simp add: policy_locked_def policy_view_def)
qed

interpretation linux_store: policy_store platform_load platform_save platform_clear begin_update end_update
  world_ok policy_locked policy_view "\<lambda>w. stored (lib_common (lib w))" world_later
proof (unfold_locales, goal_cases)
  case (1 w) show ?case by (rule world_later_refl)
next
  case (2 u v w) then show ?case by (rule world_later_trans)
next
  case (3 w w') then show ?case by (simp add: world_later_def)
next
  case (4 w w') then show ?case by (simp add: world_later_def)
next
  case (5 w r w') then show ?case by (rule platform_load_law)
next
  case (6 w p b w') then show ?case by (rule platform_save_law)
next
  case (7 w b w') then show ?case by (rule platform_clear_law)
next
  case (8 w b w') then show ?case by (rule linux_begin_update)
next
  case (9 w) then show ?case by (rule linux_end_update)
qed

lemma linux_table:
  "table platform_load platform_save platform_clear begin_update end_update ss_platform_temporal_policy_store"
  by (simp add: table_def ss_platform_temporal_policy_store_def)

section \<open>The model on the Linux store\<close>

lemma attached_put:
  "attached s model p \<Longrightarrow> mp_store q = Some s \<Longrightarrow> attached s (put_private model (Some q)) q"
  by (simp add: attached_def)

text \<open>
  C1: a setter of the model that succeeds on Linux has taken the update lock, loaded the policy that
  is current under it, published exactly the draft's edit of that policy, to the file and then to
  the model, and released the lock; one that fails leaves the model as it was and no lock taken.
  A fresh change of another process to another field is therefore merged and never replaced.
\<close>

theorem setter_merges:
  assumes "world_ok w" "attached ss_platform_temporal_policy_store model p" "\<not> saving p"
    and "model_edit cm e model w = (b, model1, w1)"
  shows "world_ok w1 \<and>
    (if b then
       (\<exists>w0 w2 base found new.
          world_later w w0 \<and> policy_locked w0 \<and> platform_load w0 = (Some (base, found), w2) \<and>
          policy_view w2 = (if found then Some base else None) \<and>
          drafted cm e base = Some new \<and>
          ss_date_time_model_policy model1 = Some new \<and> ss_date_time_model_has_persisted_policy model1 \<and>
          policy_view w1 = Some (stored (lib_common (lib w)) new) \<and>
          \<not> policy_locked w1 \<and> \<not> ss_date_time_model_is_saving model1)
     else model1 = model \<and> policy_locked w1 = policy_locked w)"
proof -
  note E = linux_store.edit_law[OF linux_table assms(2,3,1,4)]
  show ?thesis
  proof (cases b)
    case False
    with E show ?thesis by simp
  next
    case True
    with E obtain w0 w2 base found new where h:
      "world_later w w0" "policy_locked w0" "platform_load w0 = (Some (base, found), w2)"
      "policy_view w2 = (if found then Some base else None)" "drafted cm e base = Some new"
      "model1 = put_private model (Some (p\<lparr>mp_policy := new, persisted_policy_present := True\<rparr>))"
      "policy_view w1 = Some (stored (lib_common (lib w)) new)" "\<not> policy_locked w1" "world_ok w1"
      by (simp only: if_True) blast
    have "ss_date_time_model_policy model1 = Some new \<and> ss_date_time_model_has_persisted_policy model1 \<and>
          \<not> ss_date_time_model_is_saving model1"
      using h(6) assms(2,3) by (simp add: attached_def ss_date_time_model_policy_def
          ss_date_time_model_has_persisted_policy_def ss_date_time_model_is_saving_def)
    with h True show ?thesis by (simp only: if_True) blast
  qed
qed

definition sample_model :: "world ss_model option" where
  "sample_model = Some \<lparr>address = 1, private_state = Some \<lparr>mp_policy = sample_policy,
     mp_store = Some ss_platform_temporal_policy_store, persisted_policy_present = False, saving = False\<rparr>\<rparr>"

lemma sample_attached:
  "attached ss_platform_temporal_policy_store sample_model (the (model_private sample_model))"
  "\<not> saving (the (model_private sample_model))"
  by (simp_all add: attached_def sample_model_def model_private_def)

lemma sample_edit: "fst (model_edit sample_common (Seconds True) sample_model sample_world) = True"
  by code_simp

theorem setter_merges_witness:
  "\<exists>model1 w1. model_edit sample_common (Seconds True) sample_model sample_world = (True, model1, w1) \<and>
     \<not> policy_locked w1 \<and> ss_date_time_model_has_persisted_policy model1"
proof -
  obtain model1 w1 where e: "model_edit sample_common (Seconds True) sample_model sample_world = (True, model1, w1)"
    using sample_edit by (metis prod.collapse)
  from setter_merges[OF sample_world_ok sample_attached e] e show ?thesis by (simp only: if_True) blast
qed

text \<open>
  C10: rolling a location update back on Linux restores the persistent policy that was current when
  the update began, its absence included, in the file and in the model; when the restoring write
  fails the file holds that policy or the new location. The lock is released in every case.
\<close>

theorem location_rollback_restores:
  assumes "world_ok w" "attached ss_platform_temporal_policy_store model p" "\<not> saving p" "\<not> active u"
    and "ss_date_time_model_begin_location_update model c x y u w = (True, model1, u1, w1)"
    and "ss_date_time_model_rollback_location_update model1 u1 w1 = (b, model2, u2, w2)"
  shows "\<not> policy_locked w2 \<and> \<not> active u2 \<and> \<not> ss_date_time_model_is_saving model2 \<and>
    (\<exists>w0 base found wb. world_later w w0 \<and> platform_load w0 = (Some (base, found), wb) \<and>
       policy_view wb = (if found then Some base else None) \<and>
       (if b then policy_view w2 = policy_view wb \<and> ss_date_time_model_policy model2 = Some base \<and>
                  ss_date_time_model_has_persisted_policy model2 = found
        else policy_view w2 = policy_view wb \<or>
             policy_view w2 = Some (stored (lib_common (lib w)) (assign_location base c x y))))"
  by (rule linux_store.begin_rollback[OF linux_table assms(2,3,1,4-6)])

definition idle_update :: location_update where
  "idle_update = \<lparr>update_model = None, previous_policy = sample_policy,
     previous_persisted_policy_present = False, active = False\<rparr>"

lemma sample_begin:
  "fst (ss_date_time_model_begin_location_update sample_model True (Fin 10) (Fin (- 61)) idle_update sample_world) = True"
  by code_simp

theorem location_rollback_restores_witness:
  "\<exists>model1 u1 w1 b model2 u2 w2.
     ss_date_time_model_begin_location_update sample_model True (Fin 10) (Fin (- 61)) idle_update sample_world =
       (True, model1, u1, w1) \<and>
     ss_date_time_model_rollback_location_update model1 u1 w1 = (b, model2, u2, w2) \<and>
     \<not> policy_locked w2"
proof -
  obtain model1 u1 w1 where e: "ss_date_time_model_begin_location_update sample_model True (Fin 10) (Fin (- 61))
      idle_update sample_world = (True, model1, u1, w1)" using sample_begin by (metis prod.collapse)
  obtain b model2 u2 w2 where r: "ss_date_time_model_rollback_location_update model1 u1 w1 = (b, model2, u2, w2)"
    by (metis prod.collapse)
  have "\<not> active idle_update" by (simp add: idle_update_def)
  from location_rollback_restores[OF sample_world_ok sample_attached this e r] e r show ?thesis by blast
qed

text \<open>
  C14: a location update that begins and is finished on Linux publishes the new location over the
  policy current under the lock, holds the lock and refuses any other edit of the model in
  between, and releases the lock once at the end without touching the policy.
\<close>

theorem location_update_finishes:
  assumes "world_ok w" "attached ss_platform_temporal_policy_store model p" "\<not> saving p" "\<not> active u"
    and "ss_date_time_model_begin_location_update model c x y u w = (True, model1, u1, w1)"
  shows "policy_locked w1 \<and> model_edit cm e model1 w1 = (False, model1, w1) \<and>
    (\<exists>w0 base found wb. platform_load w0 = (Some (base, found), wb) \<and> policy_locked w0 \<and>
       policy_view w1 = Some (stored (lib_common (lib w)) (assign_location base c x y)) \<and>
       ss_date_time_model_policy model1 = Some (assign_location base c x y)) \<and>
    (\<exists>model2 u2 w2. ss_date_time_model_finish_location_update model1 u1 w1 = (True, model2, u2, w2) \<and>
       ss_date_time_model_finish_location_update model2 u2 w2 = (False, model2, u2, w2) \<and>
       ss_date_time_model_policy model2 = ss_date_time_model_policy model1 \<and>
       \<not> ss_date_time_model_is_saving model2 \<and> \<not> policy_locked w2 \<and> policy_view w2 = policy_view w1)"
proof -
  note B = linux_store.begin_update_law[OF linux_table assms(2,3,1,4,5)]
  then obtain w0 wb base found where h: "policy_locked w0" "platform_load w0 = (Some (base, found), wb)"
    "model1 = put_private model (Some (p\<lparr>saving := True, mp_policy := assign_location base c x y,
                                         persisted_policy_present := True\<rparr>))"
    "u1 = \<lparr>update_model = map_option address model, previous_policy = base,
           previous_persisted_policy_present = found, active = True\<rparr>"
    "policy_view w1 = Some (stored (lib_common (lib w)) (assign_location base c x y))" "policy_locked w1" "world_ok w1"
    by (simp only: if_True) blast
  let ?p1 = "p\<lparr>saving := True, mp_policy := assign_location base c x y, persisted_policy_present := True\<rparr>"
  have mp: "model_private model = Some p" "mp_store p = Some ss_platform_temporal_policy_store"
    using assms(2) by (auto simp: attached_def)
  have m1: "model_private model1 = Some ?p1" using h mp by simp
  have "linux_store.pending ss_platform_temporal_policy_store model1 ?p1 u1 w1"
    using h mp m1 by (simp add: linux_store.pending_def attached_def)
  note F = linux_store.finish_law[OF linux_table this]
  have "begin_candidate model1 w1 = (None, model1, w1)"
    using m1 mp by (simp add: begin_candidate_def)
  then have ed: "model_edit cm e model1 w1 = (False, model1, w1)"
    by (subst model_edit_drafted[of _ _ _ _ base]) simp
  have pol: "ss_date_time_model_policy model1 = Some (assign_location base c x y)"
    using m1 by (simp add: ss_date_time_model_policy_def)
  let ?m2 = "put_private model1 (Some (?p1\<lparr>saving := False\<rparr>))"
  have m2: "ss_date_time_model_policy ?m2 = ss_date_time_model_policy model1" "\<not> ss_date_time_model_is_saving ?m2"
    "ss_date_time_model_finish_location_update ?m2 (u1\<lparr>active := False, update_model := None\<rparr>) w2 =
       (False, ?m2, u1\<lparr>active := False, update_model := None\<rparr>, w2)" for w2
    using m1 by (simp_all add: ss_date_time_model_policy_def ss_date_time_model_is_saving_def
        ss_date_time_model_finish_location_update_def update_owned_def)
  show ?thesis using h(1,2,5,6) pol ed F m2 by blast
qed

theorem location_update_finishes_witness:
  "\<exists>model1 u1 w1.
     ss_date_time_model_begin_location_update sample_model True (Fin 10) (Fin (- 61)) idle_update sample_world =
       (True, model1, u1, w1) \<and> policy_locked w1 \<and>
     model_edit sample_common (Seconds True) model1 w1 = (False, model1, w1)"
proof -
  obtain model1 u1 w1 where e: "ss_date_time_model_begin_location_update sample_model True (Fin 10) (Fin (- 61))
      idle_update sample_world = (True, model1, u1, w1)" using sample_begin by (metis prod.collapse)
  have "\<not> active idle_update" by (simp add: idle_update_def)
  from location_update_finishes[OF sample_world_ok sample_attached this e, of sample_common "Seconds True"] e
  show ?thesis by blast
qed

end
