(* ===== verification/LocationMetadata.thy ===== *)
theory LocationMetadata
  imports LinuxStore
begin

text \<open>
  \<open>location-metadata.c\<close>: the locality file \<open>location.ini\<close>, its journal \<open>location.pending\<close>, the locality
  lock and the recovery of an interrupted location change.
\<close>

section \<open>Data\<close>

record location_metadata =
  md_display_name :: string
  md_country_code :: string
  md_timezone_id :: string
  md_latitude :: double
  md_longitude :: double

definition sizeof_display_name :: nat where "sizeof_display_name = 256"
definition sizeof_country_code :: nat where "sizeof_country_code = 8"
definition sizeof_timezone_id :: nat where "sizeof_timezone_id = 128"

definition cleared_metadata :: location_metadata where
  "cleared_metadata = \<lparr>md_display_name = [], md_country_code = [], md_timezone_id = [],
     md_latitude = dzero, md_longitude = dzero\<rparr>"

datatype load_status = LOAD_OK | LOAD_MISSING | LOAD_INVALID | LOAD_IO_ERROR

section \<open>Paths and the lock\<close>

definition ss_location_metadata_path_alloc :: "linux_lib \<Rightarrow> string" where
  "ss_location_metadata_path_alloc L = infiltrator_path L [''system-settings'', ''location.ini'']"

definition metadata_pending_path :: "linux_lib \<Rightarrow> string" where
  "metadata_pending_path L = infiltrator_path L [''system-settings'', ''location.pending'']"

definition metadata_directory_path :: "linux_lib \<Rightarrow> string" where
  "metadata_directory_path L = infiltrator_path L [''system-settings'']"

definition metadata_lock_path :: "linux_lib \<Rightarrow> string" where
  "metadata_lock_path L = infiltrator_path L [''system-settings'', ''location.lock'']"

definition ss_location_metadata_transaction_begin :: "world \<Rightarrow> bool \<times> world" where
  "ss_location_metadata_transaction_begin w =
     (let (result, lock, k) =
            ss_linux_advisory_lock_acquire (Some (locality_transaction_lock w))
              (Some (metadata_directory_path (lib w))) (Some (metadata_lock_path (lib w)))
              SS_LINUX_ADVISORY_LOCK_MAX_WAIT_USEC SS_LOCK_RETRY_USEC (kern w)
      in (result = LOCK_OK,
          w\<lparr>locality_transaction_lock := the_default (locality_transaction_lock w) lock, kern := k\<rparr>))"

definition ss_location_metadata_transaction_end :: "world \<Rightarrow> world" where
  "ss_location_metadata_transaction_end w =
     (let (lock, k) = ss_linux_advisory_lock_release (Some (locality_transaction_lock w)) (kern w)
      in w\<lparr>locality_transaction_lock := the_default (locality_transaction_lock w) lock, kern := k\<rparr>)"

section \<open>Reading and writing\<close>

text \<open>A fixed array without a terminator is a text that is not shorter than the array.\<close>

definition metadata_valid :: "glib \<Rightarrow> location_metadata option \<Rightarrow> bool" where
  "metadata_valid gl value =
     (case value of None \<Rightarrow> False
      | Some v \<Rightarrow>
          md_display_name v \<noteq> [] \<and>
          length (md_display_name v) < sizeof_display_name \<and>
          length (md_country_code v) < sizeof_country_code \<and>
          length (md_timezone_id v) < sizeof_timezone_id \<and>
          g_utf8_validate gl (md_display_name v) \<and> g_utf8_validate gl (md_country_code v) \<and>
          g_utf8_validate gl (md_timezone_id v) \<and>
          isfinite (md_latitude v) \<and> isfinite (md_longitude v) \<and>
          dle (Fin (- 90)) (md_latitude v) \<and> dle (md_latitude v) (Fin 90) \<and>
          dle (Fin (- 180)) (md_longitude v) \<and> dle (md_longitude v) (Fin 180))"

definition key_string :: "linux_lib \<Rightarrow> key_file \<Rightarrow> string \<Rightarrow> string option" where
  "key_string L kf key = (case kf ''Location'' key of None \<Rightarrow> None | Some raw \<Rightarrow> key_string_value L raw)"

definition key_double :: "linux_lib \<Rightarrow> key_file \<Rightarrow> string \<Rightarrow> double option" where
  "key_double L kf key = (case kf ''Location'' key of None \<Rightarrow> None | Some raw \<Rightarrow> key_double_value L raw)"

text \<open>A field copied from an optional text with \<open>g_strlcpy\<close>; \<open>None\<close> when it does not fit.\<close>

definition copied_field :: "string option \<Rightarrow> nat \<Rightarrow> string option" where
  "copied_field text capacity =
     (case text of None \<Rightarrow> Some []
      | Some t \<Rightarrow> (let (copy, n) = strlcpy t capacity in if capacity \<le> n then None else Some copy))"

definition metadata_of_key_file :: "linux_lib \<Rightarrow> key_file \<Rightarrow> location_metadata option" where
  "metadata_of_key_file L kf =
     (case (key_string L kf ''Name'', key_double L kf ''Latitude'', key_double L kf ''Longitude'') of
        (Some name, Some lat, Some lon) \<Rightarrow>
          (case (copied_field (Some name) sizeof_display_name,
                 copied_field (key_string L kf ''CountryCode'') sizeof_country_code,
                 copied_field (key_string L kf ''Timezone'') sizeof_timezone_id) of
             (Some n, Some c, Some t) \<Rightarrow>
               (let candidate = \<lparr>md_display_name = n, md_country_code = c, md_timezone_id = t,
                                 md_latitude = lat, md_longitude = lon\<rparr>
                in if metadata_valid (lib_glib L) (Some candidate) then Some candidate else None)
           | _ \<Rightarrow> None)
      | _ \<Rightarrow> None)"

definition metadata_load_path ::
  "linux_lib \<Rightarrow> string \<Rightarrow> kernel \<Rightarrow> load_status \<times> location_metadata \<times> kernel" where
  "metadata_load_path L path k =
     (if path = [] then (LOAD_IO_ERROR, cleared_metadata, k)
      else
        (case load_file L path k of
           (NotFound, k1) \<Rightarrow> (LOAD_MISSING, cleared_metadata, k1)
         | (FileError, k1) \<Rightarrow> (LOAD_IO_ERROR, cleared_metadata, k1)
         | (Contents data, k1) \<Rightarrow>
             (case key_file_parse L data of
                None \<Rightarrow> (LOAD_INVALID, cleared_metadata, k1)
              | Some kf \<Rightarrow>
                  (case metadata_of_key_file L kf of
                     None \<Rightarrow> (LOAD_INVALID, cleared_metadata, k1)
                   | Some md \<Rightarrow> (LOAD_OK, md, k1)))))"

definition metadata_key_file :: "linux_lib \<Rightarrow> location_metadata \<Rightarrow> key_file" where
  "metadata_key_file L md =
     (\<lambda>_ _. None)(''Location'' := [''Name'' \<mapsto> key_string_raw L (md_display_name md),
                                ''CountryCode'' \<mapsto> key_string_raw L (md_country_code md),
                                ''Timezone'' \<mapsto> key_string_raw L (md_timezone_id md),
                                ''Latitude'' \<mapsto> key_double_raw L (md_latitude md),
                                ''Longitude'' \<mapsto> key_double_raw L (md_longitude md)])"

definition metadata_text :: "linux_lib \<Rightarrow> location_metadata \<Rightarrow> string" where
  "metadata_text L md = key_file_data L (metadata_key_file L md)"

definition metadata_save_path :: "linux_lib \<Rightarrow> string \<Rightarrow> location_metadata \<Rightarrow> kernel \<Rightarrow> bool \<times> kernel" where
  "metadata_save_path L path md k =
     (if path = [] \<or> \<not> metadata_valid (lib_glib L) (Some md) then (False, k)
      else
        (let directory = g_path_get_dirname (lib_glib L) path;
             (made, k1) = mkdir_parents L directory 448 k
         in if made \<noteq> 0 then (False, k1)
            else
              (let (changed, k2) = g_chmod directory 448 k1 in
               if \<not> changed then (False, k2)
               else (let (failure, k3) = atomic_file_write_private L path (metadata_text L md) k2
                     in (failure = 0, k3)))))"

definition ss_location_metadata_load_status :: "world \<Rightarrow> load_status \<times> location_metadata \<times> world" where
  "ss_location_metadata_load_status w =
     (let (status, md, k) = metadata_load_path (lib w) (ss_location_metadata_path_alloc (lib w)) (kern w)
      in (status, md, w\<lparr>kern := k\<rparr>))"

definition ss_location_metadata_load :: "world \<Rightarrow> bool \<times> location_metadata \<times> world" where
  "ss_location_metadata_load w =
     (let (status, md, w1) = ss_location_metadata_load_status w in (status = LOAD_OK, md, w1))"

definition ss_location_metadata_save :: "location_metadata \<Rightarrow> world \<Rightarrow> bool \<times> world" where
  "ss_location_metadata_save md w =
     (let (saved, k) = metadata_save_path (lib w) (ss_location_metadata_path_alloc (lib w)) md (kern w)
      in (saved, w\<lparr>kern := k\<rparr>))"

definition remove_metadata_path :: "linux_lib \<Rightarrow> string \<Rightarrow> kernel \<Rightarrow> bool \<times> kernel" where
  "remove_metadata_path L path k =
     (if path = [] then (False, k)
      else (let (failure, k1) = unlink_durable L path True k in (failure = 0, k1)))"

definition ss_location_metadata_clear :: "world \<Rightarrow> bool \<times> world" where
  "ss_location_metadata_clear w =
     (let (removed, k) = remove_metadata_path (lib w) (ss_location_metadata_path_alloc (lib w)) (kern w)
      in (removed, w\<lparr>kern := k\<rparr>))"

definition ss_location_metadata_stage :: "location_metadata \<Rightarrow> world \<Rightarrow> bool \<times> world" where
  "ss_location_metadata_stage md w =
     (let (saved, k) = metadata_save_path (lib w) (metadata_pending_path (lib w)) md (kern w)
      in (saved, w\<lparr>kern := k\<rparr>))"

definition ss_location_metadata_discard_staged :: "world \<Rightarrow> bool \<times> world" where
  "ss_location_metadata_discard_staged w =
     (let (removed, k) = remove_metadata_path (lib w) (metadata_pending_path (lib w)) (kern w)
      in (removed, w\<lparr>kern := k\<rparr>))"

definition ss_location_metadata_finish_staged :: "world \<Rightarrow> bool \<times> world" where
  "ss_location_metadata_finish_staged w =
     (let path = metadata_pending_path (lib w);
          (status, staged, k) = metadata_load_path (lib w) path (kern w);
          w1 = w\<lparr>kern := k\<rparr>
      in if status \<noteq> LOAD_OK then (False, w1)
         else
           (let (saved, w2) = ss_location_metadata_save staged w1 in
            if \<not> saved then (False, w2)
            else (True, w2\<lparr>kern := snd (remove_metadata_path (lib w2) path (kern w2))\<rparr>)))"

section \<open>Recovery\<close>

definition coordinates_match :: "double \<Rightarrow> double \<Rightarrow> bool" where
  "coordinates_match a b = dlt (let d = dsub a b in if dlt d dzero then dneg d else d) (round64 (1 / 1000000))"

text \<open>The part after the policy was read under the locality lock, up to the label \<open>done\<close>.\<close>

definition recover_journal :: "bool \<Rightarrow> double \<Rightarrow> double \<Rightarrow> world \<Rightarrow> bool \<times> world" where
  "recover_journal configured lat lon w =
     (let path = metadata_pending_path (lib w);
          (status, staged, k) = metadata_load_path (lib w) path (kern w);
          w1 = w\<lparr>kern := k\<rparr>
      in case status of
           LOAD_MISSING \<Rightarrow> if \<not> configured then ss_location_metadata_clear w1 else (True, w1)
         | LOAD_IO_ERROR \<Rightarrow> (False, w1)
         | LOAD_INVALID \<Rightarrow>
             (let (discarded, w2) = ss_location_metadata_discard_staged w1 in
              if \<not> discarded then (False, w2)
              else if \<not> configured then ss_location_metadata_clear w2 else (True, w2))
         | LOAD_OK \<Rightarrow>
             if configured \<and> coordinates_match (md_latitude staged) lat \<and>
                coordinates_match (md_longitude staged) lon
             then ss_location_metadata_finish_staged w1
             else
               (let (discarded, w2) = ss_location_metadata_discard_staged w1 in
                if \<not> discarded then (False, w2)
                else if \<not> configured
                then (let (cleared, w3) = ss_location_metadata_clear w2 in (cleared, w3))
                else (True, w2)))"

definition ss_location_metadata_recover :: "world \<Rightarrow> bool \<times> world" where
  "ss_location_metadata_recover w =
     (let (locked, w1) = ss_location_metadata_transaction_begin w in
      if \<not> locked then (False, w1)
      else
        (let (recovered, w2) =
               (case st_load ss_platform_temporal_policy_store of
                  None \<Rightarrow> (False, w1)
                | Some load \<Rightarrow>
                    (case load w1 of
                       (None, w2) \<Rightarrow> (False, w2)
                     | (Some (authoritative, found), w2) \<Rightarrow>
                         recover_journal (location_configured authoritative) (latitude authoritative)
                           (longitude authoritative) w2))
         in (recovered, ss_location_metadata_transaction_end w2)))"

section \<open>Effects on the files\<close>

text \<open>What a reader makes of the bytes of a metadata file.\<close>

definition metadata_of_text :: "linux_lib \<Rightarrow> string \<Rightarrow> location_metadata option" where
  "metadata_of_text L c = (case key_file_parse L c of None \<Rightarrow> None | Some kf \<Rightarrow> metadata_of_key_file L kf)"

abbreviation meta :: "world \<Rightarrow> string option" where
  "meta w \<equiv> file_of w (metadata_path (lib w))"

abbreviation journal :: "world \<Rightarrow> string option" where
  "journal w \<equiv> file_of w (pending_path (lib w))"

lemmas metadata_paths = ss_location_metadata_path_alloc_def metadata_pending_path_def metadata_lock_path_def

lemma metadata_load_path_law:
  assumes ok: "world_ok w" and e: "metadata_load_path (lib w) p k = (st, md, k')"
  shows "frame_but {} k k' \<and>
    (st = LOAD_OK \<longrightarrow> (\<exists>c. files k' p = Some c \<and> metadata_of_text (lib w) c = Some md)) \<and>
    (st = LOAD_MISSING \<longrightarrow> files k' p = None) \<and>
    (st = LOAD_INVALID \<longrightarrow> (\<exists>c. files k' p = Some c \<and> metadata_of_text (lib w) c = None))"
proof (cases "p = []")
  case True
  with e show ?thesis by (auto simp: metadata_load_path_def frame_but_refl)
next
  case False
  obtain r k1 where l: "load_file (lib w) p k = (r, k1)" by (metis prod.collapse)
  note L = load_file_call[OF ok l]
  show ?thesis
  proof (cases r)
    case (Contents c)
    then have "files k1 p = Some c" using L by simp
    then show ?thesis using e False l L Contents
      by (auto simp: metadata_load_path_def metadata_of_text_def split: option.splits)
  next
    case NotFound
    then show ?thesis using e False l L by (auto simp: metadata_load_path_def)
  next
    case FileError
    then show ?thesis using e False l L by (auto simp: metadata_load_path_def)
  qed
qed

lemma g_chmod_frame: "g_chmod p m k = (b, k') \<Longrightarrow> frame_but {} k k'"
  by (auto simp: g_chmod_def frame_but_def others_run_guarded split: if_splits)

lemma metadata_save_path_law:
  assumes ok: "world_ok w" and e: "metadata_save_path (lib w) p md k = (b, k')"
  shows "frame_but {p} k k' \<and>
    (b \<longrightarrow> files k' p = Some (metadata_text (lib w) md) \<and> metadata_valid (lib_glib (lib w)) (Some md)) \<and>
    (protected k p \<longrightarrow> files k' p = files k p \<or> files k' p = Some (metadata_text (lib w) md))"
proof (cases "p = [] \<or> \<not> metadata_valid (lib_glib (lib w)) (Some md)")
  case True
  with e show ?thesis by (auto simp: metadata_save_path_def frame_but_refl)
next
  case False
  let ?d = "g_path_get_dirname (lib_glib (lib w)) p"
  obtain made k1 where mk: "mkdir_parents (lib w) ?d 448 k = (made, k1)" by (metis prod.collapse)
  obtain ch k2 where c: "g_chmod ?d 448 k1 = (ch, k2)" by (metis prod.collapse)
  obtain fl k3 where wr: "atomic_file_write_private (lib w) p (metadata_text (lib w) md) k2 = (fl, k3)"
    by (metis prod.collapse)
  note f1 = mkdir_call[OF ok mk]
  note f2 = frame_but_trans0[OF f1 g_chmod_frame[OF c]]
  note W = write_call[OF ok wr]
  have f3: "frame_but {p} k k3" using frame_but_trans[OF f2, of "{p}" k3] W by simp
  have pr: "protected k2 q = protected k q" for q using f2 by (intro protected_cong) (auto simp: frame_but_def)
  have old: "protected k p \<longrightarrow> files k1 p = files k p \<and> files k2 p = files k p"
    using f1 f2 by (simp add: frame_but_def)
  have "k' = k1 \<and> b = False \<or> k' = k2 \<and> b = False \<or> k' = k3 \<and> b = (fl = 0)"
    using e False mk c wr by (auto simp: metadata_save_path_def Let_def split: if_splits)
  then show ?thesis using False f1 f2 f3 W old pr frame_but_mono[of "{}" k _ "{p}"] by auto
qed

text \<open>The metadata operations keep the policy lock and the policy.\<close>

definition metadata_later :: "world \<Rightarrow> world \<Rightarrow> bool" where
  "metadata_later w w' \<longleftrightarrow>
     lib w' = lib w \<and> env (kern w') = env (kern w) \<and> update_lock w' = update_lock w \<and>
     (world_ok w \<longrightarrow> world_ok w' \<and>
        (policy_locked w \<longrightarrow> file_of w' (policy_path (lib w)) = file_of w (policy_path (lib w))))"

lemma metadata_later_refl: "metadata_later w w"
  by (simp add: metadata_later_def)

lemma metadata_later_trans: "metadata_later u v \<Longrightarrow> metadata_later v w \<Longrightarrow> metadata_later u w"
  by (simp add: metadata_later_def policy_locked_def)

lemma metadata_later_ok: "metadata_later w w' \<Longrightarrow> world_ok w \<Longrightarrow> world_ok w' \<and> lib w' = lib w"
  by (simp add: metadata_later_def)

lemma metadata_frame_later:
  assumes "frame_but S (kern w) k'" "S \<subseteq> {metadata_path (lib w), pending_path (lib w)}"
  shows "metadata_later w (w\<lparr>kern := k'\<rparr>)"
proof -
  have "env k' = env (kern w)" using assms(1) by (simp add: frame_but_def)
  moreover have "world_ok (w\<lparr>kern := k'\<rparr>) \<and> (policy_locked w \<longrightarrow>
       files k' (policy_path (lib w)) = file_of w (policy_path (lib w)))" if ok: "world_ok w"
  proof -
    have "policy_path (lib w) \<notin> S" using assms(2) paths_distinct[OF ok] by auto
    then show ?thesis using frame_but_ok[OF assms(1) ok] assms(1) locked_protected[OF ok] by (simp add: frame_but_def)
  qed
  ultimately show ?thesis by (simp add: metadata_later_def)
qed

text \<open>One operation on one of the two files, under the locality lock: the other file stays.\<close>

lemma pending_other: "world_ok w \<Longrightarrow> pending_path (lib w) \<noteq> metadata_path (lib w)"
  using paths_distinct by fastforce

lemma locked_frame:
  assumes "world_ok w" "locality_locked w" "frame_but S (kern w) k'"
    and "S \<subseteq> {metadata_path (lib w), pending_path (lib w)}"
  shows "metadata_later w (w\<lparr>kern := k'\<rparr>) \<and> world_ok (w\<lparr>kern := k'\<rparr>) \<and> locality_locked (w\<lparr>kern := k'\<rparr>) \<and>
    (metadata_path (lib w) \<notin> S \<longrightarrow> meta (w\<lparr>kern := k'\<rparr>) = meta w) \<and>
    (pending_path (lib w) \<notin> S \<longrightarrow> journal (w\<lparr>kern := k'\<rparr>) = journal w)"
  using metadata_frame_later[OF assms(3,4)] frame_but_ok[OF assms(3,1)] assms(2,3) locked_protected[OF assms(1)]
  by (simp add: frame_but_def locality_locked_def)

lemma remove_files:
  assumes "world_ok w" "remove_metadata_path (lib w) p k = (b, k')"
  shows "frame_but {p} k k' \<and> (b \<longrightarrow> files k' p = None) \<and>
         (protected k p \<longrightarrow> files k' p = files k p \<or> files k' p = None)"
proof (cases "p = []")
  case True
  with assms show ?thesis by (auto simp: remove_metadata_path_def frame_but_refl)
next
  case False
  obtain r k1 where u: "unlink_durable (lib w) p True k = (r, k1)" by (metis prod.collapse)
  with unlink_call[OF assms(1) u] assms(2) False show ?thesis by (auto simp: remove_metadata_path_def)
qed

lemma discard_files:
  assumes "world_ok w" "locality_locked w" "ss_location_metadata_discard_staged w = (b, w')"
  shows "metadata_later w w' \<and> world_ok w' \<and> locality_locked w' \<and> lib w' = lib w \<and> meta w' = meta w \<and>
    (if b then journal w' = None else journal w' = journal w \<or> journal w' = None)"
proof -
  obtain k where r: "remove_metadata_path (lib w) (pending_path (lib w)) (kern w) = (b, k)" "w' = w\<lparr>kern := k\<rparr>"
    using assms(3) by (auto simp: ss_location_metadata_discard_staged_def metadata_paths split: prod.splits)
  note R = remove_files[OF assms(1) r(1)]
  have "frame_but {pending_path (lib w)} (kern w) k" using R by simp
  from locked_frame[OF assms(1,2) this] pending_other[OF assms(1)] R r(2) locked_protected(3)[OF assms(1,2)]
  show ?thesis by auto
qed

lemma clear_files:
  assumes "world_ok w" "locality_locked w" "ss_location_metadata_clear w = (b, w')"
  shows "metadata_later w w' \<and> world_ok w' \<and> locality_locked w' \<and> lib w' = lib w \<and> journal w' = journal w \<and>
    (if b then meta w' = None else meta w' = meta w \<or> meta w' = None)"
proof -
  obtain k where r: "remove_metadata_path (lib w) (metadata_path (lib w)) (kern w) = (b, k)" "w' = w\<lparr>kern := k\<rparr>"
    using assms(3) by (auto simp: ss_location_metadata_clear_def metadata_paths split: prod.splits)
  note R = remove_files[OF assms(1) r(1)]
  have "frame_but {metadata_path (lib w)} (kern w) k" using R by simp
  from locked_frame[OF assms(1,2) this] pending_other[OF assms(1)] R r(2) locked_protected(2)[OF assms(1,2)]
  show ?thesis by auto
qed

lemma stage_files:
  assumes "world_ok w" "locality_locked w" "ss_location_metadata_stage md w = (b, w')"
  shows "metadata_later w w' \<and> world_ok w' \<and> locality_locked w' \<and> lib w' = lib w \<and> meta w' = meta w \<and>
    (b \<longrightarrow> journal w' = Some (metadata_text (lib w) md) \<and> metadata_valid (lib_glib (lib w)) (Some md)) \<and>
    (journal w' = journal w \<or> journal w' = Some (metadata_text (lib w) md))"
proof -
  obtain k where r: "metadata_save_path (lib w) (pending_path (lib w)) md (kern w) = (b, k)" "w' = w\<lparr>kern := k\<rparr>"
    using assms(3) by (auto simp: ss_location_metadata_stage_def metadata_paths split: prod.splits)
  note R = metadata_save_path_law[OF assms(1) r(1)]
  have "frame_but {pending_path (lib w)} (kern w) k" using R by simp
  from locked_frame[OF assms(1,2) this] pending_other[OF assms(1)] R r(2) locked_protected(3)[OF assms(1,2)]
  show ?thesis by auto
qed

lemma save_files:
  assumes "world_ok w" "locality_locked w" "ss_location_metadata_save md w = (b, w')"
  shows "metadata_later w w' \<and> world_ok w' \<and> locality_locked w' \<and> lib w' = lib w \<and> journal w' = journal w \<and>
    (b \<longrightarrow> meta w' = Some (metadata_text (lib w) md) \<and> metadata_valid (lib_glib (lib w)) (Some md)) \<and>
    (meta w' = meta w \<or> meta w' = Some (metadata_text (lib w) md))"
proof -
  obtain k where r: "metadata_save_path (lib w) (metadata_path (lib w)) md (kern w) = (b, k)" "w' = w\<lparr>kern := k\<rparr>"
    using assms(3) by (auto simp: ss_location_metadata_save_def metadata_paths split: prod.splits)
  note R = metadata_save_path_law[OF assms(1) r(1)]
  have "frame_but {metadata_path (lib w)} (kern w) k" using R by simp
  from locked_frame[OF assms(1,2) this] pending_other[OF assms(1)] R r(2) locked_protected(2)[OF assms(1,2)]
  show ?thesis by auto
qed

text \<open>Reading the journal under the lock.\<close>

lemma read_journal:
  assumes "world_ok w" "locality_locked w" "metadata_load_path (lib w) (pending_path (lib w)) (kern w) = (st, md, k)"
  shows "metadata_later w (w\<lparr>kern := k\<rparr>) \<and> world_ok (w\<lparr>kern := k\<rparr>) \<and> locality_locked (w\<lparr>kern := k\<rparr>) \<and>
    meta (w\<lparr>kern := k\<rparr>) = meta w \<and> journal (w\<lparr>kern := k\<rparr>) = journal w \<and>
    (st = LOAD_OK \<longrightarrow> (\<exists>c. journal w = Some c \<and> metadata_of_text (lib w) c = Some md)) \<and>
    (st = LOAD_MISSING \<longrightarrow> journal w = None) \<and>
    (st = LOAD_INVALID \<longrightarrow> (\<exists>c. journal w = Some c \<and> metadata_of_text (lib w) c = None))"
proof -
  note L = metadata_load_path_law[OF assms(1,3)]
  then have f: "frame_but {} (kern w) k" by simp
  note F = locked_frame[OF assms(1,2) f]
  have "files k (pending_path (lib w)) = journal w" using F by simp
  then show ?thesis using F L by auto
qed

lemma finish_files:
  assumes "world_ok w" "locality_locked w" "ss_location_metadata_finish_staged w = (b, w')"
  shows "metadata_later w w' \<and> world_ok w' \<and> locality_locked w' \<and> lib w' = lib w \<and>
    (if b then \<exists>c md. journal w = Some c \<and> metadata_of_text (lib w) c = Some md \<and>
                      meta w' = Some (metadata_text (lib w) md) \<and> (journal w' = None \<or> journal w' = journal w)
     else journal w' = journal w \<and>
          (meta w' = meta w \<or>
           (\<exists>c md. journal w = Some c \<and> metadata_of_text (lib w) c = Some md \<and>
                   meta w' = Some (metadata_text (lib w) md))))"
proof -
  obtain st md k where l: "metadata_load_path (lib w) (pending_path (lib w)) (kern w) = (st, md, k)" by (metis prod.collapse)
  let ?w1 = "w\<lparr>kern := k\<rparr>"
  note J = read_journal[OF assms(1,2) l]
  show ?thesis
  proof (cases "st = LOAD_OK")
    case False
    with assms(3) l have "b = False" "w' = ?w1"
      by (auto simp: ss_location_metadata_finish_staged_def metadata_paths Let_def)
    then show ?thesis using J by simp
  next
    case True
    with J obtain c where c: "journal w = Some c" "metadata_of_text (lib w) c = Some md" by auto
    obtain s w2 where sv: "ss_location_metadata_save md ?w1 = (s, w2)" by (metis prod.collapse)
    have ok1: "world_ok ?w1" "locality_locked ?w1" using J by auto
    note S = save_files[OF ok1 sv]
    have l2: "metadata_later w w2" using J S metadata_later_trans by blast
    show ?thesis
    proof (cases s)
      case False
      with assms(3) l True sv have "b = False" "w' = w2"
        by (auto simp: ss_location_metadata_finish_staged_def metadata_paths Let_def)
      then show ?thesis using S J c l2 by auto
    next
      case s: True
      obtain q k3 where rm: "remove_metadata_path (lib w2) (pending_path (lib w)) (kern w2) = (q, k3)" by (metis prod.collapse)
      with assms(3) l True sv s have w': "b = True" "w' = w2\<lparr>kern := k3\<rparr>"
        by (auto simp: ss_location_metadata_finish_staged_def metadata_paths Let_def)
      have ok2: "world_ok w2" "locality_locked w2" "lib w2 = lib w" using S by auto
      note R = remove_files[OF ok2(1) rm]
      have f: "frame_but {pending_path (lib w2)} (kern w2) k3" using R ok2 by simp
      note F = locked_frame[OF ok2(1,2) f]
      have "meta w' = meta w2" using F pending_other[OF ok2(1)] w' by simp
      moreover have "journal w' = journal w2 \<or> journal w' = None"
        using R locked_protected(3)[OF ok2(1,2)] w' ok2 by auto
      moreover have "metadata_later w w' \<and> world_ok w' \<and> locality_locked w' \<and> lib w' = lib w"
        using F l2 w' ok2 metadata_later_trans[of w w2 w'] by simp
      ultimately show ?thesis using w' S s c J ok2 by auto
    qed
  qed
qed

section \<open>The locality lock\<close>

lemma transaction_begin_law:
  assumes ok: "world_ok w" and e: "ss_location_metadata_transaction_begin w = (b, w')"
  shows "metadata_later w w' \<and> world_ok w' \<and> lib w' = lib w \<and>
    (if b then \<not> locality_locked w \<and> locality_locked w'
     else locality_transaction_lock w' = locality_transaction_lock w)"
proof -
  obtain r l k where a: "ss_linux_advisory_lock_acquire (Some (locality_transaction_lock w))
      (Some (metadata_directory_path (lib w))) (Some (metadata_lock_path (lib w)))
      SS_LINUX_ADVISORY_LOCK_MAX_WAIT_USEC SS_LOCK_RETRY_USEC (kern w) = (r, l, k)" by (metis prod.collapse)
  have w': "b = (r = LOCK_OK)"
    "w' = w\<lparr>locality_transaction_lock := the_default (locality_transaction_lock w) l, kern := k\<rparr>"
    using e a by (auto simp: ss_location_metadata_transaction_begin_def Let_def)
  show ?thesis
  proof (cases "0 \<le> locality_transaction_lock w")
    case True
    with acquire_held[OF True a] w' have "b = False" "w' = w" by (auto simp: the_default_def)
    then show ?thesis using ok by (simp add: metadata_later_refl)
  next
    case False
    note A = acquire_world[OF ok _ a]
    then obtain fd where l: "l = Some fd" "0 \<le> fd \<longrightarrow> owns k fd (metadata_lock_file (lib w))"
      "(0 \<le> fd) = (r = LOCK_OK)" "r \<noteq> LOCK_OK \<longrightarrow> fd = locality_transaction_lock w"
      using False by (auto simp: metadata_paths split: if_splits)
    have k: "env k = env (kern w)" "wf_kernel k" using A False by auto
    have "metadata_lock_path (lib w) \<noteq> policy_path (lib w)"
      using paths_distinct[OF ok] by (auto simp: metadata_paths)
    then have fl: "policy_locked w \<longrightarrow> files k (policy_path (lib w)) = file_of w (policy_path (lib w))"
      using A False locked_protected(1)[OF ok] by auto
    have own: "0 \<le> update_lock w \<longrightarrow> owns k (update_lock w) (policy_lock_path (lib w))"
      using world_ok_locks(1)[OF ok] A False by auto
    have ok': "world_ok w'" using ok own l(2) k unfolding w' by (simp add: world_ok_def the_default_def l(1))
    then have "metadata_later w w'" using fl k unfolding w' metadata_later_def by simp
    then show ?thesis using False l w' ok' by (auto simp: locality_locked_def the_default_def)
  qed
qed

lemma transaction_end_law:
  assumes ok: "world_ok w"
  shows "metadata_later w (ss_location_metadata_transaction_end w) \<and>
    world_ok (ss_location_metadata_transaction_end w) \<and>
    \<not> locality_locked (ss_location_metadata_transaction_end w) \<and>
    files (kern (ss_location_metadata_transaction_end w)) = files (kern w) \<and>
    lib (ss_location_metadata_transaction_end w) = lib w"
proof (cases "0 \<le> locality_transaction_lock w")
  case False
  then have "ss_location_metadata_transaction_end w = w"
    by (simp add: ss_location_metadata_transaction_end_def ss_linux_advisory_lock_release_def the_default_def)
  then show ?thesis using False ok by (simp add: metadata_later_refl locality_locked_def)
next
  case True
  let ?fd = "locality_transaction_lock w"
  let ?k = "(kern w)\<lparr>locks := filter (\<lambda>x. x \<noteq> ?fd) (locks (kern w)), descriptors := (descriptors (kern w))(?fd := None)\<rparr>"
  have wf: "wf_kernel (kern w)" using ok by (simp add: world_ok_def)
  note R = release_frame[OF wf True]
  have e: "ss_location_metadata_transaction_end w = w\<lparr>locality_transaction_lock := - 1, kern := ?k\<rparr>"
    using R(1) by (simp add: ss_location_metadata_transaction_end_def the_default_def)
  have wfk: "wf_kernel ?k" using R by simp
  have "0 \<le> update_lock w \<longrightarrow> owns ?k (update_lock w) (policy_lock_path (lib w))"
    using world_ok_locks[OF ok] True paths_distinct[OF ok] by (auto simp: owns_def)
  then have "world_ok (ss_location_metadata_transaction_end w)" using ok wfk unfolding e by (simp add: world_ok_def)
  then show ?thesis unfolding e by (simp add: metadata_later_def locality_locked_def)
qed

section \<open>Recovery\<close>

text \<open>What recovery makes of the two files, for the location of the authoritative policy.\<close>

definition journal_matches :: "linux_lib \<Rightarrow> policy \<Rightarrow> string option \<Rightarrow> bool" where
  "journal_matches L p pend \<longleftrightarrow>
     (\<exists>c md. pend = Some c \<and> metadata_of_text L c = Some md \<and> location_configured p \<and>
        coordinates_match (md_latitude md) (latitude p) \<and> coordinates_match (md_longitude md) (longitude p))"

definition recovered_metadata :: "linux_lib \<Rightarrow> policy \<Rightarrow> string option \<Rightarrow> string option \<Rightarrow> string option" where
  "recovered_metadata L p pend ini =
     (case pend of
        None \<Rightarrow> if location_configured p then ini else None
      | Some c \<Rightarrow>
          (case metadata_of_text L c of
             None \<Rightarrow> if location_configured p then ini else None
           | Some md \<Rightarrow>
               if journal_matches L p pend then Some (metadata_text L md)
               else if location_configured p then ini else None))"

lemma recover_journal_law:
  assumes "world_ok w" "locality_locked w"
    and "recover_journal (location_configured p) (latitude p) (longitude p) w = (b, w')"
  shows "metadata_later w w' \<and> world_ok w' \<and> locality_locked w' \<and> lib w' = lib w \<and>
    (if b then meta w' = recovered_metadata (lib w) p (journal w) (meta w) \<and>
               (journal w' = None \<or> journal_matches (lib w) p (journal w) \<and> journal w' = journal w)
     else (meta w' = meta w \<or> meta w' = recovered_metadata (lib w) p (journal w) (meta w)) \<and>
          (journal w' = journal w \<or> journal w' = None))"
proof -
  obtain st md k where l: "metadata_load_path (lib w) (pending_path (lib w)) (kern w) = (st, md, k)" by (metis prod.collapse)
  let ?w1 = "w\<lparr>kern := k\<rparr>"
  let ?c = "location_configured p"
  note J = read_journal[OF assms(1,2) l]
  have ok1: "world_ok ?w1" "locality_locked ?w1" "metadata_later w ?w1" using J by auto
  have cl: "metadata_later w w2 \<and> world_ok w2 \<and> locality_locked w2 \<and> lib w2 = lib w \<and> journal w2 = journal x \<and>
       (if q then meta w2 = None else meta w2 = meta x \<or> meta w2 = None)"
    if "world_ok x" "locality_locked x" "metadata_later w x" "ss_location_metadata_clear x = (q, w2)" for x q w2
  proof -
    note C = clear_files[OF that(1,2,4)]
    have "metadata_later w w2" using metadata_later_trans[OF that(3)] C by blast
    moreover have "lib x = lib w" using that(3) by (simp add: metadata_later_def)
    ultimately show ?thesis using C by (cases q) auto
  qed
  have after_discard: "metadata_later w w' \<and> world_ok w' \<and> locality_locked w' \<and> lib w' = lib w \<and>
    (if b then meta w' = recovered_metadata (lib w) p (journal w) (meta w) \<and>
               (journal w' = None \<or> journal_matches (lib w) p (journal w) \<and> journal w' = journal w)
     else (meta w' = meta w \<or> meta w' = recovered_metadata (lib w) p (journal w) (meta w)) \<and>
          (journal w' = journal w \<or> journal w' = None))"
    if t: "recovered_metadata (lib w) p (journal w) (meta w) = (if ?c then meta w else None)"
      and e: "(let (discarded, w2) = ss_location_metadata_discard_staged ?w1 in
          if \<not> discarded then (False, w2) else if \<not> ?c then ss_location_metadata_clear w2 else (True, w2)) = (b, w')"
  proof -
    obtain d w2 where di: "ss_location_metadata_discard_staged ?w1 = (d, w2)" by (metis prod.collapse)
    note D = discard_files[OF ok1(1,2) di]
    have w2: "world_ok w2" "locality_locked w2" "lib w2 = lib w" "meta w2 = meta w" "journal w2 = journal w \<or> journal w2 = None"
      "d \<Longrightarrow> journal w2 = None" "metadata_later w w2"
      using D J metadata_later_trans[OF ok1(3)] by (blast, blast, force, metis, metis, metis, blast)
    consider "\<not> d" "b = False" "w' = w2" | "d" "?c" "b = True" "w' = w2"
      | "d" "\<not> ?c" "ss_location_metadata_clear w2 = (b, w')"
      using e di by (cases d; cases ?c) simp_all
    then show ?thesis
    proof cases
      case 1
      then show ?thesis using w2 by simp
    next
      case 2
      then show ?thesis using w2 t by simp
    next
      case 3
      note C = cl[OF w2(1,2,7) 3(3)]
      have c: "metadata_later w w'" "world_ok w'" "locality_locked w'" "lib w' = lib w" "journal w' = None"
        "if b then meta w' = None else meta w' = meta w \<or> meta w' = None"
        using C w2(4) w2(6)[OF 3(1)] by (blast, blast, blast, blast, metis, metis)
      then show ?thesis using 3(2) t by (cases b) simp_all
    qed
  qed
  show ?thesis
  proof (cases st)
    case LOAD_MISSING
    then have j: "journal w = None" using J by simp
    show ?thesis
    proof (cases ?c)
      case True
      with assms(3) l LOAD_MISSING have "b = True" "w' = ?w1" by (auto simp: recover_journal_def metadata_paths Let_def)
      then show ?thesis using J j True by (simp add: recovered_metadata_def)
    next
      case False
      with assms(3) l LOAD_MISSING have "ss_location_metadata_clear ?w1 = (b, w')"
        by (auto simp: recover_journal_def metadata_paths Let_def)
      from cl[OF ok1 this] J j False show ?thesis by (auto simp: recovered_metadata_def)
    qed
  next
    case LOAD_IO_ERROR
    with assms(3) l have "b = False" "w' = ?w1" by (auto simp: recover_journal_def metadata_paths Let_def)
    then show ?thesis using J by simp
  next
    case LOAD_INVALID
    then obtain c where j: "journal w = Some c" "metadata_of_text (lib w) c = None" using J by auto
    then have t: "recovered_metadata (lib w) p (journal w) (meta w) = (if ?c then meta w else None)"
      by (simp add: recovered_metadata_def)
    from assms(3) l LOAD_INVALID show ?thesis
      by (intro after_discard[OF t]) (simp add: recover_journal_def metadata_paths Let_def)
  next
    case LOAD_OK
    then obtain c where j: "journal w = Some c" "metadata_of_text (lib w) c = Some md" using J by auto
    let ?m = "?c \<and> coordinates_match (md_latitude md) (latitude p) \<and> coordinates_match (md_longitude md) (longitude p)"
    have jm: "journal_matches (lib w) p (journal w) = ?m" using j by (simp add: journal_matches_def)
    show ?thesis
    proof (cases ?m)
      case True
      with assms(3) l LOAD_OK have f: "ss_location_metadata_finish_staged ?w1 = (b, w')"
        by (auto simp: recover_journal_def metadata_paths Let_def)
      note F = finish_files[OF ok1(1,2) f]
      have "recovered_metadata (lib w) p (journal w) (meta w) = Some (metadata_text (lib w) md)"
        using j True jm by (simp add: recovered_metadata_def)
      moreover have "metadata_later w w'" using metadata_later_trans[OF ok1(3)] F by blast
      ultimately show ?thesis using F J j True jm by (cases b) auto
    next
      case False
      then have t: "recovered_metadata (lib w) p (journal w) (meta w) = (if ?c then meta w else None)"
        using j jm by (auto simp: recovered_metadata_def)
      from assms(3) l LOAD_OK False show ?thesis
        by (intro after_discard[OF t]) (auto simp: recover_journal_def metadata_paths Let_def split: prod.splits if_splits)
    qed
  qed
qed


section \<open>The round trip\<close>

text \<open>What \<open>GKeyFile\<close> documents: it reads back the texts and the numbers it wrote.\<close>

definition key_file_documented :: "linux_lib \<Rightarrow> bool" where
  "key_file_documented L \<longleftrightarrow>
     (\<forall>md. metadata_valid (lib_glib L) (Some md) \<longrightarrow>
        key_file_parse L (metadata_text L md) = Some (metadata_key_file L md)) \<and>
     (\<forall>s. g_utf8_validate (lib_glib L) s \<longrightarrow> key_string_value L (key_string_raw L s) = Some s) \<and>
     (\<forall>d. isfinite d \<longrightarrow> key_double_value L (key_double_raw L d) = Some d)"

lemma copied_field_fits: "length t < n \<Longrightarrow> copied_field (Some t) n = Some t"
  by (simp add: copied_field_def strlcpy_fits)

lemma text_roundtrip:
  assumes "key_file_documented L" "metadata_valid (lib_glib L) (Some md)"
  shows "metadata_of_text L (metadata_text L md) = Some md"
proof -
  have "key_file_parse L (metadata_text L md) = Some (metadata_key_file L md)"
    and s: "\<And>s. g_utf8_validate (lib_glib L) s \<Longrightarrow> key_string_value L (key_string_raw L s) = Some s"
    and d: "\<And>d. isfinite d \<Longrightarrow> key_double_value L (key_double_raw L d) = Some d"
    using assms unfolding key_file_documented_def by blast+
  moreover have "metadata_of_key_file L (metadata_key_file L md) = Some md"
    using assms(2) s d
    by (simp add: metadata_of_key_file_def metadata_key_file_def key_string_def key_double_def copied_field_fits
        metadata_valid_def)
  ultimately show ?thesis by (simp add: metadata_of_text_def)
qed

text \<open>
  C27: locality metadata that was saved under the locality lock is read back exactly, texts and
  coordinates, unless the read meets an I/O error; only valid metadata is ever saved.
\<close>

theorem metadata_save_load:
  assumes "world_ok w" "locality_locked w" "key_file_documented (lib w)"
    and "ss_location_metadata_save md w = (True, w1)"
    and "ss_location_metadata_load_status w1 = (status, loaded, w2)" "status \<noteq> LOAD_IO_ERROR"
  shows "status = LOAD_OK \<and> loaded = md \<and> metadata_valid (lib_glib (lib w)) (Some md) \<and>
         ss_location_metadata_load w1 = (True, md, w2)"
proof -
  have S: "world_ok w1" "locality_locked w1" "lib w1 = lib w" "meta w1 = Some (metadata_text (lib w) md)"
    "metadata_valid (lib_glib (lib w)) (Some md)" using save_files[OF assms(1,2,4)] by auto
  obtain k where l: "metadata_load_path (lib w1) (metadata_path (lib w1)) (kern w1) = (status, loaded, k)" "w2 = w1\<lparr>kern := k\<rparr>"
    using assms(5) by (auto simp: ss_location_metadata_load_status_def metadata_paths split: prod.splits)
  note L = metadata_load_path_law[OF S(1) l(1)]
  have "files k (metadata_path (lib w1)) = Some (metadata_text (lib w) md)"
    using L locked_protected(2)[OF S(1,2)] S(3,4) by (simp add: frame_but_def)
  with L S(3) text_roundtrip[OF assms(3) S(5)] assms(6) have "status = LOAD_OK \<and> loaded = md"
    by (cases status) auto
  then show ?thesis using S(5) assms(5) by (simp add: ss_location_metadata_load_def)
qed

section \<open>An instance\<close>

definition sample_metadata :: location_metadata where
  "sample_metadata = \<lparr>md_display_name = ''Port of Spain'', md_country_code = ''TT'',
     md_timezone_id = [], md_latitude = Fin 10, md_longitude = Fin (- 61)\<rparr>"

lemma sample_key_file_documented: "key_file_documented sample_lib"
proof -
  have "key_file_parse sample_lib (metadata_text sample_lib md) = Some (metadata_key_file sample_lib md)" for md
    using sample_key_file by (simp add: sample_lib_def metadata_text_def metadata_key_file_def)
  moreover have "key_double_value sample_lib (key_double_raw sample_lib d) = Some d" if "isfinite d" for d
    using that sample_double by (auto simp: sample_lib_def isfinite_iff)
  ultimately show ?thesis by (simp add: key_file_documented_def) (simp add: sample_lib_def)
qed

definition sample_locked_world :: world where
  "sample_locked_world = snd (ss_location_metadata_transaction_begin sample_world)"

lemma sample_locked: "world_ok sample_locked_world" "locality_locked sample_locked_world" "lib sample_locked_world = sample_lib"
proof -
  have "fst (ss_location_metadata_transaction_begin sample_world) = True" by code_simp
  then have "ss_location_metadata_transaction_begin sample_world = (True, sample_locked_world)"
    by (simp add: sample_locked_world_def prod_eq_iff)
  from transaction_begin_law[OF sample_world_ok this]
  show "world_ok sample_locked_world" "locality_locked sample_locked_world" "lib sample_locked_world = sample_lib"
    by (simp_all add: sample_world_def)
qed

lemma sample_save_load:
  "fst (ss_location_metadata_save sample_metadata sample_locked_world) = True"
  "fst (ss_location_metadata_load_status (snd (ss_location_metadata_save sample_metadata sample_locked_world))) = LOAD_OK"
  by code_simp+

theorem metadata_save_load_witness:
  "\<exists>w1 w2. ss_location_metadata_save sample_metadata sample_locked_world = (True, w1) \<and>
     ss_location_metadata_load w1 = (True, sample_metadata, w2)"
proof -
  obtain w1 where s: "ss_location_metadata_save sample_metadata sample_locked_world = (True, w1)"
    using sample_save_load(1) by (metis prod.collapse)
  obtain loaded w2 where l: "ss_location_metadata_load_status w1 = (LOAD_OK, loaded, w2)"
    using sample_save_load(2) s by (metis prod.collapse snd_conv)
  have "key_file_documented (lib sample_locked_world)" using sample_key_file_documented sample_locked(3) by simp
  from metadata_save_load[OF sample_locked(1,2) this s l] show ?thesis using s by blast
qed


end
