(* ===== verification/PanelState.thy ===== *)
theory PanelState
  imports LocationMetadata RegionalContext ManualTime
begin

text \<open>
  The Date and Time panel: the state of \<open>SsLinuxDateTimePanel\<close> that the controller and the locality
  code share, and the presentation functions of \<open>linux-date-time-panel.c\<close> and
  \<open>linux-date-time-location.c\<close> that make the controls follow the model. Widgets are their values; the
  notifications a program-made change raises return at the flags \<open>updating_controls\<close>. Calls into the
  preview and the system-time parts of the panel are recorded in the order they are made.
\<close>

section \<open>State\<close>

record search_result =
  sr_display_name :: string
  sr_country_code :: string
  sr_latitude :: double
  sr_longitude :: double

datatype panel_call =
    System_time_sync
  | Invalidate_manual_draft
  | Preview_restart
  | Preview_refresh

datatype timer = Coordinate_commit_timer | Recovery_retry_timer

text \<open>The summary line: the four texts of \<open>update_summary\<close> with what is printed into them.\<close>

datatype summary =
    Named_place string double double
  | Selected_coordinates double double
  | Zone_approximation string string double double
  | Search_prompt

text \<open>The messages of the status line.\<close>

datatype message =
    Locality_lock_unavailable
  | Metadata_reload_failed
  | Stage_failed
  | Location_save_failed
  | Location_rolled_back
  | Rollback_failed_policy_reloaded
  | Rollback_and_reload_failed
  | Location_not_finalized
  | Location_saved_suggesting string
  | Empty_query
  | Searching
  | No_results "string option"
  | Select_result
  | Policy_saved
  | Policy_saved_not_mirrored
  | Needs_location
  | Service_unavailable
  | Zone_reconciled
  | Zone_metadata_not_saved
  | Reference_not_persisted
  | Zone_change_without_lock
  | Recovery_pending
  | Using_saved_policy
  | Using_desktop_preferences
  | Metadata_unreadable
  | Recovery_done
  | External_change_recovery_failed
  | External_change_reloaded
  | External_change_not_reloaded
  | Native_change_not_persisted
  | Native_change_reconciled
  | Clock_save_failed
  | Calendar_save_failed
  | Seconds_save_failed
  | Show_date_failed
  | Show_date_saved
  | First_day_failed
  | First_day_saved
  | Migration_failed
  | Connecting
  | Operation_pending
  | Zone_updating
  | Network_time_changing bool
  | Manual_entry_invalid
  | Manual_time_setting
  | Zone_changed_metadata_behind
  | System_settings_updated
  | Operation_failed "string option"

record panel =
  model :: "world ss_model option"
  regional :: regional_context
  metadata :: location_metadata
  metadata_present :: bool
  metadata_uncertain :: bool
  follows_timezone_reference :: bool
  recovery_failed :: bool
  location_updating :: bool
  coordinate_commit_id :: nat
  recovery_retry_id :: nat
  recovery_retry_seconds :: nat
  search_generation :: nat
  search_text :: string
  spin_latitude :: double
  spin_longitude :: double
  rows :: "search_result list"
  rows_visible :: bool
  summary_line :: summary
  updating_controls :: bool
  clock_mode_ids :: "string list"
  clock_selected :: nat
  calendar_selected :: nat
  seconds_active :: bool
  seconds_sensitive :: bool
  overview_clock :: string
  overview_calendar :: string
  native_format_updating :: bool
  cinnamon_settings :: "string option"
  show_date_active :: bool
  first_day_selected :: nat
  status_line :: "(message \<times> bool) option"
  timers :: "(nat \<times> timer) list"
  next_source :: nat
  calls :: "panel_call list"

definition ss_linux_date_time_panel_set_status :: "panel \<Rightarrow> message \<Rightarrow> bool \<Rightarrow> panel" where
  "ss_linux_date_time_panel_set_status p m error = p\<lparr>status_line := Some (m, error)\<rparr>"

definition call :: "panel_call \<Rightarrow> panel \<Rightarrow> panel" where
  "call c p = p\<lparr>calls := calls p @ [c]\<rparr>"

text \<open>\<open>g_timeout_add\<close> and \<open>g_source_remove\<close>: identifiers are positive and not reused.\<close>

definition add_timer :: "timer \<Rightarrow> panel \<Rightarrow> nat \<times> panel" where
  "add_timer t p = (next_source p, p\<lparr>timers := (next_source p, t) # timers p, next_source := next_source p + 1\<rparr>)"

definition remove_timer :: "nat \<Rightarrow> panel \<Rightarrow> panel" where
  "remove_timer i p = p\<lparr>timers := filter (\<lambda>(j, t). j \<noteq> i) (timers p)\<rparr>"

section \<open>Locality\<close>

definition ss_linux_date_time_location_coordinate_close :: "double \<Rightarrow> double \<Rightarrow> bool" where
  "ss_linux_date_time_location_coordinate_close left right =
     (let difference = dsub left right;
          difference = (if dlt difference dzero then dneg difference else difference)
      in dlt difference (round64 (1 / 1000000)))"

definition ss_linux_date_time_location_metadata_matches_policy :: "panel \<Rightarrow> policy option \<Rightarrow> bool" where
  "ss_linux_date_time_location_metadata_matches_policy p pol =
     (case pol of None \<Rightarrow> False
      | Some q \<Rightarrow>
          location_configured q \<and> metadata_present p \<and>
          ss_linux_date_time_location_coordinate_close (latitude q) (md_latitude (metadata p)) \<and>
          ss_linux_date_time_location_coordinate_close (longitude q) (md_longitude (metadata p)))"

definition ss_linux_date_time_location_policy_matches_reference :: "panel \<Rightarrow> bool" where
  "ss_linux_date_time_location_policy_matches_reference p =
     (if \<not> has_reference_coordinates (regional p) then False
      else (case ss_date_time_model_policy (model p) of None \<Rightarrow> False
            | Some q \<Rightarrow>
                location_configured q \<and>
                ss_linux_date_time_location_coordinate_close (latitude q) (reference_latitude (regional p)) \<and>
                ss_linux_date_time_location_coordinate_close (longitude q) (reference_longitude (regional p))))"

definition ss_linux_date_time_location_update_summary :: "panel \<Rightarrow> panel" where
  "ss_linux_date_time_location_update_summary p =
     (case ss_date_time_model_policy (model p) of
        None \<Rightarrow> p
      | Some q \<Rightarrow>
          p\<lparr>summary_line :=
              (if location_configured q
               then (if ss_linux_date_time_location_metadata_matches_policy p (Some q) \<and>
                        md_display_name (metadata p) \<noteq> []
                     then Named_place (md_display_name (metadata p)) (latitude q) (longitude q)
                     else Selected_coordinates (latitude q) (longitude q))
               else if has_reference_coordinates (regional p)
               then Zone_approximation
                      (if timezone_city (regional p) \<noteq> [] then timezone_city (regional p)
                       else timezone_id (regional p))
                      (timezone_id (regional p)) (reference_latitude (regional p)) (reference_longitude (regional p))
               else Search_prompt)\<rparr>)"

definition ss_linux_date_time_location_cancel_coordinate_commit :: "panel \<Rightarrow> panel" where
  "ss_linux_date_time_location_cancel_coordinate_commit p =
     (if coordinate_commit_id p \<noteq> 0
      then (remove_timer (coordinate_commit_id p) p)\<lparr>coordinate_commit_id := 0\<rparr> else p)"

definition clear_location_results :: "panel \<Rightarrow> panel" where
  "clear_location_results p = p\<lparr>rows := [], rows_visible := False\<rparr>"

definition refresh_location_authority_state :: "panel \<Rightarrow> panel" where
  "refresh_location_authority_state p =
     (let pol = ss_date_time_model_policy (model p);
          metadata_matches = ss_linux_date_time_location_metadata_matches_policy p pol
      in if metadata_uncertain p then p\<lparr>follows_timezone_reference := False\<rparr>
         else p\<lparr>follows_timezone_reference :=
                  \<not> metadata_matches \<and>
                  (case pol of None \<Rightarrow> True
                   | Some q \<Rightarrow> \<not> location_configured q \<or>
                               ss_linux_date_time_location_policy_matches_reference p)\<rparr>)"

section \<open>The controls\<close>

definition first_day_index :: "int \<Rightarrow> nat" where
  "first_day_index v = (if v = 0 then 1 else if v = 1 then 2 else 0)"

definition first_day_value :: "nat \<Rightarrow> int" where
  "first_day_value index = (if index = 1 then 0 else if index = 2 then 1 else 7)"

definition sync_native_format_controls :: "linux_lib \<Rightarrow> kernel \<Rightarrow> panel \<Rightarrow> panel" where
  "sync_native_format_controls L k p =
     (if cinnamon_settings p = None then p
      else
        (let p1 = p\<lparr>native_format_updating := True\<rparr>;
             p2 = (case ss_cinnamon_interface_get_boolean L (cinnamon_settings p) (Some ''clock-show-date'') k of
                     None \<Rightarrow> p1 | Some v \<Rightarrow> p1\<lparr>show_date_active := v\<rparr>);
             p3 = (case ss_cinnamon_interface_get_first_day L (cinnamon_settings p) k of
                     None \<Rightarrow> p2 | Some v \<Rightarrow> p2\<lparr>first_day_selected := first_day_index v\<rparr>)
         in p3\<lparr>native_format_updating := False\<rparr>))"

definition ss_linux_date_time_panel_desktop_uses_24h :: "linux_lib \<Rightarrow> kernel \<Rightarrow> panel \<Rightarrow> bool" where
  "ss_linux_date_time_panel_desktop_uses_24h L k p =
     (case ss_cinnamon_interface_get_boolean L (cinnamon_settings p) (Some ''clock-use-24h'') k of
        None \<Rightarrow> True | Some v \<Rightarrow> v)"

definition update_overview_policy :: "common \<Rightarrow> panel \<Rightarrow> panel" where
  "update_overview_policy cm p =
     (case ss_date_time_model_policy (model p) of
        None \<Rightarrow> p
      | Some q \<Rightarrow>
          p\<lparr>overview_clock := (case clock_mode_find cm (clock_mode q) of
                                 None \<Rightarrow> clock_mode q | Some info \<Rightarrow> mode_name info),
            overview_calendar := (case map_of (calendar_catalogue cm) (calendar q) of
                                    None \<Rightarrow> calendar q | Some name \<Rightarrow> name)\<rparr>)"

text \<open>The index of an identifier in a list, \<open>0\<close> when it is not there.\<close>

fun index_from :: "string list \<Rightarrow> string \<Rightarrow> nat \<Rightarrow> nat" where
  "index_from [] x i = 0"
| "index_from (y # ys) x i = (if y = x then i else index_from ys x (i + 1))"

definition clock_index_for_id :: "linux_lib \<Rightarrow> kernel \<Rightarrow> panel \<Rightarrow> string \<Rightarrow> nat" where
  "clock_index_for_id L k p mode =
     (let effective = (if ss_native_clock_mode_is_legacy_default (Some mode)
                       then ss_native_clock_mode_id (ss_linux_date_time_panel_desktop_uses_24h L k p)
                       else mode)
      in index_from (clock_mode_ids p) effective 0)"

definition calendar_index_for_id :: "common \<Rightarrow> string \<Rightarrow> nat" where
  "calendar_index_for_id cm cal = index_from (map fst (calendar_catalogue cm)) cal 0"

definition selected_clock_mode :: "common \<Rightarrow> panel \<Rightarrow> clock_mode_info option" where
  "selected_clock_mode cm p =
     (if length (clock_mode_ids p) \<le> clock_selected p then None
      else clock_mode_find cm (clock_mode_ids p ! clock_selected p))"

definition selected_calendar :: "common \<Rightarrow> panel \<Rightarrow> string option" where
  "selected_calendar cm p =
     (if length (calendar_catalogue cm) \<le> calendar_selected p then None
      else Some (fst (calendar_catalogue cm ! calendar_selected p)))"

definition update_control_capabilities :: "linux_lib \<Rightarrow> kernel \<Rightarrow> panel \<Rightarrow> panel" where
  "update_control_capabilities L k p =
     (let cm = lib_common L;
          mode = selected_clock_mode cm p;
          pol = ss_date_time_model_policy (model p);
          p1 = p\<lparr>seconds_sensitive := (case mode of None \<Rightarrow> True | Some info \<Rightarrow> supports_seconds info)\<rparr>;
          p2 = call System_time_sync
                 (sync_native_format_controls L k
                   (update_overview_policy cm (ss_linux_date_time_location_update_summary p1)))
      in case mode of
           None \<Rightarrow> p2
         | Some info \<Rightarrow>
             if (requires_latitude info \<or> requires_longitude info) \<and>
                (case pol of None \<Rightarrow> True | Some q \<Rightarrow> \<not> location_configured q) \<and>
                \<not> has_reference_coordinates (regional p)
             then ss_linux_date_time_panel_set_status p2 Needs_location False
             else p2)"

definition ss_linux_date_time_panel_sync_controls :: "linux_lib \<Rightarrow> kernel \<Rightarrow> panel \<Rightarrow> panel" where
  "ss_linux_date_time_panel_sync_controls L k p =
     (case ss_date_time_model_policy (model p) of
        None \<Rightarrow> p
      | Some q \<Rightarrow>
          (let cm = lib_common L;
               p1 = p\<lparr>updating_controls := True, location_updating := True\<rparr>;
               p2 = p1\<lparr>clock_selected := clock_index_for_id L k p1 (clock_mode q),
                       calendar_selected := calendar_index_for_id cm (calendar q),
                       seconds_active := show_seconds q\<rparr>;
               p3 = (if location_configured q
                     then (let p' = p2\<lparr>spin_latitude := latitude q, spin_longitude := longitude q\<rparr>
                           in if ss_linux_date_time_location_metadata_matches_policy p' (Some q)
                              then p'\<lparr>search_text := md_display_name (metadata p')\<rparr> else p')
                     else if has_reference_coordinates (regional p2)
                     then (let p' = p2\<lparr>spin_latitude := reference_latitude (regional p2),
                                       spin_longitude := reference_longitude (regional p2)\<rparr>
                           in if timezone_city (regional p2) \<noteq> []
                              then p'\<lparr>search_text := timezone_city (regional p2)\<rparr> else p')
                     else p2)
           in update_control_capabilities L k (p3\<lparr>location_updating := False, updating_controls := False\<rparr>)))"

definition native_compatibility_matches :: "panel \<Rightarrow> world \<Rightarrow> bool \<times> world" where
  "native_compatibility_matches p w =
     (case ss_date_time_model_policy (model p) of
        None \<Rightarrow> (False, w)
      | Some q \<Rightarrow>
          (case st_compatibility_matches ss_platform_temporal_policy_store of
             None \<Rightarrow> (True, w)
           | Some f \<Rightarrow> f q w))"

definition ss_linux_date_time_panel_policy_saved :: "panel \<Rightarrow> world \<Rightarrow> panel \<times> world" where
  "ss_linux_date_time_panel_policy_saved p w =
     (let (ok, w1) = native_compatibility_matches p w;
          p1 = ss_linux_date_time_panel_set_status p
                 (if ok then Policy_saved else Policy_saved_not_mirrored) (\<not> ok);
          p2 = update_control_capabilities (lib w1) (kern w1) p1
      in (call Preview_refresh (call Preview_restart p2), w1))"

end
