(* ===== verification/LocationPanel.thy ===== *)
theory LocationPanel
  imports PanelState
begin

text \<open>
  The handlers of \<open>linux-date-time-location.c\<close>: the choice of a search result, the debounced commit of
  typed coordinates and the search. A handler takes the panel and the world and returns both. What the
  system-time service answers is the argument \<open>system_timezone\<close> (\<open>None\<close> when it does not answer).
\<close>

section \<open>The transaction\<close>

definition zero_policy :: policy where
  "zero_policy = \<lparr>clock_mode = [], calendar = [], show_seconds = False, location_configured = False,
     latitude = dzero, longitude = dzero\<rparr>"

definition SS_DATE_TIME_LOCATION_UPDATE_INIT :: location_update where
  "SS_DATE_TIME_LOCATION_UPDATE_INIT = \<lparr>update_model = None, previous_policy = zero_policy,
     previous_persisted_policy_present = False, active = False\<rparr>"

definition load_authoritative_location_metadata :: "world \<Rightarrow> (location_metadata \<times> bool) option \<times> world" where
  "load_authoritative_location_metadata w =
     (let (status, md, w1) = ss_location_metadata_load_status w in
      case status of
        LOAD_OK \<Rightarrow> (Some (md, True), w1)
      | LOAD_MISSING \<Rightarrow> (Some (cleared_metadata, False), w1)
      | _ \<Rightarrow> (None, w1))"

text \<open>
  The record a handler stages: the place, and the zone the system is in. \<open>g_strlcpy\<close> cuts each text to
  its array.
\<close>

definition chosen_metadata :: "string \<Rightarrow> string \<Rightarrow> double \<Rightarrow> double \<Rightarrow> string option \<Rightarrow> location_metadata" where
  "chosen_metadata name country lat lon system_timezone =
     \<lparr>md_display_name = fst (strlcpy name sizeof_display_name),
      md_country_code = fst (strlcpy country sizeof_country_code),
      md_timezone_id = (case system_timezone of None \<Rightarrow> [] | Some t \<Rightarrow> fst (strlcpy t sizeof_timezone_id)),
      md_latitude = lat, md_longitude = lon\<rparr>"

datatype commit_outcome =
    Not_staged
  | Not_begun
  | Rolled_back bool bool
  | Not_finalized
  | Committed

text \<open>
  From the staging of the journal to the end of the temporal update, as both handlers have it: the
  panel's metadata is the new record when it starts, and the previous one is restored on failure.
  The locality lock is released after it. The booleans of \<open>Rolled_back\<close> are \<open>restored\<close> and \<open>reloaded\<close>.
\<close>

definition commit_location ::
  "location_metadata \<Rightarrow> bool \<Rightarrow> double \<Rightarrow> double \<Rightarrow> panel \<Rightarrow> world \<Rightarrow> commit_outcome \<times> panel \<times> world" where
  "commit_location previous_metadata previous_present lat lon p w =
     (let back = (\<lambda>q. q\<lparr>metadata := previous_metadata, metadata_present := previous_present\<rparr>);
          (staged, w1) = ss_location_metadata_stage (metadata p) w
      in if \<not> staged then (Not_staged, back p, w1)
         else
           (let (begun, m2, u2, w2) =
                  ss_date_time_model_begin_location_update (model p) True lat lon SS_DATE_TIME_LOCATION_UPDATE_INIT w1
            in if \<not> begun
               then (Not_begun, back (p\<lparr>model := m2\<rparr>), snd (ss_location_metadata_discard_staged w2))
               else
                 (let (published, w3) = ss_location_metadata_finish_staged w2 in
                  if \<not> published
                  then
                    (let (restored, m4, u4, w4) = ss_date_time_model_rollback_location_update m2 u2 w3;
                         (reloaded, m5, w5) =
                           (if restored then (True, m4, w4)
                            else ss_date_time_model_reload (lib_common (lib w4)) m4 w4);
                         w6 = (if restored then snd (ss_location_metadata_discard_staged w5) else w5);
                         p6 = back (p\<lparr>model := m5\<rparr>);
                         p7 = (if \<not> previous_present then p6\<lparr>metadata := cleared_metadata\<rparr> else p6)
                     in (Rolled_back restored reloaded, p7, w6))
                  else
                    (let (finished, m4, u4, w4) = ss_date_time_model_finish_location_update m2 u2 w3;
                         p4 = p\<lparr>model := m4, metadata_present := True\<rparr>
                     in (if finished then Committed else Not_finalized, p4, w4)))))"

definition rollback_message :: "bool \<Rightarrow> bool \<Rightarrow> message" where
  "rollback_message restored reloaded =
     (if restored then Location_rolled_back
      else if reloaded then Rollback_failed_policy_reloaded else Rollback_and_reload_failed)"

section \<open>A search result is chosen\<close>

definition on_location_result_activated ::
  "regional_env \<Rightarrow> string option \<Rightarrow> search_result option \<Rightarrow> panel \<Rightarrow> world \<Rightarrow> panel \<times> world" where
  "on_location_result_activated renv system_timezone row p w =
     (case row of
        None \<Rightarrow> (p, w)
      | Some r \<Rightarrow>
          (let (locked, w1) = ss_location_metadata_transaction_begin w in
           if \<not> locked then (ss_linux_date_time_panel_set_status p Locality_lock_unavailable True, w1)
           else
             (let (previous, w2) = load_authoritative_location_metadata w1 in
              case previous of
                None \<Rightarrow> (ss_linux_date_time_panel_set_status p Metadata_reload_failed True,
                         ss_location_metadata_transaction_end w2)
              | Some (previous_metadata, previous_present) \<Rightarrow>
                  (let zone = (if sr_country_code r \<noteq> []
                               then ss_regional_context_nearest_timezone (lib_glib (lib w2)) renv
                                      (Some (sr_country_code r)) (sr_latitude r) (sr_longitude r)
                                      SS_TIMEZONE_ID_CAPACITY
                               else None);
                       p2 = p\<lparr>metadata := chosen_metadata (sr_display_name r) (sr_country_code r)
                                            (sr_latitude r) (sr_longitude r) system_timezone,
                              metadata_present := previous_present\<rparr>;
                       (outcome, p3, w3) =
                         commit_location previous_metadata previous_present (sr_latitude r) (sr_longitude r) p2 w2;
                       w4 = ss_location_metadata_transaction_end w3
                   in case outcome of
                        Not_staged \<Rightarrow> (ss_linux_date_time_panel_set_status p3 Stage_failed True, w4)
                      | Not_begun \<Rightarrow> (ss_linux_date_time_panel_set_status p3 Location_save_failed True, w4)
                      | Rolled_back restored reloaded \<Rightarrow>
                          (ss_linux_date_time_panel_sync_controls (lib w4) (kern w4)
                             (ss_linux_date_time_panel_set_status p3 (rollback_message restored reloaded) True), w4)
                      | Not_finalized \<Rightarrow> (ss_linux_date_time_panel_set_status p3 Location_not_finalized True, w4)
                      | Committed \<Rightarrow>
                          (let p4 = p3\<lparr>follows_timezone_reference := False, location_updating := True\<rparr>;
                               p5 = p4\<lparr>search_text := sr_display_name r, spin_latitude := sr_latitude r,
                                       spin_longitude := sr_longitude r\<rparr>;
                               p6 = p5\<lparr>location_updating := False\<rparr>;
                               p7 = ss_linux_date_time_location_update_summary (clear_location_results p6);
                               (p8, w5) = ss_linux_date_time_panel_policy_saved p7 w4
                           in (case zone of
                                 None \<Rightarrow> p8
                               | Some z \<Rightarrow> if z \<noteq> []
                                   then ss_linux_date_time_panel_set_status p8 (Location_saved_suggesting z) False
                                   else p8, w5))))))"

section \<open>Typed coordinates\<close>

definition commit_location_coordinates :: "string option \<Rightarrow> panel \<Rightarrow> world \<Rightarrow> panel \<times> world" where
  "commit_location_coordinates system_timezone panel0 w =
     (let p = panel0\<lparr>coordinate_commit_id := 0\<rparr> in
      if location_updating p then (p, w)
      else
        (let lat = spin_latitude p; lon = spin_longitude p;
             (locked, w1) = ss_location_metadata_transaction_begin w
         in if \<not> locked
            then (ss_linux_date_time_panel_sync_controls (lib w1) (kern w1)
                    (ss_linux_date_time_panel_set_status p Locality_lock_unavailable True), w1)
            else
              (let (previous, w2) = load_authoritative_location_metadata w1 in
               case previous of
                 None \<Rightarrow>
                   (let w3 = ss_location_metadata_transaction_end w2
                    in (ss_linux_date_time_panel_sync_controls (lib w3) (kern w3)
                          (ss_linux_date_time_panel_set_status p Metadata_reload_failed True), w3))
               | Some (previous_metadata, previous_present) \<Rightarrow>
                   (let p2 = p\<lparr>metadata := chosen_metadata ''Custom coordinates'' [] lat lon system_timezone,
                               metadata_present := previous_present\<rparr>;
                        (outcome, p3, w3) = commit_location previous_metadata previous_present lat lon p2 w2;
                        w4 = ss_location_metadata_transaction_end w3;
                        failed = (\<lambda>m. (ss_linux_date_time_panel_sync_controls (lib w4) (kern w4)
                                         (ss_linux_date_time_panel_set_status p3 m True), w4))
                    in case outcome of
                         Not_staged \<Rightarrow> failed Stage_failed
                       | Not_begun \<Rightarrow> failed Location_save_failed
                       | Rolled_back restored reloaded \<Rightarrow> failed (rollback_message restored reloaded)
                       | Not_finalized \<Rightarrow> (ss_linux_date_time_panel_set_status p3 Location_not_finalized True, w4)
                       | Committed \<Rightarrow>
                           ss_linux_date_time_panel_policy_saved
                             (p3\<lparr>follows_timezone_reference := False, search_text := ''Custom coordinates''\<rparr>) w4))))"

definition on_location_coordinate_changed :: "panel \<Rightarrow> panel" where
  "on_location_coordinate_changed p =
     (if location_updating p then p
      else (let (i, p1) = add_timer Coordinate_commit_timer (ss_linux_date_time_location_cancel_coordinate_commit p)
            in p1\<lparr>coordinate_commit_id := i\<rparr>))"

text \<open>The main loop removes a timer when its callback returns \<open>G_SOURCE_REMOVE\<close>.\<close>

definition fire_coordinate_commit :: "nat \<Rightarrow> string option \<Rightarrow> panel \<Rightarrow> world \<Rightarrow> panel \<times> world" where
  "fire_coordinate_commit i system_timezone p w =
     (if (i, Coordinate_commit_timer) \<in> set (timers p)
      then commit_location_coordinates system_timezone (remove_timer i p) w else (p, w))"

section \<open>Search\<close>

text \<open>
  A request is the generation it was made in; \<open>alive\<close> says that the panel still exists. The completion
  shows its results only for the latest request of a live panel.
\<close>

definition begin_location_search :: "panel \<Rightarrow> (string \<times> nat) option \<times> panel" where
  "begin_location_search p =
     (if search_text p = [] then (None, ss_linux_date_time_panel_set_status p Empty_query True)
      else
        (let p1 = p\<lparr>search_generation := (search_generation p + 1) mod 2 ^ 32\<rparr>;
             p2 = ss_linux_date_time_panel_set_status (clear_location_results p1) Searching False
         in (Some (search_text p, search_generation p1), p2)))"

definition location_search_complete ::
  "search_result option list option \<Rightarrow> string option \<Rightarrow> bool \<Rightarrow> nat \<Rightarrow> panel \<Rightarrow> panel" where
  "location_search_complete results error_message alive generation p =
     (if \<not> alive \<or> generation \<noteq> search_generation p then p
      else
        (let p1 = clear_location_results p in
         case results of
           None \<Rightarrow> ss_linux_date_time_panel_set_status p1 (No_results error_message) True
         | Some [] \<Rightarrow> ss_linux_date_time_panel_set_status p1 (No_results error_message) True
         | Some items \<Rightarrow>
             ss_linux_date_time_panel_set_status
               (p1\<lparr>rows := List.map_filter (\<lambda>x. x) items, rows_visible := True\<rparr>) Select_result False))"

section \<open>The transaction is all or nothing\<close>

lemma world_later_files:
  "world_later w w' \<Longrightarrow> world_ok w \<Longrightarrow> locality_locked w \<Longrightarrow>
     world_ok w' \<and> lib w' = lib w \<and> locality_locked w' \<and> meta w' = meta w \<and> journal w' = journal w"
  by (auto simp: world_later_def locality_locked_def)

lemma metadata_later_policy:
  "metadata_later w w' \<Longrightarrow> world_ok w \<Longrightarrow> policy_locked w \<Longrightarrow>
     policy_locked w' \<and> policy_view w' = policy_view w"
  by (auto simp: metadata_later_def policy_locked_def policy_view_def)

lemma metadata_later_lock: "metadata_later w w' \<Longrightarrow> policy_locked w' = policy_locked w"
  by (simp add: metadata_later_def policy_locked_def)

text \<open>The policy a transaction starts from: what is loaded once the update lock is owned.\<close>

definition loaded_under_lock :: "world \<Rightarrow> policy \<Rightarrow> bool \<Rightarrow> bool" where
  "loaded_under_lock w base found \<longleftrightarrow>
     (\<exists>w0 w1. world_later w w0 \<and> policy_locked w0 \<and> platform_load w0 = (Some (base, found), w1) \<and>
        policy_view w1 = (if found then Some base else None))"

abbreviation platform_attached :: "world ss_model option \<Rightarrow> world model_private \<Rightarrow> bool" where
  "platform_attached m q \<equiv> attached ss_platform_temporal_policy_store m q"

lemma stage_then_begin:
  assumes "world_ok w" "locality_locked w" "platform_attached m q" "\<not> saving q"
    and st: "ss_location_metadata_stage md w = (True, w1)"
    and bg: "ss_date_time_model_begin_location_update m True x y SS_DATE_TIME_LOCATION_UPDATE_INIT w1 = (True, m2, u2, w2)"
  shows "world_ok w2 \<and> locality_locked w2 \<and> policy_locked w2 \<and> lib w2 = lib w \<and> meta w2 = meta w \<and>
    \<not> policy_locked w \<and> valid_location x y \<and>
    journal w2 = Some (metadata_text (lib w) md) \<and> metadata_valid (lib_glib (lib w)) (Some md) \<and>
    (\<exists>base found q2. loaded_under_lock w1 base found \<and> (found \<longrightarrow> stored (lib_common (lib w)) base = base) \<and>
       policy_view w2 = Some (stored (lib_common (lib w)) (assign_location base True x y)) \<and>
       platform_attached m2 q2 \<and> saving q2 \<and> mp_policy q2 = assign_location base True x y \<and>
       m2 = put_private m (Some q2) \<and> q2 = q\<lparr>saving := True, mp_policy := assign_location base True x y, persisted_policy_present := True\<rparr> \<and>
       u2 = \<lparr>update_model = map_option address m, previous_policy = base,
             previous_persisted_policy_present = found, active = True\<rparr>)"
proof -
  note S = stage_files[OF assms(1,2) st]
  then have w1: "world_ok w1" "locality_locked w1" "lib w1 = lib w" "metadata_later w w1" by auto
  have idle: "\<not> active SS_DATE_TIME_LOCATION_UPDATE_INIT" by (simp add: SS_DATE_TIME_LOCATION_UPDATE_INIT_def)
  from linux_store.begin_update_law[OF linux_table assms(3,4) w1(1) idle bg]
  obtain w0 wb base found where B: "world_later w1 w2" "world_later w1 w0" "policy_locked w0"
    "platform_load w0 = (Some (base, found), wb)" "policy_view wb = (if found then Some base else None)"
    "found \<longrightarrow> stored (lib_common (lib w1)) base = base" "valid_location x y" "\<not> policy_locked w1"
    "m2 = put_private m (Some (q\<lparr>saving := True, mp_policy := assign_location base True x y, persisted_policy_present := True\<rparr>))"
    "u2 = \<lparr>update_model = map_option address m, previous_policy = base,
           previous_persisted_policy_present = found, active = True\<rparr>"
    "policy_view w2 = Some (stored (lib_common (lib w1)) (assign_location base True x y))" "policy_locked w2"
    by (simp only: if_True) blast
  note F = world_later_files[OF B(1) w1(1,2)]
  let ?q2 = "q\<lparr>saving := True, mp_policy := assign_location base True x y, persisted_policy_present := True\<rparr>"
  have "platform_attached m2 ?q2 \<and> saving ?q2 \<and> mp_policy ?q2 = assign_location base True x y"
    using assms(3) B(9) by (simp add: attached_def)
  moreover have "loaded_under_lock w1 base found" using B unfolding loaded_under_lock_def by blast
  moreover have "\<not> policy_locked w" using B(8) metadata_later_lock[OF w1(4)] by simp
  moreover have "world_ok w2" "locality_locked w2" "lib w2 = lib w" "meta w2 = meta w"
     "journal w2 = Some (metadata_text (lib w) md)" "metadata_valid (lib_glib (lib w)) (Some md)"
    using F S by auto
  ultimately show ?thesis using B(6-12) w1(3) by simp
qed

lemma commit_location_law:
  assumes "world_ok w" "locality_locked w" "platform_attached (model p) q" "\<not> saving q"
    and e: "commit_location prev present lat lon p w = (outcome, p', w')"
  shows "world_ok w' \<and> locality_locked w' \<and> lib w' = lib w \<and> (\<not> policy_locked w \<longrightarrow> \<not> policy_locked w') \<and>
    (\<exists>q'. platform_attached (model p') q' \<and> \<not> saving q') \<and>
    (case outcome of
       Not_staged \<Rightarrow> model p' = model p \<and> metadata p' = prev \<and> metadata_present p' = present \<and> meta w' = meta w
     | Not_begun \<Rightarrow> model p' = model p \<and> metadata p' = prev \<and> metadata_present p' = present \<and> meta w' = meta w
     | Rolled_back restored reloaded \<Rightarrow>
         metadata p' = (if present then prev else cleared_metadata) \<and> metadata_present p' = present \<and>
         (meta w' = meta w \<or> (\<exists>md. metadata_of_text (lib w) (metadata_text (lib w) (metadata p)) = Some md \<and>
                                meta w' = Some (metadata_text (lib w) md))) \<and>
         (restored \<longrightarrow> (\<exists>w1 w4 base found. loaded_under_lock w1 base found \<and>
            policy_view w4 = (if found then Some base else None) \<and>
            ss_date_time_model_policy (model p') = Some base \<and>
            ss_date_time_model_has_persisted_policy (model p') = found))
     | Not_finalized \<Rightarrow> False
     | Committed \<Rightarrow>
         metadata p' = metadata p \<and> metadata_present p' \<and> \<not> policy_locked w' \<and>
         (\<exists>md. metadata_of_text (lib w) (metadata_text (lib w) (metadata p)) = Some md \<and>
               meta w' = Some (metadata_text (lib w) md)) \<and>
         (\<exists>w1 base found. loaded_under_lock w1 base found \<and>
            ss_date_time_model_policy (model p') = Some (assign_location base True lat lon) \<and>
            policy_view w' = Some (stored (lib_common (lib w)) (assign_location base True lat lon))))"
proof -
  obtain s w1 where st: "ss_location_metadata_stage (metadata p) w = (s, w1)" by (metis prod.collapse)
  note S = stage_files[OF assms(1,2) st]
  then have w1: "world_ok w1" "locality_locked w1" "lib w1 = lib w" "metadata_later w w1" "meta w1 = meta w" by auto
  show ?thesis
  proof (cases s)
    case False
    with e st have "outcome = Not_staged" "p' = p\<lparr>metadata := prev, metadata_present := present\<rparr>" "w' = w1"
      by (auto simp: commit_location_def Let_def)
    then show ?thesis using w1 assms(3,4) metadata_later_lock[OF w1(4)] by auto
  next
    case sT: True
    obtain b m2 u2 w2 where bg: "ss_date_time_model_begin_location_update (model p) True lat lon
        SS_DATE_TIME_LOCATION_UPDATE_INIT w1 = (b, m2, u2, w2)" by (metis prod.collapse)
    have idle: "\<not> active SS_DATE_TIME_LOCATION_UPDATE_INIT" by (simp add: SS_DATE_TIME_LOCATION_UPDATE_INIT_def)
    note BL = linux_store.begin_update_law[OF linux_table assms(3,4) w1(1) idle bg]
    have F2: "world_ok w2 \<and> lib w2 = lib w1 \<and> locality_locked w2 \<and> meta w2 = meta w1 \<and> journal w2 = journal w1"
      using world_later_files[OF _ w1(1,2)] BL by blast
    show ?thesis
    proof (cases b)
      case False
      obtain d w3 where di: "ss_location_metadata_discard_staged w2 = (d, w3)" by (metis prod.collapse)
      have "world_ok w2" "locality_locked w2" using F2 by auto
      note D = discard_files[OF this di]
      from False BL have "m2 = model p" by simp
      with e st sT bg di False have "outcome = Not_begun" "w' = w3"
        "p' = (p\<lparr>model := model p\<rparr>)\<lparr>metadata := prev, metadata_present := present\<rparr>"
        by (auto simp: commit_location_def Let_def)
      moreover have "policy_locked w3 = policy_locked w"
        using D BL False metadata_later_lock[OF w1(4)] metadata_later_lock[of w2 w3] by simp
      ultimately show ?thesis using D F2 w1 assms(3,4) by auto
    next
      case bT: True
      note B = stage_then_begin[OF assms(1-4) st[unfolded eqTrueI[OF sT]] bg[unfolded eqTrueI[OF bT]]]
      then obtain base found q2 where q2: "loaded_under_lock w1 base found"
        "found \<longrightarrow> stored (lib_common (lib w)) base = base"
        "policy_view w2 = Some (stored (lib_common (lib w)) (assign_location base True lat lon))"
        "platform_attached m2 q2" "saving q2" "mp_policy q2 = assign_location base True lat lon"
        "m2 = put_private (model p) (Some q2)"
        "u2 = \<lparr>update_model = map_option address (model p), previous_policy = base,
             previous_persisted_policy_present = found, active = True\<rparr>" by blast
      have w2: "world_ok w2" "locality_locked w2" "policy_locked w2" "lib w2 = lib w" "meta w2 = meta w"
        "journal w2 = Some (metadata_text (lib w) (metadata p))" using B by auto
      obtain f w3 where fi: "ss_location_metadata_finish_staged w2 = (f, w3)" by (metis prod.collapse)
      note FI = finish_files[OF w2(1,2) fi]
      have w3: "world_ok w3" "locality_locked w3" "lib w3 = lib w" "policy_locked w3" "policy_view w3 = policy_view w2"
        using FI w2 metadata_later_policy[of w2 w3] by auto
      have pend: "linux_store.pending ss_platform_temporal_policy_store m2 q2 u2 w3"
        using q2 w3 by (simp add: linux_store.pending_def)
      show ?thesis
      proof (cases f)
        case True
        note FL = linux_store.finish_law[OF linux_table pend]
        let ?w4 = "end_update w3"
        have F4: "world_ok ?w4 \<and> lib ?w4 = lib w3 \<and> locality_locked ?w4 \<and> meta ?w4 = meta w3 \<and> journal ?w4 = journal w3"
          using world_later_files[OF _ w3(1,2)] FL by blast
        from FL e st sT bg bT fi True
        have o: "outcome = Committed" "w' = ?w4"
          "p' = p\<lparr>model := put_private m2 (Some (q2\<lparr>saving := False\<rparr>)), metadata_present := True\<rparr>"
          by (auto simp: commit_location_def Let_def)
        have q': "platform_attached (model p') (q2\<lparr>saving := False\<rparr>)" using o q2(4) by (simp add: attached_def)
        then have pol: "ss_date_time_model_policy (model p') = Some (assign_location base True lat lon)"
          using q2(6) by (simp add: attached_def ss_date_time_model_policy_def)
        have pv: "policy_view ?w4 = Some (stored (lib_common (lib w)) (assign_location base True lat lon))"
          "\<not> policy_locked ?w4" using FL w3 q2(3) by auto
        have "\<exists>q'. platform_attached (model p') q' \<and> \<not> saving q'" using q' by (intro exI[of _ "q2\<lparr>saving := False\<rparr>"]) simp
        moreover have "\<exists>md. metadata_of_text (lib w) (metadata_text (lib w) (metadata p)) = Some md \<and>
               meta w' = Some (metadata_text (lib w) md)" using FI True w2 F4 o w3 by auto
        moreover have "\<exists>w1 base found. loaded_under_lock w1 base found \<and>
            ss_date_time_model_policy (model p') = Some (assign_location base True lat lon) \<and>
            policy_view w' = Some (stored (lib_common (lib w)) (assign_location base True lat lon))"
          using q2(1) pol pv o by blast
        ultimately show ?thesis using o F4 w3 pv by simp
      next
        case False
        obtain r m4 u4 w4 where rb: "ss_date_time_model_rollback_location_update m2 u2 w3 = (r, m4, u4, w4)"
          by (metis prod.collapse)
        note RL = linux_store.rollback_law[OF linux_table pend rb]
        have F4: "world_ok w4 \<and> lib w4 = lib w3 \<and> locality_locked w4 \<and> meta w4 = meta w3 \<and> journal w4 = journal w3"
          using world_later_files[OF _ w3(1,2)] RL by blast
        have m4: "meta w3 = meta w \<or> (\<exists>md. metadata_of_text (lib w) (metadata_text (lib w) (metadata p)) = Some md \<and>
               meta w3 = Some (metadata_text (lib w) md))" using FI False w2 by auto
        show ?thesis
        proof (cases r)
          case True
          obtain d w6 where di: "ss_location_metadata_discard_staged w4 = (d, w6)" by (metis prod.collapse)
          have "world_ok w4" "locality_locked w4" using F4 by auto
          note D = discard_files[OF this di]
          let ?q4 = "q2\<lparr>mp_policy := base, persisted_policy_present := found, saving := False\<rparr>"
          have m4': "m4 = put_private m2 (Some ?q4)"
            "policy_view w4 = (if found then Some base else None)"
            using RL True q2(2,8) w3 by auto
          from e st sT bg bT fi False rb True di
          have o: "outcome = Rolled_back True True" "w' = w6"
            "model p' = m4" "metadata p' = (if present then prev else cleared_metadata)" "metadata_present p' = present"
            by (auto simp: commit_location_def Let_def split: if_splits)
          have at: "platform_attached m4 ?q4" using m4' q2(4) by (simp add: attached_def)
          then have "ss_date_time_model_policy (model p') = Some base \<and>
            ss_date_time_model_has_persisted_policy (model p') = found"
            using o by (simp add: attached_def ss_date_time_model_policy_def ss_date_time_model_has_persisted_policy_def)
          moreover have "\<exists>q'. platform_attached (model p') q' \<and> \<not> saving q'"
            using at o by (intro exI[of _ ?q4]) simp
          moreover have "meta w' = meta w3" "world_ok w'" "locality_locked w'" "lib w' = lib w" using D F4 o w3 by auto
          moreover have "\<not> policy_locked w'" using D RL o metadata_later_lock[of w4 w6] by simp
          ultimately show ?thesis using o m4 m4' q2(1) by auto
        next
          case rF: False
          then have m4': "m4 = put_private m2 (Some (q2\<lparr>saving := False\<rparr>))" using RL by simp
          have at: "platform_attached m4 (q2\<lparr>saving := False\<rparr>)" using m4' q2(4) by (simp add: attached_def)
          obtain l m5 w5 where re: "ss_date_time_model_reload (lib_common (lib w4)) m4 w4 = (l, m5, w5)"
            by (metis prod.collapse)
          have ns: "\<not> saving (q2\<lparr>saving := False\<rparr>)" by simp
          note RE = linux_store.reload_law[OF linux_table at ns _ re]
          have ok4: "world_ok w4" "locality_locked w4" using F4 by auto
          have F5: "world_ok w5 \<and> lib w5 = lib w4 \<and> locality_locked w5 \<and> meta w5 = meta w4 \<and> journal w5 = journal w4"
            using world_later_files[OF _ ok4] RE[OF ok4(1)] by blast
          from e st sT bg bT fi False rb rF re
          have o: "outcome = Rolled_back False l" "w' = w5"
            "model p' = m5" "metadata p' = (if present then prev else cleared_metadata)" "metadata_present p' = present"
            by (auto simp: commit_location_def Let_def split: if_splits)
          have "\<exists>q'. platform_attached m5 q' \<and> \<not> saving q'"
          proof (cases l)
            case True
            with RE[OF ok4(1)] obtain p1 base found where "m5 = put_private m4 (Some p1)"
              "p1 = (q2\<lparr>saving := False\<rparr>)\<lparr>mp_policy := base, persisted_policy_present := found\<rparr>"
              by (simp only: if_True) blast
            then show ?thesis using at by (intro exI[of _ p1]) (simp add: attached_def)
          next
            case False
            with RE[OF ok4(1)] at show ?thesis by auto
          qed
          moreover have "\<not> policy_locked w'" using RE[OF ok4(1)] RL o by simp
          ultimately show ?thesis using o m4 F5 F4 w3 by auto
        qed
      qed
    qed
  qed
qed


section \<open>A crash in the middle\<close>

text \<open>
  The policy format writes coordinates to six decimals: what it keeps of a location is the same
  location up to the tolerance the code compares with.
\<close>

definition format_close :: "common \<Rightarrow> bool" where
  "format_close cm \<longleftrightarrow>
     (\<forall>p. valid_location (latitude p) (longitude p) \<longrightarrow>
        location_configured (stored cm p) = location_configured p \<and>
        coordinates_match (latitude p) (latitude (stored cm p)) \<and>
        coordinates_match (longitude p) (longitude (stored cm p)))"


section \<open>The handlers\<close>

text \<open>The state between two handlers: no lock owned, a model bound to the store and not saving.\<close>

definition panel_idle :: "panel \<Rightarrow> world \<Rightarrow> bool" where
  "panel_idle p w \<longleftrightarrow> world_ok w \<and> \<not> locality_locked w \<and> \<not> policy_locked w \<and>
     (\<exists>q. platform_attached (model p) q \<and> \<not> saving q)"

lemma set_status_model [simp]: "model (ss_linux_date_time_panel_set_status p m e) = model p"
  by (simp add: ss_linux_date_time_panel_set_status_def)

lemma call_model [simp]: "model (call c p) = model p"
  by (simp add: call_def)

lemma update_summary_model [simp]: "model (ss_linux_date_time_location_update_summary p) = model p"
  by (simp add: ss_linux_date_time_location_update_summary_def split: option.splits)

lemma overview_model [simp]: "model (update_overview_policy cm p) = model p"
  by (simp add: update_overview_policy_def split: option.splits)

lemma native_model [simp]: "model (sync_native_format_controls L k p) = model p"
  by (simp add: sync_native_format_controls_def Let_def split: option.splits)

lemma capabilities_model [simp]: "model (update_control_capabilities L k p) = model p"
  by (simp add: update_control_capabilities_def Let_def split: option.splits)

lemma sync_controls_model [simp]: "model (ss_linux_date_time_panel_sync_controls L k p) = model p"
  by (simp add: ss_linux_date_time_panel_sync_controls_def Let_def split: option.splits)

lemma clear_results_model [simp]: "model (clear_location_results p) = model p"
  by (simp add: clear_location_results_def)

lemma compatibility_same: "native_compatibility_matches p w = (b, w') \<Longrightarrow> w' = w"
  by (auto simp: native_compatibility_matches_def ss_platform_temporal_policy_store_def
      platform_compatibility_matches_def Let_def split: option.splits if_splits)

lemma policy_saved_same:
  "ss_linux_date_time_panel_policy_saved p w = (p', w') \<Longrightarrow> w' = w \<and> model p' = model p"
  by (auto simp: ss_linux_date_time_panel_policy_saved_def dest: compatibility_same split: prod.splits)

lemma load_authoritative_law:
  assumes "world_ok w" "locality_locked w" "load_authoritative_location_metadata w = (r, w')"
  shows "metadata_later w w' \<and> world_ok w' \<and> locality_locked w' \<and> lib w' = lib w \<and> meta w' = meta w"
proof -
  obtain st md k where l: "metadata_load_path (lib w) (metadata_path (lib w)) (kern w) = (st, md, k)" by (metis prod.collapse)
  have "w' = w\<lparr>kern := k\<rparr>" using assms(3) l
    by (auto simp: load_authoritative_location_metadata_def ss_location_metadata_load_status_def metadata_paths
        split: load_status.splits)
  moreover have "frame_but {} (kern w) k" using metadata_load_path_law[OF assms(1) l] by simp
  ultimately show ?thesis using locked_frame[OF assms(1,2), of "{}" k] by simp
qed

lemma handler_start:
  assumes "panel_idle p w" "ss_location_metadata_transaction_begin w = (b, w1)"
  shows "world_ok w1 \<and> \<not> policy_locked w1 \<and> (if b then locality_locked w1 else \<not> locality_locked w1)"
  using transaction_begin_law[of w b w1] assms metadata_later_lock[of w w1]
  by (auto simp: panel_idle_def locality_locked_def split: if_splits)

lemma handler_end:
  assumes "world_ok w" "\<not> policy_locked w"
  shows "world_ok (ss_location_metadata_transaction_end w) \<and>
    \<not> policy_locked (ss_location_metadata_transaction_end w) \<and>
    \<not> locality_locked (ss_location_metadata_transaction_end w)"
  using transaction_end_law[OF assms(1)] assms(2) metadata_later_lock[of w "ss_location_metadata_transaction_end w"]
  by simp

text \<open>The common middle of the two handlers.\<close>

lemma handler_middle:
  assumes "panel_idle p w" "model p2 = model p"
    and "ss_location_metadata_transaction_begin w = (True, w1)"
    and "load_authoritative_location_metadata w1 = (r, w2)"
    and "commit_location prev present lat lon p2 w2 = (outcome, p3, w3)"
  shows "panel_idle p3 (ss_location_metadata_transaction_end w3) \<and> outcome \<noteq> Not_finalized"
proof -
  from handler_start[OF assms(1,3)] have w1: "world_ok w1" "locality_locked w1" "\<not> policy_locked w1" by auto
  note A = load_authoritative_law[OF w1(1,2) assms(4)]
  obtain q where q: "platform_attached (model p2) q" "\<not> saving q"
    using assms(1,2) by (auto simp: panel_idle_def)
  have w2: "world_ok w2" "locality_locked w2" "\<not> policy_locked w2" using A w1(3) metadata_later_lock[of w1 w2] by auto
  note C = commit_location_law[OF w2(1,2) q assms(5)]
  then have "world_ok w3" "\<not> policy_locked w3" using w2 by auto
  note E = handler_end[OF this]
  show ?thesis using C E by (cases outcome) (auto simp: panel_idle_def)
qed

lemma handler_reload_failed:
  assumes "panel_idle p w" "ss_location_metadata_transaction_begin w = (True, w1)"
    and "load_authoritative_location_metadata w1 = (r, w2)"
  shows "panel_idle p (ss_location_metadata_transaction_end w2)"
proof -
  from handler_start[OF assms(1,2)] have w1: "world_ok w1" "locality_locked w1" "\<not> policy_locked w1" by auto
  note A = load_authoritative_law[OF w1(1,2) assms(3)]
  have "world_ok w2" "\<not> policy_locked w2" using A w1(3) metadata_later_lock[of w1 w2] by auto
  from handler_end[OF this] assms(1) show ?thesis by (simp add: panel_idle_def)
qed

lemma panel_idle_model: "panel_idle p w \<Longrightarrow> model p' = model p \<Longrightarrow> panel_idle p' w"
  by (simp add: panel_idle_def)

lemma activated_idle:
  assumes "panel_idle p w" "on_location_result_activated renv tz row p w = (p', w')"
  shows "panel_idle p' w'"
proof (cases row)
  case None
  with assms show ?thesis by (simp add: on_location_result_activated_def)
next
  case (Some r)
  obtain b w1 where bg: "ss_location_metadata_transaction_begin w = (b, w1)" by (metis prod.collapse)
  show ?thesis
  proof (cases b)
    case False
    with assms(2) Some bg have "p' = ss_linux_date_time_panel_set_status p Locality_lock_unavailable True" "w' = w1"
      by (auto simp: on_location_result_activated_def)
    then show ?thesis using handler_start[OF assms(1) bg] False assms(1) by (auto simp: panel_idle_def)
  next
    case True
    with bg have bg: "ss_location_metadata_transaction_begin w = (True, w1)" by simp
    obtain previous w2 where la: "load_authoritative_location_metadata w1 = (previous, w2)" by (metis prod.collapse)
    show ?thesis
    proof (cases previous)
      case None
      with assms(2) Some bg la have "p' = ss_linux_date_time_panel_set_status p Metadata_reload_failed True"
        "w' = ss_location_metadata_transaction_end w2" by (auto simp: on_location_result_activated_def)
      then show ?thesis using handler_reload_failed[OF assms(1) bg la] by (auto simp: panel_idle_def)
    next
      case prev: (Some pm)
      obtain pmd pp where pm: "pm = (pmd, pp)" by (cases pm) auto
      let ?p2 = "p\<lparr>metadata := chosen_metadata (sr_display_name r) (sr_country_code r) (sr_latitude r)
                     (sr_longitude r) tz, metadata_present := pp\<rparr>"
      obtain o3 p3 w3 where cl: "commit_location pmd pp (sr_latitude r) (sr_longitude r) ?p2 w2 = (o3, p3, w3)"
        by (metis prod.collapse)
      have M: "panel_idle p3 (ss_location_metadata_transaction_end w3)" "o3 \<noteq> Not_finalized"
        using handler_middle[OF assms(1) _ bg la cl] by auto
      have "w' = ss_location_metadata_transaction_end w3 \<and> model p' = model p3"
        using assms(2) Some bg la prev pm cl
        by (cases o3)
           (auto simp: on_location_result_activated_def Let_def dest!: policy_saved_same
             split: option.splits if_splits prod.splits)
      then show ?thesis using M panel_idle_model by simp
    qed
  qed
qed

lemma coordinates_idle:
  assumes "panel_idle p w" "commit_location_coordinates tz p w = (p', w')"
  shows "panel_idle p' w'"
proof -
  let ?p = "p\<lparr>coordinate_commit_id := 0\<rparr>"
  have idle: "panel_idle ?p w" using assms(1) by (simp add: panel_idle_def)
  show ?thesis
  proof (cases "location_updating p")
    case True
    with assms(2) idle show ?thesis by (simp add: commit_location_coordinates_def Let_def)
  next
    case nu: False
    obtain b w1 where bg: "ss_location_metadata_transaction_begin w = (b, w1)" by (metis prod.collapse)
    show ?thesis
    proof (cases b)
      case False
      with assms(2) nu bg have "model p' = model p" "w' = w1" by (auto simp: commit_location_coordinates_def Let_def)
      then show ?thesis using handler_start[OF idle bg] False idle by (auto simp: panel_idle_def)
    next
      case True
      with bg have bg: "ss_location_metadata_transaction_begin w = (True, w1)" by simp
      obtain previous w2 where la: "load_authoritative_location_metadata w1 = (previous, w2)" by (metis prod.collapse)
      show ?thesis
      proof (cases previous)
        case None
        with assms(2) nu bg la have "model p' = model p" "w' = ss_location_metadata_transaction_end w2"
          by (auto simp: commit_location_coordinates_def Let_def)
        then show ?thesis using handler_reload_failed[OF idle bg la] by (auto simp: panel_idle_def)
      next
        case prev: (Some pm)
        obtain pmd pp where pm: "pm = (pmd, pp)" by (cases pm) auto
        let ?p2 = "?p\<lparr>metadata := chosen_metadata ''Custom coordinates'' [] (spin_latitude p) (spin_longitude p) tz,
                       metadata_present := pp\<rparr>"
        obtain o3 p3 w3 where cl: "commit_location pmd pp (spin_latitude p) (spin_longitude p) ?p2 w2 = (o3, p3, w3)"
          by (metis prod.collapse)
        have M: "panel_idle p3 (ss_location_metadata_transaction_end w3)" "o3 \<noteq> Not_finalized"
          using handler_middle[OF idle _ bg la cl] by auto
        have "w' = ss_location_metadata_transaction_end w3 \<and> model p' = model p3"
          using assms(2) nu bg la prev pm cl
          by (cases o3) (auto simp: commit_location_coordinates_def Let_def dest!: policy_saved_same)
        then show ?thesis using M panel_idle_model by simp
      qed
    qed
  qed
qed

text \<open>
  Every handler of the locality page, run on an idle panel, leaves it idle: whatever fails on the
  way, neither the locality lock nor the policy update lock stays owned, and the model is not left
  saving. So no failure of one edit can block the next one or another process.
\<close>

theorem location_handlers_release:
  assumes "panel_idle p w"
  shows "(\<forall>p' w'. on_location_result_activated renv tz row p w = (p', w') \<longrightarrow> panel_idle p' w') \<and>
         (\<forall>p' w'. commit_location_coordinates tz p w = (p', w') \<longrightarrow> panel_idle p' w')"
  using activated_idle[OF assms] coordinates_idle[OF assms] by blast

section \<open>The debounce timer\<close>

text \<open>
  At most one commit is scheduled, it is the one the panel records, and identifiers are fresh. The
  recovery timer of the controller is kept apart by its kind.
\<close>

definition commit_timers :: "panel \<Rightarrow> nat list" where
  "commit_timers p = map fst (filter (\<lambda>(i, t). t = Coordinate_commit_timer) (timers p))"

definition commit_timer_ok :: "panel \<Rightarrow> bool" where
  "commit_timer_ok p \<longleftrightarrow>
     commit_timers p = (if coordinate_commit_id p = 0 then [] else [coordinate_commit_id p]) \<and>
     0 < next_source p \<and> (\<forall>(i, t) \<in> set (timers p). 0 < i \<and> i < next_source p) \<and> distinct (map fst (timers p))"

lemma remove_commit_timer:
  assumes "commit_timer_ok p" "coordinate_commit_id p \<noteq> 0"
  shows "commit_timers (remove_timer (coordinate_commit_id p) p) = []"
proof -
  have "commit_timers (remove_timer i p) = filter (\<lambda>j. j \<noteq> i) (commit_timers p)" for i
    by (simp add: commit_timers_def remove_timer_def filter_map filter_filter o_def case_prod_beta' conj_commute)
  then show ?thesis using assms by (simp add: commit_timer_ok_def)
qed

lemma distinct_map_filter_fst: "distinct (map fst xs) \<Longrightarrow> distinct (map fst (filter P xs))"
  by (simp add: distinct_map inj_on_filter_key_eq inj_on_def)

lemma cancel_timer_ok:
  "commit_timer_ok p \<Longrightarrow> commit_timer_ok (ss_linux_date_time_location_cancel_coordinate_commit p) \<and>
     coordinate_commit_id (ss_linux_date_time_location_cancel_coordinate_commit p) = 0"
  using remove_commit_timer[of p] distinct_map_filter_fst[of "timers p"]
  by (auto simp: ss_linux_date_time_location_cancel_coordinate_commit_def commit_timer_ok_def commit_timers_def
      remove_timer_def)

lemma changed_timer_ok:
  "commit_timer_ok p \<Longrightarrow> commit_timer_ok (on_location_coordinate_changed p)"
  using cancel_timer_ok[of p]
  by (auto simp: on_location_coordinate_changed_def add_timer_def commit_timer_ok_def commit_timers_def Let_def)

text \<open>The presentation functions leave the timers alone.\<close>

definition same_timers :: "panel \<Rightarrow> panel \<Rightarrow> bool" where
  "same_timers p p' \<longleftrightarrow>
     timers p' = timers p \<and> next_source p' = next_source p \<and> coordinate_commit_id p' = coordinate_commit_id p"

lemma same_timers_simps [simp]:
  "same_timers p (ss_linux_date_time_panel_set_status q m e) = same_timers p q"
  "same_timers p (call c q) = same_timers p q"
  "same_timers p (clear_location_results q) = same_timers p q"
  "same_timers p (ss_linux_date_time_location_update_summary q) = same_timers p q"
  "same_timers p (update_overview_policy cm q) = same_timers p q"
  "same_timers p (sync_native_format_controls L k q) = same_timers p q"
  by (simp_all add: same_timers_def ss_linux_date_time_panel_set_status_def call_def clear_location_results_def
      ss_linux_date_time_location_update_summary_def update_overview_policy_def
      sync_native_format_controls_def Let_def split: option.splits)

lemma capabilities_timers [simp]: "same_timers p (update_control_capabilities L k q) = same_timers p q"
proof -
  have "same_timers p (q\<lparr>seconds_sensitive := b\<rparr>) = same_timers p q" for b by (simp add: same_timers_def)
  then show ?thesis by (simp add: update_control_capabilities_def Let_def split: option.splits)
qed

lemma sync_controls_timers [simp]: "same_timers p (ss_linux_date_time_panel_sync_controls L k q) = same_timers p q"
  by (simp add: ss_linux_date_time_panel_sync_controls_def Let_def split: option.splits) (simp add: same_timers_def)

lemma policy_saved_timers:
  "ss_linux_date_time_panel_policy_saved q w = (q', w') \<Longrightarrow> same_timers p q' = same_timers p q"
  by (auto simp: ss_linux_date_time_panel_policy_saved_def split: prod.splits)

lemma commit_location_timers:
  "commit_location prev present lat lon q w = (o3, q', w') \<Longrightarrow> same_timers p q' = same_timers p q"
  by (auto simp: commit_location_def Let_def same_timers_def split: prod.splits if_splits)

lemma commit_coordinates_timers:
  assumes "commit_location_coordinates tz p w = (p', w')"
  shows "same_timers (p\<lparr>coordinate_commit_id := 0\<rparr>) p'"
proof -
  let ?p = "p\<lparr>coordinate_commit_id := 0\<rparr>"
  have refl: "same_timers ?p ?p" by (simp add: same_timers_def)
  show ?thesis
  proof (cases "location_updating p")
    case True
    with assms refl show ?thesis by (simp add: commit_location_coordinates_def Let_def)
  next
    case False
    obtain b w1 where bg: "ss_location_metadata_transaction_begin w = (b, w1)" by (metis prod.collapse)
    obtain previous w2 where la: "load_authoritative_location_metadata w1 = (previous, w2)" by (metis prod.collapse)
    show ?thesis
    proof (cases "b \<and> previous \<noteq> None")
      case False
      then have "\<not> b \<or> previous = None" by blast
      with assms bg la \<open>\<not> location_updating p\<close> refl show ?thesis
        by (auto simp: commit_location_coordinates_def Let_def split: if_splits)
    next
      case True
      then obtain pmd pp where pm: "previous = Some (pmd, pp)" by auto
      let ?p2 = "?p\<lparr>metadata := chosen_metadata ''Custom coordinates'' [] (spin_latitude p) (spin_longitude p) tz,
                     metadata_present := pp\<rparr>"
      obtain o3 p3 w3 where cl: "commit_location pmd pp (spin_latitude p) (spin_longitude p) ?p2 w2 = (o3, p3, w3)"
        by (metis prod.collapse)
      have s3: "same_timers ?p p3" using commit_location_timers[OF cl, of ?p] by (simp add: same_timers_def)
      have s4: "same_timers ?p (p3\<lparr>follows_timezone_reference := False, search_text := t\<rparr>)" for t
        using s3 by (simp add: same_timers_def)
      show ?thesis using assms bg la True pm cl s3 s4 \<open>\<not> location_updating p\<close>
        by (cases o3) (auto simp: commit_location_coordinates_def Let_def policy_saved_timers)
    qed
  qed
qed

lemma fire_timer_ok:
  assumes "commit_timer_ok p" "fire_coordinate_commit i tz p w = (p', w')"
  shows "commit_timer_ok p'"
proof (cases "(i, Coordinate_commit_timer) \<in> set (timers p)")
  case False
  with assms show ?thesis by (simp add: fire_coordinate_commit_def)
next
  case True
  then have "i \<in> set (commit_timers p)" by (force simp: commit_timers_def)
  with assms(1) have i: "i = coordinate_commit_id p" "coordinate_commit_id p \<noteq> 0"
    by (auto simp: commit_timer_ok_def split: if_splits)
  from cancel_timer_ok[OF assms(1)] i
  have ok: "commit_timer_ok ((remove_timer i p)\<lparr>coordinate_commit_id := 0\<rparr>)"
    by (simp add: ss_linux_date_time_location_cancel_coordinate_commit_def)
  from assms(2) True have "commit_location_coordinates tz (remove_timer i p) w = (p', w')"
    by (simp add: fire_coordinate_commit_def)
  from commit_coordinates_timers[OF this] ok show ?thesis
    by (simp add: same_timers_def commit_timer_ok_def commit_timers_def)
qed

inductive debounce_step :: "panel \<Rightarrow> panel \<Rightarrow> bool" where
  value_changed: "debounce_step p (on_location_coordinate_changed p)"
| cancelled: "debounce_step p (ss_linux_date_time_location_cancel_coordinate_commit p)"
| expired: "fire_coordinate_commit i tz p w = (p', w') \<Longrightarrow> debounce_step p p'"

text \<open>
  Typing coordinates schedules one commit. In every order of value changes, cancellations and
  expiring timers there is never more than one pending commit, it is the one the panel can still
  cancel, and after a cancellation or an expiry none is left to run on a later state.
\<close>

theorem single_pending_commit:
  assumes "commit_timer_ok p" "debounce_step\<^sup>*\<^sup>* p p'"
  shows "commit_timer_ok p' \<and> length (commit_timers p') \<le> 1 \<and>
    commit_timers (ss_linux_date_time_location_cancel_coordinate_commit p') = []"
proof -
  from assms(2) have ok: "commit_timer_ok p'"
    by (induction rule: rtranclp_induct)
       (auto elim!: debounce_step.cases intro: assms(1) changed_timer_ok fire_timer_ok simp: cancel_timer_ok)
  then show ?thesis using cancel_timer_ok[OF ok] by (auto simp: commit_timer_ok_def)
qed

section \<open>Search generations\<close>

text \<open>
  The results of a search are shown only when they answer the latest search of a panel that
  still exists; any other completion changes nothing, and of two searches started one after the
  other only the second one's completion can.
\<close>

theorem stale_search_ignored:
  assumes "begin_location_search p = (Some (query1, g1), p1)" "begin_location_search p2 = (Some (query2, g2), p3)"
    and "search_generation p2 = search_generation p1"
  shows "location_search_complete results err True g1 p3 = p3 \<and>
         location_search_complete results err False g p3 = p3 \<and>
         (\<forall>items. results = Some items \<and> items \<noteq> [] \<longrightarrow>
            rows (location_search_complete results err True g2 p3) = List.map_filter (\<lambda>x. x) items)"
proof -
  have g: "g1 = search_generation p1" "g2 = (search_generation p2 + 1) mod 2 ^ 32" "search_generation p3 = g2"
    using assms(1,2)
    by (auto simp: begin_location_search_def Let_def ss_linux_date_time_panel_set_status_def
        clear_location_results_def split: if_splits)
  have lt: "g1 < 2 ^ 32"
    using assms(1) by (auto simp: begin_location_search_def Let_def ss_linux_date_time_panel_set_status_def
        clear_location_results_def split: if_splits)
  have ne: "g1 \<noteq> search_generation p3"
  proof
    assume "g1 = search_generation p3"
    then have "g1 = (g1 + 1) mod 2 ^ 32" using g assms(3) by simp
    with lt show False by (cases "g1 + 1 = 2 ^ 32") (simp_all add: mod_if)
  qed
  show ?thesis using ne g(3)
    by (auto simp: location_search_complete_def Let_def clear_location_results_def
        ss_linux_date_time_panel_set_status_def split: list.splits)
qed

section \<open>An instance\<close>

definition sample_panel :: panel where
  "sample_panel = \<lparr>model = sample_model,
     regional = \<lparr>timezone_id = ''Etc/UTC'', timezone_city = ''UTC'', reference_latitude = dzero,
                 reference_longitude = dzero, has_reference_coordinates = False\<rparr>,
     metadata = cleared_metadata, metadata_present = False, metadata_uncertain = False,
     follows_timezone_reference = False, recovery_failed = False, location_updating = False,
     coordinate_commit_id = 0, recovery_retry_id = 0, recovery_retry_seconds = 0, search_generation = 0,
     search_text = ''Port of Spain'', spin_latitude = Fin 10, spin_longitude = Fin (- 61),
     rows = [], rows_visible = False, summary_line = Search_prompt, updating_controls = False,
     clock_mode_ids = [''standard-12'', ''sidereal''], clock_selected = 1, calendar_selected = 0,
     seconds_active = False, seconds_sensitive = True, overview_clock = [], overview_calendar = [],
     native_format_updating = False, cinnamon_settings = None, show_date_active = False,
     first_day_selected = 0, status_line = None, timers = [], next_source = 1, calls = []\<rparr>"

lemma sample_panel_attached: "platform_attached (model sample_panel) (the (model_private sample_model))"
  "\<not> saving (the (model_private sample_model))"
  using sample_attached by (simp_all add: sample_panel_def)

lemma sample_metadata_valid: "metadata_valid (lib_glib sample_lib) (Some sample_metadata)"
  by (simp add: metadata_valid_def sample_lib_def sample_glib_def sample_metadata_def
      sizeof_display_name_def sizeof_country_code_def sizeof_timezone_id_def)

lemma sample_committed:
  "fst (commit_location cleared_metadata False (Fin 10) (Fin (- 61)) (sample_panel\<lparr>metadata := sample_metadata\<rparr>)
          sample_locked_world) = Committed"
  by code_simp

lemma sample_unlocked_policy: "\<not> policy_locked sample_locked_world"
proof -
  have "update_lock sample_locked_world = - 1" by code_simp
  then show ?thesis by (simp add: policy_locked_def)
qed


lemma sample_format_close: "format_close sample_common"
proof -
  have "stored sample_common p = p" for p
  proof (cases "document_of sample_documents p")
    case None
    then show ?thesis by (simp add: stored_def sample_common_def)
  next
    case (Some t)
    from document_of_map[OF sample_distinct(1) Some] Some show ?thesis by (simp add: stored_def sample_common_def)
  qed
  moreover have "coordinates_match (Fin r) (Fin r)" for r
  proof -
    have "round53 (1 * 2 powi (- 20)) = 1 * 2 powi (- 20)" using round53_exact[of 1 "- 20"] by simp
    then have "0 < round53 (1 / 1000000)" using round53_mono[of "1 * 2 powi (- 20)" "1 / 1000000"] by simp
    then have "dlt dzero (round64 (1 / 1000000))" by (simp add: round64_small)
    then show ?thesis by (simp add: coordinates_match_def)
  qed
  ultimately show ?thesis by (auto simp: format_close_def valid_location_def isfinite_iff)
qed

lemma sample_stage_begin:
  "fst (ss_location_metadata_stage sample_metadata sample_locked_world) = True"
  "fst (ss_date_time_model_begin_location_update sample_model True (Fin 10) (Fin (- 61)) SS_DATE_TIME_LOCATION_UPDATE_INIT
          (snd (ss_location_metadata_stage sample_metadata sample_locked_world))) = True"
  by code_simp+


lemma sample_idle: "panel_idle sample_panel sample_world"
proof -
  have "\<not> locality_locked sample_world" "\<not> policy_locked sample_world"
    by (simp_all add: locality_locked_def policy_locked_def sample_world_def)
  then show ?thesis using sample_world_ok sample_panel_attached by (auto simp: panel_idle_def)
qed

definition sample_result :: search_result where
  "sample_result = \<lparr>sr_display_name = ''Port of Spain'', sr_country_code = ''TT'',
     sr_latitude = Fin 10, sr_longitude = Fin (- 61)\<rparr>"

theorem location_handlers_release_witness:
  "\<exists>p' w'. on_location_result_activated sample_region None (Some sample_result) sample_panel sample_world = (p', w') \<and>
     panel_idle p' w'"
proof -
  obtain p' w' where e: "on_location_result_activated sample_region None (Some sample_result) sample_panel sample_world = (p', w')"
    by (metis prod.collapse)
  from location_handlers_release[OF sample_idle] e show ?thesis by blast
qed

theorem single_pending_commit_witness:
  "length (commit_timers (on_location_coordinate_changed (on_location_coordinate_changed sample_panel))) \<le> 1 \<and>
   commit_timers (on_location_coordinate_changed (on_location_coordinate_changed sample_panel)) \<noteq> []"
proof -
  have ok: "commit_timer_ok sample_panel" by (simp add: commit_timer_ok_def commit_timers_def sample_panel_def)
  have "debounce_step\<^sup>*\<^sup>* sample_panel (on_location_coordinate_changed (on_location_coordinate_changed sample_panel))"
    by (meson converse_rtranclp_into_rtranclp rtranclp.rtrancl_refl value_changed)
  from single_pending_commit[OF ok this] show ?thesis
    by (simp add: on_location_coordinate_changed_def add_timer_def commit_timers_def Let_def sample_panel_def
        ss_linux_date_time_location_cancel_coordinate_commit_def remove_timer_def)
qed

theorem stale_search_ignored_witness:
  "location_search_complete (Some [Some sample_result]) None True 1 (snd (begin_location_search (snd (begin_location_search sample_panel)))) =
     snd (begin_location_search (snd (begin_location_search sample_panel)))"
proof -
  have a: "begin_location_search sample_panel = (Some (''Port of Spain'', 1), snd (begin_location_search sample_panel))"
    by (simp add: begin_location_search_def Let_def sample_panel_def)
  have b: "begin_location_search (snd (begin_location_search sample_panel)) =
      (Some (''Port of Spain'', 2), snd (begin_location_search (snd (begin_location_search sample_panel))))"
    by (simp add: begin_location_search_def Let_def sample_panel_def ss_linux_date_time_panel_set_status_def
        clear_location_results_def)
  from stale_search_ignored[OF a b refl, of "Some [Some sample_result]" None] show ?thesis by simp
qed

section \<open>A lost error message\<close>

text \<open>
  A typed location that cannot be saved reports an error only for the moment: when the selected
  clock needs a location, none is configured and the zone has no reference coordinates, the control
  update that follows replaces the error in the status line by the hint that a location is needed,
  shown as no error. In this instance the locality lock is not available.
\<close>

theorem commit_error_replaced_by_hint:
  "status_line (fst (commit_location_coordinates None
     (sample_panel\<lparr>model := Some \<lparr>address = 1, private_state = Some \<lparr>mp_policy = sample_policy\<lparr>clock_mode := ''sidereal''\<rparr>,
        mp_store = Some ss_platform_temporal_policy_store, persisted_policy_present = True, saving = False\<rparr>\<rparr>\<rparr>)
     sample_locked_world)) = Some (Needs_location, False) \<and>
   fst (ss_location_metadata_transaction_begin sample_locked_world) = False"
  by code_simp

end
