(* ===== verification/PanelController.thy ===== *)
theory PanelController
  imports LocationPanel
begin

text \<open>
  The controller of \<open>linux-date-time-panel.c\<close>: reconciliation with the operating system's time zone, the
  callbacks of the two file observers, the retry of an interrupted recovery, the desktop's settings
  and the handlers of the controls. The state is that of PanelState; the main loop runs one callback
  at a time.
\<close>

section \<open>The system's time\<close>

record system_time_state =
  st_timezone :: string
  st_available :: bool
  st_can_ntp :: bool
  st_ntp_enabled :: bool

definition SS_SYSTEM_TIMEZONE_CAPACITY :: nat where "SS_SYSTEM_TIMEZONE_CAPACITY = 128"

definition temporal_policy_equal :: "policy option \<Rightarrow> policy option \<Rightarrow> bool" where
  "temporal_policy_equal left right =
     (case (left, right) of
        (Some a, Some b) \<Rightarrow>
          clock_mode a = clock_mode b \<and> calendar a = calendar b \<and> show_seconds a = show_seconds b \<and>
          location_configured a = location_configured b \<and>
          ss_linux_date_time_location_coordinate_close (latitude a) (latitude b) \<and>
          ss_linux_date_time_location_coordinate_close (longitude a) (longitude b)
      | _ \<Rightarrow> False)"

text \<open>
  What \<open>reconcile_system_time_change\<close> does while it owns the locality lock, in three parts: read policy and
  metadata again, bring the zone of explicit metadata up to date, and publish the reference
  coordinates of the zone. \<open>locked_system\<close> is what the service answers then, \<open>None\<close> on failure.
\<close>

definition reconcile_reload ::
  "system_time_state option \<Rightarrow> regional_env \<Rightarrow> panel \<Rightarrow> world \<Rightarrow> bool \<times> bool \<times> panel \<times> world" where
  "reconcile_reload locked_system renv p w =
     (let (regional_reloaded, context) = ss_regional_context_detect (lib_glib (lib w)) renv;
          regional_matches_system =
            (case locked_system of None \<Rightarrow> False
             | Some s \<Rightarrow> regional_reloaded \<and> st_timezone s \<noteq> [] \<and> timezone_id context = st_timezone s);
          p1 = p\<lparr>regional := context\<rparr>;
          (policy_reloaded, m, w1) = ss_date_time_model_reload (lib_common (lib w)) (model p1) w;
          p2 = p1\<lparr>model := m\<rparr>;
          (status, md, w2) = ss_location_metadata_load_status w1;
          p3 = (case status of
                  LOAD_OK \<Rightarrow> p2\<lparr>metadata := md, metadata_present := True\<rparr>
                | LOAD_MISSING \<Rightarrow> p2\<lparr>metadata := cleared_metadata, metadata_present := False\<rparr>
                | _ \<Rightarrow> p2);
          p4 = (if policy_reloaded then refresh_location_authority_state p3 else p3)
      in (policy_reloaded, regional_matches_system, p4, w2))"

definition reconcile_metadata ::
  "bool \<Rightarrow> system_time_state option \<Rightarrow> panel \<Rightarrow> world \<Rightarrow> panel \<times> world" where
  "reconcile_metadata policy_reloaded locked_system p w =
     (case locked_system of
        None \<Rightarrow> (p, w)
      | Some s \<Rightarrow>
          if policy_reloaded \<and>
             ss_linux_date_time_location_metadata_matches_policy p (ss_date_time_model_policy (model p)) \<and>
             st_timezone s \<noteq> [] \<and> md_timezone_id (metadata p) \<noteq> st_timezone s
          then
            (let candidate = (metadata p)\<lparr>md_timezone_id := fst (strlcpy (st_timezone s) sizeof_timezone_id)\<rparr>;
                 (saved, w1) = ss_location_metadata_save candidate w
             in if saved
                then (ss_linux_date_time_panel_set_status (p\<lparr>metadata := candidate\<rparr>) Zone_reconciled False, w1)
                else (ss_linux_date_time_panel_set_status p Zone_metadata_not_saved True, w1))
          else (p, w))"

definition reconcile_reference :: "bool \<Rightarrow> bool \<Rightarrow> panel \<Rightarrow> world \<Rightarrow> panel \<times> world" where
  "reconcile_reference policy_reloaded regional_matches_system p w =
     (if policy_reloaded \<and> follows_timezone_reference p \<and> regional_matches_system \<and>
         has_reference_coordinates (regional p)
      then
        (let lat = reference_latitude (regional p); lon = reference_longitude (regional p);
             already_matches =
               (case ss_date_time_model_policy (model p) of None \<Rightarrow> False
                | Some q \<Rightarrow> location_configured q \<and>
                            ss_linux_date_time_location_coordinate_close (latitude q) lat \<and>
                            ss_linux_date_time_location_coordinate_close (longitude q) lon);
             (stored_now, m, w1) =
               (if already_matches then (True, model p, w)
                else ss_date_time_model_set_location (model p) True lat lon w);
             p1 = p\<lparr>model := m\<rparr>
         in if \<not> stored_now
            then (ss_linux_date_time_panel_set_status p1 Reference_not_persisted True, w1)
            else
              (let p2 = p1\<lparr>location_updating := True, spin_latitude := lat, spin_longitude := lon\<rparr>;
                   p3 = (if timezone_city (regional p2) \<noteq> []
                         then p2\<lparr>search_text := timezone_city (regional p2)\<rparr> else p2)
               in (p3\<lparr>location_updating := False\<rparr>, w1)))
      else (p, w))"

definition reconcile_locked ::
  "system_time_state option \<Rightarrow> regional_env \<Rightarrow> panel \<Rightarrow> world \<Rightarrow> panel \<times> world" where
  "reconcile_locked locked_system renv p w =
     (let (policy_reloaded, regional_matches, p1, w1) = reconcile_reload locked_system renv p w;
          (p2, w2) = reconcile_metadata policy_reloaded locked_system p1 w1;
          (p3, w3) = reconcile_reference policy_reloaded regional_matches p2 w2
      in (p3, ss_location_metadata_transaction_end w3))"

text \<open>\<open>renv\<close> and \<open>renv'\<close> are the zone files at the first and, under the lock, at the second detection.\<close>

definition ss_linux_date_time_panel_reconcile_system_time_change ::
  "system_time_state option \<Rightarrow> system_time_state option \<Rightarrow> regional_env \<Rightarrow> regional_env \<Rightarrow>
     panel \<Rightarrow> world \<Rightarrow> panel \<times> world" where
  "ss_linux_date_time_panel_reconcile_system_time_change system_state locked_system renv renv' p w =
     (case system_state of
        None \<Rightarrow> (p, w)
      | Some s \<Rightarrow>
          if \<not> st_available s
          then (ss_linux_date_time_panel_set_status (call System_time_sync p) Service_unavailable True, w)
          else
            (let timezone_changed = (st_timezone s \<noteq> [] \<and> timezone_id (regional p) \<noteq> st_timezone s);
                 p1 = p\<lparr>regional := snd (ss_regional_context_detect (lib_glib (lib w)) renv)\<rparr>;
                 p2 = (if timezone_changed \<or> st_ntp_enabled s then call Invalidate_manual_draft p1 else p1);
                 wanted = (timezone_changed \<or> follows_timezone_reference p2);
                 (locked, w1) = (if wanted then ss_location_metadata_transaction_begin w else (False, w));
                 (p3, w3) =
                   (if wanted \<and> locked then reconcile_locked locked_system renv' p2 w1
                    else if wanted
                    then (ss_linux_date_time_panel_set_status p2 Zone_change_without_lock True, w1)
                    else (p2, w1))
             in (call Preview_refresh
                   (ss_linux_date_time_location_update_summary (call System_time_sync p3)), w3)))"

definition ss_linux_date_time_panel_system_time_operation_applied ::
  "bool \<Rightarrow> string option \<Rightarrow> regional_env \<Rightarrow> glib \<Rightarrow> panel \<Rightarrow> bool \<times> panel" where
  "ss_linux_date_time_panel_system_time_operation_applied timezone_operation observed_timezone renv gl p =
     (let p1 = p\<lparr>regional := snd (ss_regional_context_detect gl renv)\<rparr>;
          p2 = ss_linux_date_time_location_update_summary (call System_time_sync p1)
      in (timezone_operation \<and> metadata_present p2 \<and>
          (case observed_timezone of None \<Rightarrow> False
           | Some t \<Rightarrow> t \<noteq> [] \<and> md_timezone_id (metadata p2) \<noteq> t), p2))"

definition ss_linux_date_time_panel_system_time_service_ready :: "panel \<Rightarrow> panel" where
  "ss_linux_date_time_panel_system_time_service_ready p =
     (if recovery_failed p then ss_linux_date_time_panel_set_status p Recovery_pending True
      else ss_linux_date_time_panel_set_status p
             (if ss_date_time_model_has_persisted_policy (model p) then Using_saved_policy
              else Using_desktop_preferences) False)"

section \<open>The observed files\<close>

definition location_metadata_file_changed :: "panel \<Rightarrow> world \<Rightarrow> panel \<times> world" where
  "location_metadata_file_changed p w =
     (let (status, loaded, w1) = ss_location_metadata_load_status w;
          p1 = (case status of
                  LOAD_OK \<Rightarrow> p\<lparr>metadata := loaded, metadata_present := True, metadata_uncertain := False\<rparr>
                | LOAD_MISSING \<Rightarrow>
                    p\<lparr>metadata := cleared_metadata, metadata_present := False, metadata_uncertain := False\<rparr>
                | _ \<Rightarrow> ss_linux_date_time_panel_set_status (p\<lparr>metadata_uncertain := True\<rparr>) Metadata_unreadable True);
          p2 = ss_linux_date_time_panel_sync_controls (lib w1) (kern w1) (refresh_location_authority_state p1)
      in (ss_linux_date_time_location_update_summary p2, w1))"

definition schedule_locality_recovery_retry :: "panel \<Rightarrow> panel" where
  "schedule_locality_recovery_retry p =
     (if recovery_retry_id p \<noteq> 0 \<or> \<not> recovery_failed p then p
      else
        (let p1 = (if recovery_retry_seconds p = 0 then p\<lparr>recovery_retry_seconds := 2\<rparr> else p);
             (i, p2) = add_timer Recovery_retry_timer p1
         in p2\<lparr>recovery_retry_id := i, recovery_retry_seconds := min (recovery_retry_seconds p2 * 2) 60\<rparr>))"

definition retry_locality_recovery :: "panel \<Rightarrow> world \<Rightarrow> panel \<times> world" where
  "retry_locality_recovery panel0 w =
     (let p = panel0\<lparr>recovery_retry_id := 0\<rparr>;
          (recovered, w1) = ss_location_metadata_recover w
      in if recovered
         then
           (let (p2, w2) = location_metadata_file_changed
                             (p\<lparr>recovery_failed := False, recovery_retry_seconds := 2\<rparr>) w1
            in (ss_linux_date_time_panel_set_status p2 Recovery_done False, w2))
         else (schedule_locality_recovery_retry (p\<lparr>recovery_failed := True\<rparr>), w1))"

definition fire_recovery_retry :: "nat \<Rightarrow> panel \<Rightarrow> world \<Rightarrow> panel \<times> world" where
  "fire_recovery_retry i p w =
     (if (i, Recovery_retry_timer) \<in> set (timers p) then retry_locality_recovery (remove_timer i p) w else (p, w))"

definition cancel_recovery_retry :: "panel \<Rightarrow> panel" where
  "cancel_recovery_retry p =
     (if recovery_retry_id p \<noteq> 0
      then (remove_timer (recovery_retry_id p) p)\<lparr>recovery_retry_id := 0\<rparr> else p)"

text \<open>
  After the policy was reloaded: recover the metadata, read it when that succeeded, and arrange or
  cancel the retry. The result is \<open>locality_recovery_ok\<close>.
\<close>

definition recover_after_reload :: "panel \<Rightarrow> world \<Rightarrow> bool \<times> load_status \<times> location_metadata \<times> panel \<times> world" where
  "recover_after_reload p w =
     (let (recovery_ok, w2) =
            (if ss_date_time_model_policy (model p) \<noteq> None then ss_location_metadata_recover w else (False, w));
          (status, recovered, w3) =
            (if recovery_ok then ss_location_metadata_load_status w2 else (LOAD_IO_ERROR, cleared_metadata, w2));
          p2 = p\<lparr>recovery_failed := \<not> recovery_ok\<rparr>;
          p3 = (if recovery_ok then cancel_recovery_retry p2 else schedule_locality_recovery_retry p2)
      in (recovery_ok, status, recovered, p3, w3))"

definition recovered_panel :: "bool \<Rightarrow> load_status \<Rightarrow> location_metadata \<Rightarrow> panel \<Rightarrow> panel" where
  "recovered_panel recovery_ok status recovered p =
     (if status = LOAD_OK
      then p\<lparr>metadata := recovered, metadata_present := True, metadata_uncertain := False\<rparr>
      else if recovery_ok \<and> status = LOAD_MISSING
      then p\<lparr>metadata := cleared_metadata, metadata_present := False, metadata_uncertain := False\<rparr>
      else if recovery_ok then p\<lparr>metadata_uncertain := True\<rparr> else p)"

definition policy_file_changed :: "panel \<Rightarrow> world \<Rightarrow> panel \<times> world" where
  "policy_file_changed panel0 w =
     (case ss_date_time_model_policy (model panel0) of
        None \<Rightarrow> (panel0, w)
      | Some previous \<Rightarrow>
          (let p = ss_linux_date_time_location_cancel_coordinate_commit panel0;
               (reloaded, m, w1) = ss_date_time_model_reload (lib_common (lib w)) (model p) w;
               p1 = p\<lparr>model := m\<rparr>
           in if \<not> reloaded
              then (ss_linux_date_time_panel_set_status p1 External_change_not_reloaded True, w1)
              else
                (let (recovery_ok, status, recovered, p3, w3) = recover_after_reload p1 w1;
                     pol = ss_date_time_model_policy (model p1);
                     changed = (\<not> temporal_policy_equal (Some previous) pol);
                     manual_context_changed =
                       (case pol of None \<Rightarrow> False
                        | Some q \<Rightarrow> clock_mode previous \<noteq> clock_mode q \<or> calendar previous \<noteq> calendar q);
                     p4 = (if manual_context_changed then call Invalidate_manual_draft p3 else p3);
                     p5 = recovered_panel recovery_ok status recovered p4;
                     p6 = ss_linux_date_time_panel_sync_controls (lib w3) (kern w3)
                            (refresh_location_authority_state p5);
                     p7 = call Preview_refresh (call Preview_restart p6)
                 in (if \<not> recovery_ok
                     then ss_linux_date_time_panel_set_status p7 External_change_recovery_failed True
                     else if changed
                     then ss_linux_date_time_panel_set_status p7 External_change_reloaded False
                     else p7, w3))))"

section \<open>The desktop's settings\<close>

definition on_cinnamon_interface_changed :: "string option \<Rightarrow> panel \<Rightarrow> world \<Rightarrow> panel \<times> world" where
  "on_cinnamon_interface_changed key panel0 w =
     (case key of
        None \<Rightarrow> (panel0, w)
      | Some name \<Rightarrow>
          if updating_controls panel0 \<or> ss_date_time_model_is_saving (model panel0) then (panel0, w)
          else
            (let cm = lib_common (lib w);
                 read = (\<lambda>k. ss_cinnamon_interface_get_boolean (lib w) (cinnamon_settings panel0) (Some k) (kern w));
                 p = sync_native_format_controls (lib w) (kern w) panel0
             in case ss_date_time_model_policy (model p) of
                  None \<Rightarrow> (p, w)
                | Some q \<Rightarrow>
                    (let (attempted, changed, m, w1) =
                       (if name = ''clock-use-24h'' \<and> ss_native_clock_mode_tracks_desktop (Some (clock_mode q)) \<and>
                           read ''clock-use-24h'' \<noteq> None
                        then
                          (let desired = ss_native_clock_mode_id (read ''clock-use-24h'' = Some True)
                           in if clock_mode q \<noteq> desired
                              then (True, ss_date_time_model_set_clock_mode cm (model p) (Some desired) w)
                              else (False, False, model p, w))
                        else if name = ''clock-show-seconds'' \<and> read ''clock-show-seconds'' \<noteq> None \<and>
                                read ''clock-show-seconds'' \<noteq> Some (show_seconds q)
                        then (True, ss_date_time_model_set_show_seconds (model p)
                                      (read ''clock-show-seconds'' = Some True) w)
                        else (False, False, model p, w));
                         p1 = p\<lparr>model := m\<rparr>
                     in if attempted \<and> \<not> changed
                        then (ss_linux_date_time_panel_sync_controls (lib w1) (kern w1)
                                (ss_linux_date_time_panel_set_status p1 Native_change_not_persisted True), w1)
                        else if changed
                        then (ss_linux_date_time_panel_set_status
                                (call Preview_restart
                                  (ss_linux_date_time_panel_sync_controls (lib w1) (kern w1) p1))
                                Native_change_reconciled False, w1)
                        else (call Preview_refresh p1, w1))))"

section \<open>The controls\<close>

definition on_clock_changed :: "panel \<Rightarrow> world \<Rightarrow> panel \<times> world" where
  "on_clock_changed p w =
     (if updating_controls p then (p, w)
      else
        (let cm = lib_common (lib w);
             (saved, m, w1) =
               (case selected_clock_mode cm p of
                  None \<Rightarrow> (False, model p, w)
                | Some info \<Rightarrow> ss_date_time_model_set_clock_mode cm (model p) (Some (mode_id info)) w);
             p1 = p\<lparr>model := m\<rparr>
         in if \<not> saved
            then (ss_linux_date_time_panel_sync_controls (lib w1) (kern w1)
                    (ss_linux_date_time_panel_set_status p1 Clock_save_failed True), w1)
            else ss_linux_date_time_panel_policy_saved (call Invalidate_manual_draft p1) w1))"

definition on_calendar_changed :: "panel \<Rightarrow> world \<Rightarrow> panel \<times> world" where
  "on_calendar_changed p w =
     (if updating_controls p then (p, w)
      else
        (let cm = lib_common (lib w);
             (saved, m, w1) =
               (case selected_calendar cm p of
                  None \<Rightarrow> (False, model p, w)
                | Some cal \<Rightarrow> ss_date_time_model_set_calendar cm (model p) (Some cal) w);
             p1 = p\<lparr>model := m\<rparr>
         in if \<not> saved
            then (ss_linux_date_time_panel_sync_controls (lib w1) (kern w1)
                    (ss_linux_date_time_panel_set_status p1 Calendar_save_failed True), w1)
            else ss_linux_date_time_panel_policy_saved (call Invalidate_manual_draft p1) w1))"

definition on_seconds_changed :: "panel \<Rightarrow> world \<Rightarrow> panel \<times> world" where
  "on_seconds_changed p w =
     (if updating_controls p then (p, w)
      else
        (let (saved, m, w1) = ss_date_time_model_set_show_seconds (model p) (seconds_active p) w;
             p1 = p\<lparr>model := m\<rparr>
         in if \<not> saved
            then (ss_linux_date_time_panel_sync_controls (lib w1) (kern w1)
                    (ss_linux_date_time_panel_set_status p1 Seconds_save_failed True), w1)
            else ss_linux_date_time_panel_policy_saved p1 w1))"

definition on_show_date_changed :: "panel \<Rightarrow> world \<Rightarrow> panel \<times> world" where
  "on_show_date_changed p w =
     (if native_format_updating p \<or> cinnamon_settings p = None then (p, w)
      else
        (let (saved, k) = ss_cinnamon_interface_set_boolean (lib w) (cinnamon_settings p)
                            (Some ''clock-show-date'') (show_date_active p) (kern w);
             w1 = w\<lparr>kern := k\<rparr>
         in if \<not> saved
            then (sync_native_format_controls (lib w1) (kern w1)
                    (ss_linux_date_time_panel_set_status p Show_date_failed True), w1)
            else (ss_linux_date_time_panel_set_status p Show_date_saved False, w1)))"

definition on_first_day_changed :: "panel \<Rightarrow> world \<Rightarrow> panel \<times> world" where
  "on_first_day_changed p w =
     (if native_format_updating p \<or> cinnamon_settings p = None then (p, w)
      else
        (let (saved, k) = ss_cinnamon_interface_set_first_day (lib w) (cinnamon_settings p)
                            (first_day_value (first_day_selected p)) (kern w);
             w1 = w\<lparr>kern := k\<rparr>
         in if \<not> saved
            then (sync_native_format_controls (lib w1) (kern w1)
                    (ss_linux_date_time_panel_set_status p First_day_failed True), w1)
            else (ss_linux_date_time_panel_set_status p First_day_saved False, w1)))"

definition migrate_legacy_native_clock :: "panel \<Rightarrow> world \<Rightarrow> bool \<times> panel \<times> world" where
  "migrate_legacy_native_clock p w =
     (case ss_date_time_model_policy (model p) of
        None \<Rightarrow> (True, p, w)
      | Some q \<Rightarrow>
          if \<not> ss_native_clock_mode_is_legacy_default (Some (clock_mode q)) then (True, p, w)
          else
            (let cm = lib_common (lib w);
                 native = ss_native_clock_mode_id (ss_linux_date_time_panel_desktop_uses_24h (lib w) (kern w) p)
             in if \<not> ss_date_time_model_has_persisted_policy (model p)
                then (let (ok, m) = ss_date_time_model_normalize_unpersisted_clock_mode cm (model p) (Some native)
                      in (ok, p\<lparr>model := m\<rparr>, w))
                else (let (ok, m, w1) = ss_date_time_model_set_clock_mode cm (model p) (Some native) w
                      in (ok, p\<lparr>model := m\<rparr>, w1))))"

section \<open>Life of the panel\<close>

text \<open>The identifiers \<open>clock_mode_strings\<close> offers, of the installed clock systems.\<close>

definition clock_mode_strings :: "clock_mode_info option list \<Rightarrow> string list" where
  "clock_mode_strings installed =
     map mode_id (filter (\<lambda>info. \<not> ss_native_clock_mode_is_legacy_default (Some (mode_id info)))
                    (List.map_filter (\<lambda>info. info) installed))"

text \<open>\<open>g_new0\<close>.\<close>

definition zeroed_panel :: panel where
  "zeroed_panel = \<lparr>model = Some \<lparr>address = 1, private_state = None\<rparr>,
     regional = \<lparr>timezone_id = [], timezone_city = [], reference_latitude = dzero,
                 reference_longitude = dzero, has_reference_coordinates = False\<rparr>,
     metadata = cleared_metadata, metadata_present = False, metadata_uncertain = False,
     follows_timezone_reference = False, recovery_failed = False, location_updating = False,
     coordinate_commit_id = 0, recovery_retry_id = 0, recovery_retry_seconds = 0, search_generation = 0,
     search_text = [], spin_latitude = dzero, spin_longitude = dzero,
     rows = [], rows_visible = False, summary_line = Search_prompt, updating_controls = False,
     clock_mode_ids = [], clock_selected = 0, calendar_selected = 0,
     seconds_active = False, seconds_sensitive = False, overview_clock = [], overview_calendar = [],
     native_format_updating = False, cinnamon_settings = None, show_date_active = False,
     first_day_selected = 0, status_line = None, timers = [], next_source = 1, calls = []\<rparr>"

text \<open>
  The window, the allocation of the model's private state and the two observers may be missing; the
  widgets \<open>build_ui\<close> makes matter here only by the list of clock systems. The start of the service and
  of the preview is left to their own components.
\<close>

definition ss_linux_date_time_panel_new ::
  "bool \<Rightarrow> bool \<Rightarrow> bool \<Rightarrow> bool \<Rightarrow> regional_env \<Rightarrow> clock_mode_info option list \<Rightarrow> world \<Rightarrow> panel option \<times> world" where
  "ss_linux_date_time_panel_new host_window allocated policy_observer metadata_observer renv installed w =
     (if \<not> host_window then (None, w)
      else
        (let (initialised, m, w1) =
               ss_date_time_model_init (lib_common (lib w)) allocated (model zeroed_panel)
                 (Some ss_platform_temporal_policy_store) w;
             p = zeroed_panel\<lparr>model := m\<rparr>
         in if \<not> initialised then (None, w1)
            else
              (let p1 = p\<lparr>regional := snd (ss_regional_context_detect (lib_glib (lib w1)) renv)\<rparr> in
               if ss_date_time_model_policy (model p1) = None
               then (None, snd (ss_date_time_model_clear (model p1) w1))
               else
                 (let (recovered, w2) = ss_location_metadata_recover w1;
                      (status, md, w3) = ss_location_metadata_load_status w2;
                      p2 = p1\<lparr>recovery_failed := \<not> recovered, metadata := md,
                              metadata_present := (status = LOAD_OK),
                              metadata_uncertain := (status = LOAD_INVALID \<or> status = LOAD_IO_ERROR)\<rparr>;
                      p3 = refresh_location_authority_state p2
                  in if \<not> policy_observer \<or> \<not> metadata_observer
                     then (None, snd (ss_date_time_model_clear (model p3) w3))
                     else
                       (let p4 = p3\<lparr>cinnamon_settings := ss_cinnamon_interface_settings_new (lib w3)\<rparr>;
                            (migrated, p5, w4) = migrate_legacy_native_clock p4 w3;
                            p6 = ss_linux_date_time_panel_sync_controls (lib w4) (kern w4)
                                   (p5\<lparr>clock_mode_ids := clock_mode_strings installed\<rparr>)
                        in (Some
                              (if \<not> migrated then ss_linux_date_time_panel_set_status p6 Migration_failed True
                               else if recovery_failed p6
                               then schedule_locality_recovery_retry
                                      (ss_linux_date_time_panel_set_status p6 Recovery_pending True)
                               else ss_linux_date_time_panel_set_status p6 Connecting False), w4))))))"

definition ss_linux_date_time_panel_free :: "panel \<Rightarrow> world \<Rightarrow> panel \<times> world" where
  "ss_linux_date_time_panel_free p w =
     (let p1 = cancel_recovery_retry (ss_linux_date_time_location_cancel_coordinate_commit p);
          (m, w1) = ss_date_time_model_clear (model p1) w
      in (p1\<lparr>model := m\<rparr>, w1))"

end
