(* ===== verification/PanelHandlers.thy ===== *)
theory PanelHandlers
  imports PanelController
begin

text \<open>
  What the handlers of the controller keep: the presentation leaves timers and flags alone, an edit, a
  reload and a recovery keep the locks free and the model bound, and every handler that schedules
  nothing ends in a state between two callbacks.
\<close>

section \<open>What the presentation leaves alone\<close>

text \<open>The timers with the state of the retry, and the flags that tell a handler that the code itself moves a control.\<close>

definition timing :: "panel \<Rightarrow> (nat \<times> timer) list \<times> nat \<times> nat \<times> nat \<times> nat \<times> bool" where
  "timing p = (timers p, next_source p, coordinate_commit_id p, recovery_retry_id p, recovery_retry_seconds p, recovery_failed p)"

definition quiet :: "panel \<Rightarrow> bool" where
  "quiet p \<longleftrightarrow> \<not> updating_controls p \<and> \<not> location_updating p \<and> \<not> native_format_updating p"

lemma timing_updates [simp]:
  "timing (p\<lparr>model := m\<rparr>) = timing p" "timing (p\<lparr>metadata := md\<rparr>) = timing p"
  "timing (p\<lparr>metadata_present := b\<rparr>) = timing p" "timing (p\<lparr>metadata_uncertain := b\<rparr>) = timing p"
  "timing (p\<lparr>follows_timezone_reference := b\<rparr>) = timing p" "timing (p\<lparr>regional := c\<rparr>) = timing p"
  "timing (p\<lparr>location_updating := b\<rparr>) = timing p" "timing (p\<lparr>updating_controls := b\<rparr>) = timing p"
  "timing (p\<lparr>native_format_updating := b\<rparr>) = timing p" "timing (p\<lparr>search_text := t\<rparr>) = timing p"
  "timing (p\<lparr>spin_latitude := x\<rparr>) = timing p" "timing (p\<lparr>spin_longitude := x\<rparr>) = timing p"
  "timing (p\<lparr>search_generation := n\<rparr>) = timing p" "timing (p\<lparr>rows := rs\<rparr>) = timing p"
  "timing (p\<lparr>rows_visible := b\<rparr>) = timing p" "timing (p\<lparr>clock_selected := n\<rparr>) = timing p"
  "timing (p\<lparr>calendar_selected := n\<rparr>) = timing p" "timing (p\<lparr>seconds_active := b\<rparr>) = timing p"
  "timing (p\<lparr>seconds_sensitive := b\<rparr>) = timing p" "timing (p\<lparr>show_date_active := b\<rparr>) = timing p"
  "timing (p\<lparr>first_day_selected := n\<rparr>) = timing p" "timing (p\<lparr>cinnamon_settings := s\<rparr>) = timing p"
  "timing (p\<lparr>clock_mode_ids := l\<rparr>) = timing p"
  by (simp_all add: timing_def)

lemma quiet_updates [simp]:
  "quiet (p\<lparr>model := m\<rparr>) = quiet p" "quiet (p\<lparr>metadata := md\<rparr>) = quiet p"
  "quiet (p\<lparr>metadata_present := b\<rparr>) = quiet p" "quiet (p\<lparr>metadata_uncertain := b\<rparr>) = quiet p"
  "quiet (p\<lparr>follows_timezone_reference := b\<rparr>) = quiet p" "quiet (p\<lparr>regional := c\<rparr>) = quiet p"
  "quiet (p\<lparr>search_text := t\<rparr>) = quiet p"
  "quiet (p\<lparr>spin_latitude := x\<rparr>) = quiet p" "quiet (p\<lparr>spin_longitude := x\<rparr>) = quiet p"
  "quiet (p\<lparr>search_generation := n\<rparr>) = quiet p" "quiet (p\<lparr>rows := rs\<rparr>) = quiet p"
  "quiet (p\<lparr>rows_visible := b\<rparr>) = quiet p" "quiet (p\<lparr>clock_selected := n\<rparr>) = quiet p"
  "quiet (p\<lparr>calendar_selected := n\<rparr>) = quiet p" "quiet (p\<lparr>seconds_active := b\<rparr>) = quiet p"
  "quiet (p\<lparr>seconds_sensitive := b\<rparr>) = quiet p" "quiet (p\<lparr>show_date_active := b\<rparr>) = quiet p"
  "quiet (p\<lparr>first_day_selected := n\<rparr>) = quiet p" "quiet (p\<lparr>cinnamon_settings := s\<rparr>) = quiet p"
  "quiet (p\<lparr>clock_mode_ids := l\<rparr>) = quiet p" "quiet (p\<lparr>timers := ts\<rparr>) = quiet p" "quiet (p\<lparr>next_source := n\<rparr>) = quiet p"
  "quiet (p\<lparr>coordinate_commit_id := n\<rparr>) = quiet p" "quiet (p\<lparr>recovery_retry_id := n\<rparr>) = quiet p"
  "quiet (p\<lparr>recovery_retry_seconds := n\<rparr>) = quiet p" "quiet (p\<lparr>recovery_failed := b\<rparr>) = quiet p"
  by (simp_all add: quiet_def)

lemma presentation_timing [simp]:
  "timing (ss_linux_date_time_panel_set_status p m e) = timing p"
  "timing (call c p) = timing p"
  "timing (clear_location_results p) = timing p"
  "timing (ss_linux_date_time_location_update_summary p) = timing p"
  "timing (update_overview_policy cm p) = timing p"
  "timing (sync_native_format_controls L k p) = timing p"
  "timing (refresh_location_authority_state p) = timing p"
  by (simp_all add: timing_def ss_linux_date_time_panel_set_status_def call_def clear_location_results_def
      ss_linux_date_time_location_update_summary_def update_overview_policy_def
      sync_native_format_controls_def refresh_location_authority_state_def Let_def split: option.splits)

lemma presentation_quiet [simp]:
  "quiet (ss_linux_date_time_panel_set_status p m e) = quiet p"
  "quiet (call c p) = quiet p"
  "quiet (clear_location_results p) = quiet p"
  "quiet (ss_linux_date_time_location_update_summary p) = quiet p"
  "quiet (update_overview_policy cm p) = quiet p"
  "quiet (refresh_location_authority_state p) = quiet p"
  "quiet p \<Longrightarrow> quiet (sync_native_format_controls L k p)"
  by (simp_all add: quiet_def ss_linux_date_time_panel_set_status_def call_def clear_location_results_def
      ss_linux_date_time_location_update_summary_def update_overview_policy_def
      sync_native_format_controls_def refresh_location_authority_state_def Let_def split: option.splits)

lemma capabilities_frame [simp]:
  "timing (update_control_capabilities L k p) = timing p"
  "quiet p \<Longrightarrow> quiet (update_control_capabilities L k p)"
  by (simp_all add: update_control_capabilities_def Let_def split: option.splits)

lemma sync_controls_frame [simp]:
  "timing (ss_linux_date_time_panel_sync_controls L k p) = timing p"
  "quiet p \<Longrightarrow> quiet (ss_linux_date_time_panel_sync_controls L k p)"
proof -
  have q: "quiet p \<Longrightarrow> quiet (x\<lparr>location_updating := False, updating_controls := False\<rparr>)"
    if "native_format_updating x = native_format_updating p" for x
    using that by (simp add: quiet_def)
  show "timing (ss_linux_date_time_panel_sync_controls L k p) = timing p"
    by (simp add: ss_linux_date_time_panel_sync_controls_def Let_def split: option.splits)
  show "quiet p \<Longrightarrow> quiet (ss_linux_date_time_panel_sync_controls L k p)"
    by (auto simp: ss_linux_date_time_panel_sync_controls_def Let_def split: option.splits intro!: capabilities_frame(2) q)
qed

lemma policy_saved_frame:
  "ss_linux_date_time_panel_policy_saved p w = (p', w') \<Longrightarrow>
     w' = w \<and> model p' = model p \<and> timing p' = timing p \<and> (quiet p \<longrightarrow> quiet p')"
  using policy_saved_same[of p w p' w']
  by (auto simp: ss_linux_date_time_panel_policy_saved_def split: prod.splits)

lemma refresh_model [simp]: "model (refresh_location_authority_state p) = model p"
  by (simp add: refresh_location_authority_state_def Let_def)

lemma summary_model_frame [simp]: "model (schedule_locality_recovery_retry p) = model p"
  by (simp add: schedule_locality_recovery_retry_def add_timer_def Let_def)

lemma cancel_commit_model [simp]: "model (ss_linux_date_time_location_cancel_coordinate_commit p) = model p"
  by (simp add: ss_linux_date_time_location_cancel_coordinate_commit_def remove_timer_def)

section \<open>Locks\<close>

lemma panel_idle_presentation [simp]:
  "panel_idle (ss_linux_date_time_panel_set_status p msg e) w = panel_idle p w"
  "panel_idle (call c p) w = panel_idle p w"
  by (simp_all add: panel_idle_def)

lemma edit_keeps:
  assumes "world_ok w" "platform_attached m0 q" "\<not> saving q" "\<not> policy_locked w"
    and "model_edit cm e m0 w = (b, m, w1)"
  shows "world_ok w1 \<and> lib w1 = lib w \<and> locality_locked w1 = locality_locked w \<and> \<not> policy_locked w1 \<and>
    (\<exists>q1. platform_attached m q1 \<and> \<not> saving q1)"
proof -
  note E = linux_store.edit_law[OF linux_table assms(2,3,1,5)]
  then have "locality_locked w1 = locality_locked w" "lib w1 = lib w" by (auto simp: world_later_def locality_locked_def)
  moreover have "\<not> policy_locked w1" using E assms(4) by (cases b) auto
  moreover have "\<exists>q1. platform_attached m q1 \<and> \<not> saving q1"
  proof (cases b)
    case True
    with E obtain new where "m = put_private m0 (Some (q\<lparr>mp_policy := new, persisted_policy_present := True\<rparr>))"
      by (simp only: if_True) blast
    then show ?thesis using assms(2,3)
      by (intro exI[of _ "q\<lparr>mp_policy := new, persisted_policy_present := True\<rparr>"]) (simp add: attached_def)
  next
    case False
    with E assms(2,3) show ?thesis by auto
  qed
  ultimately show ?thesis using E by simp
qed

lemma edit_idle:
  "panel_idle p w \<Longrightarrow> model_edit cm e (model p) w = (b, m, w1) \<Longrightarrow> panel_idle (p\<lparr>model := m\<rparr>) w1"
  using edit_keeps[of w "model p" _ cm e b m w1] by (auto simp: panel_idle_def)

lemma reload_keeps:
  assumes "world_ok w" "platform_attached (model p) q" "\<not> saving q"
    and "ss_date_time_model_reload cm (model p) w = (b, m, w1)"
  shows "world_ok w1 \<and> lib w1 = lib w \<and> locality_locked w1 = locality_locked w \<and> policy_locked w1 = policy_locked w \<and>
    (\<exists>q1. platform_attached m q1 \<and> \<not> saving q1) \<and>
    (b \<longrightarrow> (\<exists>base found. platform_load w = (Some (base, found), w1) \<and> ss_date_time_model_policy m = Some base)) \<and>
    (\<not> b \<longrightarrow> m = model p)"
proof -
  note R = linux_store.reload_law[OF linux_table assms(2,3,1,4)]
  have a: "world_ok w1" "lib w1 = lib w" "locality_locked w1 = locality_locked w" "policy_locked w1 = policy_locked w"
    using R by (auto simp: world_later_def locality_locked_def)
  show ?thesis
  proof (cases b)
    case True
    with R obtain base found p1 where "m = put_private (model p) (Some p1)" "platform_load w = (Some (base, found), w1)"
      "p1 = q\<lparr>mp_policy := base, persisted_policy_present := found\<rparr>" by (simp only: if_True) blast
    then have at: "platform_attached m p1" "\<not> saving p1" "ss_date_time_model_policy m = Some base"
      using assms(2,3) by (simp_all add: attached_def ss_date_time_model_policy_def)
    then show ?thesis using a True \<open>platform_load w = _\<close> by blast
  next
    case False
    with R assms(2,3) a show ?thesis by auto
  qed
qed

lemma reload_idle:
  assumes "panel_idle p w" "ss_date_time_model_reload cm (model p) w = (b, m, w1)"
  shows "panel_idle (p\<lparr>model := m\<rparr>) w1"
  using assms reload_keeps[OF _ _ _ assms(2)] by (auto simp: panel_idle_def)

lemma load_status_idle:
  assumes "panel_idle p w" "ss_location_metadata_load_status w = (st, md, w1)"
  shows "panel_idle p w1 \<and> lib w1 = lib w"
proof -
  obtain st' md' k where l: "metadata_load_path (lib w) (metadata_path (lib w)) (kern w) = (st', md', k)" by (metis prod.collapse)
  have ok: "world_ok w" using assms(1) by (simp add: panel_idle_def)
  have "w1 = w\<lparr>kern := k\<rparr>" using assms(2) l by (simp add: ss_location_metadata_load_status_def metadata_paths)
  moreover have "frame_but {} (kern w) k" using metadata_load_path_law[OF ok l] by simp
  ultimately show ?thesis using frame_but_ok[of "{}" w k] assms(1)
    by (auto simp: panel_idle_def locality_locked_def policy_locked_def)
qed

lemma recover_idle:
  assumes "panel_idle p w" "ss_location_metadata_recover w = (b, w')"
  shows "panel_idle p w' \<and> lib w' = lib w"
proof -
  have i: "world_ok w" "\<not> locality_locked w" "\<not> policy_locked w" using assms(1) by (auto simp: panel_idle_def)
  obtain q w1 where bg: "ss_location_metadata_transaction_begin w = (q, w1)" by (metis prod.collapse)
  note B = transaction_begin_law[OF i(1) bg]
  have pl1: "\<not> policy_locked w1" using B i(3) metadata_later_lock by blast
  have "world_ok w' \<and> lib w' = lib w \<and> \<not> locality_locked w' \<and> \<not> policy_locked w'"
  proof (cases q)
    case False
    with assms(2) bg have "w' = w1" by (auto simp: ss_location_metadata_recover_def)
    then show ?thesis using B False i pl1 by (simp add: locality_locked_def)
  next
    case True
    with B have w1: "world_ok w1" "locality_locked w1" "lib w1 = lib w" by auto
    obtain r w2 where ld: "platform_load w1 = (r, w2)" by (metis prod.collapse)
    note P = platform_load_law[OF w1(1) ld]
    then have w2: "world_ok w2" "lib w2 = lib w" "locality_locked w2" "\<not> policy_locked w2"
      using w1 pl1 by (auto simp: world_later_def locality_locked_def)
    obtain w3 where w3: "w' = ss_location_metadata_transaction_end w3" "world_ok w3" "lib w3 = lib w" "\<not> policy_locked w3"
    proof (cases r)
      case None
      with assms(2) bg True ld have "w' = ss_location_metadata_transaction_end w2"
        by (auto simp: ss_location_metadata_recover_def ss_platform_temporal_policy_store_def)
      then show ?thesis using that w2 by blast
    next
      case (Some pf)
      obtain a f where pf: "pf = (a, f)" by (cases pf) auto
      obtain d w3 where rj: "recover_journal (location_configured a) (latitude a) (longitude a) w2 = (d, w3)"
        by (metis prod.collapse)
      with assms(2) bg True ld Some pf have "w' = ss_location_metadata_transaction_end w3"
        by (auto simp: ss_location_metadata_recover_def ss_platform_temporal_policy_store_def)
      then show ?thesis using that recover_journal_law[OF w2(1,3) rj] w2 metadata_later_lock[of w2 w3] by auto
    qed
    show ?thesis unfolding w3(1) using handler_end[OF w3(2,4)] transaction_end_law[OF w3(2)] w3(3) by simp
  qed
  then show ?thesis using assms(1) by (simp add: panel_idle_def)
qed

lemma kernel_frame_idle:
  assumes "panel_idle p w" "frame_but {} (kern w) k"
  shows "panel_idle p (w\<lparr>kern := k\<rparr>)"
  using assms frame_but_ok[OF assms(2)] by (auto simp: panel_idle_def locality_locked_def policy_locked_def)

section \<open>The handlers between two idle states\<close>

text \<open>A handler that schedules nothing: it ends idle and quiet and leaves the timers as they are.\<close>

definition settles :: "panel \<Rightarrow> panel \<Rightarrow> world \<Rightarrow> bool" where
  "settles p p' w' \<longleftrightarrow> panel_idle p' w' \<and> quiet p' \<and> timing p' = timing p"

lemma settles_same_model:
  "panel_idle p1 w1 \<Longrightarrow> model p' = model p1 \<Longrightarrow> quiet p' \<Longrightarrow> timing p' = timing p \<Longrightarrow> settles p p' w1"
  by (simp add: settles_def panel_idle_model)

lemma saved_settles:
  assumes "panel_idle (p\<lparr>model := m\<rparr>) w1" "quiet q" "timing q = timing p" "model q = m"
    and "ss_linux_date_time_panel_policy_saved q w1 = (p', w')"
  shows "settles p p' w'"
  using assms policy_saved_frame[OF assms(5)] by (auto simp: settles_def panel_idle_def)

lemma failed_settles:
  assumes "panel_idle (p\<lparr>model := m\<rparr>) w1" "quiet p"
  shows "settles p (ss_linux_date_time_panel_sync_controls L k
           (ss_linux_date_time_panel_set_status (p\<lparr>model := m\<rparr>) msg e)) w1"
  using assms by (simp add: settles_def panel_idle_def)

lemma idle_put_same: "panel_idle p w \<Longrightarrow> panel_idle (p\<lparr>model := model p\<rparr>) w"
  by (simp add: panel_idle_def)

lemma clock_changed_settles:
  assumes "panel_idle p w" "quiet p" "on_clock_changed p w = (p', w')"
  shows "settles p p' w'"
proof -
  obtain b m w1 where r: "(case selected_clock_mode (lib_common (lib w)) p of
                  None \<Rightarrow> (False, model p, w)
                | Some info \<Rightarrow> ss_date_time_model_set_clock_mode (lib_common (lib w)) (model p) (Some (mode_id info)) w) = (b, m, w1)"
    by (metis prod.collapse)
  have i: "panel_idle (p\<lparr>model := m\<rparr>) w1"
    using r edit_idle[OF assms(1), of "lib_common (lib w)" "Clock _"] idle_put_same[OF assms(1)]
    by (auto split: option.splits)
  have "\<not> updating_controls p" using assms(2) by (simp add: quiet_def)
  with assms(3) r failed_settles[OF i assms(2)]
    saved_settles[OF i, of "call Invalidate_manual_draft (p\<lparr>model := m\<rparr>)"] assms(2)
  show ?thesis by (cases b) (auto simp: on_clock_changed_def Let_def)
qed

lemma calendar_changed_settles:
  assumes "panel_idle p w" "quiet p" "on_calendar_changed p w = (p', w')"
  shows "settles p p' w'"
proof -
  obtain b m w1 where r: "(case selected_calendar (lib_common (lib w)) p of
                  None \<Rightarrow> (False, model p, w)
                | Some cal \<Rightarrow> ss_date_time_model_set_calendar (lib_common (lib w)) (model p) (Some cal) w) = (b, m, w1)"
    by (metis prod.collapse)
  have i: "panel_idle (p\<lparr>model := m\<rparr>) w1"
    using r edit_idle[OF assms(1), of "lib_common (lib w)" "Calendar _"] idle_put_same[OF assms(1)]
    by (auto split: option.splits)
  have "\<not> updating_controls p" using assms(2) by (simp add: quiet_def)
  with assms(3) r failed_settles[OF i assms(2)]
    saved_settles[OF i, of "call Invalidate_manual_draft (p\<lparr>model := m\<rparr>)"] assms(2)
  show ?thesis by (cases b) (auto simp: on_calendar_changed_def Let_def)
qed

lemma seconds_changed_settles:
  assumes "panel_idle p w" "quiet p" "on_seconds_changed p w = (p', w')"
  shows "settles p p' w'"
proof -
  obtain b m w1 where r: "ss_date_time_model_set_show_seconds (model p) (seconds_active p) w = (b, m, w1)"
    by (metis prod.collapse)
  have i: "panel_idle (p\<lparr>model := m\<rparr>) w1"
    using r edit_idle[OF assms(1), of undefined "Seconds _"] by auto
  have "\<not> updating_controls p" using assms(2) by (simp add: quiet_def)
  with assms(3) r failed_settles[OF i assms(2)] saved_settles[OF i, of "p\<lparr>model := m\<rparr>"] assms(2)
  show ?thesis by (cases b) (auto simp: on_seconds_changed_def Let_def)
qed

lemma show_date_settles:
  assumes "panel_idle p w" "quiet p" "on_show_date_changed p w = (p', w')"
  shows "settles p p' w'"
proof -
  obtain b k where r: "ss_cinnamon_interface_set_boolean (lib w) (cinnamon_settings p) (Some ''clock-show-date'')
      (show_date_active p) (kern w) = (b, k)" by (metis prod.collapse)
  have "settings_documented (lib w)" using assms(1) by (simp add: panel_idle_def world_ok_def)
  note i = kernel_frame_idle[OF assms(1) set_boolean_frame[OF this r]]
  show ?thesis using assms r i
    by (cases b) (auto simp: on_show_date_changed_def Let_def settles_def intro: panel_idle_model split: if_splits)
qed

lemma first_day_settles:
  assumes "panel_idle p w" "quiet p" "on_first_day_changed p w = (p', w')"
  shows "settles p p' w'"
proof -
  obtain b k where r: "ss_cinnamon_interface_set_first_day (lib w) (cinnamon_settings p)
      (first_day_value (first_day_selected p)) (kern w) = (b, k)" by (metis prod.collapse)
  have d: "settings_documented (lib w)" using assms(1) by (simp add: panel_idle_def world_ok_def)
  have "frame_but {} (kern w) k"
    using r settings_set_frame[OF d]
    by (auto simp: ss_cinnamon_interface_set_first_day_def frame_but_refl split: if_splits option.splits)
  note i = kernel_frame_idle[OF assms(1) this]
  show ?thesis using assms r i
    by (cases b) (auto simp: on_first_day_changed_def Let_def settles_def intro: panel_idle_model split: if_splits)
qed

lemma cinnamon_changed_settles:
  assumes "panel_idle p w" "quiet p" "on_cinnamon_interface_changed key p w = (p', w')"
  shows "settles p p' w'"
proof -
  let ?p = "sync_native_format_controls (lib w) (kern w) p"
  have i: "panel_idle ?p w" "quiet ?p" "timing ?p = timing p" using assms by (simp_all add: panel_idle_def)
  have st: "settles p (p\<lparr>model := model p\<rparr>) w" using assms by (simp add: settles_def panel_idle_def)
  have base: "settles p ?p w" using i by (simp add: settles_def)
  have put: "?p\<lparr>model := model p\<rparr> = ?p" using native_model[of "lib w" "kern w" p] by (metis panel.surjective panel.update_convs(1))
  have done_: "settles p p' w'"
    if e: "model_edit cm e (model p) w = (b, m, w1)" and
       r: "(p', w') = (if \<not> b
            then (ss_linux_date_time_panel_sync_controls (lib w1) (kern w1)
                    (ss_linux_date_time_panel_set_status (?p\<lparr>model := m\<rparr>) Native_change_not_persisted True), w1)
            else (ss_linux_date_time_panel_set_status
                    (call Preview_restart (ss_linux_date_time_panel_sync_controls (lib w1) (kern w1) (?p\<lparr>model := m\<rparr>)))
                    Native_change_reconciled False, w1))" for cm e b m w1
  proof -
    from edit_idle[OF i(1), of cm e] e have "panel_idle (?p\<lparr>model := m\<rparr>) w1" by simp
    then show ?thesis using r i(2,3) by (cases b) (auto simp: settles_def panel_idle_def)
  qed
  show ?thesis
  proof (cases "key = None \<or> updating_controls p \<or> ss_date_time_model_is_saving (model p) \<or>
                ss_date_time_model_policy (model p) = None")
    case True
    with assms(1-3) base show ?thesis
      by (auto simp: on_cinnamon_interface_changed_def settles_def split: option.splits if_splits)
  next
    case False
    then obtain name q where n: "key = Some name" "ss_date_time_model_policy (model p) = Some q" by auto
    let ?read = "\<lambda>k. ss_cinnamon_interface_get_boolean (lib w) (cinnamon_settings p) (Some k) (kern w)"
    let ?c1 = "name = ''clock-use-24h'' \<and> ss_native_clock_mode_tracks_desktop (Some (clock_mode q)) \<and> ?read ''clock-use-24h'' \<noteq> None"
    let ?desired = "ss_native_clock_mode_id (?read ''clock-use-24h'' = Some True)"
    let ?c2 = "name = ''clock-show-seconds'' \<and> ?read ''clock-show-seconds'' \<noteq> None \<and>
                                ?read ''clock-show-seconds'' \<noteq> Some (show_seconds q)"
    obtain b m w1 where e1: "ss_date_time_model_set_clock_mode (lib_common (lib w)) (model p) (Some ?desired) w = (b, m, w1)"
      by (metis prod.collapse)
    obtain b' m' w1' where e2: "ss_date_time_model_set_show_seconds (model p) (?read ''clock-show-seconds'' = Some True) w = (b', m', w1')"
      by (metis prod.collapse)
    have idle: "settles p (call Preview_refresh (?p\<lparr>model := model p\<rparr>)) w"
      using i by (simp add: settles_def panel_idle_def)
    consider (clock) "?c1" "clock_mode q \<noteq> ?desired" | (second) "\<not> ?c1" "?c2"
      | (nothing) "?c1" "clock_mode q = ?desired" | (none) "\<not> ?c1" "\<not> ?c2" by blast
    then show ?thesis
    proof cases
      case clock
      have "model_edit (lib_common (lib w)) (Clock (Some ?desired)) (model p) w = (b, m, w1)" using e1 by simp
      from done_[OF this] show ?thesis
        using assms(3) False n clock e1 by (cases b) (auto simp: on_cinnamon_interface_changed_def Let_def)
    next
      case second
      have "model_edit (lib_common (lib w)) (Seconds (?read ''clock-show-seconds'' = Some True)) (model p) w = (b', m', w1')"
        using e2 by simp
      from done_[OF this] show ?thesis
        using assms(3) False n second e2 by (cases b') (auto simp: on_cinnamon_interface_changed_def Let_def)
    next
      case nothing
      then show ?thesis using assms(3) False n idle by (auto simp: on_cinnamon_interface_changed_def Let_def)
    next
      case none
      then have "p' = call Preview_refresh (?p\<lparr>model := model p\<rparr>) \<and> w' = w"
        using assms(3) False n by (auto simp: on_cinnamon_interface_changed_def Let_def split: if_splits)
      then show ?thesis using idle by simp
    qed
  qed
qed

lemma metadata_changed_settles:
  assumes "panel_idle p w" "quiet p" "location_metadata_file_changed p w = (p', w')"
  shows "settles p p' w'"
proof -
  obtain st md w1 where l: "ss_location_metadata_load_status w = (st, md, w1)" by (metis prod.collapse)
  have i: "panel_idle p w1" using load_status_idle[OF assms(1) l] by simp
  show ?thesis using assms(2,3) l i
    by (cases st) (auto simp: location_metadata_file_changed_def settles_def intro: panel_idle_model)
qed

section \<open>Reconciliation under the locality lock\<close>

text \<open>Between its parts the reconciliation owns the locality lock and nothing else.\<close>

definition in_locality :: "panel \<Rightarrow> world \<Rightarrow> bool" where
  "in_locality p w \<longleftrightarrow> world_ok w \<and> locality_locked w \<and> \<not> policy_locked w \<and>
     (\<exists>q. platform_attached (model p) q \<and> \<not> saving q)"

lemma in_locality_model: "in_locality p w \<Longrightarrow> model p' = model p \<Longrightarrow> in_locality p' w"
  by (simp add: in_locality_def)

lemma in_locality_end: "in_locality p w \<Longrightarrow> panel_idle p (ss_location_metadata_transaction_end w)"
  using handler_end[of w] by (simp add: in_locality_def panel_idle_def)

lemma in_locality_metadata:
  "in_locality p w \<Longrightarrow> metadata_later w w1 \<Longrightarrow> world_ok w1 \<Longrightarrow> locality_locked w1 \<Longrightarrow> in_locality p w1"
  using metadata_later_lock[of w w1] by (simp add: in_locality_def)

lemma reconcile_reload_keeps:
  assumes "in_locality p w" "quiet p" "reconcile_reload sys renv p w = (b, r, p', w')"
  shows "in_locality p' w' \<and> quiet p' \<and> timing p' = timing p"
proof -
  obtain ok ctx where d: "ss_regional_context_detect (lib_glib (lib w)) renv = (ok, ctx)" by (metis prod.collapse)
  obtain c m w1 where rl: "ss_date_time_model_reload (lib_common (lib w)) (model p) w = (c, m, w1)" by (metis prod.collapse)
  have i1: "in_locality (p\<lparr>model := m\<rparr>) w1"
    using assms(1) reload_keeps[OF _ _ _ rl] by (auto simp: in_locality_def)
  obtain st md w2 where l: "ss_location_metadata_load_status w1 = (st, md, w2)" by (metis prod.collapse)
  obtain st' md' k where l': "metadata_load_path (lib w1) (metadata_path (lib w1)) (kern w1) = (st', md', k)" by (metis prod.collapse)
  have ok1: "world_ok w1" "locality_locked w1" using i1 by (auto simp: in_locality_def)
  have w2: "w2 = w1\<lparr>kern := k\<rparr>" using l l' by (simp add: ss_location_metadata_load_status_def metadata_paths)
  have "frame_but {} (kern w1) k" using metadata_load_path_law[OF ok1(1) l'] by simp
  from locked_frame[OF ok1 this] have i2: "in_locality (p\<lparr>model := m\<rparr>) w2"
    using in_locality_metadata[OF i1] w2 by simp
  have "w' = w2 \<and> model p' = m \<and> quiet p' \<and> timing p' = timing p"
    using assms(2,3) d rl l by (cases st; cases c) (auto simp: reconcile_reload_def Let_def)
  then show ?thesis using i2 by (simp add: in_locality_def)
qed

lemma reconcile_metadata_keeps:
  assumes "in_locality p w" "quiet p" "reconcile_metadata b sys p w = (p', w')"
  shows "in_locality p' w' \<and> quiet p' \<and> timing p' = timing p \<and> model p' = model p"
proof (cases "(p', w') = (p, w)")
  case True
  with assms show ?thesis by simp
next
  case False
  then obtain s where s: "sys = Some s" using assms(3) by (cases sys) (auto simp: reconcile_metadata_def)
  let ?c = "(metadata p)\<lparr>md_timezone_id := fst (strlcpy (st_timezone s) sizeof_timezone_id)\<rparr>"
  obtain d w1 where sv: "ss_location_metadata_save ?c w = (d, w1)" by (metis prod.collapse)
  have ok: "world_ok w" "locality_locked w" using assms(1) by (auto simp: in_locality_def)
  note S = save_files[OF ok sv]
  then have "in_locality p w1" using in_locality_metadata[OF assms(1)] by blast
  moreover have "w' = w1 \<and> model p' = model p \<and> quiet p' \<and> timing p' = timing p"
    using assms(2,3) False s sv by (auto simp: reconcile_metadata_def split: if_splits)
  ultimately show ?thesis by (simp add: in_locality_def)
qed

lemma reconcile_reference_keeps:
  assumes "in_locality p w" "quiet p" "reconcile_reference b r p w = (p', w')"
  shows "in_locality p' w' \<and> quiet p' \<and> timing p' = timing p"
proof -
  let ?lat = "reference_latitude (regional p)" and ?lon = "reference_longitude (regional p)"
  obtain c m w1 where e: "ss_date_time_model_set_location (model p) True ?lat ?lon w = (c, m, w1)" by (metis prod.collapse)
  then have "model_edit (lib_common (lib w)) (Location True ?lat ?lon) (model p) w = (c, m, w1)" by simp
  from edit_keeps[OF _ _ _ _ this] assms(1) have i: "in_locality (p\<lparr>model := m\<rparr>) w1"
    by (auto simp: in_locality_def)
  have u: "\<not> updating_controls p" "\<not> native_format_updating p" using assms(2) by (simp_all add: quiet_def)
  have l: "quiet (x\<lparr>location_updating := False\<rparr>) \<longleftrightarrow> \<not> updating_controls x \<and> \<not> native_format_updating x" for x
    by (simp add: quiet_def)
  have "(w' = w \<and> model p' = model p \<or> w' = w1 \<and> model p' = m) \<and> quiet p' \<and> timing p' = timing p"
    using assms(2,3) e u
    by (auto simp: reconcile_reference_def Let_def l split: if_splits option.splits)
  then show ?thesis using i assms(1) by (auto simp: in_locality_def)
qed

lemma reconcile_settles:
  assumes "panel_idle p w" "quiet p"
    and e: "ss_linux_date_time_panel_reconcile_system_time_change sys locked renv renv' p w = (p', w')"
  shows "settles p p' w'"
proof (cases "sys = None \<or> (\<exists>s. sys = Some s \<and> \<not> st_available s)")
  case True
  with assms show ?thesis
    by (auto simp: ss_linux_date_time_panel_reconcile_system_time_change_def settles_def)
next
  case False
  then obtain s where s: "sys = Some s" "st_available s" by auto
  define ch where "ch = (st_timezone s \<noteq> [] \<and> timezone_id (regional p) \<noteq> st_timezone s)"
  define p2 where "p2 = (let p1 = p\<lparr>regional := snd (ss_regional_context_detect (lib_glib (lib w)) renv)\<rparr>
                         in if ch \<or> st_ntp_enabled s then call Invalidate_manual_draft p1 else p1)"
  define wanted where "wanted = (ch \<or> follows_timezone_reference p2)"
  have p2: "model p2 = model p" "quiet p2" "timing p2 = timing p" using assms(2) by (simp_all add: p2_def Let_def)
  obtain b w1 where bg: "ss_location_metadata_transaction_begin w = (b, w1)" by (metis prod.collapse)
  note H = handler_start[OF assms(1) bg]
  obtain p3 w3 where l: "reconcile_locked locked renv' p2 w1 = (p3, w3)" by (metis prod.collapse)
  have lk: "panel_idle p3 w3 \<and> quiet p3 \<and> timing p3 = timing p" if "b"
  proof -
    have i: "in_locality p2 w1" using that H assms(1) p2(1) by (auto simp: in_locality_def panel_idle_def)
    obtain c r q1 v1 where a: "reconcile_reload locked renv' p2 w1 = (c, r, q1, v1)" by (metis prod.collapse)
    note A = reconcile_reload_keeps[OF i p2(2) a]
    obtain q2 v2 where m: "reconcile_metadata c locked q1 v1 = (q2, v2)" by (metis prod.collapse)
    note M = reconcile_metadata_keeps[OF _ _ m]
    obtain q3 v3 where r: "reconcile_reference c r q2 v2 = (q3, v3)" by (metis prod.collapse)
    note R = reconcile_reference_keeps[OF _ _ r]
    have "p3 = q3" "w3 = ss_location_metadata_transaction_end v3"
      using l a m r by (simp_all add: reconcile_locked_def)
    then show ?thesis using A M R in_locality_end p2(3) by simp
  qed
  have nl: "panel_idle p2 w1" if "\<not> b" using that H assms(1) p2(1) by (auto simp: panel_idle_def)
  have i2: "panel_idle p2 w" using assms(1) p2(1) by (simp add: panel_idle_def)
  define r4 where "r4 = (if wanted \<and> b then (p3, w3)
      else if wanted then (ss_linux_date_time_panel_set_status p2 Zone_change_without_lock True, w1) else (p2, w))"
  have "panel_idle (fst r4) (snd r4) \<and> quiet (fst r4) \<and> timing (fst r4) = timing p"
    using lk nl i2 p2(2,3) by (simp add: r4_def)
  moreover have "p' = call Preview_refresh (ss_linux_date_time_location_update_summary (call System_time_sync (fst r4))) \<and>
      w' = snd r4"
    using e s bg l unfolding ss_linux_date_time_panel_reconcile_system_time_change_def Let_def
      ch_def[symmetric] p2_def[unfolded Let_def, symmetric] wanted_def[symmetric] r4_def
    by (cases wanted; cases b) (auto simp: ch_def[symmetric] p2_def[unfolded Let_def, symmetric] wanted_def[symmetric])
  ultimately show ?thesis by (simp add: settles_def panel_idle_def)
qed

end
