(* ===== verification/PanelLoop.thy ===== *)
theory PanelLoop
  imports PanelHandlers
begin

text \<open>
  The panel's event loop: its two timers, the step relation of callbacks, user actions and other
  processes, the invariant of its reachable states, and the properties of the controller.
\<close>

section \<open>The two timers\<close>

definition retry_timers :: "panel \<Rightarrow> nat list" where
  "retry_timers p = map fst (filter (\<lambda>(i, t). t = Recovery_retry_timer) (timers p))"

text \<open>Of each kind at most the one timer the panel records is pending, and the delay is bounded.\<close>

definition timers_ok :: "panel \<Rightarrow> bool" where
  "timers_ok p \<longleftrightarrow> commit_timer_ok p \<and>
     retry_timers p = (if recovery_retry_id p = 0 then [] else [recovery_retry_id p]) \<and>
     recovery_retry_seconds p \<le> 60"

text \<open>A recovery is being retried exactly as long as it is known to have failed.\<close>

definition retry_scheduled :: "panel \<Rightarrow> bool" where
  "retry_scheduled p \<longleftrightarrow> (recovery_failed p \<longleftrightarrow> recovery_retry_id p \<noteq> 0)"

lemma timing_timers:
  "timing p' = timing p \<Longrightarrow> timers_ok p' = timers_ok p \<and> retry_scheduled p' = retry_scheduled p"
  by (simp add: timing_def timers_ok_def retry_scheduled_def commit_timer_ok_def commit_timers_def retry_timers_def)

lemma add_retry_ok:
  assumes "timers_ok p" "recovery_retry_id p = 0" "s \<le> 60"
  shows "timers_ok ((snd (add_timer Recovery_retry_timer p))
           \<lparr>recovery_retry_id := fst (add_timer Recovery_retry_timer p), recovery_retry_seconds := s\<rparr>) \<and>
         fst (add_timer Recovery_retry_timer p) \<noteq> 0"
  using assms by (auto simp: timers_ok_def commit_timer_ok_def commit_timers_def retry_timers_def add_timer_def)

lemma remove_other_kind:
  assumes "distinct (map fst ts)" "(i, t0) \<in> set ts" "t \<noteq> t0"
  shows "filter (\<lambda>(j, u). u = t) (filter (\<lambda>(j, u). j \<noteq> i) ts) = filter (\<lambda>(j, u). u = t) ts"
proof -
  have "u = t0" if "(i, u) \<in> set ts" for u
    using eq_key_imp_eq_value[OF assms(1) that assms(2)] .
  then show ?thesis unfolding filter_filter
    by (intro filter_cong[OF refl]) (use assms(3) in \<open>fastforce split: prod.splits\<close>)
qed

lemma remove_retry_ok:
  assumes "timers_ok p" "recovery_retry_id p \<noteq> 0"
  shows "timers_ok ((remove_timer (recovery_retry_id p) p)\<lparr>recovery_retry_id := 0\<rparr>)"
proof -
  let ?i = "recovery_retry_id p" and ?q = "(remove_timer (recovery_retry_id p) p)\<lparr>recovery_retry_id := 0\<rparr>"
  have d: "distinct (map fst (timers p))" using assms(1) by (simp add: timers_ok_def commit_timer_ok_def)
  have "?i \<in> set (retry_timers p)" using assms by (simp add: timers_ok_def)
  then have m: "(?i, Recovery_retry_timer) \<in> set (timers p)" by (auto simp: retry_timers_def)
  have c: "commit_timers ?q = commit_timers p"
    using remove_other_kind[OF d m, of Coordinate_commit_timer] by (simp add: commit_timers_def remove_timer_def)
  have "retry_timers ?q = filter (\<lambda>j. j \<noteq> ?i) (retry_timers p)"
    by (simp add: retry_timers_def remove_timer_def filter_map filter_filter o_def case_prod_beta' conj_commute)
  then have r: "retry_timers ?q = []" using assms by (simp add: timers_ok_def)
  show ?thesis using assms c r distinct_map_filter_fst[OF d]
    by (auto simp: timers_ok_def commit_timer_ok_def remove_timer_def)
qed

lemma cancel_commit_retry: "timers_ok p \<Longrightarrow> timers_ok (ss_linux_date_time_location_cancel_coordinate_commit p)"
proof -
  assume a: "timers_ok p"
  then have c: "commit_timer_ok (ss_linux_date_time_location_cancel_coordinate_commit p)"
    using cancel_timer_ok by (simp add: timers_ok_def)
  show ?thesis
  proof (cases "coordinate_commit_id p = 0")
    case True
    then show ?thesis using a by (simp add: ss_linux_date_time_location_cancel_coordinate_commit_def)
  next
    case False
    let ?i = "coordinate_commit_id p"
    have d: "distinct (map fst (timers p))" using a by (simp add: timers_ok_def commit_timer_ok_def)
    have "?i \<in> set (commit_timers p)" using a False by (simp add: timers_ok_def commit_timer_ok_def)
    then have m: "(?i, Coordinate_commit_timer) \<in> set (timers p)" by (auto simp: commit_timers_def)
    from remove_other_kind[OF d m, of Recovery_retry_timer]
    show ?thesis using a c False
      by (simp add: timers_ok_def ss_linux_date_time_location_cancel_coordinate_commit_def retry_timers_def
          remove_timer_def)
  qed
qed

lemma coordinate_changed_ok:
  assumes "timers_ok p"
  shows "timers_ok (on_location_coordinate_changed p)"
proof -
  have "retry_timers (snd (add_timer Coordinate_commit_timer q)) = retry_timers q" for q
    by (simp add: retry_timers_def add_timer_def)
  then have "retry_timers (on_location_coordinate_changed p) =
      (if location_updating p then retry_timers p else retry_timers (ss_linux_date_time_location_cancel_coordinate_commit p))"
    by (auto simp: on_location_coordinate_changed_def retry_timers_def add_timer_def Let_def split: prod.splits)
  moreover have "recovery_retry_id (on_location_coordinate_changed p) = recovery_retry_id p"
    "recovery_retry_seconds (on_location_coordinate_changed p) = recovery_retry_seconds p"
    "recovery_retry_id (ss_linux_date_time_location_cancel_coordinate_commit p) = recovery_retry_id p"
    "recovery_retry_seconds (ss_linux_date_time_location_cancel_coordinate_commit p) = recovery_retry_seconds p"
    by (simp_all add: on_location_coordinate_changed_def ss_linux_date_time_location_cancel_coordinate_commit_def
        add_timer_def remove_timer_def Let_def)
  ultimately show ?thesis using cancel_commit_retry[OF assms] changed_timer_ok[of p] assms
    by (auto simp: timers_ok_def)
qed

lemma schedule_ok:
  assumes "timers_ok p"
  shows "timers_ok (schedule_locality_recovery_retry p) \<and>
    (recovery_failed p \<longrightarrow> retry_scheduled (schedule_locality_recovery_retry p)) \<and>
    (quiet p \<longrightarrow> quiet (schedule_locality_recovery_retry p)) \<and>
    recovery_failed (schedule_locality_recovery_retry p) = recovery_failed p"
proof (cases "recovery_retry_id p \<noteq> 0 \<or> \<not> recovery_failed p")
  case True
  then show ?thesis using assms by (auto simp: schedule_locality_recovery_retry_def retry_scheduled_def)
next
  case False
  let ?p1 = "if recovery_retry_seconds p = 0 then p\<lparr>recovery_retry_seconds := 2\<rparr> else p"
  have p1: "timers_ok ?p1" "recovery_retry_id ?p1 = 0" "recovery_failed ?p1"
    using assms False by (auto simp: timers_ok_def commit_timer_ok_def commit_timers_def retry_timers_def)
  have s: "min (recovery_retry_seconds (snd (add_timer Recovery_retry_timer ?p1)) * 2) 60 \<le> (60::nat)" by simp
  have "schedule_locality_recovery_retry p = (snd (add_timer Recovery_retry_timer ?p1))
           \<lparr>recovery_retry_id := fst (add_timer Recovery_retry_timer ?p1),
            recovery_retry_seconds := min (recovery_retry_seconds (snd (add_timer Recovery_retry_timer ?p1)) * 2) 60\<rparr>"
    using False by (simp add: schedule_locality_recovery_retry_def add_timer_def Let_def)
  then show ?thesis using add_retry_ok[OF p1(1,2) s] p1(3)
    by (auto simp: retry_scheduled_def add_timer_def)
qed

section \<open>The handlers that move timers\<close>

definition controller_ok :: "panel \<Rightarrow> world \<Rightarrow> bool" where
  "controller_ok p w \<longleftrightarrow> panel_idle p w \<and> quiet p \<and> timers_ok p"

lemma settles_ok:
  "settles p p' w' \<Longrightarrow> timers_ok p \<Longrightarrow> controller_ok p' w' \<and> retry_scheduled p' = retry_scheduled p"
  using timing_timers[of p' p] by (simp add: settles_def controller_ok_def)

lemma timing_idle_fields [simp]:
  "panel_idle (p\<lparr>recovery_retry_id := n\<rparr>) w = panel_idle p w"
  "panel_idle (p\<lparr>recovery_failed := b\<rparr>) w = panel_idle p w"
  "panel_idle (p\<lparr>recovery_retry_seconds := n\<rparr>) w = panel_idle p w"
  "panel_idle (p\<lparr>coordinate_commit_id := n\<rparr>) w = panel_idle p w"
  "panel_idle (remove_timer i p) w = panel_idle p w"
  "panel_idle (schedule_locality_recovery_retry p) w = panel_idle p w"
  "panel_idle (ss_linux_date_time_location_cancel_coordinate_commit p) w = panel_idle p w"
  by (simp_all add: panel_idle_def remove_timer_def)

lemma quiet_timers [simp]:
  "quiet (remove_timer i p) = quiet p"
  "quiet (ss_linux_date_time_location_cancel_coordinate_commit p) = quiet p"
  "quiet (on_location_coordinate_changed p) = quiet p"
  by (simp_all add: quiet_def remove_timer_def ss_linux_date_time_location_cancel_coordinate_commit_def
      on_location_coordinate_changed_def add_timer_def Let_def)

lemma recovery_failed_ok:
  "timers_ok (p\<lparr>recovery_failed := b\<rparr>) = timers_ok p"
  by (simp add: timers_ok_def commit_timer_ok_def commit_timers_def retry_timers_def)

lemma recovery_seconds_ok:
  "timers_ok p \<Longrightarrow> s \<le> 60 \<Longrightarrow> timers_ok (p\<lparr>recovery_failed := b, recovery_retry_seconds := s\<rparr>)"
  by (simp add: timers_ok_def commit_timer_ok_def commit_timers_def retry_timers_def)

lemma fire_retry_ok:
  assumes "controller_ok p w" "fire_recovery_retry i p w = (p', w')"
  shows "controller_ok p' w' \<and> (retry_scheduled p \<longrightarrow> retry_scheduled p')"
proof (cases "(i, Recovery_retry_timer) \<in> set (timers p)")
  case False
  with assms show ?thesis by (simp add: fire_recovery_retry_def)
next
  case True
  have c: "panel_idle p w" "quiet p" "timers_ok p" using assms(1) by (auto simp: controller_ok_def)
  from True have "i \<in> set (retry_timers p)" by (force simp: retry_timers_def)
  with c(3) have i: "i = recovery_retry_id p" "recovery_retry_id p \<noteq> 0"
    by (auto simp: timers_ok_def split: if_splits)
  let ?p = "(remove_timer i p)\<lparr>recovery_retry_id := 0\<rparr>"
  have p: "timers_ok ?p" "panel_idle ?p w" "quiet ?p" using remove_retry_ok[OF c(3) i(2)] i c by simp_all
  obtain b w1 where r: "ss_location_metadata_recover w = (b, w1)" by (metis prod.collapse)
  have i1: "panel_idle ?p w1" using recover_idle[OF p(2) r] by simp
  show ?thesis
  proof (cases b)
    case True
    let ?q = "?p\<lparr>recovery_failed := False, recovery_retry_seconds := 2\<rparr>"
    obtain p2 w2 where m: "location_metadata_file_changed ?q w1 = (p2, w2)" by (metis prod.collapse)
    have q: "panel_idle ?q w1" "quiet ?q" "timers_ok ?q" "retry_scheduled ?q"
      using i1 p recovery_seconds_ok[OF p(1), of 2 False] by (simp_all add: retry_scheduled_def)
    note S = settles_ok[OF metadata_changed_settles[OF q(1,2) m] q(3)]
    have "p' = ss_linux_date_time_panel_set_status p2 Recovery_done False \<and> w' = w2"
      using assms(2) \<open>(i, Recovery_retry_timer) \<in> _\<close> r True m
      by (simp add: fire_recovery_retry_def retry_locality_recovery_def)
    then show ?thesis using S q(4) timing_timers[of p' p2] by (simp add: controller_ok_def)
  next
    case False
    let ?q = "?p\<lparr>recovery_failed := True\<rparr>"
    have "p' = schedule_locality_recovery_retry ?q \<and> w' = w1"
      using assms(2) \<open>(i, Recovery_retry_timer) \<in> _\<close> r False
      by (simp add: fire_recovery_retry_def retry_locality_recovery_def)
    moreover have "timers_ok ?q" "quiet ?q" "panel_idle ?q w1" using p(1,3) i1 by (simp_all add: recovery_failed_ok)
    ultimately show ?thesis using schedule_ok[of ?q] by (simp add: controller_ok_def)
  qed
qed

lemma cancel_retry_ok:
  assumes "timers_ok p"
  shows "timers_ok (cancel_recovery_retry p) \<and> recovery_retry_id (cancel_recovery_retry p) = 0 \<and>
    recovery_failed (cancel_recovery_retry p) = recovery_failed p \<and> quiet (cancel_recovery_retry p) = quiet p \<and>
    model (cancel_recovery_retry p) = model p \<and> commit_timers (cancel_recovery_retry p) = commit_timers p"
proof (cases "recovery_retry_id p = 0")
  case True
  then show ?thesis using assms by (simp add: cancel_recovery_retry_def)
next
  case False
  have d: "distinct (map fst (timers p))" using assms by (simp add: timers_ok_def commit_timer_ok_def)
  have "recovery_retry_id p \<in> set (retry_timers p)" using assms False by (simp add: timers_ok_def)
  then have m: "(recovery_retry_id p, Recovery_retry_timer) \<in> set (timers p)" by (auto simp: retry_timers_def)
  from remove_other_kind[OF d m, of Coordinate_commit_timer] remove_retry_ok[OF assms False] False
  show ?thesis by (simp add: cancel_recovery_retry_def quiet_def remove_timer_def commit_timers_def)
qed

lemma recover_after_reload_ok:
  assumes "panel_idle p w" "quiet p" "timers_ok p"
    and "recover_after_reload p w = (ok, st, md, p', w')"
  shows "controller_ok p' w' \<and> retry_scheduled p' \<and> model p' = model p \<and> commit_timers p' = commit_timers p \<and>
    (ok \<longrightarrow> (\<exists>w2. ss_location_metadata_recover w = (True, w2) \<and> ss_location_metadata_load_status w2 = (st, md, w'))) \<and>
    recovery_failed p' = (\<not> ok)"
proof -
  obtain ok' w2 where rc: "(if ss_date_time_model_policy (model p) \<noteq> None then ss_location_metadata_recover w
      else (False, w)) = (ok', w2)" by (rule prod.exhaust)
  have i2: "panel_idle p w2"
  proof (cases "ss_date_time_model_policy (model p) = None")
    case True
    with rc assms(1) show ?thesis by simp
  next
    case False
    with rc have "ss_location_metadata_recover w = (ok', w2)" by simp
    from recover_idle[OF assms(1) this] show ?thesis by simp
  qed
  obtain st' md' w3 where ls: "(if ok' then ss_location_metadata_load_status w2
      else (LOAD_IO_ERROR, cleared_metadata, w2)) = (st', md', w3)" by (rule prod_cases3)
  have i3: "panel_idle p w3"
  proof (cases ok')
    case True
    with ls have "ss_location_metadata_load_status w2 = (st', md', w3)" by simp
    from load_status_idle[OF i2 this] show ?thesis by simp
  next
    case False
    with ls i2 show ?thesis by simp
  qed
  have "recover_after_reload p w =
      (ok', st', md', (if ok' then cancel_recovery_retry (p\<lparr>recovery_failed := \<not> ok'\<rparr>)
           else schedule_locality_recovery_retry (p\<lparr>recovery_failed := \<not> ok'\<rparr>)), w3)"
    unfolding recover_after_reload_def Let_def rc prod.case ls ..
  then have r: "ok = ok'" "st = st'" "md = md'" "w' = w3"
    "p' = (if ok then cancel_recovery_retry (p\<lparr>recovery_failed := \<not> ok\<rparr>)
           else schedule_locality_recovery_retry (p\<lparr>recovery_failed := \<not> ok\<rparr>))"
    unfolding assms(4) by (simp_all only: prod.inject)
  let ?q = "p\<lparr>recovery_failed := \<not> ok\<rparr>"
  have q: "timers_ok ?q" "quiet ?q" "panel_idle ?q w3" "model ?q = model p" using assms(2,3) i3 by (simp_all add: recovery_failed_ok)
  have cm: "commit_timers ?q = commit_timers p" "commit_timers (schedule_locality_recovery_retry ?q) = commit_timers ?q"
    by (simp_all add: commit_timers_def schedule_locality_recovery_retry_def add_timer_def Let_def)
  note C = cancel_retry_ok[OF q(1)] and S = schedule_ok[OF q(1)]
  have "controller_ok p' w3 \<and> retry_scheduled p' \<and> model p' = model p \<and> commit_timers p' = commit_timers p \<and> recovery_failed p' = (\<not> ok)"
    using C S q cm r(5) panel_idle_model[OF q(3), of "cancel_recovery_retry ?q"]
    by (cases ok) (auto simp: controller_ok_def retry_scheduled_def)
  moreover have "\<exists>w2. ss_location_metadata_recover w = (True, w2) \<and> ss_location_metadata_load_status w2 = (st, md, w')" if "ok"
    using that r rc ls by (auto split: if_splits)
  ultimately show ?thesis using r(4) by simp
qed

lemma recovered_panel_frame [simp]:
  "timing (recovered_panel ok st md p) = timing p" "quiet (recovered_panel ok st md p) = quiet p"
  "model (recovered_panel ok st md p) = model p"
  by (simp_all add: recovered_panel_def)

lemma policy_changed_ok:
  assumes "controller_ok p w" "policy_file_changed p w = (p', w')"
  shows "controller_ok p' w' \<and> (retry_scheduled p \<longrightarrow> retry_scheduled p')"
proof (cases "ss_date_time_model_policy (model p)")
  case None
  with assms show ?thesis by (simp add: policy_file_changed_def)
next
  case (Some prev)
  have c: "panel_idle p w" "quiet p" "timers_ok p" using assms(1) by (auto simp: controller_ok_def)
  define p0 where "p0 = ss_linux_date_time_location_cancel_coordinate_commit p"
  have p0: "panel_idle p0 w" "quiet p0" "timers_ok p0" "model p0 = model p"
    using c cancel_commit_retry[OF c(3)] by (simp_all add: p0_def)
  have p0r: "retry_scheduled p0 = retry_scheduled p"
    by (simp add: p0_def retry_scheduled_def ss_linux_date_time_location_cancel_coordinate_commit_def remove_timer_def)
  obtain b m w1 where rl: "ss_date_time_model_reload (lib_common (lib w)) (model p) w = (b, m, w1)" by (metis prod.collapse)
  have i1: "panel_idle (p0\<lparr>model := m\<rparr>) w1" using reload_idle[of p0 w _ b m w1] rl p0 by simp
  have t1: "timers_ok (p0\<lparr>model := m\<rparr>)" using p0(3) timing_timers[of "p0\<lparr>model := m\<rparr>" p0] by simp
  show ?thesis
  proof (cases b)
    case False
    with assms(2) Some rl p0(4) have "p' = ss_linux_date_time_panel_set_status (p0\<lparr>model := m\<rparr>) External_change_not_reloaded True"
      "w' = w1" by (simp_all add: policy_file_changed_def Let_def p0_def)
    then show ?thesis using i1 p0 p0r timing_timers[of p' p0] by (simp add: controller_ok_def)
  next
    case True
    obtain ok st md p3 w3 where ra: "recover_after_reload (p0\<lparr>model := m\<rparr>) w1 = (ok, st, md, p3, w3)" by (metis prod.collapse)
    have R: "controller_ok p3 w3" "retry_scheduled p3" using recover_after_reload_ok[OF i1 _ t1 ra] p0(2) by auto
    have q: "quiet p3" "panel_idle p3 w3" using R by (auto simp: controller_ok_def)
    have "model p' = model p3 \<and> timing p' = timing p3 \<and> quiet p' \<and> w' = w3"
      using assms(2) Some rl p0(4) True ra q(1)
      unfolding policy_file_changed_def Let_def p0_def[symmetric]
      by (cases ok) (auto split: if_splits)
    then show ?thesis using R q timing_timers[of p' p3] panel_idle_model[OF q(2)] by (simp add: controller_ok_def)
  qed
qed

lemma commit_location_frame:
  "commit_location prev present lat lon q w = (o3, q', w') \<Longrightarrow> timing q' = timing q \<and> quiet q' = quiet q"
  by (auto simp: commit_location_def Let_def split: prod.splits if_splits)

lemma activated_settles:
  assumes "panel_idle p w" "quiet p" "on_location_result_activated renv tz row p w = (p', w')"
  shows "settles p p' w'"
proof -
  have "timing p' = timing p \<and> quiet p'"
  proof (cases row)
    case None
    with assms show ?thesis by (simp add: on_location_result_activated_def)
  next
    case (Some r)
    obtain b w1 where bg: "ss_location_metadata_transaction_begin w = (b, w1)" by (metis prod.collapse)
    obtain previous w2 where la: "load_authoritative_location_metadata w1 = (previous, w2)" by (metis prod.collapse)
    show ?thesis
    proof (cases "b \<and> previous \<noteq> None")
    case False
      then have "\<not> b \<or> previous = None" by blast
      then show ?thesis using assms Some bg la
        by (auto simp: on_location_result_activated_def Let_def split: if_splits)
    next
      case True
      then obtain pmd pp where pm: "previous = Some (pmd, pp)" by auto
      let ?p2 = "p\<lparr>metadata := chosen_metadata (sr_display_name r) (sr_country_code r) (sr_latitude r)
                     (sr_longitude r) tz, metadata_present := pp\<rparr>"
      obtain o3 p3 w3 where cl: "commit_location pmd pp (sr_latitude r) (sr_longitude r) ?p2 w2 = (o3, p3, w3)"
        by (metis prod.collapse)
      have c: "timing p3 = timing p" "quiet p3" using commit_location_frame[OF cl] assms(2) by simp_all
      have l: "quiet (x\<lparr>location_updating := False\<rparr>) \<longleftrightarrow> \<not> updating_controls x \<and> \<not> native_format_updating x" for x
        by (simp add: quiet_def)
      have f: "\<not> updating_controls p3" "\<not> native_format_updating p3" using c(2) by (simp_all add: quiet_def)
      show ?thesis using assms(3) Some bg la True pm cl c f
        by (cases o3)
           (auto simp: on_location_result_activated_def Let_def l dest!: policy_saved_frame
              split: option.splits if_splits prod.splits)
    qed
  qed
  then show ?thesis using activated_idle[OF assms(1,3)] by (simp add: settles_def)
qed

lemma coordinates_frame:
  assumes "quiet p" "commit_location_coordinates tz p w = (p', w')"
  shows "timing p' = timing (p\<lparr>coordinate_commit_id := 0\<rparr>) \<and> quiet p'"
proof -
  let ?p = "p\<lparr>coordinate_commit_id := 0\<rparr>"
  have q: "quiet ?p" "\<not> location_updating p" using assms(1) by (simp_all add: quiet_def)
  obtain b w1 where bg: "ss_location_metadata_transaction_begin w = (b, w1)" by (metis prod.collapse)
  obtain previous w2 where la: "load_authoritative_location_metadata w1 = (previous, w2)" by (metis prod.collapse)
  show ?thesis
  proof (cases "b \<and> previous \<noteq> None")
    case False
    then have "\<not> b \<or> previous = None" by blast
    then show ?thesis using assms bg la q
      by (auto simp: commit_location_coordinates_def Let_def split: if_splits)
  next
    case True
    then obtain pmd pp where pm: "previous = Some (pmd, pp)" by auto
    let ?p2 = "?p\<lparr>metadata := chosen_metadata ''Custom coordinates'' [] (spin_latitude p) (spin_longitude p) tz,
                   metadata_present := pp\<rparr>"
    obtain o3 p3 w3 where cl: "commit_location pmd pp (spin_latitude p) (spin_longitude p) ?p2 w2 = (o3, p3, w3)"
      by (metis prod.collapse)
    have c: "timing p3 = timing ?p" "quiet p3" using commit_location_frame[OF cl] q(1) by simp_all
    show ?thesis using assms bg la True pm cl c q
      by (cases o3) (auto simp: commit_location_coordinates_def Let_def dest!: policy_saved_frame)
  qed
qed

lemma fire_commit_ok:
  assumes "controller_ok p w" "fire_coordinate_commit i tz p w = (p', w')"
  shows "controller_ok p' w' \<and> retry_scheduled p' = retry_scheduled p"
proof (cases "(i, Coordinate_commit_timer) \<in> set (timers p)")
  case False
  with assms show ?thesis by (simp add: fire_coordinate_commit_def)
next
  case True
  have c: "panel_idle p w" "quiet p" "timers_ok p" using assms(1) by (auto simp: controller_ok_def)
  from True have "i \<in> set (commit_timers p)" by (force simp: commit_timers_def)
  with c(3) have i: "i = coordinate_commit_id p" "coordinate_commit_id p \<noteq> 0"
    by (auto simp: timers_ok_def commit_timer_ok_def split: if_splits)
  let ?q = "ss_linux_date_time_location_cancel_coordinate_commit p"
  have q: "?q = (remove_timer i p)\<lparr>coordinate_commit_id := 0\<rparr>"
    using i by (simp add: ss_linux_date_time_location_cancel_coordinate_commit_def)
  from assms(2) True have e: "commit_location_coordinates tz (remove_timer i p) w = (p', w')"
    by (simp add: fire_coordinate_commit_def)
  have "timing p' = timing ?q \<and> quiet p'" using coordinates_frame[OF _ e] c(2) unfolding q by simp
  moreover have "panel_idle p' w'" using coordinates_idle[OF _ e] c(1) by simp
  moreover have "retry_scheduled ?q = retry_scheduled p"
    by (simp add: retry_scheduled_def ss_linux_date_time_location_cancel_coordinate_commit_def remove_timer_def)
  ultimately show ?thesis using cancel_commit_retry[OF c(3)] timing_timers[of p' ?q] by (simp add: controller_ok_def)
qed

section \<open>The event loop\<close>

text \<open>
  One callback of the main loop, the user moving a control, or other processes changing files and
  settings between two callbacks. No lock is owned between callbacks, so those may write any file.
\<close>

inductive panel_step :: "panel \<times> world \<Rightarrow> panel \<times> world \<Rightarrow> bool" where
  clock: "on_clock_changed (p\<lparr>clock_selected := n\<rparr>) w = r \<Longrightarrow> panel_step (p, w) r"
| calendar: "on_calendar_changed (p\<lparr>calendar_selected := n\<rparr>) w = r \<Longrightarrow> panel_step (p, w) r"
| seconds: "on_seconds_changed (p\<lparr>seconds_active := b\<rparr>) w = r \<Longrightarrow> panel_step (p, w) r"
| show_date: "on_show_date_changed (p\<lparr>show_date_active := b\<rparr>) w = r \<Longrightarrow> panel_step (p, w) r"
| first_day: "on_first_day_changed (p\<lparr>first_day_selected := n\<rparr>) w = r \<Longrightarrow> panel_step (p, w) r"
| desktop: "on_cinnamon_interface_changed key p w = r \<Longrightarrow> panel_step (p, w) r"
| policy_file: "policy_file_changed p w = r \<Longrightarrow> panel_step (p, w) r"
| metadata_file: "location_metadata_file_changed p w = r \<Longrightarrow> panel_step (p, w) r"
| system_time: "ss_linux_date_time_panel_reconcile_system_time_change sys locked renv renv' p w = r \<Longrightarrow>
    panel_step (p, w) r"
| result: "on_location_result_activated renv tz row p w = r \<Longrightarrow> panel_step (p, w) r"
| coordinates: "panel_step (p, w) (on_location_coordinate_changed (p\<lparr>spin_latitude := x, spin_longitude := y\<rparr>), w)"
| commit_timer: "fire_coordinate_commit i tz p w = r \<Longrightarrow> panel_step (p, w) r"
| retry_timer: "fire_recovery_retry i p w = r \<Longrightarrow> panel_step (p, w) r"
| search: "begin_location_search (p\<lparr>search_text := t\<rparr>) = (request, p') \<Longrightarrow> panel_step (p, w) (p', w)"
| found: "location_search_complete results err alive generation p = p' \<Longrightarrow> panel_step (p, w) (p', w)"
| others: "frame_but {} (kern w) k \<Longrightarrow> panel_step (p, w) (p, w\<lparr>kern := k\<rparr>)"

lemma search_settles:
  "panel_idle p w \<Longrightarrow> quiet p \<Longrightarrow> begin_location_search p = (request, p') \<Longrightarrow> settles p p' w"
  by (cases "search_text p = []")
     (auto simp: begin_location_search_def Let_def intro!: settles_same_model)

lemma found_settles:
  "panel_idle p w \<Longrightarrow> quiet p \<Longrightarrow> settles p (location_search_complete results err alive generation p) w"
  by (rule settles_same_model, assumption)
     (simp_all add: location_search_complete_def Let_def split: option.splits list.splits)

lemma widget_ok [simp]:
  "controller_ok (p\<lparr>clock_selected := n\<rparr>) w = controller_ok p w"
  "controller_ok (p\<lparr>calendar_selected := n\<rparr>) w = controller_ok p w"
  "controller_ok (p\<lparr>seconds_active := b\<rparr>) w = controller_ok p w"
  "controller_ok (p\<lparr>show_date_active := b\<rparr>) w = controller_ok p w"
  "controller_ok (p\<lparr>first_day_selected := n\<rparr>) w = controller_ok p w"
  "controller_ok (p\<lparr>search_text := t\<rparr>) w = controller_ok p w"
  "controller_ok (p\<lparr>spin_latitude := x, spin_longitude := y\<rparr>) w = controller_ok p w"
  by (simp_all add: controller_ok_def panel_idle_def timers_ok_def commit_timer_ok_def commit_timers_def retry_timers_def)

lemma settles_step:
  assumes "controller_ok p w" "panel_idle p w \<Longrightarrow> quiet p \<Longrightarrow> settles p p' w'"
  shows "controller_ok p' w' \<and> (retry_scheduled p \<longrightarrow> retry_scheduled p')"
  using assms settles_ok[of p p' w'] by (auto simp: controller_ok_def)

lemma panel_step_ok:
  assumes "panel_step (p, w) (p', w')" "controller_ok p w"
  shows "controller_ok p' w' \<and> (retry_scheduled p \<longrightarrow> retry_scheduled p')"
  using assms(1)
proof (cases rule: panel_step.cases)
  case (clock n)
  then have "controller_ok p' w' \<and> (retry_scheduled (p\<lparr>clock_selected := n\<rparr>) \<longrightarrow> retry_scheduled p')"
    using assms(2) by (intro settles_step) (auto intro: clock_changed_settles)
  then show ?thesis using timing_timers[of "p\<lparr>clock_selected := n\<rparr>" p] by simp
next
  case (calendar n)
  then have "controller_ok p' w' \<and> (retry_scheduled (p\<lparr>calendar_selected := n\<rparr>) \<longrightarrow> retry_scheduled p')"
    using assms(2) by (intro settles_step) (auto intro: calendar_changed_settles)
  then show ?thesis using timing_timers[of "p\<lparr>calendar_selected := n\<rparr>" p] by simp
next
  case (seconds b)
  then have "controller_ok p' w' \<and> (retry_scheduled (p\<lparr>seconds_active := b\<rparr>) \<longrightarrow> retry_scheduled p')"
    using assms(2) by (intro settles_step) (auto intro: seconds_changed_settles)
  then show ?thesis using timing_timers[of "p\<lparr>seconds_active := b\<rparr>" p] by simp
next
  case (show_date b)
  then have "controller_ok p' w' \<and> (retry_scheduled (p\<lparr>show_date_active := b\<rparr>) \<longrightarrow> retry_scheduled p')"
    using assms(2) by (intro settles_step) (auto intro: show_date_settles)
  then show ?thesis using timing_timers[of "p\<lparr>show_date_active := b\<rparr>" p] by simp
next
  case (first_day n)
  then have "controller_ok p' w' \<and> (retry_scheduled (p\<lparr>first_day_selected := n\<rparr>) \<longrightarrow> retry_scheduled p')"
    using assms(2) by (intro settles_step) (auto intro: first_day_settles)
  then show ?thesis using timing_timers[of "p\<lparr>first_day_selected := n\<rparr>" p] by simp
next
  case (desktop key)
  then show ?thesis using settles_step[OF assms(2) cinnamon_changed_settles] by blast
next
  case policy_file
  then show ?thesis using policy_changed_ok[OF assms(2)] by blast
next
  case metadata_file
  then show ?thesis using settles_step[OF assms(2) metadata_changed_settles] by blast
next
  case system_time
  then show ?thesis using settles_step[OF assms(2) reconcile_settles] by blast
next
  case result
  then show ?thesis using settles_step[OF assms(2) activated_settles] by blast
next
  case (coordinates y x)
  let ?q = "p\<lparr>spin_latitude := x, spin_longitude := y\<rparr>"
  have q: "controller_ok ?q w" using assms(2) by simp
  have "retry_scheduled (on_location_coordinate_changed ?q) = retry_scheduled p"
    by (simp add: retry_scheduled_def on_location_coordinate_changed_def add_timer_def Let_def remove_timer_def
        ss_linux_date_time_location_cancel_coordinate_commit_def)
  moreover have "panel_idle (on_location_coordinate_changed ?q) w"
    using q by (simp add: controller_ok_def panel_idle_def on_location_coordinate_changed_def add_timer_def Let_def)
  ultimately show ?thesis using q coordinates coordinate_changed_ok[of ?q] by (simp add: controller_ok_def)
next
  case commit_timer
  then show ?thesis using fire_commit_ok[OF assms(2)] by blast
next
  case retry_timer
  then show ?thesis using fire_retry_ok[OF assms(2)] by blast
next
  case (search t request)
  let ?q = "p\<lparr>search_text := t\<rparr>"
  have "controller_ok ?q w" using assms(2) by simp
  from settles_step[OF this search_settles[OF _ _ search(2)]] timing_timers[of ?q p] search(1)
  show ?thesis by simp
next
  case found
  then show ?thesis using settles_step[OF assms(2) found_settles] by blast
next
  case (others k)
  then show ?thesis using assms(2) kernel_frame_idle[of p w k] by (simp add: controller_ok_def)
qed

section \<open>Properties of the event loop\<close>

text \<open>
  C5: between two callbacks, in every order of user actions, file changes, expiring timers, search
  results and actions of other processes: neither lock is owned, the model is bound to the store and
  not saving, no flag still suppresses the handlers, and of each kind at most the one timer is pending
  that the panel can cancel.
\<close>

theorem panel_event_loop:
  assumes "panel_step\<^sup>*\<^sup>* (p, w) (p', w')" "controller_ok p w"
  shows "world_ok w' \<and> \<not> locality_locked w' \<and> \<not> policy_locked w' \<and>
    \<not> ss_date_time_model_is_saving (model p') \<and> ss_date_time_model_policy (model p') \<noteq> None \<and> quiet p' \<and>
    length (commit_timers p') \<le> 1 \<and> set (commit_timers p') \<subseteq> {coordinate_commit_id p'} \<and>
    length (retry_timers p') \<le> 1 \<and> set (retry_timers p') \<subseteq> {recovery_retry_id p'} \<and>
    recovery_retry_seconds p' \<le> 60"
proof -
  have "controller_ok p' w'"
    using assms by (induction "(p', w')" arbitrary: p' w' rule: rtranclp_induct) (auto dest: panel_step_ok)
  then show ?thesis
    by (auto simp: controller_ok_def panel_idle_def timers_ok_def commit_timer_ok_def attached_def
        ss_date_time_model_is_saving_def ss_date_time_model_policy_def)
qed

text \<open>
  C16: an interrupted location change whose recovery failed is retried until it succeeds: from a state in
  which the retry is scheduled, in every later state either the recovery is done or exactly one
  retry timer is pending, and when that timer fires the recovery runs once more and either ends the
  failed state or leaves the next retry scheduled.
\<close>

theorem recovery_retried:
  assumes "panel_step\<^sup>*\<^sup>* (p, w) (p', w')" "controller_ok p w" "retry_scheduled p"
  shows "(recovery_failed p' \<longleftrightarrow> retry_timers p' = [recovery_retry_id p']) \<and> (\<not> recovery_failed p' \<longleftrightarrow> retry_timers p' = []) \<and>
    (\<forall>i r. (i, Recovery_retry_timer) \<in> set (timers p') \<and> fire_recovery_retry i p' w' = r \<longrightarrow>
       recovery_failed (fst r) = (\<not> fst (ss_location_metadata_recover w')) \<and>
       (recovery_failed (fst r) \<longrightarrow> (recovery_retry_id (fst r), Recovery_retry_timer) \<in> set (timers (fst r))))"
proof -
  have inv: "controller_ok p' w' \<and> retry_scheduled p'"
    using assms by (induction "(p', w')" arbitrary: p' w' rule: rtranclp_induct) (auto dest: panel_step_ok)
  have f: "recovery_failed q = (\<not> fst (ss_location_metadata_recover w'))"
    if "(i, Recovery_retry_timer) \<in> set (timers p')" "fire_recovery_retry i p' w' = (q, v)" for i q v
  proof -
    have t: "recovery_failed q = recovery_failed p" if "location_metadata_file_changed p w = (q, v)" for p w q v
    proof -
      obtain st md w1 where l: "ss_location_metadata_load_status w = (st, md, w1)" by (rule prod_cases3)
      have "timing q = timing p" using that l by (cases st) (auto simp: location_metadata_file_changed_def)
      then show ?thesis by (simp add: timing_def)
    qed
    have s: "recovery_failed (schedule_locality_recovery_retry p) = recovery_failed p" for p
      by (simp add: schedule_locality_recovery_retry_def add_timer_def Let_def)
    show ?thesis using that
      by (auto simp: fire_recovery_retry_def retry_locality_recovery_def Let_def s ss_linux_date_time_panel_set_status_def
          dest: t split: prod.splits if_splits)
  qed
  have g: "recovery_failed q \<longrightarrow> (recovery_retry_id q, Recovery_retry_timer) \<in> set (timers q)"
    if "fire_recovery_retry i p' w' = (q, v)" for i q v
  proof -
    have "timers_ok q" "retry_scheduled q" using fire_retry_ok[OF _ that] inv by (auto simp: controller_ok_def)
    then have "recovery_failed q \<longrightarrow> recovery_retry_id q \<in> set (retry_timers q)"
      by (simp add: timers_ok_def retry_scheduled_def)
    then show ?thesis by (auto simp: retry_timers_def)
  qed
  show ?thesis using inv f g by (auto simp: controller_ok_def timers_ok_def retry_scheduled_def)
qed

section \<open>The system's time zone\<close>

lemma reconcile_reference_writes:
  assumes "reconcile_reference b r p w = (p', w')" "model p' \<noteq> model p"
  shows "b \<and> r \<and> follows_timezone_reference p \<and> has_reference_coordinates (regional p) \<and>
    \<not> ss_linux_date_time_location_policy_matches_reference p"
  using assms
  by (auto simp: reconcile_reference_def Let_def ss_linux_date_time_location_policy_matches_reference_def
      split: if_splits option.splits prod.splits)


section \<open>An external change of the policy\<close>

text \<open>What the panel believes of the place, which the presentation leaves alone.\<close>

definition belief :: "panel \<Rightarrow> location_metadata \<times> bool \<times> bool \<times> bool \<times> bool" where
  "belief p = (metadata p, metadata_present p, metadata_uncertain p, follows_timezone_reference p, recovery_failed p)"

lemma presentation_belief [simp]:
  "belief (ss_linux_date_time_panel_set_status p m e) = belief p"
  "belief (call c p) = belief p"
  "belief (ss_linux_date_time_location_update_summary p) = belief p"
  "belief (update_overview_policy cm p) = belief p"
  "belief (sync_native_format_controls L k p) = belief p"
  by (simp_all add: belief_def ss_linux_date_time_panel_set_status_def call_def
      ss_linux_date_time_location_update_summary_def update_overview_policy_def
      sync_native_format_controls_def Let_def split: option.splits)

lemma sync_controls_belief [simp]: "belief (ss_linux_date_time_panel_sync_controls L k p) = belief p"
proof -
  have c: "belief (update_control_capabilities L k q) = belief q" for q
  proof -
    have "belief (q\<lparr>seconds_sensitive := b\<rparr>) = belief q" for b by (simp add: belief_def)
    then show ?thesis by (simp add: update_control_capabilities_def Let_def split: option.splits)
  qed
  show ?thesis
    by (simp add: ss_linux_date_time_panel_sync_controls_def c Let_def split: option.splits) (simp add: belief_def)
qed

text \<open>
  When the policy file changed, coordinates that were typed but not saved are dropped with their timer,
  and the panel takes over what the file holds: the policy it loads is the one the model has
  afterwards, and when the recovery succeeds the metadata is exactly what is in the locality file.
  A policy that cannot be loaded leaves the model as it was and says so.
\<close>

theorem external_policy_adopted:
  assumes "controller_ok p w" "policy_file_changed p w = (p', w')"
  shows "commit_timers p' = [] \<and>
    ((model p' = model p \<and> status_line p' = Some (External_change_not_reloaded, True)) \<or>
     (\<exists>base found w1. platform_load w = (Some (base, found), w1) \<and> ss_date_time_model_policy (model p') = Some base \<and>
        (if recovery_failed p' then status_line p' = Some (External_change_recovery_failed, True)
         else (\<exists>w2 st md. ss_location_metadata_recover w1 = (True, w2) \<and>
                 ss_location_metadata_load_status w2 = (st, md, w') \<and>
                 (st = LOAD_OK \<longrightarrow> metadata p' = md \<and> metadata_present p' \<and> \<not> metadata_uncertain p') \<and>
                 (st = LOAD_MISSING \<longrightarrow> \<not> metadata_present p' \<and> \<not> metadata_uncertain p') \<and>
                 (st \<noteq> LOAD_OK \<and> st \<noteq> LOAD_MISSING \<longrightarrow> metadata_uncertain p' \<and> \<not> follows_timezone_reference p')))))"
proof -
  have c: "panel_idle p w" "quiet p" "timers_ok p" using assms(1) by (auto simp: controller_ok_def)
  then obtain prev where Some: "ss_date_time_model_policy (model p) = Some prev"
    by (auto simp: panel_idle_def attached_def ss_date_time_model_policy_def)
  define p0 where "p0 = ss_linux_date_time_location_cancel_coordinate_commit p"
  have p0: "panel_idle p0 w" "quiet p0" "timers_ok p0" "model p0 = model p"
    using c cancel_commit_retry[OF c(3)] by (simp_all add: p0_def)
  have ct: "commit_timers p0 = []"
    using cancel_timer_ok[of p] c(3) by (simp add: p0_def timers_ok_def commit_timer_ok_def)
  obtain b m w1 where rl: "ss_date_time_model_reload (lib_common (lib w)) (model p) w = (b, m, w1)" by (rule prod_cases3)
  obtain q where at: "world_ok w" "platform_attached (model p) q" "\<not> saving q" using c(1) by (auto simp: panel_idle_def)
  note R = reload_keeps[OF at rl]
  have i1: "panel_idle (p0\<lparr>model := m\<rparr>) w1" using reload_idle[of p0 w _ b m w1] rl p0 by simp
  have t1: "timers_ok (p0\<lparr>model := m\<rparr>)" using p0(3) timing_timers[of "p0\<lparr>model := m\<rparr>" p0] by simp
  have cts: "commit_timers p' = commit_timers x" if "timing p' = timing x" for x
    using that by (simp add: timing_def commit_timers_def)
  show ?thesis
  proof (cases b)
    case False
    with assms(2) Some rl p0(4) have e: "p' = ss_linux_date_time_panel_set_status (p0\<lparr>model := m\<rparr>) External_change_not_reloaded True"
      by (simp_all add: policy_file_changed_def Let_def p0_def)
    then have "model p' = model p" "status_line p' = Some (External_change_not_reloaded, True)"
      using R False by (simp_all add: ss_linux_date_time_panel_set_status_def)
    moreover have "commit_timers p' = []" using ct cts[of p0] e by simp
    ultimately show ?thesis by blast
  next
    case True
    obtain ok st md p3 w3 where ra: "recover_after_reload (p0\<lparr>model := m\<rparr>) w1 = (ok, st, md, p3, w3)" by (metis prod.collapse)
    note A = recover_after_reload_ok[OF i1 _ t1 ra]
    have q3: "controller_ok p3 w3" "model p3 = m" "commit_timers p3 = []" "recovery_failed p3 = (\<not> ok)"
      using A p0(2) ct by (auto simp: commit_timers_def)
    let ?p5 = "\<lambda>p4. refresh_location_authority_state (recovered_panel ok st md p4)"
    obtain p4 p6 where e: "p4 = p3 \<or> p4 = call Invalidate_manual_draft p3" "w' = w3"
      "p6 = call Preview_refresh (call Preview_restart (ss_linux_date_time_panel_sync_controls (lib w3) (kern w3) (?p5 p4)))"
      "p' = p6 \<or> (\<exists>msg e. p' = ss_linux_date_time_panel_set_status p6 msg e)"
      "\<not> ok \<longrightarrow> p' = ss_linux_date_time_panel_set_status p6 External_change_recovery_failed True"
      using assms(2) Some rl p0(4) True ra
      unfolding policy_file_changed_def Let_def p0_def[symmetric]
      by (auto split: if_splits)
    have p4: "timing p4 = timing p3" "model p4 = m" "belief p4 = belief p3" using e(1) q3(2) by auto
    have p6: "timing p6 = timing p3" "model p6 = m" "belief p6 = belief (?p5 p4)" using p4 by (simp_all add: e(3))
    have p': "timing p' = timing p3" "model p' = m" "belief p' = belief (?p5 p4)" using p6 e(4) by auto
    have b5: "(st = LOAD_OK \<longrightarrow> metadata (?p5 p4) = md \<and> metadata_present (?p5 p4) \<and> \<not> metadata_uncertain (?p5 p4)) \<and>
       (ok \<longrightarrow> st = LOAD_MISSING \<longrightarrow> \<not> metadata_present (?p5 p4) \<and> \<not> metadata_uncertain (?p5 p4)) \<and>
       (ok \<longrightarrow> st \<noteq> LOAD_OK \<and> st \<noteq> LOAD_MISSING \<longrightarrow> metadata_uncertain (?p5 p4) \<and> \<not> follows_timezone_reference (?p5 p4)) \<and>
       recovery_failed (?p5 p4) = (\<not> ok)"
      using q3(4) p4(3) by (auto simp: belief_def recovered_panel_def refresh_location_authority_state_def Let_def)
    obtain base found where ld: "platform_load w = (Some (base, found), w1)" "ss_date_time_model_policy m = Some base"
      using R True by blast
    have rec: "ok \<longrightarrow> (\<exists>w2. ss_location_metadata_recover w1 = (True, w2) \<and> ss_location_metadata_load_status w2 = (st, md, w3))"
      using A p0(2) by simp
    have rf: "recovery_failed p' = (\<not> ok)" using p'(3) b5 by (simp add: belief_def)
    have "if recovery_failed p' then status_line p' = Some (External_change_recovery_failed, True)
         else (\<exists>w2 st md. ss_location_metadata_recover w1 = (True, w2) \<and>
                 ss_location_metadata_load_status w2 = (st, md, w') \<and>
                 (st = LOAD_OK \<longrightarrow> metadata p' = md \<and> metadata_present p' \<and> \<not> metadata_uncertain p') \<and>
                 (st = LOAD_MISSING \<longrightarrow> \<not> metadata_present p' \<and> \<not> metadata_uncertain p') \<and>
                 (st \<noteq> LOAD_OK \<and> st \<noteq> LOAD_MISSING \<longrightarrow> metadata_uncertain p' \<and> \<not> follows_timezone_reference p'))"
    proof (cases ok)
      case True
      then obtain w2 where "ss_location_metadata_recover w1 = (True, w2)" "ss_location_metadata_load_status w2 = (st, md, w')"
        using rec e(2) by blast
      then show ?thesis using True rf b5 p'(3) by (auto simp: belief_def)
    next
      case False
      then show ?thesis using rf e(5) by (simp add: ss_linux_date_time_panel_set_status_def)
    qed
    moreover have "commit_timers p' = []" using cts[of p3] p'(1) q3(3) by simp
    ultimately show ?thesis using ld p'(2) by blast
  qed
qed

section \<open>Migration of the legacy clock\<close>

text \<open>
  When the migration reports success, the policy of the panel has an explicit clock system or the
  panel has the 12-hour or 24-hour one the desktop uses; a persisted policy is changed by a normal
  save, an unpersisted one only in memory. When it fails, the model is as it was.
\<close>

theorem migration_explicit:
  assumes "panel_idle p w" "catalogue_documented (lib_common (lib w))"
    and "ss_native_clock_mode_id (ss_linux_date_time_panel_desktop_uses_24h (lib w) (kern w) p) = native"
    and "migrate_legacy_native_clock p w = (b, p', w')"
  shows "panel_idle p' w' \<and>
    (if b then (\<exists>q. ss_date_time_model_policy (model p') = Some q \<and>
        (p' = p \<and> \<not> ss_native_clock_mode_is_legacy_default (Some (clock_mode q)) \<or> clock_mode q = native)) \<and>
        (ss_date_time_model_has_persisted_policy (model p') = ss_date_time_model_has_persisted_policy (model p)) \<and>
        (\<not> ss_date_time_model_has_persisted_policy (model p) \<longrightarrow> w' = w)
     else model p' = model p)"
proof -
  obtain q where at: "world_ok w" "platform_attached (model p) q" "\<not> saving q" using assms(1) by (auto simp: panel_idle_def)
  have pol: "ss_date_time_model_policy (model p) = Some (mp_policy q)"
    "ss_date_time_model_has_persisted_policy (model p) = persisted_policy_present q"
    using at(2) by (simp_all add: attached_def ss_date_time_model_policy_def ss_date_time_model_has_persisted_policy_def)
  show ?thesis
  proof (cases "ss_native_clock_mode_is_legacy_default (Some (clock_mode (mp_policy q)))")
    case False
    with assms(1,4) pol show ?thesis by (auto simp: migrate_legacy_native_clock_def)
  next
    case True
    have named: "clock_mode (assign_clock_mode (lib_common (lib w)) c info) = native"
      if "valid_clock_mode (lib_common (lib w)) (Some native) = Some info" for c info
    proof -
      from that assms(2) have "mode_id info = native" "length native < sizeof_clock_mode (lib_common (lib w))"
        by (auto simp: valid_clock_mode_def catalogue_documented_def split: if_splits)
      then show ?thesis using assms(2) by (simp add: assign_clock_mode_def catalogue_documented_def)
    qed
    show ?thesis
    proof (cases "persisted_policy_present q")
      case False
      obtain c m where n: "ss_date_time_model_normalize_unpersisted_clock_mode (lib_common (lib w)) (model p) (Some native) = (c, m)"
        by (rule prod.exhaust)
      have r: "b = c" "p' = p\<lparr>model := m\<rparr>" "w' = w"
        using assms(3,4) True False pol n by (simp_all add: migrate_legacy_native_clock_def Let_def)
      show ?thesis using n at named False pol assms(1) unfolding r
        by (auto simp: ss_date_time_model_normalize_unpersisted_clock_mode_def attached_def panel_idle_def
            ss_date_time_model_policy_def ss_date_time_model_has_persisted_policy_def split: option.splits if_splits)
    next
      case per: True
      obtain c m w1 where s: "ss_date_time_model_set_clock_mode (lib_common (lib w)) (model p) (Some native) w = (c, m, w1)"
        by (rule prod_cases3)
      then have e: "model_edit (lib_common (lib w)) (Clock (Some native)) (model p) w = (c, m, w1)" by simp
      have r: "b = c" "p' = p\<lparr>model := m\<rparr>" "w' = w1"
        using assms(3,4) True per pol s by (simp_all add: migrate_legacy_native_clock_def Let_def)
      note E = linux_store.edit_law[OF linux_table at(2,3,1) e]
      show ?thesis
      proof (cases c)
        case False
        with E edit_idle[OF assms(1) e] r show ?thesis by simp
      next
        case True
        with E obtain base new where d: "drafted (lib_common (lib w)) (Clock (Some native)) base = Some new"
          "m = put_private (model p) (Some (q\<lparr>mp_policy := new, persisted_policy_present := True\<rparr>))"
          by (simp only: if_True) blast
        then have "clock_mode new = native" using named
          by (auto simp: drafted_def ss_date_time_policy_draft_set_clock_mode_def ss_date_time_policy_draft_policy_def
              split: option.splits if_splits)
        then show ?thesis using d at pol per True edit_idle[OF assms(1) e] unfolding r
          by (simp add: attached_def ss_date_time_model_policy_def ss_date_time_model_has_persisted_policy_def)
      qed
    qed
  qed
qed

section \<open>The first day of the week\<close>

text \<open>
  The three choices of the first day survive the desktop's settings: a choice that was saved is
  the one the control shows when it is next synchronised, and a value another program stored is
  shown as the choice that stores the same value again.
\<close>

theorem first_day_roundtrip:
  assumes "world_ok w" "first_day_selected p \<le> 2" "\<not> native_format_updating p" "cinnamon_settings p = Some s"
    and "on_first_day_changed p w = (p', w')" "status_line p' = Some (First_day_saved, False)"
  shows "first_day_selected (sync_native_format_controls (lib w') (kern w') (p'\<lparr>first_day_selected := n\<rparr>)) =
           first_day_selected p \<and>
         (v = 7 \<or> v = 0 \<or> v = 1 \<longrightarrow> first_day_value (first_day_index v) = v)"
proof -
  note s = assms(4) and False = assms(3)
  obtain b k where r: "ss_cinnamon_interface_set_first_day (lib w) (Some s) (first_day_value (first_day_selected p)) (kern w) = (b, k)"
    by (rule prod.exhaust)
  have st: "status_line (sync_native_format_controls L k q) = status_line q" for L k q
    by (simp add: sync_native_format_controls_def Let_def split: option.splits)
  have b: "b" "p' = ss_linux_date_time_panel_set_status p First_day_saved False" "w' = w\<lparr>kern := k\<rparr>"
    using assms(5,6) False s r
    by (auto simp: on_first_day_changed_def Let_def st ss_linux_date_time_panel_set_status_def split: if_splits)
  have g: "ss_cinnamon_interface_has_key (lib w) (Some ''first-day-of-week'')"
    "settings_set (lib w) s ''first-day-of-week'' (GInt (first_day_value (first_day_selected p))) (kern w) = (True, k)"
    using r b(1) by (auto simp: ss_cinnamon_interface_set_first_day_def ss_cinnamon_interface_get_first_day_def
        split: if_splits option.splits)
  have "settings_documented (lib w)" using assms(1) by (simp add: world_ok_def)
  then have "settings k = (settings (kern w))(s := (settings (kern w) s)(''first-day-of-week'' \<mapsto> GInt (first_day_value (first_day_selected p))))"
    using g(2) unfolding settings_documented_def by fastforce
  then have "ss_cinnamon_interface_get_first_day (lib w) (Some s) k = Some (first_day_value (first_day_selected p))"
    using g(1) by (simp add: ss_cinnamon_interface_get_first_day_def)
  moreover have "first_day_index (first_day_value (first_day_selected p)) = first_day_selected p"
    using assms(2) by (auto simp: first_day_index_def first_day_value_def)
  ultimately show ?thesis using s b
    by (auto simp: first_day_index_def first_day_value_def sync_native_format_controls_def Let_def ss_linux_date_time_panel_set_status_def split: option.splits)
qed

section \<open>Creation and disposal\<close>

lemma zeroed_timers: "timing (zeroed_panel\<lparr>model := m\<rparr>) = ([], 1, 0, 0, 0, False)" "quiet (zeroed_panel\<lparr>model := m\<rparr>)"
  by (simp_all add: timing_def quiet_def zeroed_panel_def)

lemma migrate_frame:
  "migrate_legacy_native_clock p w = (b, p', w') \<Longrightarrow> timing p' = timing p \<and> quiet p' = quiet p"
  by (auto simp: migrate_legacy_native_clock_def Let_def split: option.splits prod.splits if_splits)

lemma migrate_idle:
  assumes "panel_idle p w" "migrate_legacy_native_clock p w = (b, p', w')"
  shows "panel_idle p' w'"
proof -
  obtain q where at: "platform_attached (model p) q" "\<not> saving q" using assms(1) by (auto simp: panel_idle_def)
  let ?cm = "lib_common (lib w)"
  have n: "panel_idle (p\<lparr>model := m\<rparr>) w"
    if "ss_date_time_model_normalize_unpersisted_clock_mode ?cm (model p) c = (d, m)" for c d m
    using that at assms(1)
    by (auto simp: ss_date_time_model_normalize_unpersisted_clock_mode_def attached_def panel_idle_def
        split: option.splits if_splits)
  have s: "panel_idle (p\<lparr>model := m\<rparr>) w1"
    if "ss_date_time_model_set_clock_mode ?cm (model p) c w = (d, m, w1)" for c d m w1
    using edit_idle[OF assms(1), of ?cm "Clock c"] that by simp
  show ?thesis using assms n s
    by (auto simp: migrate_legacy_native_clock_def Let_def split: option.splits prod.splits if_splits)
qed

text \<open>
  A panel that is created is ready for its event loop, and one that cannot be created leaves no
  lock behind. An interrupted location change that could not be recovered is scheduled for retry,
  unless the migration of the legacy clock failed as well: then the panel reports the migration, has
  no retry timer, and nothing retries the recovery until the policy file changes.
\<close>

theorem new_panel_ready:
  assumes "world_ok w" "\<not> locality_locked w" "\<not> policy_locked w"
    and "ss_linux_date_time_panel_new host allocated obs1 obs2 renv installed w = (r, w')"
  shows "world_ok w' \<and> \<not> locality_locked w' \<and> \<not> policy_locked w' \<and>
    (\<forall>p. r = Some p \<longrightarrow> controller_ok p w' \<and>
       (if status_line p = Some (Migration_failed, True) then timers p = [] else retry_scheduled p))"
proof (cases host)
  case False
  with assms show ?thesis by (auto simp: ss_linux_date_time_panel_new_def)
next
  case True
  obtain b m w1 where ini: "ss_date_time_model_init (lib_common (lib w)) allocated (model zeroed_panel)
                 (Some ss_platform_temporal_policy_store) w = (b, m, w1)" by (rule prod_cases3)
  have z: "model_private (model zeroed_panel) = None" "model zeroed_panel \<noteq> None"
    by (simp_all add: zeroed_panel_def model_private_def)
  note I = linux_store.init_law[OF linux_table assms(1) z ini]
  have w1: "world_ok w1" "\<not> locality_locked w1" "\<not> policy_locked w1"
    using I assms(2,3) by (auto simp: world_later_def locality_locked_def)
  show ?thesis
  proof (cases b)
    case False
    with assms(4) True ini w1 show ?thesis by (auto simp: ss_linux_date_time_panel_new_def Let_def)
  next
    case bT: True
    with I obtain q where q: "platform_attached m q" "\<not> saving q" by (simp only: if_True) blast
    let ?p1 = "zeroed_panel\<lparr>model := m, regional := snd (ss_regional_context_detect (lib_glib (lib w1)) renv)\<rparr>"
    have pol: "ss_date_time_model_policy m \<noteq> None" using q by (simp add: attached_def ss_date_time_model_policy_def)
    have i1: "panel_idle ?p1 w1" using w1 q by (auto simp: panel_idle_def)
    obtain ok w2 where rc: "ss_location_metadata_recover w1 = (ok, w2)" by (rule prod.exhaust)
    have i2: "panel_idle ?p1 w2" using recover_idle[OF i1 rc] by simp
    obtain st md w3 where ls: "ss_location_metadata_load_status w2 = (st, md, w3)" by (rule prod_cases3)
    have i3: "panel_idle ?p1 w3" using load_status_idle[OF i2 ls] by simp
    define p3 where "p3 = refresh_location_authority_state (?p1\<lparr>recovery_failed := \<not> ok, metadata := md,
                              metadata_present := (st = LOAD_OK),
                              metadata_uncertain := (st = LOAD_INVALID \<or> st = LOAD_IO_ERROR)\<rparr>)"
    have p3: "model p3 = m" "panel_idle p3 w3" "quiet p3"
      "timing p3 = ([], 1, 0, 0, 0, \<not> ok)"
      using i3 zeroed_timers[of m] panel_idle_model[OF i3, of p3] by (simp_all add: p3_def) (simp add: timing_def)
    show ?thesis
    proof (cases "obs1 \<and> obs2")
      case False
      have at: "platform_attached (model p3) q" "saving q = policy_locked w3" "world_ok w3"
        using p3(1,2) q by (auto simp: panel_idle_def)
      obtain m4 w4 where cl: "ss_date_time_model_clear (model p3) w3 = (m4, w4)" by (rule prod.exhaust)
      note C = linux_store.clear_model_law[OF linux_table at cl]
      have nl: "\<not> locality_locked w4" using C p3(2) by (auto simp: world_later_def locality_locked_def panel_idle_def)
      have "r = None" "w' = w4"
        using assms(4) True ini bT pol rc ls False cl
        unfolding ss_linux_date_time_panel_new_def Let_def p3_def by auto
      then show ?thesis using C nl by simp
    next
      case obs: True
      let ?p4 = "p3\<lparr>cinnamon_settings := ss_cinnamon_interface_settings_new (lib w3)\<rparr>"
      obtain mig p5 w4 where mg: "migrate_legacy_native_clock ?p4 w3 = (mig, p5, w4)" by (rule prod_cases3)
      have i4: "panel_idle ?p4 w3" using p3(2) by (simp add: panel_idle_def)
      have p5: "panel_idle p5 w4" "timing p5 = timing p3" "quiet p5"
        using migrate_idle[OF i4 mg] migrate_frame[OF mg] p3(3) by simp_all
      let ?p6 = "ss_linux_date_time_panel_sync_controls (lib w4) (kern w4) (p5\<lparr>clock_mode_ids := clock_mode_strings installed\<rparr>)"
      have p6: "panel_idle ?p6 w4" "timing ?p6 = timing p3" "quiet ?p6"
        using p5 panel_idle_model[OF p5(1), of ?p6] by simp_all
      have r: "r = Some (if \<not> mig then ss_linux_date_time_panel_set_status ?p6 Migration_failed True
                     else if recovery_failed ?p6
                     then schedule_locality_recovery_retry (ss_linux_date_time_panel_set_status ?p6 Recovery_pending True)
                     else ss_linux_date_time_panel_set_status ?p6 Connecting False)" "w' = w4"
        using assms(4) True ini bT pol rc ls obs mg
        unfolding ss_linux_date_time_panel_new_def Let_def p3_def by auto
      have t6: "timers ?p6 = []" "recovery_retry_id ?p6 = 0" "recovery_failed ?p6 = (\<not> ok)" "timers_ok ?p6"
        using p6(2) p3(4) by (auto simp: timing_def timers_ok_def commit_timer_ok_def commit_timers_def retry_timers_def)
      have ts: "timers_ok (ss_linux_date_time_panel_set_status ?p6 msg e)" for msg e
        using t6(4) timing_timers[of "ss_linux_date_time_panel_set_status ?p6 msg e" ?p6] by simp
      have sl: "status_line (schedule_locality_recovery_retry (ss_linux_date_time_panel_set_status ?p6 msg e)) = Some (msg, e)" for msg e
        by (simp add: schedule_locality_recovery_retry_def add_timer_def ss_linux_date_time_panel_set_status_def Let_def)
      have ss: "timers (ss_linux_date_time_panel_set_status x msg e) = timers x"
        "recovery_failed (ss_linux_date_time_panel_set_status x msg e) = recovery_failed x"
        "recovery_retry_id (ss_linux_date_time_panel_set_status x msg e) = recovery_retry_id x"
        "status_line (ss_linux_date_time_panel_set_status x msg e) = Some (msg, e)" for x msg e
        by (simp_all add: ss_linux_date_time_panel_set_status_def)
      have "\<forall>p. r = Some p \<longrightarrow> controller_ok p w4 \<and>
         (if status_line p = Some (Migration_failed, True) then timers p = [] else retry_scheduled p)"
        using r(1) t6 ts p6(1,3) sl schedule_ok[OF ts[of Recovery_pending True]]
        by (cases mig; cases "recovery_failed ?p6") (auto simp: controller_ok_def retry_scheduled_def ss)
      then show ?thesis using p6(1) r(2) by (simp add: panel_idle_def)
    qed
  qed
qed

text \<open>
  Disposing of a panel leaves nothing behind that could still reach it: no timer is pending, the
  private state of the model is gone and no lock is owned.
\<close>

theorem free_releases_everything:
  assumes "controller_ok p w" "ss_linux_date_time_panel_free p w = (p', w')"
  shows "timers p' = [] \<and> model_private (model p') = None \<and>
    world_ok w' \<and> \<not> locality_locked w' \<and> \<not> policy_locked w' \<and> policy_view w' = policy_view w"
proof -
  have c: "panel_idle p w" "timers_ok p" using assms(1) by (auto simp: controller_ok_def)
  obtain q where q: "platform_attached (model p) q" "\<not> saving q" using c(1) by (auto simp: panel_idle_def)
  let ?p0 = "ss_linux_date_time_location_cancel_coordinate_commit p"
  let ?p1 = "cancel_recovery_retry ?p0"
  note T = cancel_commit_retry[OF c(2)]
  note R = cancel_retry_ok[OF T]
  have "commit_timers ?p0 = []"
    using cancel_timer_ok[of p] c(2) by (simp add: timers_ok_def commit_timer_ok_def)
  then have n: "commit_timers ?p1 = []" "retry_timers ?p1 = []" "model ?p1 = model p"
    using R by (simp_all add: timers_ok_def)
  have k: "t = Coordinate_commit_timer \<or> t = Recovery_retry_timer" for t by (cases t) auto
  have "timers ?p1 = []"
  proof (rule ccontr)
    assume "timers ?p1 \<noteq> []"
    then obtain i t where "(i, t) \<in> set (timers ?p1)" by (metis last_in_set surj_pair)
    then show False using n(1,2) k[of t] by (auto simp: commit_timers_def retry_timers_def filter_empty_conv)
  qed
  moreover obtain m w1 where cl: "ss_date_time_model_clear (model p) w = (m, w1)" by (rule prod.exhaust)
  moreover have "p' = ?p1\<lparr>model := m\<rparr>" "w' = w1" using assms(2) cl n(3) by (simp_all add: ss_linux_date_time_panel_free_def)
  moreover have "saving q = policy_locked w" "world_ok w" "\<not> locality_locked w" using c(1) q(2) by (auto simp: panel_idle_def)
  ultimately show ?thesis using linux_store.clear_model_law[OF linux_table q(1) _ _ cl]
    by (simp add: world_later_def locality_locked_def)
qed

section \<open>Instances\<close>

text \<open>The sample world with every lock taken by others, and one whose policy file still has the legacy clock.\<close>

definition busy_world :: world where
  "busy_world = sample_world\<lparr>kern := (kern sample_world)
     \<lparr>env := (env (kern sample_world))\<lparr>e_flock := (\<lambda>n. Busy)\<rparr>\<rparr>\<rparr>"

definition legacy_world :: world where
  "legacy_world = busy_world\<lparr>kern := (kern busy_world)\<lparr>files := [sample_file [''presentation.conf''] \<mapsto> ''S'']\<rparr>\<rparr>"

lemma busy_ok: "world_ok busy_world" "\<not> locality_locked busy_world" "\<not> policy_locked busy_world" "lib busy_world = sample_lib"
proof -
  show "world_ok busy_world" using sample_world_ok
    by (simp add: busy_world_def world_ok_def wf_kernel_def guards_documented_def owns_def)
  show "\<not> locality_locked busy_world" "\<not> policy_locked busy_world" "lib busy_world = sample_lib"
    by (simp_all add: busy_world_def locality_locked_def policy_locked_def sample_world_def)
qed

lemma legacy_ok: "world_ok legacy_world" "\<not> locality_locked legacy_world" "\<not> policy_locked legacy_world"
proof -
  show "world_ok legacy_world" using busy_ok(1)
    by (simp add: legacy_world_def world_ok_def wf_kernel_def owns_def)
  show "\<not> locality_locked legacy_world" "\<not> policy_locked legacy_world"
    using busy_ok(2,3) by (simp_all add: legacy_world_def locality_locked_def policy_locked_def)
qed

lemma sample_controller: "controller_ok sample_panel sample_world" "retry_scheduled sample_panel" "quiet sample_panel"
  using sample_idle
  by (simp_all add: controller_ok_def retry_scheduled_def quiet_def timers_ok_def commit_timer_ok_def
      commit_timers_def retry_timers_def sample_panel_def)

theorem panel_event_loop_witness:
  "\<exists>p' w'. panel_step\<^sup>*\<^sup>* (sample_panel, sample_world) (p', w') \<and>
     fire_coordinate_commit 1 None (on_location_coordinate_changed sample_panel) sample_world = (p', w') \<and>
     world_ok w' \<and> \<not> locality_locked w' \<and> \<not> policy_locked w'"
proof -
  obtain p' w' where f: "fire_coordinate_commit 1 None (on_location_coordinate_changed sample_panel) sample_world = (p', w')"
    by (rule prod.exhaust)
  have "sample_panel\<lparr>spin_latitude := Fin 10, spin_longitude := Fin (- 61)\<rparr> = sample_panel"
    by (simp add: sample_panel_def)
  then have "panel_step (sample_panel, sample_world) (on_location_coordinate_changed sample_panel, sample_world)"
    using coordinates[of sample_panel sample_world "Fin (- 61)" "Fin 10"] by simp
  moreover have "panel_step (on_location_coordinate_changed sample_panel, sample_world) (p', w')"
    using f by (rule commit_timer)
  ultimately have s: "panel_step\<^sup>*\<^sup>* (sample_panel, sample_world) (p', w')" by (meson converse_rtranclp_into_rtranclp r_into_rtranclp)
  from panel_event_loop[OF s sample_controller(1)] s f show ?thesis by blast
qed

definition failed_panel :: panel where
  "failed_panel = sample_panel\<lparr>recovery_failed := True, recovery_retry_id := 1, recovery_retry_seconds := 4,
     timers := [(1, Recovery_retry_timer)], next_source := 2\<rparr>"

lemma busy_recovery: "fst (ss_location_metadata_recover busy_world) = False"
  by code_simp

theorem recovery_retried_witness:
  "recovery_failed (fst (fire_recovery_retry 1 failed_panel busy_world)) \<and>
   (recovery_retry_id (fst (fire_recovery_retry 1 failed_panel busy_world)), Recovery_retry_timer)
      \<in> set (timers (fst (fire_recovery_retry 1 failed_panel busy_world)))"
proof -
  have i: "panel_idle failed_panel busy_world"
    using busy_ok sample_panel_attached by (auto simp: panel_idle_def failed_panel_def)
  have c: "controller_ok failed_panel busy_world" "retry_scheduled failed_panel"
    using i by (simp_all add: controller_ok_def retry_scheduled_def quiet_def timers_ok_def commit_timer_ok_def
      commit_timers_def retry_timers_def failed_panel_def sample_panel_def)
  have t: "(1, Recovery_retry_timer) \<in> set (timers failed_panel)" by (simp add: failed_panel_def)
  have "panel_step\<^sup>*\<^sup>* (failed_panel, busy_world) (failed_panel, busy_world)" by simp
  from recovery_retried[OF this c] t busy_recovery show ?thesis by blast
qed


theorem external_policy_adopted_witness:
  "\<exists>p' w'. policy_file_changed (on_location_coordinate_changed sample_panel) sample_world = (p', w') \<and> commit_timers p' = []"
proof -
  obtain p' w' where e: "policy_file_changed (on_location_coordinate_changed sample_panel) sample_world = (p', w')"
    by (rule prod.exhaust)
  have "panel_idle (on_location_coordinate_changed sample_panel) sample_world"
    using sample_idle by (simp add: panel_idle_def on_location_coordinate_changed_def add_timer_def Let_def)
  then have "controller_ok (on_location_coordinate_changed sample_panel) sample_world"
    using sample_controller(1) coordinate_changed_ok[of sample_panel] by (simp add: controller_ok_def)
  from external_policy_adopted[OF this e] e show ?thesis by blast
qed

definition legacy_panel :: panel where
  "legacy_panel = sample_panel\<lparr>model := Some \<lparr>address = 1, private_state = Some
     \<lparr>mp_policy = sample_policy\<lparr>clock_mode := ''standard''\<rparr>, mp_store = Some ss_platform_temporal_policy_store,
      persisted_policy_present = False, saving = False\<rparr>\<rparr>\<rparr>"

lemma legacy_migrated: "fst (migrate_legacy_native_clock legacy_panel sample_world) = True"
  by code_simp

theorem migration_explicit_witness:
  "\<exists>p' q. migrate_legacy_native_clock legacy_panel sample_world = (True, p', sample_world) \<and>
     ss_date_time_model_policy (model p') = Some q \<and> clock_mode q = ''standard-24''"
proof -
  obtain b p' w' where e: "migrate_legacy_native_clock legacy_panel sample_world = (b, p', w')" by (rule prod_cases3)
  then have b: "b" using legacy_migrated by simp
  have "panel_idle legacy_panel sample_world" using sample_idle
    by (simp add: panel_idle_def legacy_panel_def attached_def model_private_def)
  moreover have "catalogue_documented (lib_common (lib sample_world))"
    using sample_catalogue by (simp add: sample_world_def sample_lib_def)
  moreover have n: "ss_native_clock_mode_id (ss_linux_date_time_panel_desktop_uses_24h (lib sample_world) (kern sample_world) legacy_panel) = ''standard-24''"
    by code_simp
  ultimately have M: "\<exists>q. ss_date_time_model_policy (model p') = Some q \<and>
        (p' = legacy_panel \<and> \<not> ss_native_clock_mode_is_legacy_default (Some (clock_mode q)) \<or> clock_mode q = ''standard-24'')"
    "\<not> ss_date_time_model_has_persisted_policy (model legacy_panel) \<longrightarrow> w' = sample_world"
    using migration_explicit[OF _ _ n e] b by simp_all
  have l: "ss_date_time_model_policy (model legacy_panel) = Some (sample_policy\<lparr>clock_mode := ''standard''\<rparr>)"
    "\<not> ss_date_time_model_has_persisted_policy (model legacy_panel)"
    by (simp_all add: legacy_panel_def ss_date_time_model_policy_def ss_date_time_model_has_persisted_policy_def model_private_def)
  have d: "ss_native_clock_mode_is_legacy_default (Some ''standard'')" by code_simp
  show ?thesis using M e b l d by auto
qed

definition week_world :: world where
  "week_world = sample_world\<lparr>kern := (kern sample_world)\<lparr>settings := (\<lambda>s. [''first-day-of-week'' \<mapsto> GInt 7])\<rparr>\<rparr>"

lemma week_saved:
  "status_line (fst (on_first_day_changed (sample_panel\<lparr>cinnamon_settings := Some ''s'', first_day_selected := 2\<rparr>) week_world)) =
     Some (First_day_saved, False)"
  by code_simp

theorem first_day_roundtrip_witness:
  "\<exists>p' w'. on_first_day_changed (sample_panel\<lparr>cinnamon_settings := Some ''s'', first_day_selected := 2\<rparr>) week_world = (p', w') \<and>
     first_day_selected (sync_native_format_controls (lib w') (kern w') (p'\<lparr>first_day_selected := 0\<rparr>)) = 2 \<and>
     first_day_value (first_day_index 1) = 1"
proof -
  let ?p = "sample_panel\<lparr>cinnamon_settings := Some ''s'', first_day_selected := 2\<rparr>"
  obtain p' w' where e: "on_first_day_changed ?p week_world = (p', w')" by (rule prod.exhaust)
  have ok: "world_ok week_world" using sample_world_ok by (simp add: week_world_def world_ok_def wf_kernel_def owns_def)
  have a: "first_day_selected ?p \<le> 2" "\<not> native_format_updating ?p" "cinnamon_settings ?p = Some ''s''"
    by (simp_all add: sample_panel_def)
  have s: "status_line p' = Some (First_day_saved, False)" using week_saved e by simp
  from first_day_roundtrip[OF ok a e s, of 0 1] e show ?thesis by auto
qed

definition no_region :: regional_env where
  "no_region = \<lparr>file_contents = (\<lambda>_. None), file_link = (\<lambda>_. None), local_zone_identifier = None\<rparr>"

lemma legacy_new:
  "(case fst (ss_linux_date_time_panel_new True True True True no_region [] legacy_world) of None \<Rightarrow> False
    | Some p \<Rightarrow> recovery_failed p \<and> status_line p = Some (Migration_failed, True)) = True"
  by code_simp

theorem new_panel_ready_witness:
  "\<exists>p w'. ss_linux_date_time_panel_new True True True True no_region [] legacy_world = (Some p, w') \<and>
     recovery_failed p \<and> timers p = [] \<and> controller_ok p w'"
proof -
  obtain r w' where e: "ss_linux_date_time_panel_new True True True True no_region [] legacy_world = (r, w')" by (rule prod.exhaust)
  then obtain p where p: "r = Some p" "recovery_failed p" "status_line p = Some (Migration_failed, True)"
    using legacy_new by (auto split: option.splits)
  from new_panel_ready[OF legacy_ok e] p e show ?thesis by auto
qed

theorem free_releases_everything_witness:
  "\<exists>p' w'. ss_linux_date_time_panel_free (on_location_coordinate_changed sample_panel) sample_world = (p', w') \<and> timers p' = []"
proof -
  obtain p' w' where e: "ss_linux_date_time_panel_free (on_location_coordinate_changed sample_panel) sample_world = (p', w')"
    by (rule prod.exhaust)
  have "panel_idle (on_location_coordinate_changed sample_panel) sample_world"
    using sample_idle by (simp add: panel_idle_def on_location_coordinate_changed_def add_timer_def Let_def)
  then have "controller_ok (on_location_coordinate_changed sample_panel) sample_world"
    using sample_controller(1) coordinate_changed_ok[of sample_panel] by (simp add: controller_ok_def)
  from free_releases_everything[OF this e] e show ?thesis by blast
qed

end
