(* ===== verification/Counted.thy ===== *)
theory Counted
  imports "HOL-Library.Word" Prelude
begin

text \<open>
  Reference counting as the code does it by hand: an object with a counter of machine width, taken by
  \<open>retain\<close> and given back by \<open>release\<close>, which frees it (\<open>None\<close>) with its last reference. The locale is
  interpreted on \<open>SsSystemTimeService\<close> and on \<open>SsLinuxDateTimeLifetime\<close>.
\<close>

locale counted =
  fixes count :: "'a \<Rightarrow> nat"
    and retain :: "'a \<Rightarrow> 'a"
    and release :: "'a \<Rightarrow> 'a option"
    and limit :: nat
  assumes count_retain: "Suc (count x) < limit \<Longrightarrow> count (retain x) = Suc (count x)"
    and release_last: "count x = 1 \<Longrightarrow> release x = None"
    and release_more: "1 < count x \<Longrightarrow> \<exists>y. release x = Some y \<and> count y = count x - 1"
begin

text \<open>\<open>n\<close> references are out: the object is freed exactly when there are none.\<close>

definition held :: "'a option \<Rightarrow> nat \<Rightarrow> bool" where
  "held x n = (case x of None \<Rightarrow> n = 0 | Some y \<Rightarrow> 0 < n \<and> count y = n)"

lemma held_None [simp]: "held None n \<longleftrightarrow> n = 0"
  by (simp add: held_def)

lemma held_Some [simp]: "held (Some y) n \<longleftrightarrow> 0 < n \<and> count y = n"
  by (simp add: held_def)

lemma held_alive: "held x n \<Longrightarrow> x = None \<longleftrightarrow> n = 0"
  by (cases x) auto

lemma held_retain: "held (Some y) n \<Longrightarrow> Suc n < limit \<Longrightarrow> held (Some (retain y)) (Suc n)"
  by (simp add: count_retain)

lemma held_release: "held (Some y) (Suc n) \<Longrightarrow> held (release y) n"
  using release_last[of y] release_more[of y] by (cases n) auto

end

text \<open>The counters of the code are 32 bits wide.\<close>

lemma unat_inc32: "Suc (unat (x :: 32 word)) < 2 ^ 32 \<Longrightarrow> unat (x + 1) = Suc (unat x)"
  by (simp add: unat_word_ariths)

lemma unat_dec32: "0 < unat (x :: 32 word) \<Longrightarrow> unat (x - 1) = unat x - 1"
  by (metis One_nat_def Suc_pred less_numeral_extra(3) unat_0 unat_minus_one)

lemma dec_zero32: "x - 1 = (0 :: 32 word) \<longleftrightarrow> unat x = 1"
  by (metis diff_add_cancel add_0 unat_1 unsigned_word_eqI diff_self)

end
