(* ===== verification/SystemTimeService.thy ===== *)
theory SystemTimeService
  imports Counted PanelController
begin

text \<open>
  \<open>system-time-service.c\<close>: the client of systemd's timedated. A proxy is what D-Bus shows of the service
  (the owner of its name and the cached properties) with the handlers connected to it; a service is the
  structure the code allocates, \<open>None\<close> for a null pointer. A call of a completion callback is a value,
  \<open>Completion\<close>, that the caller runs, with the user data of the callback; a null callback is \<open>None\<close>.
\<close>

section \<open>Results\<close>

datatype system_time_result =
    RESULT_OK
  | RESULT_INVALID_ARGUMENT
  | RESULT_UNAVAILABLE
  | RESULT_CANCELLED
  | RESULT_PERMISSION_DENIED
  | RESULT_TRANSPORT_ERROR
  | RESULT_PROTOCOL_ERROR

definition ss_system_time_result_default_message :: "system_time_result \<Rightarrow> string option" where
  "ss_system_time_result_default_message r =
     (case r of
        RESULT_OK \<Rightarrow> None
      | RESULT_INVALID_ARGUMENT \<Rightarrow> Some ''The requested operating-system date/time value is invalid.''
      | RESULT_UNAVAILABLE \<Rightarrow> Some ''The operating-system date/time service is unavailable.''
      | RESULT_CANCELLED \<Rightarrow> Some ''The operating-system date/time request was cancelled.''
      | RESULT_PERMISSION_DENIED \<Rightarrow>
          Some ''Authorisation to change the operating-system date/time setting was denied.''
      | RESULT_TRANSPORT_ERROR \<Rightarrow> Some ''The operating-system date/time service could not be reached.''
      | RESULT_PROTOCOL_ERROR \<Rightarrow> Some ''The operating-system date/time service returned incompatible state.'')"

text \<open>A \<open>GError\<close>: its domain and code as far as the code tells them apart, the message, the remote name.\<close>

datatype error_code =
    IO_CANCELLED
  | DBUS_ACCESS_DENIED
  | DBUS_AUTH_FAILED
  | DBUS_INVALID_ARGS
  | DBUS_SERVICE_UNKNOWN
  | DBUS_NAME_HAS_NO_OWNER
  | DBUS_UNKNOWN_OBJECT
  | DBUS_UNKNOWN_INTERFACE
  | OTHER_ERROR nat

record gerror =
  ge_code :: error_code
  ge_message :: "string option"
  ge_remote :: "string option"

definition result_from_error :: "gerror option \<Rightarrow> system_time_result" where
  "result_from_error err =
     (case err of
        None \<Rightarrow> RESULT_OK
      | Some e \<Rightarrow>
          (case ge_code e of
             IO_CANCELLED \<Rightarrow> RESULT_CANCELLED
           | DBUS_ACCESS_DENIED \<Rightarrow> RESULT_PERMISSION_DENIED
           | DBUS_AUTH_FAILED \<Rightarrow> RESULT_PERMISSION_DENIED
           | DBUS_INVALID_ARGS \<Rightarrow> RESULT_INVALID_ARGUMENT
           | DBUS_SERVICE_UNKNOWN \<Rightarrow> RESULT_UNAVAILABLE
           | DBUS_NAME_HAS_NO_OWNER \<Rightarrow> RESULT_UNAVAILABLE
           | DBUS_UNKNOWN_OBJECT \<Rightarrow> RESULT_UNAVAILABLE
           | DBUS_UNKNOWN_INTERFACE \<Rightarrow> RESULT_UNAVAILABLE
           | OTHER_ERROR _ \<Rightarrow>
               (case ge_remote e of
                  None \<Rightarrow> RESULT_TRANSPORT_ERROR
                | Some r \<Rightarrow>
                    if r = ''org.freedesktop.DBus.Error.AccessDenied'' \<or>
                       r = ''org.freedesktop.PolicyKit1.Error.NotAuthorized'' \<or>
                       r = ''org.freedesktop.PolicyKit1.Error.Failed''
                    then RESULT_PERMISSION_DENIED else RESULT_TRANSPORT_ERROR)))"

definition result_message :: "system_time_result \<Rightarrow> gerror option \<Rightarrow> string option" where
  "result_message result err =
     (case err of
        None \<Rightarrow> ss_system_time_result_default_message result
      | Some e \<Rightarrow> (case ge_message e of
                    None \<Rightarrow> ss_system_time_result_default_message result
                  | Some m \<Rightarrow> if m \<noteq> [] then Some m else ss_system_time_result_default_message result))"

section \<open>The proxy and the state read from it\<close>

datatype variant = VBool bool | VString string | VOther

record proxy =
  name_owner :: "string option"
  cached_property :: "string \<Rightarrow> variant option"
  handlers :: "nat list"
  next_handler :: nat

definition variant_boolean :: "proxy option \<Rightarrow> string option \<Rightarrow> bool \<Rightarrow> bool" where
  "variant_boolean p name fallback =
     (case (p, name) of
        (Some q, Some n) \<Rightarrow> (case cached_property q n of Some (VBool b) \<Rightarrow> b | _ \<Rightarrow> fallback)
      | _ \<Rightarrow> fallback)"

record 'o service =
  references :: "32 word"
  proxy_of :: "proxy option"
  properties_changed_id :: nat
  owner_changed_id :: nat
  changed_callback :: "'o option"

definition cleared_state :: system_time_state where
  "cleared_state = \<lparr>st_timezone = [], st_available = False, st_can_ntp = False, st_ntp_enabled = False\<rparr>"

definition ss_system_time_service_read ::
  "'o service option \<Rightarrow> system_time_state option \<Rightarrow> system_time_result \<times> system_time_state option" where
  "ss_system_time_service_read service out =
     (case out of
        None \<Rightarrow> (RESULT_INVALID_ARGUMENT, None)
      | Some _ \<Rightarrow>
          (case Option.bind service proxy_of of
             None \<Rightarrow> (RESULT_UNAVAILABLE, Some cleared_state)
           | Some p \<Rightarrow>
               if name_owner p = None then (RESULT_UNAVAILABLE, Some cleared_state)
               else (case cached_property p ''NTP'' of
                       Some (VBool _) \<Rightarrow>
                         (case cached_property p ''Timezone'' of
                            Some (VString text) \<Rightarrow>
                              (let (copy, n) = strlcpy text SS_SYSTEM_TIMEZONE_CAPACITY in
                               if text = [] \<or> SS_SYSTEM_TIMEZONE_CAPACITY \<le> n
                               then (RESULT_PROTOCOL_ERROR, Some cleared_state)
                               else (RESULT_OK,
                                     Some \<lparr>st_timezone = copy, st_available = True,
                                           st_can_ntp = variant_boolean (Some p) (Some ''CanNTP'') False,
                                           st_ntp_enabled = variant_boolean (Some p) (Some ''NTP'') False\<rparr>))
                          | _ \<Rightarrow> (RESULT_PROTOCOL_ERROR, Some cleared_state))
                     | _ \<Rightarrow> (RESULT_PROTOCOL_ERROR, Some cleared_state))))"

text \<open>The state and the user data the observer is called with, if there is one.\<close>

definition emit_changed :: "'o service option \<Rightarrow> (system_time_state \<times> 'o) option" where
  "emit_changed service =
     (case Option.bind service changed_callback of
        None \<Rightarrow> None
      | Some user \<Rightarrow>
          (case snd (ss_system_time_service_read service (Some cleared_state)) of
             None \<Rightarrow> None
           | Some state \<Rightarrow> Some (state, user)))"

section \<open>Construction and release\<close>

definition g_signal_connect :: "proxy \<Rightarrow> nat \<times> proxy" where
  "g_signal_connect p = (next_handler p, p\<lparr>handlers := next_handler p # handlers p, next_handler := next_handler p + 1\<rparr>)"

definition g_signal_handler_disconnect :: "nat \<Rightarrow> proxy \<Rightarrow> proxy" where
  "g_signal_handler_disconnect i p = p\<lparr>handlers := remove1 i (handlers p)\<rparr>"

definition service_from_proxy :: "proxy option \<Rightarrow> 'o service option" where
  "service_from_proxy p =
     (case p of
        None \<Rightarrow> None
      | Some q \<Rightarrow>
          (let (i, q1) = g_signal_connect q; (j, q2) = g_signal_connect q1
           in Some \<lparr>references = 1, proxy_of = Some q2, properties_changed_id = i, owner_changed_id = j,
                    changed_callback = None\<rparr>))"

text \<open>
  Dropping a reference: the service that is left, \<open>None\<close> when it was the last one and the memory is
  freed, and then the proxy as the service leaves it.
\<close>

definition service_unref :: "'o service \<Rightarrow> 'o service option \<times> proxy option" where
  "service_unref s =
     (let s1 = s\<lparr>references := references s - 1\<rparr> in
      if references s1 \<noteq> 0 then (Some s1, None)
      else (None,
            (case proxy_of s of
               None \<Rightarrow> None
             | Some p \<Rightarrow>
                 (let p1 = (if properties_changed_id s \<noteq> 0
                            then g_signal_handler_disconnect (properties_changed_id s) p else p)
                  in Some (if owner_changed_id s \<noteq> 0
                           then g_signal_handler_disconnect (owner_changed_id s) p1 else p1)))))"

definition ss_system_time_service_free :: "'o service option \<Rightarrow> 'o service option \<times> proxy option" where
  "ss_system_time_service_free service =
     (case service of None \<Rightarrow> (None, None) | Some s \<Rightarrow> service_unref (s\<lparr>changed_callback := None\<rparr>))"

definition ss_system_time_service_set_changed_callback :: "'o service option \<Rightarrow> 'o option \<Rightarrow> 'o service option" where
  "ss_system_time_service_set_changed_callback service user =
     map_option (\<lambda>s. s\<lparr>changed_callback := user\<rparr>) service"

text \<open>
  The end of the construction: what the ready callback is given, or, without a callback, \<open>None\<close> and
  the service freed.
\<close>

definition new_proxy_finished ::
  "proxy option \<Rightarrow> gerror option \<Rightarrow> 'd option \<Rightarrow> ('o service option \<times> system_time_result \<times> string option \<times> 'd) option" where
  "new_proxy_finished p err cb =
     (let service = service_from_proxy p;
          outcome = (if err \<noteq> None then result_from_error err
                     else if service \<noteq> None then RESULT_OK else RESULT_PROTOCOL_ERROR)
      in map_option (\<lambda>d. (service, outcome, result_message outcome err, d)) cb)"

section \<open>Calls\<close>

text \<open>The parameters \<open>(sb)\<close>, \<open>(bb)\<close> and \<open>(xbb)\<close>.\<close>

datatype call_parameters = SB string bool | BB bool bool | XBB int bool bool

record 'd dbus_call =
  call_method :: string
  parameters_of :: call_parameters
  call_data :: "'d option"

datatype 'd completion = Completion system_time_result "string option" 'd

definition complete_immediately :: "system_time_result \<Rightarrow> 'd option \<Rightarrow> 'd completion option" where
  "complete_immediately result cb = map_option (Completion result (ss_system_time_result_default_message result)) cb"

text \<open>A request: the service after it and either the call handed to D-Bus or the completion that runs at once.\<close>

datatype 'd accepted = Called "'d dbus_call" | Completed "'d completion option"

definition begin_call ::
  "'o service option \<Rightarrow> string option \<Rightarrow> call_parameters option \<Rightarrow> 'd option \<Rightarrow> 'o service option \<times> 'd accepted" where
  "begin_call service method parameters cb =
     (case (method, parameters) of
        (Some m, Some ps) \<Rightarrow>
          (case service of
             None \<Rightarrow> (None, Completed (complete_immediately RESULT_UNAVAILABLE cb))
           | Some s \<Rightarrow>
               if proxy_of s = None then (Some s, Completed (complete_immediately RESULT_UNAVAILABLE cb))
               else (Some (s\<lparr>references := references s + 1\<rparr>),
                     Called \<lparr>call_method = m, parameters_of = ps, call_data = cb\<rparr>))
      | _ \<Rightarrow> (service, Completed (complete_immediately RESULT_INVALID_ARGUMENT cb)))"

text \<open>
  \<open>call_finished\<close> in two parts, because the callback runs between them: the arguments of the callback
  (\<open>reply\<close> is \<open>None\<close> for a reply and the error otherwise), and the release of the call's reference.
\<close>

definition call_finished_outcome :: "'d dbus_call \<Rightarrow> gerror option \<Rightarrow> 'd completion option" where
  "call_finished_outcome c reply =
     (let outcome = (if reply = None then RESULT_OK else result_from_error reply)
      in map_option (Completion outcome (result_message outcome reply)) (call_data c))"

definition call_finished_release :: "'o service \<Rightarrow> 'o service option \<times> proxy option" where
  "call_finished_release s = service_unref s"

definition ss_system_time_service_set_timezone_async ::
  "'o service option \<Rightarrow> string option \<Rightarrow> 'd option \<Rightarrow> 'o service option \<times> 'd accepted" where
  "ss_system_time_service_set_timezone_async service timezone cb =
     (case timezone of
        None \<Rightarrow> (service, Completed (complete_immediately RESULT_INVALID_ARGUMENT cb))
      | Some z \<Rightarrow>
          if z = [] then (service, Completed (complete_immediately RESULT_INVALID_ARGUMENT cb))
          else begin_call service (Some ''SetTimezone'') (Some (SB z True)) cb)"

definition ss_system_time_service_set_ntp_async ::
  "'o service option \<Rightarrow> bool \<Rightarrow> 'd option \<Rightarrow> 'o service option \<times> 'd accepted" where
  "ss_system_time_service_set_ntp_async service enabled cb =
     begin_call service (Some ''SetNTP'') (Some (BB enabled True)) cb"

definition ss_system_time_service_set_time_async ::
  "'o service option \<Rightarrow> int \<Rightarrow> 'd option \<Rightarrow> 'o service option \<times> 'd accepted" where
  "ss_system_time_service_set_time_async service unix_time_usec cb =
     begin_call service (Some ''SetTime'') (Some (XBB unix_time_usec False True)) cb"

section \<open>The life of a service\<close>

text \<open>
  One service and everything that can happen to it: the owner or a running callback asks for a change,
  D-Bus answers a call in any order, a callback returns, the owner observes or releases the service,
  timedated changes. \<open>awaiting\<close> are the calls without an answer, \<open>running\<close> counts the callbacks that have
  not returned, \<open>dropped\<close> is the proxy after the service is freed.
\<close>

record ('d, 'o) transport =
  memory :: "'o service option"
  client_holds :: bool
  awaiting :: "'d dbus_call list"
  running :: nat
  dropped :: "proxy option"

fun after_call :: "('d, 'o) transport \<Rightarrow> 'o service option \<times> 'd accepted \<Rightarrow> ('d, 'o) transport" where
  "after_call t (s, Called c) = t\<lparr>memory := s, awaiting := c # awaiting t\<rparr>"
| "after_call t (s, Completed c) = t\<lparr>memory := s\<rparr>"

definition after_release :: "('d, 'o) transport \<Rightarrow> 'o service option \<times> proxy option \<Rightarrow> ('d, 'o) transport" where
  "after_release t r = t\<lparr>memory := fst r, dropped := (if fst r = None then snd r else dropped t)\<rparr>"

inductive transport_step :: "('d, 'o) transport \<Rightarrow> ('d, 'o) transport \<Rightarrow> bool" where
  request: "client_holds t \<or> 0 < running t \<Longrightarrow> transport_step t (after_call t (begin_call (memory t) m ps cb))"
| answer: "c \<in> set (awaiting t) \<Longrightarrow>
    transport_step t (t\<lparr>awaiting := remove1 c (awaiting t), running := Suc (running t)\<rparr>)"
| returned: "0 < running t \<Longrightarrow> memory t = Some s \<Longrightarrow>
    transport_step t (after_release (t\<lparr>running := running t - 1\<rparr>) (call_finished_release s))"
| released: "client_holds t \<Longrightarrow>
    transport_step t (after_release (t\<lparr>client_holds := False\<rparr>) (ss_system_time_service_free (memory t)))"
| observed: "client_holds t \<Longrightarrow>
    transport_step t (t\<lparr>memory := ss_system_time_service_set_changed_callback (memory t) user\<rparr>)"
| changed: "transport_step t (t\<lparr>memory := map_option (\<lambda>s. s\<lparr>proxy_of :=
    map_option (\<lambda>p. p\<lparr>name_owner := n, cached_property := c\<rparr>) (proxy_of s)\<rparr>) (memory t)\<rparr>)"

inductive transport_run :: "nat \<Rightarrow> ('d, 'o) transport \<Rightarrow> ('d, 'o) transport \<Rightarrow> bool" where
  start: "transport_run 0 t t"
| step: "transport_run n t u \<Longrightarrow> transport_step u v \<Longrightarrow> transport_run (Suc n) t v"

definition new_transport :: "proxy \<Rightarrow> ('d, 'o) transport" where
  "new_transport p = \<lparr>memory = service_from_proxy (Some p), client_holds = True, awaiting = [], running = 0,
     dropped = None\<rparr>"

interpretation service_counted: counted "\<lambda>s. unat (references s)" "\<lambda>s. s\<lparr>references := references s + 1\<rparr>"
  "\<lambda>s. fst (service_unref s)" "2 ^ 32"
proof (unfold_locales, goal_cases)
  case (1 s)
  then show ?case by (simp add: unat_inc32)
next
  case (2 s)
  then have "references s - 1 = 0" by (simp only: dec_zero32)
  then show ?case by (simp add: service_unref_def)
next
  case (3 s)
  then have "references s - 1 \<noteq> 0" by (simp only: dec_zero32)
  with 3 show ?case by (simp add: service_unref_def Let_def unat_dec32)
qed

definition holders :: "('d, 'o) transport \<Rightarrow> nat" where
  "holders t = (if client_holds t then 1 else 0) + length (awaiting t) + running t"

definition observing :: "'o service \<Rightarrow> bool" where
  "observing s \<longleftrightarrow> properties_changed_id s \<noteq> 0 \<and> owner_changed_id s \<noteq> 0 \<and>
     properties_changed_id s \<noteq> owner_changed_id s \<and>
     (\<exists>p. proxy_of s = Some p \<and> handlers p = [owner_changed_id s, properties_changed_id s])"

definition transport_ok :: "nat \<Rightarrow> ('d, 'o) transport \<Rightarrow> bool" where
  "transport_ok n t \<longleftrightarrow> service_counted.held (memory t) (holders t) \<and> holders t \<le> Suc n \<and>
     (\<forall>s. memory t = Some s \<longrightarrow> observing s \<and> (\<not> client_holds t \<longrightarrow> changed_callback s = None)) \<and>
     (memory t = None \<longrightarrow> (\<exists>p. dropped t = Some p \<and> handlers p = []))"

lemma unref_dropped:
  "observing s \<Longrightarrow> service_unref s = (r, d) \<Longrightarrow>
     (if r = None then \<exists>p. d = Some p \<and> handlers p = [] else r = Some (s\<lparr>references := references s - 1\<rparr>))"
  by (auto simp: service_unref_def observing_def Let_def g_signal_handler_disconnect_def split: if_splits)

lemma observing_update [simp]:
  "observing (s\<lparr>references := r\<rparr>) = observing s"
  "observing (s\<lparr>changed_callback := c\<rparr>) = observing s"
  by (simp_all add: observing_def)

lemma release_ok:
  assumes held: "service_counted.held (Some s) (Suc (holders t))" and s: "observing s"
    and quiet: "\<not> client_holds t \<longrightarrow> changed_callback s = None" and n: "holders t \<le> Suc n"
  shows "transport_ok n (after_release t (service_unref s))"
proof -
  obtain r d where u: "service_unref s = (r, d)" by (rule prod.exhaust)
  have "service_counted.held r (holders t)" using service_counted.held_release[OF held] u by simp
  with unref_dropped[OF s u] s quiet n show ?thesis
    by (auto simp: transport_ok_def after_release_def u holders_def split: if_splits)
qed

lemma transport_step_ok:
  assumes "transport_step t u" "transport_ok n t" "Suc (Suc n) < 2 ^ 32"
  shows "transport_ok (Suc n) u"
  using assms(1)
proof cases
  case (request m ps cb)
  show ?thesis
  proof (cases "snd (begin_call (memory t) m ps cb)")
    case (Called c)
    then obtain s where s: "memory t = Some s" "begin_call (memory t) m ps cb = (Some (s\<lparr>references := references s + 1\<rparr>), Called c)"
      by (auto simp: begin_call_def split: option.splits if_splits)
    from assms(2) s(1) have h: "service_counted.held (Some s) (holders t)" "holders t \<le> Suc n"
      by (simp_all only: transport_ok_def)
    from service_counted.held_retain[OF h(1)] h(2) assms(3)
    have "service_counted.held (Some (s\<lparr>references := references s + 1\<rparr>)) (Suc (holders t))" by linarith
    with assms(2) s h(2) show ?thesis
      unfolding request s(2) by (simp only: transport_ok_def after_call.simps) (simp add: holders_def)
  next
    case (Completed c)
    then have "begin_call (memory t) m ps cb = (memory t, Completed c)"
      by (auto simp: begin_call_def split: option.splits if_splits)
    then have "u = t" using request by simp
    with assms(2) show ?thesis by (auto simp: transport_ok_def)
  qed
next
  case (answer c)
  then have "holders u = holders t"
    using length_pos_if_in_set[of c "awaiting t"] by (simp add: holders_def length_remove1)
  with answer assms(2) show ?thesis by (simp add: transport_ok_def)
next
  case (returned s)
  let ?t = "t\<lparr>running := running t - 1\<rparr>"
  have h: "holders t = Suc (holders ?t)" using returned by (simp add: holders_def)
  have o: "service_counted.held (Some s) (Suc (holders ?t))" "observing s"
    "\<not> client_holds ?t \<longrightarrow> changed_callback s = None" "holders ?t \<le> Suc (Suc n)"
    using assms(2) returned(3) h by (simp_all add: transport_ok_def)
  show ?thesis unfolding returned call_finished_release_def by (rule release_ok[OF o])
next
  case released
  have ne: "holders t \<noteq> 0" using released by (simp add: holders_def)
  then obtain s where s: "memory t = Some s"
    using assms(2) by (cases "memory t") (auto simp: transport_ok_def)
  let ?t = "t\<lparr>client_holds := False\<rparr>" and ?s = "s\<lparr>changed_callback := None\<rparr>"
  have h: "holders t = Suc (holders ?t)" using released by (simp add: holders_def)
  have o: "service_counted.held (Some ?s) (Suc (holders ?t))" "observing ?s"
    "\<not> client_holds ?t \<longrightarrow> changed_callback ?s = None" "holders ?t \<le> Suc (Suc n)"
    using assms(2) s h by (simp_all add: transport_ok_def)
  show ?thesis unfolding released s ss_system_time_service_free_def option.case by (rule release_ok[OF o])
next
  case (observed user)
  with assms(2) show ?thesis
    by (cases "memory t") (auto simp: transport_ok_def holders_def ss_system_time_service_set_changed_callback_def)
next
  case (changed n' c)
  with assms(2) show ?thesis
    by (cases "memory t") (auto simp: transport_ok_def holders_def observing_def)
qed

lemma new_transport_ok: "handlers p = [] \<Longrightarrow> 0 < next_handler p \<Longrightarrow> transport_ok 0 (new_transport p)"
  by (simp add: transport_ok_def new_transport_def service_from_proxy_def g_signal_connect_def Let_def
      holders_def observing_def)

lemma transport_run_ok: "transport_run n t u \<Longrightarrow> transport_ok 0 t \<Longrightarrow> Suc n < 2 ^ 32 \<Longrightarrow> transport_ok n u"
  by (induction rule: transport_run.induct) (auto intro: transport_step_ok)

text \<open>
  C8: whatever the owner, its callbacks and D-Bus do, in any order and within the range of the counter,
  the service is freed exactly when the owner has released it, every call has been answered and every
  callback has returned; no step reads it after that; its proxy is left with no handler connected; and
  once the owner has released it no change is reported any more.
\<close>

theorem service_lifetime:
  assumes "handlers p = []" "0 < next_handler p" "transport_run n (new_transport p) t" "Suc n < 2 ^ 32"
  shows "(memory t = None \<longleftrightarrow> \<not> client_holds t \<and> awaiting t = [] \<and> running t = 0) \<and>
    (memory t = None \<longrightarrow> (\<exists>q. dropped t = Some q \<and> handlers q = [])) \<and>
    (\<forall>s. memory t = Some s \<longrightarrow>
       unat (references s) = (if client_holds t then 1 else 0) + length (awaiting t) + running t) \<and>
    (\<not> client_holds t \<longrightarrow> emit_changed (memory t) = None)"
proof -
  have ok: "transport_ok n t" using transport_run_ok[OF assms(3) new_transport_ok[OF assms(1,2)] assms(4)] .
  then have "memory t = None \<longleftrightarrow> holders t = 0"
    using service_counted.held_alive by (auto simp: transport_ok_def)
  with ok show ?thesis
    by (cases "memory t") (auto simp: transport_ok_def holders_def emit_changed_def split: if_splits)
qed

definition sample_proxy :: proxy where
  "sample_proxy = \<lparr>name_owner = Some '':1.7'', cached_property = [''NTP'' \<mapsto> VBool False, ''Timezone'' \<mapsto> VString ''UTC'',
     ''CanNTP'' \<mapsto> VBool True], handlers = [], next_handler = 1\<rparr>"

text \<open>A zone is requested, the owner releases the service, and the answer arrives afterwards.\<close>

definition asked :: "(nat, nat) transport" where
  "asked = after_call (new_transport sample_proxy)
     (begin_call (memory (new_transport sample_proxy :: (nat, nat) transport)) (Some ''SetTimezone'') (Some (SB ''UTC'' True)) (Some 5))"

definition left_alone :: "(nat, nat) transport" where
  "left_alone = after_release (asked\<lparr>client_holds := False\<rparr>) (ss_system_time_service_free (memory asked))"

definition answered :: "(nat, nat) transport" where
  "answered = left_alone\<lparr>awaiting := remove1 (hd (awaiting left_alone)) (awaiting left_alone),
                         running := Suc (running left_alone)\<rparr>"

definition finished :: "(nat, nat) transport" where
  "finished = after_release (answered\<lparr>running := running answered - 1\<rparr>) (call_finished_release (the (memory answered)))"

lemma sample_service_run: "transport_run 4 (new_transport sample_proxy) finished"
proof -
  have 1: "transport_step (new_transport sample_proxy) asked"
    unfolding asked_def by (rule transport_step.request) (simp add: new_transport_def)
  have c: "client_holds asked" "hd (awaiting left_alone) \<in> set (awaiting left_alone)" "0 < running answered"
    "memory answered \<noteq> None" by code_simp+
  have 2: "transport_step asked left_alone"
    unfolding left_alone_def by (rule transport_step.released[OF c(1)])
  have 3: "transport_step left_alone answered"
    unfolding answered_def by (rule transport_step.answer[OF c(2)])
  obtain s where s: "memory answered = Some s" using c(4) by blast
  have 4: "transport_step answered finished"
    unfolding finished_def s option.sel by (rule transport_step.returned[OF c(3) s])
  have "transport_run (Suc (Suc (Suc (Suc 0)))) (new_transport sample_proxy) finished"
    by (rule transport_run.step[OF transport_run.step[OF transport_run.step[OF transport_run.step[OF
        transport_run.start 1] 2] 3] 4])
  then show ?thesis by (simp add: numeral_eq_Suc)
qed

theorem service_lifetime_witness:
  "memory finished = None \<and> emit_changed (memory finished) = None"
proof -
  have "\<not> client_holds finished \<and> awaiting finished = [] \<and> running finished = 0"
    by code_simp
  moreover have "handlers sample_proxy = []" "0 < next_handler sample_proxy" "Suc 4 < (2 :: nat) ^ 32"
    by (simp_all add: sample_proxy_def)
  ultimately show ?thesis using service_lifetime[OF _ _ sample_service_run] by blast
qed

section \<open>What is read\<close>

text \<open>
  C28: a read succeeds exactly when the service has an owner, a boolean NTP property and a non-empty zone
  that fits the buffer, and then returns them unchanged; in every other case the state is cleared, with
  \<open>UNAVAILABLE\<close> for a service that is not there and \<open>PROTOCOL_ERROR\<close> for one that answers something else.
\<close>

theorem service_read_exact:
  "ss_system_time_service_read service (Some old) = (result, Some state) \<longleftrightarrow>
   (if \<exists>s p. service = Some s \<and> proxy_of s = Some p \<and> name_owner p \<noteq> None
    then (let p = the (proxy_of (the service)) in
          if \<exists>b z. cached_property p ''NTP'' = Some (VBool b) \<and> cached_property p ''Timezone'' = Some (VString z) \<and>
                   z \<noteq> [] \<and> length z < 128
          then result = RESULT_OK \<and> st_available state \<and>
               cached_property p ''Timezone'' = Some (VString (st_timezone state)) \<and>
               cached_property p ''NTP'' = Some (VBool (st_ntp_enabled state)) \<and>
               (st_can_ntp state \<longleftrightarrow> cached_property p ''CanNTP'' = Some (VBool True))
          else result = RESULT_PROTOCOL_ERROR \<and> state = cleared_state)
    else result = RESULT_UNAVAILABLE \<and> state = cleared_state)"
  (is "?l = ?r")
proof (cases "\<exists>s p. service = Some s \<and> proxy_of s = Some p \<and> name_owner p \<noteq> None")
  case False
  then have "ss_system_time_service_read service (Some old) = (RESULT_UNAVAILABLE, Some cleared_state)"
    by (auto simp: ss_system_time_service_read_def split: option.splits bind_splits)
  with False show ?thesis by (simp only: if_False prod.inject option.inject) metis
next
  case True
  then obtain s p where s: "service = Some s" "proxy_of s = Some p" "name_owner p \<noteq> None" by blast
  show ?thesis
  proof (cases "\<exists>b z. cached_property p ''NTP'' = Some (VBool b) \<and> cached_property p ''Timezone'' = Some (VString z) \<and>
                   z \<noteq> [] \<and> length z < 128")
    case False
    then have "ss_system_time_service_read service (Some old) = (RESULT_PROTOCOL_ERROR, Some cleared_state)"
      using s by (auto simp: ss_system_time_service_read_def strlcpy_def SS_SYSTEM_TIMEZONE_CAPACITY_def
          split: option.splits variant.splits)
    with s True False show ?thesis by (simp add: Let_def) metis
  next
    case True2: True
    then obtain b z where z: "cached_property p ''NTP'' = Some (VBool b)" "cached_property p ''Timezone'' = Some (VString z)"
      "z \<noteq> []" "length z < 128" by blast
    have "ss_system_time_service_read service (Some old) = (RESULT_OK, Some \<lparr>st_timezone = z, st_available = True,
        st_can_ntp = variant_boolean (Some p) (Some ''CanNTP'') False, st_ntp_enabled = b\<rparr>)"
      using s z by (simp add: ss_system_time_service_read_def strlcpy_fits SS_SYSTEM_TIMEZONE_CAPACITY_def variant_boolean_def)
    moreover have "variant_boolean (Some p) (Some ''CanNTP'') False \<longleftrightarrow> cached_property p ''CanNTP'' = Some (VBool True)"
      by (auto simp: variant_boolean_def split: option.splits variant.splits)
    ultimately show ?thesis using s z True True2 by (cases state) (auto simp: Let_def)
  qed
qed

end
