(* ===== verification/SystemTimePanel.thy ===== *)
theory SystemTimePanel
  imports SystemTimeService PanelLoop
begin

text \<open>
  \<open>linux-date-time-system-time.c\<close>: the protected operations of the panel. The state puts the system-time
  part of the panel, its controller (PanelController) and the timedated service (SystemTimeService)
  together with the lifetime token that outstanding completions hold. The widgets are those of the built
  page. The controller's calls into this part are recorded in order and carried out when its handler
  has returned, which is when their effect can first be seen.
\<close>

section \<open>State\<close>

datatype system_time_operation = OPERATION_TIMEZONE | OPERATION_NTP | OPERATION_MANUAL

record lifetime =
  lt_references :: "32 word"
  lt_panel :: bool

record ui_request =
  rq_generation :: "32 word"
  rq_operation :: system_time_operation

record system_time_ui =
  overview_timezone :: string
  overview_sync :: string
  timezone_selected :: nat
  timezone_sensitive :: bool
  network_active :: bool
  network_sensitive :: bool
  manual_date :: string
  manual_time :: string
  manual_sensitive :: bool
  manual_row_visible :: bool
  manual_unavailable_visible :: bool
  has_service :: bool
  timezone_ids :: "string list option"
  timezone_strings :: "string list"
  service_cancellable :: "nat option"
  timezone_cancellable :: "nat option"
  ntp_cancellable :: "nat option"
  manual_time_cancellable :: "nat option"
  timezone_generation :: "32 word"
  ntp_generation :: "32 word"
  manual_time_generation :: "32 word"
  ui_updating :: bool
  manual_dirty :: bool

record date_time =
  ui :: system_time_ui
  controller :: panel
  outside :: world
  bus :: "(ui_request, unit) transport"
  life :: "lifetime option"
  connecting :: nat
  cancelled :: "nat list"
  next_cancellable :: nat

text \<open>
  What the code asks GLib and Common for: the present local time (its date in the form \<open>%Y-%m-%d\<close>, Unix
  microseconds, seconds east of UTC), the text of a clock system, the zone files, and the
  construction of a local time, whose fields may differ from the arguments at a change of the clock.
\<close>

record local_time =
  lt_year :: int
  lt_month :: int
  lt_day :: int
  lt_hour :: int
  lt_minute :: int
  lt_second :: int
  lt_unix :: int

record time_env =
  te_now :: "(string option \<times> int \<times> int) option"
  te_clock :: "string \<Rightarrow> int \<Rightarrow> int \<Rightarrow> bool \<Rightarrow> string option"
  te_zones :: regional_env
  te_zones_locked :: regional_env
  te_local :: "int \<Rightarrow> int \<Rightarrow> int \<Rightarrow> int \<Rightarrow> int \<Rightarrow> double \<Rightarrow> local_time option"

section \<open>The lifetime token\<close>

definition ss_linux_date_time_lifetime_new :: lifetime where
  "ss_linux_date_time_lifetime_new = \<lparr>lt_references = 1, lt_panel = True\<rparr>"

definition ss_linux_date_time_lifetime_ref :: "lifetime \<Rightarrow> lifetime" where
  "ss_linux_date_time_lifetime_ref l = l\<lparr>lt_references := lt_references l + 1\<rparr>"

definition ss_linux_date_time_lifetime_invalidate :: "lifetime option \<Rightarrow> lifetime option" where
  "ss_linux_date_time_lifetime_invalidate l = map_option (\<lambda>x. x\<lparr>lt_panel := False\<rparr>) l"

definition ss_linux_date_time_lifetime_unref :: "lifetime \<Rightarrow> lifetime option" where
  "ss_linux_date_time_lifetime_unref l =
     (let l1 = l\<lparr>lt_references := lt_references l - 1\<rparr> in if lt_references l1 = 0 then None else Some l1)"

definition ss_linux_date_time_lifetime_get_panel :: "lifetime option \<Rightarrow> bool" where
  "ss_linux_date_time_lifetime_get_panel l = (case l of None \<Rightarrow> False | Some x \<Rightarrow> lt_panel x)"

definition lifetime_ref :: "date_time \<Rightarrow> date_time" where
  "lifetime_ref d = d\<lparr>life := map_option ss_linux_date_time_lifetime_ref (life d)\<rparr>"

definition lifetime_unref :: "date_time \<Rightarrow> date_time" where
  "lifetime_unref d = d\<lparr>life := Option.bind (life d) ss_linux_date_time_lifetime_unref\<rparr>"

definition status :: "message \<Rightarrow> bool \<Rightarrow> date_time \<Rightarrow> date_time" where
  "status m error d = d\<lparr>controller := ss_linux_date_time_panel_set_status (controller d) m error\<rparr>"

section \<open>Reading the service\<close>

definition service_of :: "date_time \<Rightarrow> unit service option" where
  "service_of d = (if has_service (ui d) then memory (bus d) else None)"

definition ss_linux_date_time_panel_read_system_time :: "date_time \<Rightarrow> system_time_state option" where
  "ss_linux_date_time_panel_read_system_time d =
     (if \<not> has_service (ui d) then None
      else (case ss_system_time_service_read (service_of d) (Some cleared_state) of
              (RESULT_OK, s) \<Rightarrow> s | _ \<Rightarrow> None))"

fun index_of_id :: "string list \<Rightarrow> string \<Rightarrow> nat \<Rightarrow> nat option" where
  "index_of_id [] z i = None"
| "index_of_id (y # ys) z i = (if y = z then Some i else index_of_id ys z (i + 1))"

definition timezone_index_for_id :: "system_time_ui \<Rightarrow> string option \<Rightarrow> nat option" where
  "timezone_index_for_id u zone =
     (case (timezone_ids u, zone) of (Some ids, Some z) \<Rightarrow> index_of_id ids z 0 | _ \<Rightarrow> None)"

definition manual_representation_supported :: "panel \<Rightarrow> bool" where
  "manual_representation_supported p =
     (case ss_date_time_model_policy (model p) of
        None \<Rightarrow> False
      | Some q \<Rightarrow> calendar q = ''gregorian'' \<and> ss_manual_time_mode_supported (Some (clock_mode q)))"

definition format_manual_clock_resource ::
  "time_env \<Rightarrow> string option \<Rightarrow> bool \<Rightarrow> int \<Rightarrow> int \<Rightarrow> bool \<Rightarrow> string option" where
  "format_manual_clock_resource E mode desktop_use_24h instant offset seconds =
     (case mode of
        None \<Rightarrow> None
      | Some m \<Rightarrow>
          te_clock E (if m = ''standard'' then ss_native_clock_mode_id desktop_use_24h else m) instant offset seconds)"

definition fill_manual_time_entries :: "time_env \<Rightarrow> date_time \<Rightarrow> date_time" where
  "fill_manual_time_entries E d =
     (case (ss_date_time_model_policy (model (controller d)), te_now E) of
        (Some q, Some (date, instant, offset)) \<Rightarrow>
          if \<not> manual_representation_supported (controller d) then d
          else
            (let u = ui d;
                 u1 = (case date of None \<Rightarrow> u | Some t \<Rightarrow> u\<lparr>manual_date := t\<rparr>);
                 desktop = ss_linux_date_time_panel_desktop_uses_24h (lib (outside d)) (kern (outside d)) (controller d);
                 u2 = (case format_manual_clock_resource E (Some (clock_mode q)) desktop instant offset (show_seconds q) of
                         None \<Rightarrow> u1 | Some t \<Rightarrow> u1\<lparr>manual_time := t\<rparr>)
             in d\<lparr>ui := u2\<rparr>)
      | _ \<Rightarrow> d)"

section \<open>Following the service\<close>

definition protected_operation_active :: "system_time_ui \<Rightarrow> bool" where
  "protected_operation_active u \<longleftrightarrow>
     timezone_cancellable u \<noteq> None \<or> ntp_cancellable u \<noteq> None \<or> manual_time_cancellable u \<noteq> None"

definition sync_unavailable :: "system_time_ui \<Rightarrow> system_time_ui" where
  "sync_unavailable u = u\<lparr>timezone_sensitive := False, network_sensitive := False, manual_row_visible := False,
     manual_unavailable_visible := False, overview_timezone := ''Unavailable'', overview_sync := ''Unavailable''\<rparr>"

definition sync_zone :: "string \<Rightarrow> system_time_ui \<Rightarrow> system_time_ui" where
  "sync_zone zone u =
     (case timezone_index_for_id u (Some zone) of
        Some i \<Rightarrow> u\<lparr>timezone_selected := i\<rparr>
      | None \<Rightarrow>
          (case timezone_ids u of
             None \<Rightarrow> u
           | Some ids \<Rightarrow> u\<lparr>timezone_ids := Some (ids @ [zone]), timezone_strings := timezone_strings u @ [zone],
                           timezone_selected := length ids\<rparr>))"

definition sync_manual :: "time_env \<Rightarrow> system_time_state \<Rightarrow> date_time \<Rightarrow> date_time" where
  "sync_manual E s d =
     (let u = ui d;
          supported = manual_representation_supported (controller d);
          visible = (\<not> st_ntp_enabled s \<and> supported);
          u1 = u\<lparr>manual_row_visible := visible, manual_unavailable_visible := \<not> st_ntp_enabled s \<and> \<not> supported\<rparr>
      in if \<not> visible then d\<lparr>ui := u1\<lparr>manual_dirty := False\<rparr>\<rparr>
         else (let d1 = d\<lparr>ui := u1\<lparr>manual_sensitive := \<not> protected_operation_active u1\<rparr>\<rparr>
               in if \<not> manual_dirty (ui d1) then fill_manual_time_entries E d1 else d1))"

definition ss_linux_date_time_system_time_sync :: "time_env \<Rightarrow> date_time \<Rightarrow> date_time" where
  "ss_linux_date_time_system_time_sync E d =
     (case ss_linux_date_time_panel_read_system_time d of
        None \<Rightarrow> d\<lparr>ui := sync_unavailable (ui d)\<rparr>
      | Some s \<Rightarrow>
          (let u1 = (ui d)\<lparr>ui_updating := True,
                          overview_timezone := (if st_timezone s \<noteq> [] then st_timezone s else ''Unknown''),
                          overview_sync := (if st_ntp_enabled s then ''Automatic'' else ''Manual'')\<rparr>;
               u2 = (sync_zone (st_timezone s) u1)\<lparr>network_active := st_ntp_enabled s\<rparr>;
               d3 = sync_manual E s (d\<lparr>ui := u2\<rparr>);
               active = protected_operation_active (ui d3)
           in d3\<lparr>ui := (ui d3)\<lparr>timezone_sensitive := \<not> active,
                               network_sensitive := st_can_ntp s \<and> \<not> active, ui_updating := False\<rparr>\<rparr>))"

definition ss_linux_date_time_system_time_invalidate_manual_draft :: "date_time \<Rightarrow> date_time" where
  "ss_linux_date_time_system_time_invalidate_manual_draft d = d\<lparr>ui := (ui d)\<lparr>manual_dirty := False\<rparr>\<rparr>"

text \<open>The calls a handler of the controller has made, carried out.\<close>

definition carry_out :: "time_env \<Rightarrow> panel_call \<Rightarrow> date_time \<Rightarrow> date_time" where
  "carry_out E c d =
     (case c of
        System_time_sync \<Rightarrow> ss_linux_date_time_system_time_sync E d
      | Invalidate_manual_draft \<Rightarrow> ss_linux_date_time_system_time_invalidate_manual_draft d
      | Preview_restart \<Rightarrow> d
      | Preview_refresh \<Rightarrow> d)"

definition deliver :: "time_env \<Rightarrow> panel \<Rightarrow> world \<Rightarrow> date_time \<Rightarrow> date_time" where
  "deliver E p w d = List.fold (carry_out E) (calls p) (d\<lparr>controller := p\<lparr>calls := []\<rparr>, outside := w\<rparr>)"

definition system_time_changed :: "time_env \<Rightarrow> system_time_state option \<Rightarrow> date_time \<Rightarrow> date_time" where
  "system_time_changed E system_state d =
     (let (p, w) = ss_linux_date_time_panel_reconcile_system_time_change system_state
                     (ss_linux_date_time_panel_read_system_time d) (te_zones E) (te_zones_locked E)
                     (controller d) (outside d)
      in deliver E p w d)"

section \<open>Protected operations\<close>

definition operation_generation :: "system_time_operation \<Rightarrow> system_time_ui \<Rightarrow> 32 word" where
  "operation_generation op u =
     (case op of OPERATION_TIMEZONE \<Rightarrow> timezone_generation u | OPERATION_NTP \<Rightarrow> ntp_generation u
               | OPERATION_MANUAL \<Rightarrow> manual_time_generation u)"

definition operation_cancellable :: "system_time_operation \<Rightarrow> system_time_ui \<Rightarrow> nat option" where
  "operation_cancellable op u =
     (case op of OPERATION_TIMEZONE \<Rightarrow> timezone_cancellable u | OPERATION_NTP \<Rightarrow> ntp_cancellable u
               | OPERATION_MANUAL \<Rightarrow> manual_time_cancellable u)"

definition put_cancellable :: "system_time_operation \<Rightarrow> nat option \<Rightarrow> system_time_ui \<Rightarrow> system_time_ui" where
  "put_cancellable op c u =
     (case op of OPERATION_TIMEZONE \<Rightarrow> u\<lparr>timezone_cancellable := c\<rparr> | OPERATION_NTP \<Rightarrow> u\<lparr>ntp_cancellable := c\<rparr>
               | OPERATION_MANUAL \<Rightarrow> u\<lparr>manual_time_cancellable := c\<rparr>)"

definition next_generation :: "system_time_operation \<Rightarrow> system_time_ui \<Rightarrow> system_time_ui" where
  "next_generation op u =
     (case op of OPERATION_TIMEZONE \<Rightarrow> u\<lparr>timezone_generation := timezone_generation u + 1\<rparr>
               | OPERATION_NTP \<Rightarrow> u\<lparr>ntp_generation := ntp_generation u + 1\<rparr>
               | OPERATION_MANUAL \<Rightarrow> u\<lparr>manual_time_generation := manual_time_generation u + 1\<rparr>)"

definition begin_system_time_operation :: "system_time_operation \<Rightarrow> date_time \<Rightarrow> ui_request option \<times> date_time" where
  "begin_system_time_operation op d =
     (let u = ui d in
      if (op \<noteq> OPERATION_TIMEZONE \<and> timezone_cancellable u \<noteq> None) \<or>
         (op \<noteq> OPERATION_NTP \<and> ntp_cancellable u \<noteq> None) \<or>
         (op \<noteq> OPERATION_MANUAL \<and> manual_time_cancellable u \<noteq> None)
      then (None, d)
      else
        (let d1 = (case operation_cancellable op u of
                     None \<Rightarrow> d
                   | Some c \<Rightarrow> d\<lparr>cancelled := c # cancelled d, ui := put_cancellable op None u\<rparr>);
             d2 = d1\<lparr>ui := next_generation op (put_cancellable op (Some (next_cancellable d1)) (ui d1)),
                     next_cancellable := next_cancellable d1 + 1\<rparr>;
             d3 = lifetime_ref d2
         in (Some \<lparr>rq_generation = operation_generation op (ui d3), rq_operation = op\<rparr>, d3)))"

text \<open>\<open>error_message\<close>, or the default message of the result.\<close>

definition completion_message :: "system_time_result \<Rightarrow> string option \<Rightarrow> string option" where
  "completion_message result msg = (if msg \<noteq> None then msg else ss_system_time_result_default_message result)"

definition system_time_operation_complete ::
  "time_env \<Rightarrow> system_time_result \<Rightarrow> string option \<Rightarrow> ui_request \<Rightarrow> date_time \<Rightarrow> date_time" where
  "system_time_operation_complete E result msg request d =
     (let op = rq_operation request;
          d1 = (if ss_linux_date_time_lifetime_get_panel (life d) \<and> rq_generation request = operation_generation op (ui d)
                then
                  (let d2 = d\<lparr>ui := put_cancellable op None (ui d)\<rparr> in
                   if result = RESULT_OK
                   then
                     (let d3 = ss_linux_date_time_system_time_invalidate_manual_draft d2;
                          observed = (if op = OPERATION_TIMEZONE
                                      then (case ss_linux_date_time_panel_read_system_time d3 of
                                              None \<Rightarrow> None
                                            | Some s \<Rightarrow> if st_timezone s \<noteq> [] then Some (st_timezone s) else None)
                                      else None);
                          (out_of_sync, p) =
                            ss_linux_date_time_panel_system_time_operation_applied (op = OPERATION_TIMEZONE) observed
                              (te_zones E) (lib_glib (lib (outside d3))) (controller d3);
                          d4 = deliver E p (outside d3) d3
                      in status (if out_of_sync then Zone_changed_metadata_behind else System_settings_updated)
                           out_of_sync d4)
                   else status (Operation_failed (completion_message result msg)) True
                          (ss_linux_date_time_system_time_sync E d2))
                else d)
      in lifetime_unref d1)"

text \<open>Handing a request to the service: D-Bus has the call, or the completion runs at once.\<close>

definition submit :: "time_env \<Rightarrow> (unit service option \<Rightarrow> ui_request option \<Rightarrow> unit service option \<times> ui_request accepted) \<Rightarrow>
    ui_request \<Rightarrow> date_time \<Rightarrow> date_time" where
  "submit E ask request d =
     (let (s, a) = ask (service_of d) (Some request);
          d1 = (if has_service (ui d) then d\<lparr>bus := after_call (bus d) (s, a)\<rparr> else d)
      in case a of
           Called _ \<Rightarrow> d1
         | Completed None \<Rightarrow> d1
         | Completed (Some (Completion result msg r)) \<Rightarrow> system_time_operation_complete E result msg r d1)"

definition request_system_timezone :: "time_env \<Rightarrow> string \<Rightarrow> date_time \<Rightarrow> date_time" where
  "request_system_timezone E zone d =
     (if \<not> has_service (ui d) \<or> zone = [] then d
      else
        (case begin_system_time_operation OPERATION_TIMEZONE d of
           (None, d1) \<Rightarrow> status Operation_pending True (ss_linux_date_time_system_time_sync E d1)
         | (Some request, d1) \<Rightarrow>
             submit E (\<lambda>s. ss_system_time_service_set_timezone_async s (Some zone)) request
               (status Zone_updating False (ss_linux_date_time_system_time_sync E d1))))"

definition on_timezone_changed :: "time_env \<Rightarrow> date_time \<Rightarrow> date_time" where
  "on_timezone_changed E d =
     (if ui_updating (ui d) then d
      else (case timezone_ids (ui d) of
              None \<Rightarrow> d
            | Some ids \<Rightarrow>
                if length ids \<le> timezone_selected (ui d) then d
                else request_system_timezone E (ids ! timezone_selected (ui d)) d))"

definition on_network_time_changed :: "time_env \<Rightarrow> date_time \<Rightarrow> date_time" where
  "on_network_time_changed E d =
     (if ui_updating (ui d) \<or> \<not> has_service (ui d) then d
      else
        (let enabled = network_active (ui d) in
         case begin_system_time_operation OPERATION_NTP d of
           (None, d1) \<Rightarrow> status Operation_pending True (ss_linux_date_time_system_time_sync E d1)
         | (Some request, d1) \<Rightarrow>
             submit E (\<lambda>s. ss_system_time_service_set_ntp_async s enabled) request
               (status (Network_time_changing enabled) False (ss_linux_date_time_system_time_sync E d1))))"


section \<open>The manual entry\<close>

text \<open>\<open>sscanf\<close> with a conversion \<open>%<width>d\<close>: blanks, a sign and at least one digit, the sign counted in the width.\<close>

fun scan_digits :: "nat \<Rightarrow> string \<Rightarrow> int \<Rightarrow> int \<times> string" where
  "scan_digits 0 s acc = (acc, s)"
| "scan_digits (Suc n) [] acc = (acc, [])"
| "scan_digits (Suc n) (c # s) acc =
     (if is_digit c then scan_digits n s (10 * acc + int (digit_value c)) else (acc, c # s))"

definition scan_int :: "nat \<Rightarrow> string \<Rightarrow> (int \<times> string) option" where
  "scan_int width s =
     (case dropWhile is_space s of
        [] \<Rightarrow> None
      | c # r \<Rightarrow>
          if c = CHR ''-'' \<or> c = CHR ''+''
          then (if width < 2 \<or> \<not> is_digit (char_at r 0) then None
                else (let (v, rest) = scan_digits (width - 1) r 0
                      in Some (if c = CHR ''-'' then - v else v, rest)))
          else if is_digit c then Some (scan_digits width (c # r) 0)
          else None)"

definition scan_dash :: "string \<Rightarrow> string option" where
  "scan_dash s = (case s of [] \<Rightarrow> None | c # r \<Rightarrow> if c = CHR ''-'' then Some r else None)"

text \<open>The three numbers when \<open>sscanf\<close> with \<open>%4d-%2d-%2d%c\<close> makes three conversions, no more and no fewer.\<close>

definition scan_date :: "string \<Rightarrow> (int \<times> int \<times> int) option" where
  "scan_date s =
     (case scan_int 4 s of
        None \<Rightarrow> None
      | Some (y, r1) \<Rightarrow>
          (case Option.bind (scan_dash r1) (scan_int 2) of
             None \<Rightarrow> None
           | Some (m, r2) \<Rightarrow>
               (case Option.bind (scan_dash r2) (scan_int 2) of
                  None \<Rightarrow> None
                | Some (d, r3) \<Rightarrow> if r3 = [] then Some (y, m, d) else None)))"

definition date_shape :: "string \<Rightarrow> bool" where
  "date_shape s \<longleftrightarrow> length s = 10 \<and> char_at s 4 = CHR ''-'' \<and> char_at s 7 = CHR ''-'' \<and>
     list_all (\<lambda>c. is_digit c \<or> c = CHR ''-'') s"

definition G_USEC_PER_SEC :: int where "G_USEC_PER_SEC = 1000000"

text \<open>The local time of a date and a time of day, \<open>None\<close> when there is none or it reads differently.\<close>

definition local_instant :: "time_env \<Rightarrow> int \<Rightarrow> int \<Rightarrow> int \<Rightarrow> int \<Rightarrow> int option" where
  "local_instant E year month day us =
     (let whole = us div G_USEC_PER_SEC;
          hour = whole div 3600;
          minute = whole mod 3600 div 60;
          seconds = dadd (Fin (of_int (whole mod 60))) (round64 (of_int (us mod G_USEC_PER_SEC) / of_int G_USEC_PER_SEC))
      in case te_local E year month day hour minute seconds of
           None \<Rightarrow> None
         | Some v \<Rightarrow>
             if lt_year v \<noteq> year \<or> lt_month v \<noteq> month \<or> lt_day v \<noteq> day \<or>
                lt_hour v \<noteq> hour \<or> lt_minute v \<noteq> minute \<or> lt_second v \<noteq> whole mod 60
             then None
             else Some (lt_unix v * G_USEC_PER_SEC + us mod G_USEC_PER_SEC))"

definition parse_manual_datetime :: "time_env \<Rightarrow> linux_lib \<Rightarrow> kernel \<Rightarrow> panel \<Rightarrow> string \<Rightarrow> string \<Rightarrow> int option" where
  "parse_manual_datetime E L k p date_text time_text =
     (if \<not> manual_representation_supported p \<or> \<not> date_shape date_text then None
      else
        (case (scan_date date_text, ss_date_time_model_policy (model p)) of
           (Some (year, month, day), Some q) \<Rightarrow>
             (case ss_manual_time_parse (lib_common L) (Some (clock_mode q))
                     (ss_linux_date_time_panel_desktop_uses_24h L k p) (Some time_text) of
                None \<Rightarrow> None
              | Some us \<Rightarrow>
                  if year < 1970 \<or> 9999 < year \<or> month < 1 \<or> 12 < month \<or> day < 1 \<or> 31 < day then None
                  else local_instant E year month day us)
         | _ \<Rightarrow> None))"

definition on_manual_entry_changed :: "date_time \<Rightarrow> date_time" where
  "on_manual_entry_changed d =
     (if \<not> ui_updating (ui d) then d\<lparr>ui := (ui d)\<lparr>manual_dirty := True\<rparr>\<rparr> else d)"

definition on_manual_set_time_clicked :: "time_env \<Rightarrow> date_time \<Rightarrow> date_time" where
  "on_manual_set_time_clicked E d =
     (if \<not> has_service (ui d) then d
      else
        (case parse_manual_datetime E (lib (outside d)) (kern (outside d)) (controller d)
                (manual_date (ui d)) (manual_time (ui d)) of
           None \<Rightarrow> status Manual_entry_invalid True d
         | Some usec \<Rightarrow>
             (case begin_system_time_operation OPERATION_MANUAL d of
                (None, d1) \<Rightarrow> status Operation_pending True d1
              | (Some request, d1) \<Rightarrow>
                  submit E (\<lambda>s. ss_system_time_service_set_time_async s usec) request
                    (status Manual_time_setting False (ss_linux_date_time_system_time_sync E d1)))))"

section \<open>Life of the service\<close>

definition release_service :: "unit service option \<Rightarrow> date_time \<Rightarrow> date_time" where
  "release_service s d =
     (case s of None \<Rightarrow> d
      | Some _ \<Rightarrow> d\<lparr>bus := after_release ((bus d)\<lparr>client_holds := False\<rparr>) (ss_system_time_service_free s)\<rparr>)"

definition system_time_service_ready ::
  "time_env \<Rightarrow> unit service option \<Rightarrow> system_time_result \<Rightarrow> string option \<Rightarrow> date_time \<Rightarrow> date_time" where
  "system_time_service_ready E service result msg d =
     (if \<not> ss_linux_date_time_lifetime_get_panel (life d) then lifetime_unref (release_service service d)
      else
        (let d1 = d\<lparr>ui := (ui d)\<lparr>service_cancellable := None\<rparr>\<rparr> in
         if service = None \<or> result \<noteq> RESULT_OK
         then lifetime_unref (status (Operation_failed (completion_message result msg)) True d1)
         else
           (let d2 = d1\<lparr>ui := (ui d1)\<lparr>has_service := True\<rparr>,
                        bus := (bus d1)\<lparr>memory := ss_system_time_service_set_changed_callback service (Some ())\<rparr>\<rparr>;
                d3 = ss_linux_date_time_system_time_sync E d2;
                (initial_result, _) = ss_system_time_service_read (service_of d3) (Some cleared_state)
            in lifetime_unref
                 (if initial_result \<noteq> RESULT_OK
                  then status (Operation_failed (ss_system_time_result_default_message initial_result)) True d3
                  else d3\<lparr>controller := ss_linux_date_time_panel_system_time_service_ready (controller d3)\<rparr>))))"

definition ss_linux_date_time_system_time_start :: "date_time \<Rightarrow> date_time" where
  "ss_linux_date_time_system_time_start d =
     (if life d = None \<or> service_cancellable (ui d) \<noteq> None \<or> has_service (ui d) then d
      else lifetime_ref (d\<lparr>ui := (ui d)\<lparr>service_cancellable := Some (next_cancellable d)\<rparr>,
                            next_cancellable := next_cancellable d + 1, connecting := Suc (connecting d)\<rparr>))"

definition cancel_all :: "nat option list \<Rightarrow> nat list" where
  "cancel_all cs = List.map_filter (\<lambda>c. c) cs"

definition ss_linux_date_time_system_time_dispose :: "date_time \<Rightarrow> date_time" where
  "ss_linux_date_time_system_time_dispose d =
     (let u = ui d;
          stopped = cancel_all [service_cancellable u, timezone_cancellable u, ntp_cancellable u, manual_time_cancellable u];
          d1 = release_service (service_of d)
                 (d\<lparr>cancelled := stopped @ cancelled d,
                    ui := u\<lparr>service_cancellable := None, timezone_cancellable := None, ntp_cancellable := None,
                            manual_time_cancellable := None, timezone_ids := None\<rparr>\<rparr>)
      in d1\<lparr>ui := (ui d1)\<lparr>has_service := False\<rparr>\<rparr>)"

text \<open>\<open>ss_linux_date_time_panel_free\<close> with the parts of it that belong to the operations.\<close>

definition panel_free :: "date_time \<Rightarrow> date_time" where
  "panel_free d =
     (let d1 = ss_linux_date_time_system_time_dispose (d\<lparr>life := ss_linux_date_time_lifetime_invalidate (life d)\<rparr>);
          (p, w) = ss_linux_date_time_panel_free (controller d1) (outside d1)
      in lifetime_unref (d1\<lparr>controller := p, outside := w\<rparr>))"


section \<open>The running panel\<close>

definition alive :: "date_time \<Rightarrow> bool" where
  "alive d \<longleftrightarrow> ss_linux_date_time_lifetime_get_panel (life d)"

text \<open>D-Bus answers a call: its completion runs, and then the call's reference to the service is dropped.\<close>

definition complete_call :: "time_env \<Rightarrow> ui_request dbus_call \<Rightarrow> gerror option \<Rightarrow> date_time \<Rightarrow> date_time" where
  "complete_call E c reply d =
     (let d1 = d\<lparr>bus := (bus d)\<lparr>awaiting := remove1 c (awaiting (bus d)), running := Suc (running (bus d))\<rparr>\<rparr>;
          d2 = (case call_finished_outcome c reply of
                  None \<Rightarrow> d1
                | Some (Completion result msg request) \<Rightarrow> system_time_operation_complete E result msg request d1)
      in case memory (bus d2) of
           None \<Rightarrow> d2
         | Some s \<Rightarrow> d2\<lparr>bus := after_release ((bus d2)\<lparr>running := running (bus d2) - 1\<rparr>) (call_finished_release s)\<rparr>)"

text \<open>The proxy changes and the observer of the service is told, if there is one.\<close>

definition service_signal ::
  "time_env \<Rightarrow> string option \<Rightarrow> (string \<Rightarrow> variant option) \<Rightarrow> date_time \<Rightarrow> date_time" where
  "service_signal E owner properties d =
     (let d1 = d\<lparr>bus := (bus d)\<lparr>memory := map_option (\<lambda>s. s\<lparr>proxy_of :=
                 map_option (\<lambda>p. p\<lparr>name_owner := owner, cached_property := properties\<rparr>) (proxy_of s)\<rparr>)
                 (memory (bus d))\<rparr>\<rparr>
      in case emit_changed (memory (bus d1)) of
           None \<Rightarrow> d1
         | Some (state, _) \<Rightarrow> system_time_changed E (Some state) d1)"

definition service_arrives :: "time_env \<Rightarrow> proxy option \<Rightarrow> gerror option \<Rightarrow> date_time \<Rightarrow> date_time" where
  "service_arrives E p err d =
     (case new_proxy_finished p err (Some ()) of
        None \<Rightarrow> d
      | Some (service, outcome, msg, _) \<Rightarrow>
          system_time_service_ready E service outcome msg
            (d\<lparr>connecting := connecting d - 1,
               bus := \<lparr>memory = service, client_holds = (service \<noteq> None), awaiting = [], running = 0, dropped = None\<rparr>\<rparr>))"

inductive date_time_step :: "date_time \<Rightarrow> date_time \<Rightarrow> bool" where
  zone: "alive d \<Longrightarrow> date_time_step d (on_timezone_changed E (d\<lparr>ui := (ui d)\<lparr>timezone_selected := n\<rparr>\<rparr>))"
| network: "alive d \<Longrightarrow> date_time_step d (on_network_time_changed E (d\<lparr>ui := (ui d)\<lparr>network_active := b\<rparr>\<rparr>))"
| entry: "alive d \<Longrightarrow>
    date_time_step d (on_manual_entry_changed (d\<lparr>ui := (ui d)\<lparr>manual_date := x, manual_time := y\<rparr>\<rparr>))"
| set_time: "alive d \<Longrightarrow> date_time_step d (on_manual_set_time_clicked E d)"
| answered: "c \<in> set (awaiting (bus d)) \<Longrightarrow> date_time_step d (complete_call E c reply d)"
| signalled: "date_time_step d (service_signal E owner properties d)"
| arrived: "0 < connecting d \<Longrightarrow> (err = None) = (p \<noteq> None) \<Longrightarrow>
    (\<forall>q. p = Some q \<longrightarrow> handlers q = [] \<and> 0 < next_handler q) \<Longrightarrow> date_time_step d (service_arrives E p err d)"
| controlled: "alive d \<Longrightarrow> panel_step (controller d, outside d) (p, w) \<Longrightarrow> date_time_step d (deliver E p w d)"
| freed: "alive d \<Longrightarrow> date_time_step d (panel_free d)"

inductive date_time_run :: "nat \<Rightarrow> date_time \<Rightarrow> date_time \<Rightarrow> bool" where
  begun: "date_time_run 0 d d"
| continued: "date_time_run n d e \<Longrightarrow> date_time_step e f \<Longrightarrow> date_time_run (Suc n) d f"

text \<open>The state \<open>ss_linux_date_time_panel_new\<close> leaves for these parts.\<close>

definition zeroed_ui :: "string list \<Rightarrow> system_time_ui" where
  "zeroed_ui ids = \<lparr>overview_timezone = [], overview_sync = [], timezone_selected = 0, timezone_sensitive = False,
     network_active = False, network_sensitive = False, manual_date = [], manual_time = [], manual_sensitive = False,
     manual_row_visible = False, manual_unavailable_visible = False, has_service = False,
     timezone_ids = Some ids, timezone_strings = ids, service_cancellable = None, timezone_cancellable = None,
     ntp_cancellable = None, manual_time_cancellable = None, timezone_generation = 0, ntp_generation = 0,
     manual_time_generation = 0, ui_updating = False, manual_dirty = False\<rparr>"

definition started :: "string list \<Rightarrow> panel \<Rightarrow> world \<Rightarrow> date_time" where
  "started ids p w = ss_linux_date_time_system_time_start
     \<lparr>ui = zeroed_ui ids, controller = p, outside = w,
      bus = \<lparr>memory = None, client_holds = False, awaiting = [], running = 0, dropped = None\<rparr>,
      life = Some ss_linux_date_time_lifetime_new, connecting = 0, cancelled = [], next_cancellable = 1\<rparr>"

end
