(* ===== verification/SystemTimeLoop.thy ===== *)
theory SystemTimeLoop
  imports SystemTimePanel
begin

text \<open>
  What holds of the running panel of SystemTimePanel in every state it can reach: the invariant of the
  protected operations, the end of each of them, the panel's end, and the exact reading of the manual
  entry.
\<close>

section \<open>What the presentation leaves alone\<close>

definition ops :: "date_time \<Rightarrow> bool \<times> nat option \<times> nat option \<times> nat option \<times> 32 word \<times> 32 word \<times> 32 word \<times>
    (ui_request, unit) transport \<times> lifetime option \<times> nat" where
  "ops d = (has_service (ui d), timezone_cancellable (ui d), ntp_cancellable (ui d), manual_time_cancellable (ui d),
     timezone_generation (ui d), ntp_generation (ui d), manual_time_generation (ui d), bus d, life d, connecting d)"

lemma ops_fill [simp]: "ops (fill_manual_time_entries E d) = ops d"
  by (simp add: fill_manual_time_entries_def ops_def Let_def split: option.splits)

lemma ops_sync_manual [simp]: "ops (sync_manual E s d) = ops d"
proof -
  have "ops (d\<lparr>ui := (ui d)\<lparr>manual_row_visible := a, manual_unavailable_visible := b, manual_dirty := c\<rparr>\<rparr>) = ops d"
    "ops (d\<lparr>ui := (ui d)\<lparr>manual_row_visible := a, manual_unavailable_visible := b, manual_sensitive := c\<rparr>\<rparr>) = ops d" for a b c
    by (simp_all add: ops_def)
  then show ?thesis by (simp add: sync_manual_def Let_def)
qed

lemma sync_zone_keeps:
  "ops (d\<lparr>ui := (sync_zone z u)\<lparr>network_active := b\<rparr>\<rparr>) = ops (d\<lparr>ui := u\<rparr>)"
  by (simp add: sync_zone_def ops_def split: option.splits)

lemma ops_sync [simp]: "ops (ss_linux_date_time_system_time_sync E d) = ops d"
proof -
  have "ops (x\<lparr>ui := (ui x)\<lparr>timezone_sensitive := a, network_sensitive := b, ui_updating := c\<rparr>\<rparr>) = ops x"
    "ops (x\<lparr>ui := (ui x)\<lparr>ui_updating := c, overview_timezone := e, overview_sync := f\<rparr>\<rparr>) = ops x"
    "ops (x\<lparr>ui := sync_unavailable (ui x)\<rparr>) = ops x" for x a b c e f
    by (simp_all add: ops_def sync_unavailable_def)
  then show ?thesis
    by (simp add: ss_linux_date_time_system_time_sync_def Let_def sync_zone_keeps split: option.splits)
qed

lemma ops_status [simp]: "ops (status m e d) = ops d"
  by (simp add: status_def ops_def)

lemma ops_invalidate [simp]: "ops (ss_linux_date_time_system_time_invalidate_manual_draft d) = ops d"
  by (simp add: ss_linux_date_time_system_time_invalidate_manual_draft_def ops_def)

lemma ops_carry_out [simp]: "ops (carry_out E c d) = ops d"
  by (simp add: carry_out_def split: panel_call.splits)

lemma ops_fold [simp]: "ops (List.fold (carry_out E) cs d) = ops d"
  by (induction cs arbitrary: d) auto

lemma ops_deliver [simp]: "ops (deliver E p w d) = ops d"
  by (simp add: deliver_def) (simp add: ops_def)

lemma ops_changed [simp]: "ops (system_time_changed E s d) = ops d"
  by (simp add: system_time_changed_def split: prod.splits)

text \<open>The protected controls are locked while an operation is under way.\<close>

definition locked :: "date_time \<Rightarrow> bool" where
  "locked d \<longleftrightarrow> (protected_operation_active (ui d) \<longrightarrow> \<not> timezone_sensitive (ui d) \<and> \<not> network_sensitive (ui d))"

lemma active_ops: "ops d = ops e \<Longrightarrow> protected_operation_active (ui d) = protected_operation_active (ui e)"
  by (simp add: ops_def protected_operation_active_def)

lemma locked_sync [simp]: "locked (ss_linux_date_time_system_time_sync E d)"
  by (simp add: ss_linux_date_time_system_time_sync_def locked_def Let_def sync_unavailable_def
      protected_operation_active_def split: option.splits)

lemma locked_status [simp]: "locked (status m e d) = locked d"
  by (simp add: status_def locked_def)

lemma locked_carry_out [simp]: "locked d \<Longrightarrow> locked (carry_out E c d)"
  by (auto simp: carry_out_def split: panel_call.splits)
    (simp add: ss_linux_date_time_system_time_invalidate_manual_draft_def locked_def protected_operation_active_def)

lemma locked_deliver [simp]: "locked d \<Longrightarrow> locked (deliver E p w d)"
proof -
  assume "locked d"
  then have "locked (d\<lparr>controller := p\<lparr>calls := []\<rparr>, outside := w\<rparr>)" by (simp add: locked_def)
  moreover have "locked x \<Longrightarrow> locked (List.fold (carry_out E) cs x)" for cs x
    by (induction cs arbitrary: x) auto
  ultimately show ?thesis by (simp add: deliver_def)
qed

lemma locked_changed [simp]: "locked d \<Longrightarrow> locked (system_time_changed E s d)"
  by (simp add: system_time_changed_def split: prod.splits)


section \<open>The invariant\<close>

interpretation life_counted: counted "\<lambda>l. unat (lt_references l)" ss_linux_date_time_lifetime_ref
  ss_linux_date_time_lifetime_unref "2 ^ 32"
proof (unfold_locales, goal_cases)
  case (1 l)
  then show ?case by (simp add: ss_linux_date_time_lifetime_ref_def unat_inc32)
next
  case (2 l)
  then have "lt_references l - 1 = 0" by (simp only: dec_zero32)
  then show ?case by (simp add: ss_linux_date_time_lifetime_unref_def)
next
  case (3 l)
  then have "lt_references l - 1 \<noteq> 0" by (simp only: dec_zero32)
  with 3 show ?case by (simp add: ss_linux_date_time_lifetime_unref_def Let_def unat_dec32)
qed

definition tokens :: "date_time \<Rightarrow> nat" where
  "tokens d = (if alive d then 1 else 0) + length (awaiting (bus d)) + connecting d"

definition no_bus :: "('d, 'o) transport \<Rightarrow> bool" where
  "no_bus b \<longleftrightarrow> memory b = None \<and> \<not> client_holds b \<and> awaiting b = [] \<and> running b = 0"

text \<open>The calls whose request is the last one of its operation.\<close>

definition current_calls :: "system_time_operation \<Rightarrow> date_time \<Rightarrow> nat" where
  "current_calls op d = length (filter (\<lambda>c. call_data c =
     Some \<lparr>rq_generation = operation_generation op (ui d), rq_operation = op\<rparr>) (awaiting (bus d)))"

definition active_operation :: "system_time_operation \<Rightarrow> date_time \<Rightarrow> bool" where
  "active_operation op d \<longleftrightarrow> operation_cancellable op (ui d) \<noteq> None"

definition requests_ok :: "nat \<Rightarrow> date_time \<Rightarrow> bool" where
  "requests_ok n d \<longleftrightarrow> length (awaiting (bus d)) \<le> n \<and> (\<forall>op. unat (operation_generation op (ui d)) \<le> n) \<and>
     (\<forall>c \<in> set (awaiting (bus d)). \<exists>r. call_data c = Some r \<and>
        unat (rq_generation r) \<le> unat (operation_generation (rq_operation r) (ui d)))"

definition operations_ok :: "date_time \<Rightarrow> bool" where
  "operations_ok d \<longleftrightarrow>
     (\<forall>op. current_calls op d = (if active_operation op d then 1 else 0)) \<and>
     (\<forall>op op'. active_operation op d \<longrightarrow> active_operation op' d \<longrightarrow> op = op')"

definition core_ok :: "nat \<Rightarrow> date_time \<Rightarrow> bool" where
  "core_ok n d \<longleftrightarrow> life_counted.held (life d) (tokens d) \<and>
     (no_bus (bus d) \<or> transport_ok (2 * n) (bus d)) \<and> running (bus d) = 0 \<and>
     (0 < connecting d \<longrightarrow> no_bus (bus d)) \<and> connecting d \<le> 1 \<and>
     has_service (ui d) = client_holds (bus d) \<and> (\<not> alive d \<longrightarrow> \<not> client_holds (bus d)) \<and>
     requests_ok n d \<and> (alive d \<longrightarrow> operations_ok d)"

lemma core_cong:
  assumes "ops d = ops e"
  shows "core_ok n d = core_ok n e" "alive d = alive e" "active_operation op d = active_operation op e"
    "operation_generation op (ui d) = operation_generation op (ui e)" "bus d = bus e" "has_service (ui d) = has_service (ui e)"
    "service_of d = service_of e" "life d = life e" "connecting d = connecting e"
proof -
  have e: "has_service (ui d) = has_service (ui e)" "bus d = bus e" "life d = life e" "connecting d = connecting e"
    and c: "\<And>op. operation_cancellable op (ui d) = operation_cancellable op (ui e)"
    and g: "\<And>op. operation_generation op (ui d) = operation_generation op (ui e)"
    using assms by (simp_all add: ops_def operation_cancellable_def operation_generation_def split: system_time_operation.splits)
  note [simp] = e c g
  show "alive d = alive e" "active_operation op d = active_operation op e" "service_of d = service_of e"
    by (simp_all add: alive_def active_operation_def service_of_def)
  show "core_ok n d = core_ok n e"
    by (simp add: core_ok_def tokens_def alive_def requests_ok_def operations_ok_def current_calls_def active_operation_def)
qed (use assms in \<open>simp_all add: ops_def operation_generation_def split: system_time_operation.splits\<close>)

lemma parts_cong:
  assumes "ops d = ops e"
  shows "requests_ok n d = requests_ok n e" "operations_ok d = operations_ok e" "tokens d = tokens e"
  using core_cong(2-)[OF assms]
  by (simp_all add: requests_ok_def operations_ok_def tokens_def current_calls_def)

lemma core_put_bus:
  assumes "life_counted.held (life e) (tokens e)" "requests_ok n e" "alive e \<Longrightarrow> operations_ok e"
    and "transport_ok (2 * n) b" "running b = 0" "awaiting b = awaiting (bus e)"
    and "has_service (ui e) = client_holds b" "\<not> alive e \<longrightarrow> \<not> client_holds b" "connecting e = 0"
  shows "core_ok n (e\<lparr>bus := b\<rparr>)"
  using assms
  by (simp add: core_ok_def tokens_def alive_def requests_ok_def operations_ok_def current_calls_def active_operation_def)

lemma core_mono: "core_ok n d \<Longrightarrow> core_ok (Suc n) d"
proof -
  have "transport_ok (2 * n) b \<Longrightarrow> transport_ok (2 * Suc n) b" for b :: "(ui_request, unit) transport"
    by (auto simp: transport_ok_def)
  moreover have "requests_ok n d \<Longrightarrow> requests_ok (Suc n) d" by (auto simp: requests_ok_def intro: le_SucI)
  ultimately show "core_ok n d \<Longrightarrow> core_ok (Suc n) d" by (auto simp: core_ok_def)
qed

text \<open>With a service the bus is the one of that service.\<close>

lemma core_service:
  assumes "core_ok n d" "has_service (ui d)"
  obtains s where "memory (bus d) = Some s" "service_of d = Some s" "observing s" "transport_ok (2 * n) (bus d)"
proof -
  from assms have h: "client_holds (bus d)" and t: "transport_ok (2 * n) (bus d)"
    by (auto simp: core_ok_def no_bus_def)
  from h have "holders (bus d) \<noteq> 0" by (simp add: holders_def)
  with t obtain s where "memory (bus d) = Some s" by (cases "memory (bus d)") (auto simp: transport_ok_def)
  with t assms(2) that show ?thesis by (auto simp: transport_ok_def service_of_def)
qed

lemma generation_next:
  "operation_generation op' (next_generation op u) =
     (if op' = op then operation_generation op u + 1 else operation_generation op' u)"
  "operation_generation op' (put_cancellable op c u) = operation_generation op' u"
  "operation_cancellable op' (put_cancellable op c u) = (if op' = op then c else operation_cancellable op' u)"
  "operation_cancellable op' (next_generation op u) = operation_cancellable op' u"
  "has_service (next_generation op u) = has_service u" "has_service (put_cancellable op c u) = has_service u"
  by (simp_all add: operation_generation_def next_generation_def put_cancellable_def operation_cancellable_def
      split: system_time_operation.splits)

lemma begin_operation:
  assumes "begin_system_time_operation op d = (Some r, d1)"
  shows "r = \<lparr>rq_generation = operation_generation op (ui d) + 1, rq_operation = op\<rparr>"
    and "bus d1 = bus d" "connecting d1 = connecting d" "has_service (ui d1) = has_service (ui d)"
    and "life d1 = map_option ss_linux_date_time_lifetime_ref (life d)"
    and "operation_generation op' (ui d1) =
           (if op' = op then operation_generation op (ui d) + 1 else operation_generation op' (ui d))"
    and "active_operation op' d1 = (op' = op)"
proof -
  have free: "op' \<noteq> op \<Longrightarrow> operation_cancellable op' (ui d) = None" for op'
    using assms by (cases op; cases op')
      (auto simp: begin_system_time_operation_def operation_cancellable_def Let_def split: if_splits)
  show "r = \<lparr>rq_generation = operation_generation op (ui d) + 1, rq_operation = op\<rparr>"
    "bus d1 = bus d" "connecting d1 = connecting d" "has_service (ui d1) = has_service (ui d)"
    "life d1 = map_option ss_linux_date_time_lifetime_ref (life d)"
    using assms by (auto simp: begin_system_time_operation_def lifetime_ref_def Let_def generation_next
        split: if_splits option.splits)
  show "operation_generation op' (ui d1) =
           (if op' = op then operation_generation op (ui d) + 1 else operation_generation op' (ui d))"
    using assms by (auto simp: begin_system_time_operation_def lifetime_ref_def Let_def generation_next
        split: if_splits option.splits)
  show "active_operation op' d1 = (op' = op)"
    using assms free by (auto simp: begin_system_time_operation_def lifetime_ref_def Let_def generation_next
        active_operation_def split: if_splits option.splits)
qed

lemma begin_refused: "begin_system_time_operation op d = (None, d1) \<Longrightarrow> d1 = d"
  by (auto simp: begin_system_time_operation_def Let_def split: if_splits)

text \<open>The requests of the code are handed to D-Bus by a service with a proxy.\<close>

definition asks :: "(unit service option \<Rightarrow> ui_request option \<Rightarrow> unit service option \<times> ui_request accepted) \<Rightarrow> bool" where
  "asks ask \<longleftrightarrow> (\<exists>m ps. \<forall>s r. ask s r = begin_call s (Some m) (Some ps) r)"

lemma asks_simps:
  "z \<noteq> [] \<Longrightarrow> asks (\<lambda>s. ss_system_time_service_set_timezone_async s (Some z))"
  "asks (\<lambda>s. ss_system_time_service_set_ntp_async s b)"
  "asks (\<lambda>s. ss_system_time_service_set_time_async s us)"
  by (auto simp: asks_def ss_system_time_service_set_timezone_async_def
      ss_system_time_service_set_ntp_async_def ss_system_time_service_set_time_async_def)

text \<open>The state after the call of a new request, \<open>c\<close>, is on its way.\<close>

lemma begin_requests:
  assumes req: "requests_ok n d" and b: "begin_system_time_operation op d = (Some r, d1)" and n: "Suc n < 2 ^ 32"
    and gen: "\<And>op'. operation_generation op' (ui e) = operation_generation op' (ui d1)"
    and aw: "awaiting (bus e) = c # awaiting (bus d)" "call_data c = Some r"
  shows "requests_ok (Suc n) e" "x \<in> set (awaiting (bus d)) \<Longrightarrow> call_data x \<noteq> Some r"
proof -
  note B = begin_operation[OF b]
  have le: "unat (operation_generation op (ui d)) \<le> n" using req by (simp add: requests_ok_def)
  then have g: "unat (operation_generation op (ui d) + 1) = Suc (unat (operation_generation op (ui d)))"
    using n by (intro unat_inc32) linarith
  have grow: "unat (operation_generation op' (ui d)) \<le> unat (operation_generation op' (ui e))" for op'
    using g unfolding gen B(6) by simp
  have "unat (operation_generation op' (ui e)) \<le> Suc n" for op'
    using req g unfolding gen B(6) requests_ok_def by (simp add: le_SucI)
  moreover have "\<exists>q. call_data x = Some q \<and> unat (rq_generation q) \<le> unat (operation_generation (rq_operation q) (ui e))"
    if x: "x \<in> set (awaiting (bus e))" for x
  proof (cases "x = c")
    case True
    then show ?thesis using B(1) aw(2) unfolding gen B(6) by (intro exI[of _ r]) simp
  next
    case False
    with x aw(1) have "x \<in> set (awaiting (bus d))" by simp
    with req obtain q where "call_data x = Some q"
      "unat (rq_generation q) \<le> unat (operation_generation (rq_operation q) (ui d))" unfolding requests_ok_def by blast
    with grow show ?thesis by (meson le_trans)
  qed
  ultimately show "requests_ok (Suc n) e" using req by (simp add: requests_ok_def aw(1))
  show "call_data x \<noteq> Some r" if x: "x \<in> set (awaiting (bus d))"
  proof
    assume "call_data x = Some r"
    with req x have "unat (rq_generation r) \<le> unat (operation_generation (rq_operation r) (ui d))"
      unfolding requests_ok_def by fastforce
    with B(1) g show False by simp
  qed
qed

lemma begin_current:
  assumes ok: "operations_ok d" and b: "begin_system_time_operation op d = (Some r, d1)"
    and new: "\<And>x. x \<in> set (awaiting (bus d)) \<Longrightarrow> call_data x \<noteq> Some r"
    and gen: "\<And>op'. operation_generation op' (ui e) = operation_generation op' (ui d1)"
    and act: "\<And>op'. active_operation op' e = active_operation op' d1"
    and aw: "awaiting (bus e) = c # awaiting (bus d)" "call_data c = Some r"
  shows "operations_ok e"
proof -
  note B = begin_operation[OF b]
  have "current_calls op' e = (if op' = op then 1 else 0)" for op'
  proof (cases "op' = op")
    case True
    have "filter (\<lambda>c. call_data c = Some r) (awaiting (bus d)) = []" using new by (simp add: filter_empty_conv)
    then show ?thesis using True B(1) unfolding current_calls_def gen B(6) aw(1) by (simp add: aw(2))
  next
    case False
    then have "\<not> active_operation op' d"
      using b by (cases op; cases op')
        (auto simp: begin_system_time_operation_def active_operation_def operation_cancellable_def Let_def split: if_splits)
    with ok have "current_calls op' d = 0" by (simp add: operations_ok_def)
    then show ?thesis using False B(1) unfolding current_calls_def gen B(6) aw(1) by (simp add: aw(2))
  qed
  then show ?thesis unfolding operations_ok_def act B(7) by simp
qed

text \<open>The token's count when a request is made.\<close>

lemma begin_tokens:
  assumes "core_ok n d" "alive d" "n + 4 < 2 ^ 32"
  shows "life_counted.held (map_option ss_linux_date_time_lifetime_ref (life d)) (Suc (tokens d))"
    and "ss_linux_date_time_lifetime_get_panel (map_option ss_linux_date_time_lifetime_ref (life d))"
proof -
  obtain l where l: "life d = Some l" "lt_panel l"
    using assms(2) by (auto simp: alive_def ss_linux_date_time_lifetime_get_panel_def split: option.splits)
  have "tokens d \<le> n + 2" using assms(1) by (auto simp: tokens_def requests_ok_def core_ok_def)
  then show "life_counted.held (map_option ss_linux_date_time_lifetime_ref (life d)) (Suc (tokens d))"
    using life_counted.held_retain[of l "tokens d"] assms l by (simp add: core_ok_def)
  show "ss_linux_date_time_lifetime_get_panel (map_option ss_linux_date_time_lifetime_ref (life d))"
    using l by (simp add: ss_linux_date_time_lifetime_get_panel_def ss_linux_date_time_lifetime_ref_def)
qed

lemma begin_submit:
  assumes ok: "core_ok n d" and up: "alive d" "has_service (ui d)" and ask: "asks ask"
    and b: "begin_system_time_operation op d = (Some r, d1)" and same: "ops d2 = ops d1"
    and n: "2 * n + 4 < 2 ^ 32"
  shows "core_ok (Suc n) (submit E ask r d2) \<and> ui (submit E ask r d2) = ui d2"
proof -
  note B = begin_operation[OF b]
  note C = core_cong(2-)[OF same]
  obtain s where s: "memory (bus d) = Some s" "service_of d = Some s" "observing s" "transport_ok (2 * n) (bus d)"
    by (rule core_service[OF ok up(2)])
  obtain m ps where ask_def: "ask x y = begin_call x (Some m) (Some ps) y" for x y using ask by (auto simp: asks_def)
  let ?c = "\<lparr>call_method = m, parameters_of = ps, call_data = Some r\<rparr>"
  let ?s = "Some (s\<lparr>references := references s + 1\<rparr>)"
  have d2: "service_of d2 = Some s" "has_service (ui d2)" "bus d2 = bus d"
    using s C B up by (simp_all add: service_of_def)
  have called: "ask (service_of d2) (Some r) = (?s, Called ?c)"
    using s(3) d2 by (auto simp: ask_def begin_call_def observing_def)
  let ?e = "d2\<lparr>bus := (bus d)\<lparr>memory := ?s, awaiting := ?c # awaiting (bus d)\<rparr>\<rparr>"
  have e: "submit E ask r d2 = ?e" using called d2 by (simp add: submit_def)
  have req: "requests_ok n d" and opsok: "operations_ok d" using ok up by (auto simp: core_ok_def)
  have "transport_step (bus d) (bus ?e)"
    using transport_step.request[of "bus d" "Some m" "Some ps" "Some r"] ok up called s d2
    by (simp add: core_ok_def ask_def)
  from transport_step_ok[OF this s(4)] n have busok: "transport_ok (2 * Suc n) (bus ?e)"
    by (auto simp: transport_ok_def)
  have n4: "n + 4 < 2 ^ 32" "Suc n < 2 ^ 32" using n by linarith+
  note T = begin_tokens[OF ok up(1) n4(1)]
  have al: "alive ?e" using T(2) C(7) B(5) by (simp add: alive_def)
  have held: "life_counted.held (life ?e) (tokens ?e)" using T(1) al up C B by (simp add: tokens_def)
  have gen: "operation_generation op' (ui ?e) = operation_generation op' (ui d1)" for op' using C(3) by simp
  have act: "active_operation op' ?e = active_operation op' d1" for op'
    using C(2) by (simp add: active_operation_def)
  have aw: "awaiting (bus ?e) = ?c # awaiting (bus d)" "call_data ?c = Some r" by simp_all
  note R = begin_requests[OF req b n4(2) gen aw]
  have "has_service (ui ?e) = client_holds (bus ?e)" "running (bus ?e) = 0" "connecting ?e \<le> 1"
    "0 < connecting ?e \<longrightarrow> no_bus (bus ?e)"
    using ok up s d2 C B by (auto simp: core_ok_def no_bus_def)
  with held busok R(1) begin_current[OF opsok b R(2) gen act aw] al show ?thesis unfolding e core_ok_def by simp
qed

section \<open>The steps\<close>

lemma widgets_keep:
  "ops (d\<lparr>ui := (ui d)\<lparr>timezone_selected := n\<rparr>\<rparr>) = ops d"
  "ops (d\<lparr>ui := (ui d)\<lparr>network_active := b\<rparr>\<rparr>) = ops d"
  "ops (d\<lparr>ui := (ui d)\<lparr>manual_date := x, manual_time := y\<rparr>\<rparr>) = ops d"
  "ops (d\<lparr>ui := (ui d)\<lparr>manual_dirty := b\<rparr>\<rparr>) = ops d"
  "locked (d\<lparr>ui := (ui d)\<lparr>timezone_selected := n\<rparr>\<rparr>) = locked d"
  "locked (d\<lparr>ui := (ui d)\<lparr>network_active := b\<rparr>\<rparr>) = locked d"
  "locked (d\<lparr>ui := (ui d)\<lparr>manual_date := x, manual_time := y\<rparr>\<rparr>) = locked d"
  "locked (d\<lparr>ui := (ui d)\<lparr>manual_dirty := b\<rparr>\<rparr>) = locked d"
  by (simp_all add: ops_def locked_def protected_operation_active_def)

definition good :: "nat \<Rightarrow> date_time \<Rightarrow> bool" where
  "good n d \<longleftrightarrow> core_ok n d \<and> locked d"

lemma good_keep: "good n d \<Longrightarrow> ops e = ops d \<Longrightarrow> locked e \<Longrightarrow> good (Suc n) e"
  using core_cong(1)[of e d "Suc n"] core_mono[of n d] by (simp add: good_def)

lemma good_Suc: "good n d \<Longrightarrow> good (Suc n) d"
  by (simp add: good_def core_mono)

lemma status_good: "good n d \<Longrightarrow> good (Suc n) (status m e d)"
  using good_keep[of n d "status m e d"] by (simp add: good_def)

lemma refused_good:
  "begin_system_time_operation op d = (None, d1) \<Longrightarrow> good n d \<Longrightarrow>
     good (Suc n) (status m e d1) \<and> good (Suc n) (status m e (ss_linux_date_time_system_time_sync E d1))"
  by (drule begin_refused) (simp add: status_good good_keep[of n d])

lemma submit_locked: "ui (submit E ask r d) = ui d \<Longrightarrow> locked (submit E ask r d) = locked d"
  by (simp add: locked_def)

text \<open>The common shape of the three handlers.\<close>

lemma protected_good:
  assumes "good n d" "alive d" "has_service (ui d)" "asks ask" "2 * n + 4 < 2 ^ 32"
    and "begin_system_time_operation op d = (Some r, d1)"
  shows "good (Suc n) (submit E ask r (status m e (ss_linux_date_time_system_time_sync E d1)))"
proof -
  let ?d2 = "status m e (ss_linux_date_time_system_time_sync E d1)"
  have "ops ?d2 = ops d1" "locked ?d2" by simp_all
  with begin_submit[OF _ assms(2-4,6) this(1) assms(5)] assms(1) submit_locked[of E ask r ?d2]
  show ?thesis by (simp add: good_def)
qed

lemma timezone_good:
  assumes "good n d" "alive d" "2 * n + 4 < 2 ^ 32"
  shows "good (Suc n) (request_system_timezone E z d)"
proof (cases "has_service (ui d) \<and> z \<noteq> []")
  case False
  with assms(1) show ?thesis by (auto simp: request_system_timezone_def intro: good_Suc)
next
  case True
  show ?thesis
  proof (cases "begin_system_time_operation OPERATION_TIMEZONE d")
    case (Pair r d1)
    show ?thesis
    proof (cases r)
      case None
      with Pair True refused_good[OF _ assms(1)] show ?thesis by (simp add: request_system_timezone_def)
    next
      case (Some q)
      with Pair True protected_good[OF assms(1,2) _ asks_simps(1) assms(3)] show ?thesis
        by (simp add: request_system_timezone_def)
    qed
  qed
qed

lemma zone_good:
  assumes "good n d" "alive d" "2 * n + 4 < 2 ^ 32"
  shows "good (Suc n) (on_timezone_changed E d)"
  using assms timezone_good[OF assms]
  by (auto simp: on_timezone_changed_def intro: good_Suc split: option.splits)

lemma network_good:
  assumes "good n d" "alive d" "2 * n + 4 < 2 ^ 32"
  shows "good (Suc n) (on_network_time_changed E d)"
proof (cases "ui_updating (ui d) \<or> \<not> has_service (ui d)")
  case True
  with assms(1) show ?thesis by (auto simp: on_network_time_changed_def intro: good_Suc)
next
  case False
  obtain r d1 where b: "begin_system_time_operation OPERATION_NTP d = (r, d1)" by (rule prod.exhaust)
  show ?thesis
  proof (cases r)
    case None
    with b False refused_good[OF _ assms(1)] show ?thesis by (simp add: on_network_time_changed_def)
  next
    case (Some q)
    with b False protected_good[OF assms(1,2) _ asks_simps(2) assms(3)] show ?thesis
      by (simp add: on_network_time_changed_def Let_def)
  qed
qed

lemma set_time_good:
  assumes "good n d" "alive d" "2 * n + 4 < 2 ^ 32"
  shows "good (Suc n) (on_manual_set_time_clicked E d)"
proof (cases "\<not> has_service (ui d) \<or> parse_manual_datetime E (lib (outside d)) (kern (outside d)) (controller d)
                (manual_date (ui d)) (manual_time (ui d)) = None")
  case True
  with assms(1) show ?thesis
    by (auto simp: on_manual_set_time_clicked_def intro: good_Suc status_good)
next
  case False
  obtain r d1 where b: "begin_system_time_operation OPERATION_MANUAL d = (r, d1)" by (rule prod.exhaust)
  show ?thesis
  proof (cases r)
    case None
    with b False refused_good[OF _ assms(1)] show ?thesis by (auto simp: on_manual_set_time_clicked_def)
  next
    case (Some q)
    with b False protected_good[OF assms(1,2) _ asks_simps(3) assms(3)] show ?thesis
      by (auto simp: on_manual_set_time_clicked_def)
  qed
qed

text \<open>What a completion does to the operations.\<close>

lemma complete_ops:
  "ops (system_time_operation_complete E result msg r d) =
     ops (lifetime_unref
       (if alive d \<and> rq_generation r = operation_generation (rq_operation r) (ui d)
        then d\<lparr>ui := put_cancellable (rq_operation r) None (ui d)\<rparr> else d))"
proof -
  have u: "ops a = ops b \<Longrightarrow> ops (lifetime_unref a) = ops (lifetime_unref b)" for a b
    by (auto simp: ops_def lifetime_unref_def)
  show ?thesis unfolding system_time_operation_complete_def Let_def alive_def
    by (rule u) (auto split: prod.splits simp del: put_cancellable_def)
qed

lemma complete_locked:
  assumes "locked d"
  shows "locked (system_time_operation_complete E result msg r d)"
proof -
  have u: "locked (lifetime_unref x) = locked x" for x by (simp add: locked_def lifetime_unref_def)
  have "locked (ss_linux_date_time_system_time_invalidate_manual_draft (d\<lparr>ui := put_cancellable op None (ui d)\<rparr>))" for op
    using assms by (simp add: locked_def protected_operation_active_def put_cancellable_def
        ss_linux_date_time_system_time_invalidate_manual_draft_def split: system_time_operation.splits)
  then show ?thesis using assms unfolding system_time_operation_complete_def Let_def u
    by (auto split: prod.splits)
qed

lemma unref_held:
  "life_counted.held l (Suc k) \<Longrightarrow> life_counted.held (Option.bind l ss_linux_date_time_lifetime_unref) k"
  using life_counted.held_release[of _ k] by (cases l) auto

lemma unref_alive:
  "life_counted.held l (Suc k) \<Longrightarrow>
     ss_linux_date_time_lifetime_get_panel (Option.bind l ss_linux_date_time_lifetime_unref) =
       (0 < k \<and> ss_linux_date_time_lifetime_get_panel l)"
  using unref_held[of l k] by (cases l)
    (auto simp: ss_linux_date_time_lifetime_unref_def ss_linux_date_time_lifetime_get_panel_def Let_def split: if_splits)

lemma filter_remove1_length:
  "c \<in> set xs \<Longrightarrow> length (filter P xs) = length (filter P (remove1 c xs)) + (if P c then 1 else 0)"
  by (induction xs) auto


text \<open>A completion: the call is gone, and so is the operation when it was its last request.\<close>

definition completed :: "ui_request dbus_call \<Rightarrow> ui_request \<Rightarrow> date_time \<Rightarrow> date_time" where
  "completed c r d = lifetime_unref
     ((if alive d \<and> rq_generation r = operation_generation (rq_operation r) (ui d)
       then d\<lparr>ui := put_cancellable (rq_operation r) None (ui d)\<rparr> else d)
      \<lparr>bus := (bus d)\<lparr>awaiting := remove1 c (awaiting (bus d)), running := Suc (running (bus d))\<rparr>\<rparr>)"

lemma completed_operations:
  assumes "operations_ok d" "alive d" "c \<in> set (awaiting (bus d))" "call_data c = Some r"
    and "operation_generation op (ui (completed c r d)) = operation_generation op (ui d)"
  shows "current_calls op (completed c r d) = (if active_operation op (completed c r d) then 1 else 0)"
proof -
  let ?cur = "rq_generation r = operation_generation (rq_operation r) (ui d)"
  have a: "active_operation op (completed c r d) =
      (active_operation op d \<and> \<not> (?cur \<and> op = rq_operation r))"
    using assms(2) by (auto simp: completed_def lifetime_unref_def active_operation_def generation_next)
  have b: "awaiting (bus (completed c r d)) = remove1 c (awaiting (bus d))"
    by (simp add: completed_def lifetime_unref_def)
  have p: "(call_data c = Some \<lparr>rq_generation = operation_generation op (ui d), rq_operation = op\<rparr>) =
      (?cur \<and> op = rq_operation r)"
    unfolding assms(4) by (cases r) auto
  have "current_calls op d = current_calls op (completed c r d) + (if ?cur \<and> op = rq_operation r then 1 else 0)"
    unfolding current_calls_def b assms(5) using filter_remove1_length[OF assms(3)] p by simp
  moreover have "current_calls op d = (if active_operation op d then 1 else 0)"
    using assms(1) by (simp add: operations_ok_def)
  ultimately show ?thesis unfolding a by (cases "?cur \<and> op = rq_operation r"; cases "active_operation op d") simp_all
qed

lemma completed_generation: "operation_generation op (ui (completed c r d)) = operation_generation op (ui d)"
  by (simp add: completed_def lifetime_unref_def generation_next)

text \<open>Everything of the invariant except the running callback, which is still there.\<close>

lemma completed_core:
  assumes ok: "core_ok n d" and c: "c \<in> set (awaiting (bus d))" "call_data c = Some r"
  shows "life_counted.held (life (completed c r d)) (tokens (completed c r d))"
    "requests_ok n (completed c r d)" "alive (completed c r d) \<Longrightarrow> alive d \<and> operations_ok (completed c r d)"
    "alive d \<Longrightarrow> alive (completed c r d)"
    "transport_ok (2 * n) (bus (completed c r d))" "has_service (ui (completed c r d)) = has_service (ui d)"
    "connecting (completed c r d) = connecting d" "running (bus (completed c r d)) = 1"
    "client_holds (bus (completed c r d)) = client_holds (bus d)"
proof -
  let ?e = "completed c r d"
  let ?k = "tokens d - 1"
  have pos: "awaiting (bus d) \<noteq> []" using c by auto
  then have nb: "\<not> no_bus (bus d)" by (simp add: no_bus_def)
  have k: "tokens d = Suc ?k" and len: "length (remove1 c (awaiting (bus d))) = length (awaiting (bus d)) - 1"
    "length (awaiting (bus d)) = Suc (length (awaiting (bus d)) - 1)"
    using pos c by (auto simp: tokens_def length_remove1)
  have h: "life_counted.held (life d) (Suc ?k)" using ok k by (simp add: core_ok_def)
  have le: "life ?e = Option.bind (life d) ss_linux_date_time_lifetime_unref"
    by (simp add: completed_def lifetime_unref_def)
  have al: "alive ?e = (0 < ?k \<and> alive d)"
    using unref_alive[OF h] by (simp add: alive_def le)
  have ak: "alive d \<longrightarrow> 0 < ?k" using len pos by (simp add: tokens_def)
  have te: "tokens ?e = ?k"
    using al ak len by (auto simp: tokens_def completed_def lifetime_unref_def)
  show "life_counted.held (life ?e) (tokens ?e)" using unref_held[OF h] by (simp add: le te)
  show "requests_ok n ?e"
    using ok len by (auto simp: core_ok_def requests_ok_def completed_generation)
      (auto simp: completed_def lifetime_unref_def dest!: notin_set_remove1)
  show "alive d \<Longrightarrow> alive ?e" using al ak by simp
  show "alive d \<and> operations_ok ?e" if "alive ?e"
  proof -
    have ad: "alive d" using that al by simp
    with ok have "operations_ok d" by (simp add: core_ok_def)
    moreover have "active_operation op ?e \<Longrightarrow> active_operation op d" for op
      by (auto simp: completed_def lifetime_unref_def active_operation_def generation_next split: if_splits)
    ultimately show ?thesis
      using completed_operations[OF _ ad c completed_generation] ad by (auto simp: operations_ok_def)
  qed
  show "transport_ok (2 * n) (bus ?e)"
    using ok nb pos len by (auto simp: core_ok_def transport_ok_def holders_def completed_def lifetime_unref_def)
  show "has_service (ui ?e) = has_service (ui d)" "connecting ?e = connecting d" "running (bus ?e) = 1"
    "client_holds (bus ?e) = client_holds (bus d)"
    using ok by (simp_all add: completed_def lifetime_unref_def generation_next core_ok_def)
qed


lemma answered_good:
  assumes g: "good n d" and c: "c \<in> set (awaiting (bus d))"
  shows "good (Suc n) (complete_call E c reply d)"
proof -
  from g have ok: "core_ok n d" and lk: "locked d" by (simp_all add: good_def)
  then obtain r where r: "call_data c = Some r" using c by (auto simp: core_ok_def requests_ok_def)
  note C = completed_core[OF ok c r]
  let ?d1 = "d\<lparr>bus := (bus d)\<lparr>awaiting := remove1 c (awaiting (bus d)), running := Suc (running (bus d))\<rparr>\<rparr>"
  obtain res msg where out: "call_finished_outcome c reply = Some (Completion res msg r)"
    by (simp add: call_finished_outcome_def r Let_def)
  define d2 where "d2 = system_time_operation_complete E res msg r ?d1"
  have eq: "ops d2 = ops (completed c r d)"
    unfolding d2_def complete_ops by (auto simp: completed_def alive_def lifetime_unref_def ops_def put_cancellable_def
        split: system_time_operation.splits)
  note same = core_cong(2-)[OF eq]
  have b: "transport_ok (2 * n) (bus d2)" "running (bus d2) = 1" using C(5,8) same by simp_all
  let ?t = "(bus d2)\<lparr>running := 0\<rparr>"
  have h: "holders (bus d2) = Suc (holders ?t)" using b(2) by (simp add: holders_def)
  then obtain s where s: "memory (bus d2) = Some s"
    using b(1) by (cases "memory (bus d2)") (auto simp: transport_ok_def)
  let ?e = "d2\<lparr>bus := after_release ?t (service_unref s)\<rparr>"
  have e: "complete_call E c reply d = ?e"
    using s b(2) by (simp add: complete_call_def d2_def out Let_def call_finished_release_def)
  have o: "service_counted.held (Some s) (Suc (holders ?t))" "observing s"
    "\<not> client_holds ?t \<longrightarrow> changed_callback s = None" "holders ?t \<le> Suc (2 * n)"
    using b(1) s h by (auto simp: transport_ok_def)
  have "connecting d = 0" using ok c by (auto simp: core_ok_def no_bus_def)
  moreover have "alive (completed c r d) = alive d" using C(3,4) by blast
  ultimately have core: "core_ok n ?e"
    using C(1,2,3,5-7,9) same parts_cong[OF eq] release_ok[OF o] ok
    by (intro core_put_bus) (simp_all add: after_release_def core_ok_def)
  have "locked ?d1" using lk by (simp add: locked_def)
  then have "locked ?e" using complete_locked[of ?d1] by (simp add: locked_def d2_def)
  with core e show ?thesis by (simp add: good_def core_mono)
qed

lemma signalled_good:
  assumes g: "good n d" and n: "2 * n + 4 < 2 ^ 32"
  shows "good (Suc n) (service_signal E owner properties d)"
proof -
  let ?b = "(bus d)\<lparr>memory := map_option (\<lambda>s. s\<lparr>proxy_of :=
                 map_option (\<lambda>p. p\<lparr>name_owner := owner, cached_property := properties\<rparr>) (proxy_of s)\<rparr>)
                 (memory (bus d))\<rparr>"
  from g have ok: "core_ok (Suc n) d" by (simp add: good_def core_mono)
  have "core_ok (Suc n) (d\<lparr>bus := ?b\<rparr>)"
  proof (cases "no_bus (bus d)")
    case True
    then have "?b = bus d" by (simp add: no_bus_def)
    with ok show ?thesis by simp
  next
    case False
    with g have "transport_ok (2 * n) (bus d)" by (simp add: good_def core_ok_def)
    from transport_step_ok[OF transport_step.changed this] n have "transport_ok (Suc (2 * n)) ?b" by simp
    then have "transport_ok (2 * Suc n) ?b" by (auto simp: transport_ok_def)
    with ok False show ?thesis by (intro core_put_bus) (simp_all add: core_ok_def)
  qed
  moreover have "locked (d\<lparr>bus := ?b\<rparr>)" using g by (simp add: good_def locked_def)
  ultimately show ?thesis
    using core_cong(1)[OF ops_changed] by (simp add: service_signal_def Let_def good_def split: option.splits)
qed

lemma service_created:
  assumes "(err = None) = (p \<noteq> None)" "new_proxy_finished p err (Some ()) = Some (service, outcome, msg, u)"
  shows "(service = None) = (p = None) \<and> (outcome = RESULT_OK) = (p \<noteq> None) \<and> service = service_from_proxy p"
proof -
  have "result_from_error (Some e) \<noteq> RESULT_OK" for e
    by (simp add: result_from_error_def split: error_code.splits option.splits)
  with assms show ?thesis
    by (auto simp: new_proxy_finished_def service_from_proxy_def Let_def split: option.splits prod.splits)
qed

lemma release_transport:
  "b = new_transport p \<Longrightarrow> handlers p = [] \<Longrightarrow> 0 < next_handler p \<Longrightarrow>
     transport_ok (Suc 0) (after_release (b\<lparr>client_holds := False\<rparr>) (ss_system_time_service_free (memory b)))"
  using transport_step_ok[OF transport_step.released new_transport_ok, of p] by (simp add: new_transport_def)

text \<open>The bus before and after the service has arrived.\<close>

lemma arrived_unref:
  assumes ok: "core_ok n d" and c: "0 < connecting d"
    and e: "life e = life d" "connecting e = connecting d - 1" "awaiting (bus e) = []"
    and u: "\<And>op. operation_generation op (ui e) = operation_generation op (ui d)"
      "\<And>op. operation_cancellable op (ui e) = operation_cancellable op (ui d)"
    and b: "no_bus (bus e) \<or> transport_ok (2 * n) (bus e)" "running (bus e) = 0"
      "has_service (ui e) = client_holds (bus e)" "\<not> alive d \<longrightarrow> \<not> client_holds (bus e)"
  shows "core_ok n (lifetime_unref e)"
proof -
  let ?k = "tokens d - 1"
  have a: "awaiting (bus d) = []" "connecting d = 1" using ok c by (auto simp: core_ok_def no_bus_def)
  then have h: "life_counted.held (life d) (Suc ?k)" and k: "?k = (if alive d then 1 else 0)"
    using ok by (auto simp: core_ok_def tokens_def)
  have al: "alive (lifetime_unref e) = alive d"
    using unref_alive[OF h] k by (auto simp: alive_def lifetime_unref_def e split: if_splits)
  have "life_counted.held (life (lifetime_unref e)) (tokens (lifetime_unref e))"
    using unref_held[OF h] k al a by (auto simp: tokens_def e lifetime_unref_def)
  moreover have "requests_ok n (lifetime_unref e)"
    using ok e u by (simp add: core_ok_def requests_ok_def lifetime_unref_def)
  moreover have "operations_ok (lifetime_unref e)" if "alive d"
    using ok that e(3) u a unfolding core_ok_def operations_ok_def current_calls_def active_operation_def lifetime_unref_def
    by simp
  ultimately show ?thesis using b a e al by (auto simp: core_ok_def lifetime_unref_def)
qed


lemma system_time_service_ready_good:
  assumes g: "good n d" and c: "0 < connecting d" and s: "service = service_from_proxy p"
    and p: "\<forall>q. p = Some q \<longrightarrow> handlers q = [] \<and> 0 < next_handler q"
    and r: "(result = RESULT_OK) = (p \<noteq> None)" and n: "2 * n + 4 < 2 ^ 32"
  shows "good (Suc n) (system_time_service_ready E service result msg
     (d\<lparr>connecting := connecting d - 1, bus := \<lparr>memory = service, client_holds = (service \<noteq> None), awaiting = [],
        running = 0, dropped = None\<rparr>\<rparr>))"
    (is "good _ (system_time_service_ready E service result msg ?d)")
proof -
  from g have ok: "core_ok (Suc n) d" and lk: "locked d" by (simp_all add: good_def core_mono)
  have sn: "(service = None) = (p = None)" using s by (cases p) (simp_all add: service_from_proxy_def Let_def split: prod.splits)
  have new: "transport_ok 0 (bus ?d)" if "p \<noteq> None"
    using that p s new_transport_ok[of "the p"] by (auto simp: new_transport_def service_from_proxy_def g_signal_connect_def)
  have up: "alive ?d = alive d" by (simp add: alive_def)
  have lku: "locked (lifetime_unref x) = locked x" for x by (simp add: locked_def lifetime_unref_def)
  have nos: "\<not> has_service (ui d)" using ok c by (auto simp: core_ok_def no_bus_def)
  have finish: "good (Suc n) (lifetime_unref e)"
    if "ops e = ops e0" "locked e" "core_ok (Suc n) (lifetime_unref e0)" for e e0
  proof -
    have "ops (lifetime_unref e) = ops (lifetime_unref e0)" using that(1) by (auto simp: ops_def lifetime_unref_def)
    from core_cong(1)[OF this] that show ?thesis by (simp add: good_def lku)
  qed
  note arr = arrived_unref[OF ok c]
  show ?thesis
  proof (cases "alive d")
    case False
    let ?e = "release_service service ?d"
    have "core_ok (Suc n) (lifetime_unref ?e)"
    proof (rule arr)
      show "no_bus (bus ?e) \<or> transport_ok (2 * Suc n) (bus ?e)"
      proof (cases p)
        case None
        with sn show ?thesis by (simp add: release_service_def no_bus_def)
      next
        case (Some q)
        with sn obtain x where x: "service = Some x" by auto
        from transport_step_ok[OF transport_step.released new] Some x
        have "transport_ok (Suc 0) (bus ?e)" by (simp add: release_service_def)
        then show ?thesis by (auto simp: transport_ok_def)
      qed
    qed (use nos False in \<open>simp_all add: release_service_def after_release_def split: option.splits\<close>)
    moreover have "locked ?e" using lk by (simp add: release_service_def locked_def split: option.splits)
    ultimately show ?thesis using False finish[of ?e ?e] up by (simp add: system_time_service_ready_def alive_def)
  next
    case True
    let ?d1 = "?d\<lparr>ui := (ui d)\<lparr>service_cancellable := None\<rparr>\<rparr>"
    have lk1: "locked ?d1" using lk by (simp add: locked_def protected_operation_active_def)
    show ?thesis
    proof (cases p)
      case None
      have "core_ok (Suc n) (lifetime_unref ?d1)"
        by (rule arr) (use nos None sn in \<open>simp_all add: no_bus_def operation_generation_def operation_cancellable_def
            split: system_time_operation.splits\<close>)
      from finish[of "status m True ?d1" ?d1 for m, OF _ _ this] lk1 True None sn show ?thesis
        by (simp add: system_time_service_ready_def alive_def Let_def)
    next
      case (Some q)
      then obtain x where x: "service = Some x" and r: "result = RESULT_OK" using sn r by auto
      let ?d2 = "?d1\<lparr>ui := (ui ?d1)\<lparr>has_service := True\<rparr>,
                     bus := (bus ?d1)\<lparr>memory := ss_system_time_service_set_changed_callback service (Some ())\<rparr>\<rparr>"
      have "transport_ok (Suc 0) (bus ?d2)"
        using transport_step_ok[OF transport_step.observed[where user = "Some ()"] new] Some x by simp
      then have "transport_ok (2 * Suc n) (bus ?d2)" by (auto simp: transport_ok_def)
      then have core: "core_ok (Suc n) (lifetime_unref ?d2)"
        by (intro arr) (use x True in \<open>simp_all add: operation_generation_def operation_cancellable_def
            split: system_time_operation.splits\<close>)
      let ?d3 = "ss_linux_date_time_system_time_sync E ?d2"
      have "ops (d\<lparr>controller := q\<rparr>) = ops d" "locked (d\<lparr>controller := q\<rparr>) = locked d" for d :: date_time and q
        by (simp_all add: ops_def locked_def)
      then have "good (Suc n) (lifetime_unref (?d3\<lparr>controller := q\<rparr>))" for q
        by (intro finish[OF _ _ core]) simp_all
      moreover have "good (Suc n) (lifetime_unref (status m True ?d3))" for m
        by (intro finish[OF _ _ core]) simp_all
      ultimately show ?thesis using True x r
        by (simp add: system_time_service_ready_def alive_def Let_def split: prod.splits)
    qed
  qed
qed

lemma arrived_good:
  assumes "good n d" "0 < connecting d" "(err = None) = (p \<noteq> None)"
    and "\<forall>q. p = Some q \<longrightarrow> handlers q = [] \<and> 0 < next_handler q" "2 * n + 4 < 2 ^ 32"
  shows "good (Suc n) (service_arrives E p err d)"
proof -
  obtain service :: "unit service option" and outcome msg u
    where f: "new_proxy_finished p err (Some ()) = Some (service, outcome, msg, u)"
    by (simp add: new_proxy_finished_def Let_def)
  note C = service_created[OF assms(3) f]
  show ?thesis
    using system_time_service_ready_good[OF assms(1,2) _ assms(4) _ assms(5), of service outcome E msg] C f
    by (simp add: service_arrives_def)
qed

lemma freed_good:
  assumes g: "good n d" and a: "alive d" and n: "2 * n + 4 < 2 ^ 32"
  shows "good (Suc n) (panel_free d)"
proof -
  let ?k = "tokens d - 1"
  from g have ok: "core_ok n d" by (simp add: good_def)
  have k: "tokens d = Suc ?k" "?k = length (awaiting (bus d)) + connecting d" using a by (simp_all add: tokens_def)
  have "life_counted.held (map_option (\<lambda>x. x\<lparr>lt_panel := False\<rparr>) (life d)) (Suc ?k)"
    using ok k(1) by (cases "life d") (auto simp: core_ok_def)
  note h = unref_held[OF this] and al = unref_alive[OF this]
  have dead: "\<not> ss_linux_date_time_lifetime_get_panel (map_option (\<lambda>x. x\<lparr>lt_panel := False\<rparr>) (life d))"
    by (simp add: ss_linux_date_time_lifetime_get_panel_def split: option.splits)
  let ?e = "panel_free d"
  have life: "life ?e = Option.bind (map_option (\<lambda>x. x\<lparr>lt_panel := False\<rparr>) (life d)) ss_linux_date_time_lifetime_unref"
    and u: "\<not> has_service (ui ?e)" "\<not> protected_operation_active (ui ?e)" "connecting ?e = connecting d"
    "\<And>op. operation_generation op (ui ?e) = operation_generation op (ui d)"
    by (simp_all add: panel_free_def ss_linux_date_time_system_time_dispose_def release_service_def lifetime_unref_def Let_def
        ss_linux_date_time_lifetime_invalidate_def protected_operation_active_def operation_generation_def
        split: prod.splits option.splits system_time_operation.splits)
  have b: "bus ?e = (case service_of d of None \<Rightarrow> bus d | Some s \<Rightarrow>
      after_release ((bus d)\<lparr>client_holds := False\<rparr>) (ss_system_time_service_free (Some s)))"
    by (simp add: panel_free_def ss_linux_date_time_system_time_dispose_def release_service_def lifetime_unref_def Let_def
        service_of_def split: prod.splits option.splits)
  have dead': "\<not> alive ?e" using al dead by (simp add: alive_def life)
  have aw: "awaiting (bus ?e) = awaiting (bus d)" "running (bus ?e) = running (bus d)"
    unfolding b by (simp_all add: after_release_def split: option.splits)
  have "(no_bus (bus ?e) \<or> transport_ok (2 * Suc n) (bus ?e)) \<and> \<not> client_holds (bus ?e) \<and>
        (0 < connecting d \<longrightarrow> no_bus (bus ?e))"
  proof (cases "has_service (ui d)")
    case False
    with core_mono[OF ok] show ?thesis unfolding b by (auto simp: service_of_def core_ok_def)
  next
    case True
    then obtain s where s: "memory (bus d) = Some s" "service_of d = Some s" "transport_ok (2 * n) (bus d)"
      by (rule core_service[OF ok])
    have "client_holds (bus d)" "connecting d = 0" using ok True s by (auto simp: core_ok_def no_bus_def)
    from transport_step_ok[OF transport_step.released[OF this(1)] s(3)] n s
    have "transport_ok (Suc (2 * n)) (bus ?e)" unfolding b by simp
    then have "transport_ok (2 * Suc n) (bus ?e)" by (auto simp: transport_ok_def)
    with s \<open>connecting d = 0\<close> show ?thesis unfolding b by (simp add: after_release_def)
  qed
  moreover have "life_counted.held (life ?e) (tokens ?e)"
    using h dead' k(2) by (simp add: life tokens_def aw u)
  moreover have "requests_ok (Suc n) ?e"
    using core_mono[OF ok] by (simp add: core_ok_def requests_ok_def aw u)
  ultimately show ?thesis using ok u dead' by (simp add: good_def core_ok_def locked_def aw)
qed


lemma step_good: "date_time_step d e \<Longrightarrow> good n d \<Longrightarrow> 2 * n + 4 < 2 ^ 32 \<Longrightarrow> good (Suc n) e"
proof (induction rule: date_time_step.induct)
  case (zone d E m)
  have "good n (d\<lparr>ui := (ui d)\<lparr>timezone_selected := m\<rparr>\<rparr>)" "alive (d\<lparr>ui := (ui d)\<lparr>timezone_selected := m\<rparr>\<rparr>)"
    using zone core_cong(1,2)[OF widgets_keep(1)] by (simp_all add: good_def widgets_keep)
  then show ?case using zone_good zone by blast
next
  case (network d E b)
  have "good n (d\<lparr>ui := (ui d)\<lparr>network_active := b\<rparr>\<rparr>)" "alive (d\<lparr>ui := (ui d)\<lparr>network_active := b\<rparr>\<rparr>)"
    using network core_cong(1,2)[OF widgets_keep(2)] by (simp_all add: good_def widgets_keep)
  then show ?case using network_good network by blast
next
  case (entry d x y)
  then show ?case
    by (intro good_keep[of n d])
      (auto simp: on_manual_entry_changed_def good_def widgets_keep ops_def locked_def protected_operation_active_def)
next
  case (set_time d E)
  then show ?case using set_time_good by blast
next
  case (answered c d E reply)
  then show ?case using answered_good by blast
next
  case (signalled d E owner properties)
  then show ?case using signalled_good by blast
next
  case (arrived d err p E)
  then show ?case using arrived_good by blast
next
  case (controlled d p w E)
  then show ?case by (intro good_keep[of n d]) (simp_all add: good_def)
next
  case (freed d)
  then show ?case using freed_good by blast
qed

lemma run_good: "date_time_run n d e \<Longrightarrow> good 0 d \<Longrightarrow> 2 * n + 2 < 2 ^ 32 \<Longrightarrow> good n e"
  by (induction rule: date_time_run.induct) (auto intro: step_good)

lemma started_good: "good 0 (started ids p w)"
proof -
  let ?d = "started ids p w"
  have l: "life ?d = Some \<lparr>lt_references = 2, lt_panel = True\<rparr>" "bus ?d = \<lparr>memory = None, client_holds = False,
      awaiting = [], running = 0, dropped = None\<rparr>" "connecting ?d = 1"
    by (simp_all add: started_def ss_linux_date_time_system_time_start_def lifetime_ref_def zeroed_ui_def
        ss_linux_date_time_lifetime_new_def ss_linux_date_time_lifetime_ref_def)
  have u: "\<not> has_service (ui ?d)" "operation_cancellable op (ui ?d) = None" "operation_generation op (ui ?d) = 0"
    "\<not> protected_operation_active (ui ?d)" for op
    by (simp_all add: started_def ss_linux_date_time_system_time_start_def lifetime_ref_def zeroed_ui_def
        operation_cancellable_def operation_generation_def protected_operation_active_def split: system_time_operation.splits)
  show ?thesis
    using l u by (simp add: good_def core_ok_def tokens_def alive_def ss_linux_date_time_lifetime_get_panel_def
        no_bus_def requests_ok_def operations_ok_def current_calls_def active_operation_def locked_def)
qed


lemma read_cong:
  "has_service (ui d) = has_service (ui e) \<Longrightarrow> memory (bus d) = memory (bus e) \<Longrightarrow>
     ss_linux_date_time_panel_read_system_time d = ss_linux_date_time_panel_read_system_time e"
  by (simp add: ss_linux_date_time_panel_read_system_time_def service_of_def)

lemma operation_cancellable_simps [simp]:
  "operation_cancellable OPERATION_TIMEZONE u = timezone_cancellable u"
  "operation_cancellable OPERATION_NTP u = ntp_cancellable u"
  "operation_cancellable OPERATION_MANUAL u = manual_time_cancellable u"
  by (simp_all add: operation_cancellable_def)

lemma protected_operation_active_iff:
  "protected_operation_active u \<longleftrightarrow> (\<exists>op. operation_cancellable op u \<noteq> None)"
proof
  assume "protected_operation_active u"
  then show "\<exists>op. operation_cancellable op u \<noteq> None"
    unfolding protected_operation_active_def by (metis operation_cancellable_simps)
next
  assume "\<exists>op. operation_cancellable op u \<noteq> None"
  then obtain op where "operation_cancellable op u \<noteq> None" by blast
  then show "protected_operation_active u" by (cases op) (simp_all add: protected_operation_active_def)
qed

lemma readable_sync:
  "ops d = ops e \<Longrightarrow> ss_linux_date_time_panel_read_system_time d = ss_linux_date_time_panel_read_system_time e"
  using core_cong(6,7)[of d e] by (simp add: ss_linux_date_time_panel_read_system_time_def)

lemma sync_unlocks:
  "ss_linux_date_time_panel_read_system_time d \<noteq> None \<Longrightarrow> \<not> protected_operation_active (ui d) \<Longrightarrow>
     timezone_sensitive (ui (ss_linux_date_time_system_time_sync E d))"
proof -
  assume r: "ss_linux_date_time_panel_read_system_time d \<noteq> None" and a: "\<not> protected_operation_active (ui d)"
  then obtain s where s: "ss_linux_date_time_panel_read_system_time d = Some s" by blast
  let ?x = "d\<lparr>ui := (sync_zone (st_timezone s) ((ui d)\<lparr>ui_updating := True,
      overview_timezone := (if st_timezone s \<noteq> [] then st_timezone s else ''Unknown''),
      overview_sync := (if st_ntp_enabled s then ''Automatic'' else ''Manual'')\<rparr>))\<lparr>network_active := st_ntp_enabled s\<rparr>\<rparr>"
  have "ops ?x = ops d" unfolding sync_zone_keeps by (simp add: ops_def)
  then have "ops (sync_manual E s ?x) = ops d" by simp
  from active_ops[OF this] a show ?thesis
    by (simp add: ss_linux_date_time_system_time_sync_def s Let_def)
qed

lemma carry_out_unlocks:
  "System_time_sync \<in> set cs \<or> timezone_sensitive (ui d) \<Longrightarrow>
     ss_linux_date_time_panel_read_system_time d \<noteq> None \<Longrightarrow> \<not> protected_operation_active (ui d) \<Longrightarrow>
     timezone_sensitive (ui (List.fold (carry_out E) cs d))"
proof (induction cs arbitrary: d)
  case (Cons c cs)
  have o: "ops (carry_out E c d) = ops d" by simp
  have "System_time_sync \<in> set cs \<or> timezone_sensitive (ui (carry_out E c d))"
    using Cons.prems sync_unlocks[OF Cons.prems(2,3)] by (cases c)
      (auto simp: carry_out_def ss_linux_date_time_system_time_invalidate_manual_draft_def)
  then show ?case using Cons.IH[of "carry_out E c d"] Cons.prems readable_sync[OF o] active_ops[OF o] by simp
qed simp


lemma stale_completion:
  "rq_generation r \<noteq> operation_generation (rq_operation r) (ui d) \<or> \<not> alive d \<Longrightarrow>
     system_time_operation_complete E result msg r d = lifetime_unref d"
  by (auto simp: system_time_operation_complete_def alive_def)

lemma unref_frame [simp]:
  "ui (lifetime_unref d) = ui d" "controller (lifetime_unref d) = controller d" "outside (lifetime_unref d) = outside d"
  by (simp_all add: lifetime_unref_def)

lemma complete_call_eq:
  assumes "call_data c = Some r"
  obtains result msg d2 where
    "d2 = system_time_operation_complete E result msg r
       (d\<lparr>bus := (bus d)\<lparr>awaiting := remove1 c (awaiting (bus d)), running := Suc (running (bus d))\<rparr>\<rparr>)"
    "ui (complete_call E c reply d) = ui d2" "controller (complete_call E c reply d) = controller d2"
    "outside (complete_call E c reply d) = outside d2" "life (complete_call E c reply d) = life d2"
proof -
  obtain result msg where "call_finished_outcome c reply = Some (Completion result msg r)"
    by (simp add: call_finished_outcome_def assms Let_def)
  then show ?thesis by (intro that[of _ result msg, OF refl]) (simp_all add: complete_call_def Let_def split: option.splits)
qed

lemma gone_unref: "\<not> alive x \<Longrightarrow> \<not> alive (lifetime_unref x)"
  by (cases "life x") (auto simp: alive_def lifetime_unref_def ss_linux_date_time_lifetime_unref_def
      ss_linux_date_time_lifetime_get_panel_def Let_def)

lemma answer_frame:
  assumes "call_data c = Some r" "rq_generation r \<noteq> operation_generation (rq_operation r) (ui d) \<or> \<not> alive d"
  shows "ui (complete_call E c reply d) = ui d \<and> controller (complete_call E c reply d) = controller d \<and>
     outside (complete_call E c reply d) = outside d"
proof -
  let ?d1 = "d\<lparr>bus := (bus d)\<lparr>awaiting := remove1 c (awaiting (bus d)), running := Suc (running (bus d))\<rparr>\<rparr>"
  obtain result msg d2 where e: "d2 = system_time_operation_complete E result msg r ?d1"
    "ui (complete_call E c reply d) = ui d2" "controller (complete_call E c reply d) = controller d2"
    "outside (complete_call E c reply d) = outside d2" by (rule complete_call_eq[OF assms(1)])
  have u: "d2 = lifetime_unref ?d1" using assms(2) unfolding e(1) by (intro stale_completion) (simp add: alive_def)
  show ?thesis using e(2-4) unfolding u by simp
qed

lemma answer_gone:
  assumes "call_data c = Some r" "\<not> alive d"
  shows "\<not> alive (complete_call E c reply d)"
proof -
  let ?d1 = "d\<lparr>bus := (bus d)\<lparr>awaiting := remove1 c (awaiting (bus d)), running := Suc (running (bus d))\<rparr>\<rparr>"
  obtain result msg d2 where e: "d2 = system_time_operation_complete E result msg r ?d1"
    "life (complete_call E c reply d) = life d2" by (rule complete_call_eq[OF assms(1)])
  have a: "\<not> alive ?d1" using assms(2) by (simp add: alive_def)
  then have u: "d2 = lifetime_unref ?d1" unfolding e(1) by (intro stale_completion) simp
  show ?thesis using e(2) gone_unref[OF a] unfolding u by (simp add: alive_def)
qed

lemma complete_unlocks:
  assumes "alive d" "rq_generation r = operation_generation (rq_operation r) (ui d)"
    and "\<not> protected_operation_active (put_cancellable (rq_operation r) None (ui d))"
    and "ss_linux_date_time_panel_read_system_time d \<noteq> None"
  shows "timezone_sensitive (ui (system_time_operation_complete E result msg r d))"
proof -
  let ?d2 = "d\<lparr>ui := put_cancellable (rq_operation r) None (ui d)\<rparr>"
  let ?d3 = "ss_linux_date_time_system_time_invalidate_manual_draft ?d2"
  have read: "ss_linux_date_time_panel_read_system_time ?d2 \<noteq> None"
    using assms(4) read_cong[of ?d2 d] by (simp add: generation_next)
  have o3: "ops ?d3 = ops ?d2" by simp
  have keep: "timezone_sensitive (ui (lifetime_unref x)) = timezone_sensitive (ui x)"
    "timezone_sensitive (ui (status m e x)) = timezone_sensitive (ui x)" for x m e
    by (simp_all add: lifetime_unref_def status_def)
  have "timezone_sensitive (ui (deliver E p w ?d3))" if "System_time_sync \<in> set (calls p)" for p w
  proof -
    have o: "ops (?d3\<lparr>controller := p\<lparr>calls := []\<rparr>, outside := w\<rparr>) = ops ?d2" using o3 by (simp add: ops_def)
    show ?thesis unfolding deliver_def
      using that read assms(3) readable_sync[OF o] active_ops[OF o] by (intro carry_out_unlocks) simp_all
  qed
  moreover have "System_time_sync \<in> set (calls q)"
    if "ss_linux_date_time_panel_system_time_operation_applied z ob renv gl p = (b, q)" for z ob renv gl p b q
    using that by (auto simp: ss_linux_date_time_panel_system_time_operation_applied_def Let_def call_def
        ss_linux_date_time_location_update_summary_def split: option.splits)
  moreover have "timezone_sensitive (ui (ss_linux_date_time_system_time_sync E ?d2))"
    using sync_unlocks[OF read] assms(3) by simp
  ultimately show ?thesis using assms(1,2)
    unfolding system_time_operation_complete_def Let_def keep alive_def by (auto split: prod.splits simp: keep)
qed

text \<open>
  C13: an operation under way can always be finished: its call is still awaited, and whatever its answer is,
  success or any error, afterwards no operation is under way and, if the service can be read, the
  controls are open again. The answer to any other call changes nothing the user can see.
\<close>

theorem operation_settles:
  assumes "date_time_run n (started ids p w) d" "2 * n + 2 < 2 ^ 32" "alive d" "active_operation op d"
  shows "(\<exists>c \<in> set (awaiting (bus d)).
            call_data c = Some \<lparr>rq_generation = operation_generation op (ui d), rq_operation = op\<rparr> \<and>
            (\<forall>E reply. \<forall>op'. \<not> active_operation op' (complete_call E c reply d)) \<and>
            (\<forall>E reply. ss_linux_date_time_panel_read_system_time d \<noteq> None \<longrightarrow>
                        timezone_sensitive (ui (complete_call E c reply d)))) \<and>
         (\<forall>c \<in> set (awaiting (bus d)).
            call_data c \<noteq> Some \<lparr>rq_generation = operation_generation op (ui d), rq_operation = op\<rparr> \<longrightarrow>
            (\<forall>E reply. \<forall>x. complete_call E c reply d = x \<longrightarrow>
               ui x = ui d \<and> controller x = controller d \<and> outside x = outside d))"
    (is "?current \<and> ?stale")
proof
  from run_good[OF assms(1) started_good assms(2)] have ok: "core_ok n d" by (simp add: good_def)
  let ?r = "\<lparr>rq_generation = operation_generation op (ui d), rq_operation = op\<rparr>"
  have opsok: "operations_ok d" using ok assms(3) by (simp add: core_ok_def)
  then have one: "current_calls op d = 1" and only: "\<And>op'. active_operation op' d \<Longrightarrow> op' = op"
    using assms(4) by (auto simp: operations_ok_def)
  then have "filter (\<lambda>c. call_data c = Some ?r) (awaiting (bus d)) \<noteq> []" by (auto simp: current_calls_def)
  then obtain c where c: "c \<in> set (awaiting (bus d))" "call_data c = Some ?r" by (auto simp: filter_empty_conv)
  have none: "op' \<noteq> op \<Longrightarrow> operation_cancellable op' (ui d) = None" for op'
    using only unfolding active_operation_def by blast
  have quiet: "\<not> protected_operation_active (put_cancellable op None (ui d))"
    using none by (simp add: protected_operation_active_iff generation_next)
  have end_ok: "(\<forall>op'. \<not> active_operation op' (complete_call E c reply d)) \<and>
      (ss_linux_date_time_panel_read_system_time d \<noteq> None \<longrightarrow> timezone_sensitive (ui (complete_call E c reply d)))" for E reply
  proof -
    let ?d1 = "d\<lparr>bus := (bus d)\<lparr>awaiting := remove1 c (awaiting (bus d)), running := Suc (running (bus d))\<rparr>\<rparr>"
    obtain result msg d2 where e: "d2 = system_time_operation_complete E result msg ?r ?d1"
      "ui (complete_call E c reply d) = ui d2" by (rule complete_call_eq[OF c(2)])
    have up: "alive ?d1" using assms(3) by (simp add: alive_def)
    have "active_operation op' d2 = active_operation op' (d\<lparr>ui := put_cancellable op None (ui d)\<rparr>)" for op'
      using core_cong(3)[OF complete_ops[of E result msg ?r ?d1]] up
      by (simp add: e(1) active_operation_def lifetime_unref_def)
    then have "\<forall>op'. \<not> active_operation op' d2" using none by (simp add: active_operation_def generation_next)
    moreover have "ss_linux_date_time_panel_read_system_time ?d1 = ss_linux_date_time_panel_read_system_time d"
      by (simp add: ss_linux_date_time_panel_read_system_time_def service_of_def)
    ultimately show ?thesis using complete_unlocks[OF up, of ?r E result msg] quiet e by (simp add: active_operation_def)
  qed
  with c show ?current by blast
  show ?stale
  proof (intro ballI impI allI)
    fix c E reply x
    assume c: "c \<in> set (awaiting (bus d))" "call_data c \<noteq> Some ?r" and x: "complete_call E c reply d = x"
    obtain r where r: "call_data c = Some r" using ok c(1) by (auto simp: core_ok_def requests_ok_def)
    have "rq_generation r \<noteq> operation_generation (rq_operation r) (ui d)"
    proof
      assume g: "rq_generation r = operation_generation (rq_operation r) (ui d)"
      then have "call_data c = Some \<lparr>rq_generation = operation_generation (rq_operation r) (ui d), rq_operation = rq_operation r\<rparr>"
        using r by (cases r) simp
      with c(1) have "current_calls (rq_operation r) d \<noteq> 0" by (auto simp: current_calls_def filter_empty_conv)
      then have "rq_operation r = op" using opsok only by (auto simp: operations_ok_def split: if_splits)
      with g r c(2) show False by (cases r) simp
    qed
    then show "ui x = ui d \<and> controller x = controller d \<and> outside x = outside d"
      using answer_frame[OF r] x by blast
  qed
qed


text \<open>
  C7: once the panel is gone nothing that is still outstanding, an answer, a signal of the service or
  its arrival, touches the panel's memory: the widgets, the controller's state and the files stay as
  they were.
\<close>

theorem gone_panel_inert:
  assumes "date_time_run n (started ids p w) d" "2 * n + 2 < 2 ^ 32" "\<not> alive d" "date_time_step d e"
  shows "ui e = ui d \<and> controller e = controller d \<and> outside e = outside d \<and> \<not> alive e"
proof -
  from run_good[OF assms(1) started_good assms(2)] have ok: "core_ok n d" by (simp add: good_def)
  from assms(4) show ?thesis
  proof cases
    case (answered c E reply)
    obtain r where r: "call_data c = Some r" using ok answered(2) by (auto simp: core_ok_def requests_ok_def)
    from answer_frame[OF r, of d E reply] answer_gone[OF r assms(3)] assms(3) show ?thesis
      unfolding answered(1) by blast
  next
    case (signalled E owner properties)
    have "emit_changed (map_option (\<lambda>s. s\<lparr>proxy_of := map_option (\<lambda>p. p\<lparr>name_owner := owner,
        cached_property := properties\<rparr>) (proxy_of s)\<rparr>) (memory (bus d))) = None"
      using ok assms(3) by (cases "memory (bus d)") (auto simp: core_ok_def transport_ok_def no_bus_def emit_changed_def)
    then show ?thesis using assms(3) signalled by (simp add: service_signal_def alive_def)
  next
    case (arrived err q E)
    have "\<not> ss_linux_date_time_lifetime_get_panel (life d)" using assms(3) by (simp add: alive_def)
    then show ?thesis using gone_unref[of d] assms(3) arrived(1)
      by (simp add: service_arrives_def new_proxy_finished_def system_time_service_ready_def release_service_def Let_def
          alive_def lifetime_unref_def split: option.splits)
  qed (use assms(3) in simp_all)
qed

section \<open>The manual entry is read exactly\<close>

definition number :: "string \<Rightarrow> int" where
  "number s = foldl (\<lambda>a c. 10 * a + int (digit_value c)) 0 s"

definition date_char :: "char \<Rightarrow> bool" where
  "date_char c \<longleftrightarrow> is_digit c \<or> c = CHR ''-''"

lemma dash_facts [simp]: "\<not> is_digit CHR ''-''" "\<not> is_space CHR ''-''"
  by (simp_all add: is_digit_def is_space_def)

lemma digit_facts: "is_digit c \<Longrightarrow> \<not> is_space c \<and> c \<noteq> CHR ''-'' \<and> c \<noteq> CHR ''+''"
  by (auto simp: is_digit_def is_space_def)

lemma digit_bounds: "is_digit c \<Longrightarrow> int (digit_value c) \<le> 9"
  using digit_value_le[of c] by simp

lemma year_scan:
  assumes "date_char a" "date_char b" "date_char c" "date_char d"
    and "scan_int 4 (a # b # c # d # CHR ''-'' # r) = Some (y, r')" "1000 \<le> y"
  shows "is_digit a \<and> is_digit b \<and> is_digit c \<and> is_digit d \<and> y = number [a, b, c, d] \<and> r' = CHR ''-'' # r"
  using assms digit_facts[of a] digit_facts[of b] digit_facts[of c] digit_facts[of d]
    digit_bounds[of a] digit_bounds[of b] digit_bounds[of c] digit_bounds[of d]
  by (cases "is_digit a"; cases "is_digit b"; cases "is_digit c"; cases "is_digit d")
    (auto simp: scan_int_def date_char_def numeral_eq_Suc number_def)

lemma year_scanned:
  "is_digit a \<Longrightarrow> is_digit b \<Longrightarrow> is_digit c \<Longrightarrow> is_digit d \<Longrightarrow>
     scan_int 4 (a # b # c # d # r) = Some (number [a, b, c, d], r)"
  using digit_facts[of a] by (simp add: scan_int_def number_def numeral_eq_Suc)

lemma two_scan:
  assumes "date_char a" "date_char b" "scan_int 2 (a # b # r) = Some (m, r')" "0 < m"
  shows "is_digit a \<and> (if is_digit b then m = number [a, b] \<and> r' = r else r' = CHR ''-'' # r)"
  using assms digit_facts[of a] digit_facts[of b]
  by (cases "is_digit a"; cases "is_digit b") (auto simp: scan_int_def date_char_def numeral_eq_Suc number_def)

lemma two_scanned: "is_digit a \<Longrightarrow> is_digit b \<Longrightarrow> scan_int 2 (a # b # r) = Some (number [a, b], r)"
  using digit_facts[of a] by (simp add: scan_int_def number_def numeral_eq_Suc)

lemma dash_scan: "date_char c \<Longrightarrow> scan_int 2 (CHR ''-'' # c # r) = Some (m, r') \<Longrightarrow> m \<le> 0"
  using digit_facts[of c] by (auto simp: scan_int_def date_char_def numeral_eq_Suc split: if_splits)

text \<open>A text of the right shape is scanned to a date after 1970 exactly when its three fields are digits.\<close>

lemma scan_date_exact:
  assumes "date_shape s"
  shows "scan_date s = Some (y, m, d) \<and> 1000 \<le> y \<and> 0 < m \<and> 0 < d \<longleftrightarrow>
    (\<exists>ys ms ds. s = ys @ CHR ''-'' # ms @ CHR ''-'' # ds \<and> length ys = 4 \<and> length ms = 2 \<and> length ds = 2 \<and>
       list_all is_digit (ys @ ms @ ds) \<and> y = number ys \<and> m = number ms \<and> d = number ds \<and>
       1000 \<le> y \<and> 0 < m \<and> 0 < d)"
    (is "?l \<longleftrightarrow> ?r")
proof
  from assms obtain c0 c1 c2 c3 c5 c6 c8 c9 where s: "s = [c0, c1, c2, c3, CHR ''-'', c5, c6, CHR ''-'', c8, c9]"
    and dc: "date_char c0" "date_char c1" "date_char c2" "date_char c3" "date_char c5" "date_char c6" "date_char c8" "date_char c9"
    by (auto simp: date_shape_def date_char_def length_Suc_conv numeral_eq_Suc char_at_def)
  assume l: ?l
  then obtain r1 where r1: "scan_int 4 s = Some (y, r1)" and pos: "1000 \<le> y" "0 < m" "0 < d"
    by (auto simp: scan_date_def split: option.splits if_splits)
  note Y = year_scan[OF dc(1-4) r1[unfolded s] pos(1)]
  with l r1 obtain r2 where r2: "scan_int 2 [c5, c6, CHR ''-'', c8, c9] = Some (m, r2)"
    by (auto simp: scan_date_def scan_dash_def split: option.splits if_splits)
  note M = two_scan[OF dc(5,6) r2 pos(2)]
  have "is_digit c6"
  proof (rule ccontr)
    assume "\<not> is_digit c6"
    with M have "r2 = [CHR ''-'', CHR ''-'', c8, c9]" by simp
    with l r1 Y r2 obtain r3 where "scan_int 2 [CHR ''-'', c8, c9] = Some (d, r3)"
      by (auto simp: scan_date_def scan_dash_def split: option.splits if_splits)
    from dash_scan[OF dc(7) this] pos show False by simp
  qed
  with M have M': "m = number [c5, c6]" "r2 = [CHR ''-'', c8, c9]" by simp_all
  with l r1 Y r2 have r3: "scan_int 2 [c8, c9] = Some (d, [])"
    by (auto simp: scan_date_def scan_dash_def split: option.splits if_splits)
  with two_scan[OF dc(7,8) r3 pos(3)] have "is_digit c8" "is_digit c9" "d = number [c8, c9]" by (auto split: if_splits)
  with Y M M' \<open>is_digit c6\<close> pos show ?r unfolding s
    by (intro exI[of _ "[c0, c1, c2, c3]"] exI[of _ "[c5, c6]"] exI[of _ "[c8, c9]"]) simp
next
  assume ?r
  then obtain ys ms ds where r: "s = ys @ CHR ''-'' # ms @ CHR ''-'' # ds" "length ys = 4" "length ms = 2" "length ds = 2"
    "list_all is_digit (ys @ ms @ ds)" "y = number ys" "m = number ms" "d = number ds" "1000 \<le> y" "0 < m" "0 < d"
    by blast
  then obtain a b c e f g h i where "ys = [a, b, c, e]" "ms = [f, g]" "ds = [h, i]"
    by (auto simp: length_Suc_conv numeral_eq_Suc)
  with r show ?l by (simp add: scan_date_def year_scanned two_scanned scan_dash_def)
qed

lemma local_instant_iff:
  "local_instant E y m d us = Some t \<longleftrightarrow>
     (\<exists>v. te_local E y m d (us div 1000000 div 3600) (us div 1000000 mod 3600 div 60)
        (dadd (Fin (of_int (us div 1000000 mod 60))) (round64 (of_int (us mod 1000000) / 1000000))) = Some v \<and>
      lt_year v = y \<and> lt_month v = m \<and> lt_day v = d \<and> lt_hour v = us div 1000000 div 3600 \<and>
      lt_minute v = us div 1000000 mod 3600 div 60 \<and> lt_second v = us div 1000000 mod 60 \<and>
      t = lt_unix v * 1000000 + us mod 1000000)"
proof -
  define h mi s fr x where "h = us div 1000000 div 3600" and "mi = us div 1000000 mod 3600 div 60"
    and "s = us div 1000000 mod 60" and "fr = us mod 1000000"
    and "x = dadd (Fin (of_int s)) (round64 (of_int fr / 1000000))"
  note abbr = h_def[symmetric] mi_def[symmetric] s_def[symmetric] fr_def[symmetric]
  show ?thesis
    unfolding local_instant_def Let_def G_USEC_PER_SEC_def of_int_numeral abbr x_def[symmetric]
    by (cases "te_local E y m d h mi x") auto
qed

lemma parse_supported:
  "ss_manual_time_parse cm (Some m) use24 t = Some us \<Longrightarrow> ss_manual_time_mode_supported (Some m)"
  by (auto simp: ss_manual_time_parse_def ss_manual_time_mode_supported_def profile_for_mode_def
      ss_native_clock_mode_profile_def split: option.splits if_splits)

text \<open>
  C29: the manual entry is accepted exactly when the policy is Gregorian, the date is written
  \<open>YYYY-MM-DD\<close> in digits from 1970 on with month and day in range, the time is one the clock system's
  parser accepts, and a local time with just these fields exists; what is sent to the service is the
  instant of that local time with the microseconds of the entry. A wall time that the local clock skips,
  which GLib moves to another one, is refused.
\<close>

theorem manual_datetime_exact:
  "parse_manual_datetime E L k p date time = Some t \<longleftrightarrow>
    (\<exists>q ys ms ds us v. ss_date_time_model_policy (model p) = Some q \<and> calendar q = ''gregorian'' \<and>
       ss_manual_time_parse (lib_common L) (Some (clock_mode q)) (ss_linux_date_time_panel_desktop_uses_24h L k p)
         (Some time) = Some us \<and>
       date = ys @ CHR ''-'' # ms @ CHR ''-'' # ds \<and> length ys = 4 \<and> length ms = 2 \<and> length ds = 2 \<and>
       list_all is_digit (ys @ ms @ ds) \<and> 1970 \<le> number ys \<and>
       1 \<le> number ms \<and> number ms \<le> 12 \<and> 1 \<le> number ds \<and> number ds \<le> 31 \<and>
       te_local E (number ys) (number ms) (number ds) (us div 1000000 div 3600) (us div 1000000 mod 3600 div 60)
         (dadd (Fin (of_int (us div 1000000 mod 60))) (round64 (of_int (us mod 1000000) / 1000000))) = Some v \<and>
       lt_year v = number ys \<and> lt_month v = number ms \<and> lt_day v = number ds \<and>
       lt_hour v = us div 1000000 div 3600 \<and> lt_minute v = us div 1000000 mod 3600 div 60 \<and>
       lt_second v = us div 1000000 mod 60 \<and> t = lt_unix v * 1000000 + us mod 1000000)"
    (is "?l \<longleftrightarrow> ?r")
proof
  have bound: "number ys \<le> 9999" if l: "length ys = 4" and g: "list_all is_digit ys" for ys
  proof -
    obtain a b c e where y: "ys = [a, b, c, e]" using l by (auto simp: length_Suc_conv numeral_eq_Suc)
    then show ?thesis
      using g digit_bounds[of a] digit_bounds[of b] digit_bounds[of c] digit_bounds[of e] by (simp add: number_def)
  qed
  show "?l \<Longrightarrow> ?r"
  proof -
    assume l: ?l
    then obtain q y m d us where q: "ss_date_time_model_policy (model p) = Some q" "calendar q = ''gregorian''"
      and sh: "date_shape date" and sc: "scan_date date = Some (y, m, d)"
      and us: "ss_manual_time_parse (lib_common L) (Some (clock_mode q))
         (ss_linux_date_time_panel_desktop_uses_24h L k p) (Some time) = Some us"
      and rng: "1970 \<le> y" "1 \<le> m" "m \<le> 12" "1 \<le> d" "d \<le> 31" and li: "local_instant E y m d us = Some t"
      by (auto simp: parse_manual_datetime_def manual_representation_supported_def split: option.splits if_splits)
    from scan_date_exact[OF sh, of y m d] sc rng obtain ys ms ds where f: "date = ys @ CHR ''-'' # ms @ CHR ''-'' # ds"
      "length ys = 4" "length ms = 2" "length ds = 2" "list_all is_digit (ys @ ms @ ds)" "y = number ys" "m = number ms"
      "d = number ds" by auto
    from li[unfolded f(6-8) local_instant_iff] q us f(1-5) rng[unfolded f(6-8)] show ?r
      by blast
  qed
  assume ?r
  then obtain q ys ms ds us v where r: "ss_date_time_model_policy (model p) = Some q" "calendar q = ''gregorian''"
    "ss_manual_time_parse (lib_common L) (Some (clock_mode q)) (ss_linux_date_time_panel_desktop_uses_24h L k p)
         (Some time) = Some us"
    "date = ys @ CHR ''-'' # ms @ CHR ''-'' # ds" "length ys = 4" "length ms = 2" "length ds = 2"
    "list_all is_digit (ys @ ms @ ds)" "1970 \<le> number ys" "1 \<le> number ms" "number ms \<le> 12" "1 \<le> number ds" "number ds \<le> 31"
    "local_instant E (number ys) (number ms) (number ds) us = Some t"
    unfolding local_instant_iff by blast
  have "date_shape date" using r(4-8)
    by (auto simp: date_shape_def length_Suc_conv numeral_eq_Suc char_at_def)
  moreover from scan_date_exact[OF this] r(4-13) have "scan_date date = Some (number ys, number ms, number ds)" by fastforce
  moreover have "number ys \<le> 9999" using bound r(5,8) by simp
  ultimately show ?l using r parse_supported[OF r(3)]
    by (simp add: parse_manual_datetime_def manual_representation_supported_def)
qed

section \<open>A run\<close>

definition sample_time_env :: time_env where
  "sample_time_env = \<lparr>te_now = None, te_clock = (\<lambda>_ _ _ _. None), te_zones = no_region, te_zones_locked = no_region,
     te_local = (\<lambda>_ _ _ _ _ _. None)\<rparr>"

definition ready :: date_time where
  "ready = service_arrives sample_time_env (Some sample_proxy) None (started [''UTC'', ''Asia/Tokyo''] sample_panel sample_world)"

definition zone_asked :: date_time where
  "zone_asked = on_timezone_changed sample_time_env (ready\<lparr>ui := (ui ready)\<lparr>timezone_selected := 1\<rparr>\<rparr>)"

definition panel_closed :: date_time where
  "panel_closed = panel_free zone_asked"

lemma sample_ready: "alive ready"
  by code_simp

lemma sample_asked: "alive zone_asked" "active_operation OPERATION_TIMEZONE zone_asked"
  by code_simp+

lemma sample_closed: "\<not> alive panel_closed" "awaiting (bus panel_closed) \<noteq> []"
  by code_simp+

lemmas sample_states = sample_ready sample_asked sample_closed

lemma sample_run: "date_time_run 3 (started [''UTC'', ''Asia/Tokyo''] sample_panel sample_world) panel_closed"
  "date_time_run 2 (started [''UTC'', ''Asia/Tokyo''] sample_panel sample_world) zone_asked"
proof -
  have "0 < connecting (started [''UTC'', ''Asia/Tokyo''] sample_panel sample_world)" by code_simp
  then have 1: "date_time_step (started [''UTC'', ''Asia/Tokyo''] sample_panel sample_world) ready"
    unfolding ready_def by (rule date_time_step.arrived) (simp_all add: sample_proxy_def)
  have 2: "date_time_step ready zone_asked"
    unfolding zone_asked_def by (rule date_time_step.zone[OF sample_states(1)])
  have 3: "date_time_step zone_asked panel_closed"
    unfolding panel_closed_def by (rule date_time_step.freed[OF sample_states(2)])
  have "date_time_run (Suc (Suc 0)) (started [''UTC'', ''Asia/Tokyo''] sample_panel sample_world) zone_asked"
    by (rule date_time_run.continued[OF date_time_run.continued[OF date_time_run.begun 1] 2])
  then show r: "date_time_run 2 (started [''UTC'', ''Asia/Tokyo''] sample_panel sample_world) zone_asked"
    by (simp add: numeral_eq_Suc)
  from date_time_run.continued[OF r 3]
  show "date_time_run 3 (started [''UTC'', ''Asia/Tokyo''] sample_panel sample_world) panel_closed" by simp
qed


theorem operation_settles_witness:
  "\<exists>c \<in> set (awaiting (bus zone_asked)). \<forall>E reply. \<not> active_operation OPERATION_TIMEZONE (complete_call E c reply zone_asked)"
proof -
  have "2 * 2 + 2 < (2 :: nat) ^ 32" by simp
  from operation_settles[OF sample_run(2) this sample_states(2,3)] show ?thesis by blast
qed

text \<open>The zone's answer comes after the panel was closed.\<close>

theorem gone_panel_inert_witness:
  "\<exists>e. date_time_step panel_closed e \<and> controller e = controller panel_closed \<and> \<not> alive e"
proof -
  obtain c where "c \<in> set (awaiting (bus panel_closed))" using sample_states(5) by (cases "awaiting (bus panel_closed)") auto
  then have s: "date_time_step panel_closed (complete_call sample_time_env c None panel_closed)"
    by (rule date_time_step.answered)
  have "2 * 3 + 2 < (2 :: nat) ^ 32" by simp
  from gone_panel_inert[OF sample_run(1) this sample_states(4) s] s show ?thesis by blast
qed

end
