(* ===== verification/WindowsStore.thy ===== *)
theory WindowsStore
  imports DateTimeModel Linux "HOL-Library.Word"
begin

text \<open>
  The Windows \<open>temporal-policy-store.c\<close> over the Win32 file functions, and the proof that it keeps the same
  contract \<open>policy_store\<close> as the Linux store. The functions of the system are the fields of a record;
  a path is a string, a handle an integer (\<open>INVALID_HANDLE_VALUE\<close> is \<open>-1\<close>), \<open>GetLastError\<close> the \<open>Inl\<close> or the
  \<open>Some\<close> of the call that failed. An open file is read as it was opened: writers replace files by moving
  others over them, and what other processes do happens at the calls that take a path. \<open>calloc\<close> does not fail.
\<close>

section \<open>The system\<close>

datatype win_error =
    FILE_NOT_FOUND | PATH_NOT_FOUND | FILE_EXISTS | ALREADY_EXISTS | ACCESS_DENIED
  | SHARING_VIOLATION | LOCK_VIOLATION | IO_PENDING | OTHER_WIN nat

datatype disposition = OPEN_EXISTING | CREATE_NEW | OPEN_ALWAYS

record win_kernel =
  win_files :: "string \<Rightarrow> string option"
  open_handles :: "int list"
  handle_path :: "int \<Rightarrow> string"
  lock_handle :: "int option"

record win_lib =
  win_common :: common
  known_folder :: "string option"
  process_text :: string
  ulong_text :: "32 word \<Rightarrow> string"
  create_directory :: "string \<Rightarrow> win_kernel \<Rightarrow> win_error option \<times> win_kernel"
  create_file :: "string \<Rightarrow> disposition \<Rightarrow> win_kernel \<Rightarrow> (win_error + int) \<times> win_kernel"
  get_file_size :: "int \<Rightarrow> win_kernel \<Rightarrow> int option"
  read_file :: "int \<Rightarrow> nat \<Rightarrow> win_kernel \<Rightarrow> string option"
  write_file :: "int \<Rightarrow> string \<Rightarrow> win_kernel \<Rightarrow> nat option \<times> win_kernel"
  flush_file :: "int \<Rightarrow> win_kernel \<Rightarrow> bool \<times> win_kernel"
  close_handle :: "int \<Rightarrow> win_kernel \<Rightarrow> win_kernel"
  move_file :: "string \<Rightarrow> string \<Rightarrow> win_kernel \<Rightarrow> win_error option \<times> win_kernel"
  delete_file :: "string \<Rightarrow> win_kernel \<Rightarrow> win_kernel"
  lock_file :: "int \<Rightarrow> win_kernel \<Rightarrow> win_error option \<times> win_kernel"
  unlock_file :: "int \<Rightarrow> win_kernel \<Rightarrow> win_kernel"
  sleep_ms :: "nat \<Rightarrow> win_kernel \<Rightarrow> win_kernel"

text \<open>The process: its library, the system, and the two static variables of the file.\<close>

record win_world =
  win_lib_of :: win_lib
  win_kern :: win_kernel
  update_lock_file :: int
  sequence_number :: "32 word"

definition INVALID_HANDLE_VALUE :: int where "INVALID_HANDLE_VALUE = - 1"

definition SS_POLICY_CAPACITY :: nat where "SS_POLICY_CAPACITY = 1024"

section \<open>Paths\<close>

text \<open>Directory and file under the known folder, with a separator when the folder has none at its end.\<close>

definition build_paths :: "win_lib \<Rightarrow> (string \<times> string) option" where
  "build_paths L =
     (case known_folder L of
        None \<Rightarrow> None
      | Some base \<Rightarrow>
          (let needs_separator = (base \<noteq> [] \<and> last base \<noteq> CHR 0x5C \<and> last base \<noteq> CHR ''/'');
               directory = base @ (if needs_separator then [CHR 0x5C] else []) @ ''Infiltrator''
           in Some (directory, directory @ CHR 0x5C # ''presentation.conf'')))"

definition temporary_path :: "win_lib \<Rightarrow> string \<Rightarrow> 32 word \<Rightarrow> string" where
  "temporary_path L path n = path @ ''.'' @ process_text L @ ''.'' @ ulong_text L n @ ''.tmp''"

section \<open>One file\<close>

text \<open>The policy and \<open>found\<close>; \<open>None\<close> is the return value \<open>false\<close>.\<close>

definition ss_windows_temporal_policy_load_file ::
  "win_lib \<Rightarrow> string \<Rightarrow> win_kernel \<Rightarrow> (policy \<times> bool) option \<times> win_kernel" where
  "ss_windows_temporal_policy_load_file L path k =
     (case policy_v3_default (win_common L) of
        None \<Rightarrow> (None, k)
      | Some d \<Rightarrow>
          (case create_file L path OPEN_EXISTING k of
             (Inl err, k1) \<Rightarrow>
               (if err = FILE_NOT_FOUND \<or> err = PATH_NOT_FOUND then (Some (d, False), k1) else (None, k1))
           | (Inr file, k1) \<Rightarrow>
               (let r = (case get_file_size L file k1 of
                           None \<Rightarrow> None
                         | Some bytes \<Rightarrow>
                             if bytes \<le> 0 \<or> int SS_POLICY_CAPACITY \<le> bytes then Some (d, False)
                             else (case read_file L file (nat bytes) k1 of
                                     None \<Rightarrow> None
                                   | Some text \<Rightarrow>
                                       if int (length text) \<noteq> bytes then None
                                       else if CHR 0x00 \<in> set text then Some (d, False)
                                       else (case policy_v3_parse (win_common L) text of
                                               None \<Rightarrow> Some (d, False) | Some p \<Rightarrow> Some (p, True))))
                in (r, close_handle L file k1))))"

text \<open>The exclusive creation of a sibling: the handle and its path, \<open>None\<close> when there is none.\<close>

primrec create_temporary ::
  "nat \<Rightarrow> win_lib \<Rightarrow> string \<Rightarrow> 32 word \<Rightarrow> win_kernel \<Rightarrow> (int \<times> string) option \<times> 32 word \<times> win_kernel" where
  "create_temporary 0 L path n k = (None, n, k)"
| "create_temporary (Suc attempts) L path n k =
     (let n1 = n + 1; temporary = temporary_path L path n1 in
      case create_file L temporary CREATE_NEW k of
        (Inr file, k1) \<Rightarrow> (Some (file, temporary), n1, k1)
      | (Inl err, k1) \<Rightarrow>
          if err \<noteq> FILE_EXISTS \<and> err \<noteq> ALREADY_EXISTS then (None, n1, k1)
          else create_temporary attempts L path n1 k1)"

primrec move_over :: "nat \<Rightarrow> win_lib \<Rightarrow> string \<Rightarrow> string \<Rightarrow> win_kernel \<Rightarrow> bool \<times> win_kernel" where
  "move_over 0 L temporary path k = (False, k)"
| "move_over (Suc attempts) L temporary path k =
     (case move_file L temporary path k of
        (None, k1) \<Rightarrow> (True, k1)
      | (Some err, k1) \<Rightarrow>
          if err \<noteq> ACCESS_DENIED \<and> err \<noteq> SHARING_VIOLATION \<and> err \<noteq> LOCK_VIOLATION then (False, k1)
          else move_over attempts L temporary path (sleep_ms L 1 k1))"

text \<open>Writing and flushing the staged file.\<close>

definition stage_text :: "win_lib \<Rightarrow> int \<Rightarrow> string \<Rightarrow> win_kernel \<Rightarrow> bool \<times> win_kernel" where
  "stage_text L file text k =
     (case write_file L file text k of
        (None, k1) \<Rightarrow> (False, k1)
      | (Some written, k1) \<Rightarrow> if written \<noteq> length text then (False, k1) else flush_file L file k1)"

definition ss_windows_temporal_policy_save_file ::
  "win_lib \<Rightarrow> string \<Rightarrow> policy \<Rightarrow> 32 word \<Rightarrow> win_kernel \<Rightarrow> bool \<times> 32 word \<times> win_kernel" where
  "ss_windows_temporal_policy_save_file L path p n k =
     (case policy_v3_serialize (win_common L) p SS_POLICY_CAPACITY of
        None \<Rightarrow> (False, n, k)
      | Some text \<Rightarrow>
          (case create_temporary 32 L path n k of
             (None, n1, k1) \<Rightarrow> (False, n1, k1)
           | (Some (file, temporary), n1, k1) \<Rightarrow>
               (let (staged, k2) = stage_text L file text k1;
                    k3 = close_handle L file k2;
                    (ok, k4) = (if staged then move_over 64 L temporary path k3 else (False, k3))
                in (ok, n1, if ok then k4 else delete_file L temporary k4))))"

definition ss_windows_temporal_policy_clear_file :: "win_lib \<Rightarrow> string \<Rightarrow> win_kernel \<Rightarrow> bool \<times> win_kernel" where
  "ss_windows_temporal_policy_clear_file L path k =
     (if path = [] then (False, k)
      else
        (let tombstone = path @ ''.deleted'' in
         case move_file L path tombstone k of
           (Some err, k1) \<Rightarrow> (err = FILE_NOT_FOUND \<or> err = PATH_NOT_FOUND, k1)
         | (None, k1) \<Rightarrow> (True, delete_file L tombstone k1)))"

section \<open>The update lock\<close>

primrec lock_attempts :: "nat \<Rightarrow> win_lib \<Rightarrow> int \<Rightarrow> win_kernel \<Rightarrow> bool \<times> win_kernel" where
  "lock_attempts 0 L file k = (False, k)"
| "lock_attempts (Suc attempts) L file k =
     (case lock_file L file k of
        (None, k1) \<Rightarrow> (True, k1)
      | (Some err, k1) \<Rightarrow>
          if err \<noteq> LOCK_VIOLATION \<and> err \<noteq> IO_PENDING then (False, k1)
          else lock_attempts attempts L file (sleep_ms L 10 k1))"

definition directory_ready :: "win_lib \<Rightarrow> string \<Rightarrow> win_kernel \<Rightarrow> bool \<times> win_kernel" where
  "directory_ready L directory k =
     (case create_directory L directory k of
        (None, k1) \<Rightarrow> (True, k1) | (Some err, k1) \<Rightarrow> (err = ALREADY_EXISTS, k1))"

definition win_begin_update :: "win_world \<Rightarrow> bool \<times> win_world" where
  "win_begin_update w =
     (let L = win_lib_of w in
      if update_lock_file w \<noteq> INVALID_HANDLE_VALUE then (False, w)
      else (case build_paths L of
              None \<Rightarrow> (False, w)
            | Some (directory, path) \<Rightarrow>
                (let (there, k1) = directory_ready L directory (win_kern w) in
                 if \<not> there then (False, w\<lparr>win_kern := k1\<rparr>)
                 else (case create_file L (path @ ''.lock'') OPEN_ALWAYS k1 of
                         (Inl _, k2) \<Rightarrow> (False, w\<lparr>win_kern := k2\<rparr>)
                       | (Inr file, k2) \<Rightarrow>
                           (let (ok, k3) = lock_attempts 25 L file k2 in
                            if ok then (True, w\<lparr>win_kern := k3, update_lock_file := file\<rparr>)
                            else (False, w\<lparr>win_kern := close_handle L file k3,
                                           update_lock_file := INVALID_HANDLE_VALUE\<rparr>))))))"

definition win_end_update :: "win_world \<Rightarrow> win_world" where
  "win_end_update w =
     (if update_lock_file w = INVALID_HANDLE_VALUE then w
      else w\<lparr>win_kern := close_handle (win_lib_of w) (update_lock_file w)
                          (unlock_file (win_lib_of w) (update_lock_file w) (win_kern w)),
             update_lock_file := INVALID_HANDLE_VALUE\<rparr>)"

section \<open>The store\<close>

definition win_platform_load :: "win_world \<Rightarrow> (policy \<times> bool) option \<times> win_world" where
  "win_platform_load w =
     (case build_paths (win_lib_of w) of
        None \<Rightarrow> (None, w)
      | Some (_, path) \<Rightarrow>
          (let (r, k) = ss_windows_temporal_policy_load_file (win_lib_of w) path (win_kern w)
           in (r, w\<lparr>win_kern := k\<rparr>)))"

definition win_platform_save :: "policy \<Rightarrow> win_world \<Rightarrow> bool \<times> win_world" where
  "win_platform_save p w =
     (case build_paths (win_lib_of w) of
        None \<Rightarrow> (False, w)
      | Some (directory, path) \<Rightarrow>
          (let (there, k1) = directory_ready (win_lib_of w) directory (win_kern w) in
           if \<not> there then (False, w\<lparr>win_kern := k1\<rparr>)
           else (let (ok, n, k2) = ss_windows_temporal_policy_save_file (win_lib_of w) path p (sequence_number w) k1
                 in (ok, w\<lparr>win_kern := k2, sequence_number := n\<rparr>))))"

definition win_platform_clear :: "win_world \<Rightarrow> bool \<times> win_world" where
  "win_platform_clear w =
     (case build_paths (win_lib_of w) of
        None \<Rightarrow> (False, w)
      | Some (_, path) \<Rightarrow>
          (let (ok, k) = ss_windows_temporal_policy_clear_file (win_lib_of w) path (win_kern w)
           in (ok, w\<lparr>win_kern := k\<rparr>)))"

definition ss_windows_temporal_policy_store :: "win_world store" where
  "ss_windows_temporal_policy_store = \<lparr>
     st_load = Some win_platform_load,
     st_save = Some win_platform_save,
     st_clear = Some win_platform_clear,
     st_begin_update = Some win_begin_update,
     st_end_update = Some win_end_update,
     st_compatibility_matches = None\<rparr>"

section \<open>What the store relies on\<close>

definition win_policy_path :: "win_lib \<Rightarrow> string" where
  "win_policy_path L = (case build_paths L of None \<Rightarrow> [] | Some (_, path) \<Rightarrow> path)"

text \<open>
  The files nobody else writes: the staged siblings, which carry this process's number, and the policy
  while the lock is owned. \<open>win_frame S k k'\<close>: a call that kept these, except those in \<open>S\<close>, and the lock.
\<close>

definition win_kept :: "win_lib \<Rightarrow> win_kernel \<Rightarrow> string \<Rightarrow> bool" where
  "win_kept L k p \<longleftrightarrow> (p = win_policy_path L \<and> lock_handle k \<noteq> None) \<or> (\<exists>n. p = temporary_path L (win_policy_path L) n)"

definition win_frame :: "win_lib \<Rightarrow> string set \<Rightarrow> win_kernel \<Rightarrow> win_kernel \<Rightarrow> bool" where
  "win_frame L S k k' \<longleftrightarrow> lock_handle k' = lock_handle k \<and>
     (\<forall>p. win_kept L k p \<and> p \<notin> S \<longrightarrow> win_files k' p = win_files k p)"

text \<open>\<open>shown k h c\<close>: the handle \<open>h\<close> is open on a file whose bytes are \<open>c\<close>.\<close>

definition reads_documented :: "win_lib \<Rightarrow> bool" where
  "reads_documented L \<longleftrightarrow>
     (\<forall>p k r k'. create_file L p OPEN_EXISTING k = (r, k') \<longrightarrow>
        win_frame L {} k k' \<and>
        (case r of
           Inl err \<Rightarrow> open_handles k' = open_handles k \<and>
             (err = FILE_NOT_FOUND \<or> err = PATH_NOT_FOUND \<longrightarrow> win_files k' p = None)
         | Inr h \<Rightarrow> h \<noteq> INVALID_HANDLE_VALUE \<and> h \<notin> set (open_handles k) \<and> open_handles k' = h # open_handles k \<and>
             (\<exists>c. win_files k' p = Some c \<and>
                (\<forall>n. get_file_size L h k' = Some n \<longrightarrow> n = int (length c)) \<and>
                (\<forall>n t. read_file L h n k' = Some t \<longrightarrow> t = take n c))))"

definition writes_documented :: "win_lib \<Rightarrow> bool" where
  "writes_documented L \<longleftrightarrow>
     (\<forall>p d k r k'. create_file L p d k = (r, k') \<longrightarrow> d \<noteq> OPEN_EXISTING \<longrightarrow>
        win_frame L {p} k k' \<and>
        (case r of Inl err \<Rightarrow> open_handles k' = open_handles k \<and> (win_kept L k p \<longrightarrow> win_files k' p = win_files k p)
         | Inr h \<Rightarrow> h \<noteq> INVALID_HANDLE_VALUE \<and> h \<notin> set (open_handles k) \<and> open_handles k' = h # open_handles k)) \<and>
     (\<forall>p h t r k1 b k2 k0 r0. create_file L p CREATE_NEW k0 = (Inr h, r0) \<longrightarrow> write_file L h t r0 = (r, k1) \<longrightarrow>
        win_frame L {p} r0 k1 \<and> open_handles k1 = open_handles r0 \<and>
        (flush_file L h k1 = (b, k2) \<longrightarrow> win_frame L {p} k1 k2 \<and> open_handles k2 = open_handles k1 \<and>
           (b \<and> r = Some (length t) \<longrightarrow> win_files k2 p = Some t)))"

definition moves_documented :: "win_lib \<Rightarrow> bool" where
  "moves_documented L \<longleftrightarrow>
     (\<forall>a b k r k'. move_file L a b k = (r, k') \<longrightarrow> a \<noteq> b \<longrightarrow>
        open_handles k' = open_handles k \<and> win_frame L {a, b} k k' \<and>
        (case r of
           None \<Rightarrow> win_files k' a = None \<and> (win_kept L k a \<and> win_kept L k b \<longrightarrow> win_files k' b = win_files k a)
         | Some err \<Rightarrow> (\<forall>p. win_kept L k p \<longrightarrow> win_files k' p = win_files k p) \<and>
             (err = FILE_NOT_FOUND \<or> err = PATH_NOT_FOUND \<longrightarrow> win_files k' a = None))) \<and>
     (\<forall>p k. win_frame L {p} k (delete_file L p k) \<and> open_handles (delete_file L p k) = open_handles k)"

definition locks_documented :: "win_lib \<Rightarrow> bool" where
  "locks_documented L \<longleftrightarrow>
     (\<forall>h k r k'. lock_file L h k = (r, k') \<longrightarrow> open_handles k' = open_handles k \<and>
        (if r = None then lock_handle k = None \<and> lock_handle k' = Some h else win_frame L {} k k')) \<and>
     (\<forall>h k. open_handles (unlock_file L h k) = open_handles k \<and>
        win_files (unlock_file L h k) = win_files k \<and> lock_handle (unlock_file L h k) = (if lock_handle k = Some h then None else lock_handle k)) \<and>
     (\<forall>h k. open_handles (close_handle L h k) = remove1 h (open_handles k) \<and> win_files (close_handle L h k) = win_files k \<and>
        lock_handle (close_handle L h k) = (if lock_handle k = Some h then None else lock_handle k)) \<and>
     (\<forall>n k. win_frame L {} k (sleep_ms L n k) \<and> open_handles (sleep_ms L n k) = open_handles k) \<and>
     (\<forall>p k r k'. create_directory L p k = (r, k') \<longrightarrow> win_frame L {} k k' \<and> open_handles k' = open_handles k)"

text \<open>Documents fit the buffer, are not empty, hold no NUL, and read back as their stored form.\<close>

definition documents_documented :: "common \<Rightarrow> bool" where
  "documents_documented cm \<longleftrightarrow> format_documented cm \<and>
     (\<forall>p t. policy_v3_serialize cm p SS_POLICY_CAPACITY = Some t \<longrightarrow>
        t \<noteq> [] \<and> length t < SS_POLICY_CAPACITY \<and> CHR 0x00 \<notin> set t \<and> policy_v3_parse cm t = Some (stored cm p))"

definition win_text :: "common \<Rightarrow> string option \<Rightarrow> policy option" where
  "win_text cm contents =
     (case contents of None \<Rightarrow> None
      | Some t \<Rightarrow> if t = [] \<or> SS_POLICY_CAPACITY \<le> length t \<or> CHR 0x00 \<in> set t then None else policy_v3_parse cm t)"

definition win_view :: "win_world \<Rightarrow> policy option" where
  "win_view w = win_text (win_common (win_lib_of w)) (win_files (win_kern w) (win_policy_path (win_lib_of w)))"

definition win_locked :: "win_world \<Rightarrow> bool" where
  "win_locked w \<longleftrightarrow> update_lock_file w \<noteq> INVALID_HANDLE_VALUE"

definition win_ok :: "win_world \<Rightarrow> bool" where
  "win_ok w \<longleftrightarrow> (let L = win_lib_of w in
     reads_documented L \<and> writes_documented L \<and> moves_documented L \<and> locks_documented L \<and>
     documents_documented (win_common L)) \<and>
     INVALID_HANDLE_VALUE \<notin> set (open_handles (win_kern w)) \<and> distinct (open_handles (win_kern w)) \<and>
     (if win_locked w then lock_handle (win_kern w) = Some (update_lock_file w) \<and>
                           update_lock_file w \<in> set (open_handles (win_kern w))
      else lock_handle (win_kern w) = None)"

text \<open>What can follow: the same library, and no handle more or less than the lock's.\<close>

definition other_handles :: "win_world \<Rightarrow> int set" where
  "other_handles w = set (open_handles (win_kern w)) - {update_lock_file w}"

definition win_later :: "win_world \<Rightarrow> win_world \<Rightarrow> bool" where
  "win_later w w' \<longleftrightarrow> win_lib_of w' = win_lib_of w \<and> (win_ok w \<longrightarrow> win_ok w' \<and> other_handles w' = other_handles w)"


section \<open>The contract\<close>

text \<open>Between calls: everything nobody else writes is as it was, and so is what this process has open.\<close>

definition win_same :: "win_lib \<Rightarrow> string set \<Rightarrow> win_kernel \<Rightarrow> win_kernel \<Rightarrow> bool" where
  "win_same L S k k' \<longleftrightarrow> win_frame L S k k' \<and> open_handles k' = open_handles k"

lemma kept_lock: "lock_handle k' = lock_handle k \<Longrightarrow> win_kept L k' p = win_kept L k p"
  by (simp add: win_kept_def)

lemma win_frame_refl [simp]: "win_frame L S k k"
  by (simp add: win_frame_def)

lemma win_frame_trans: "win_frame L S k k1 \<Longrightarrow> win_frame L T k1 k2 \<Longrightarrow> win_frame L (S \<union> T) k k2"
  using kept_lock[of k1 k] by (auto simp: win_frame_def)

lemma win_same_refl [simp]: "win_same L S k k"
  by (simp add: win_same_def)

lemma win_same_trans: "win_same L S k k1 \<Longrightarrow> win_same L S k1 k2 \<Longrightarrow> win_same L S k k2"
  using win_frame_trans[of L S k k1 S k2] by (simp add: win_same_def)

definition win_documented :: "win_lib \<Rightarrow> bool" where
  "win_documented L \<longleftrightarrow> reads_documented L \<and> writes_documented L \<and> moves_documented L \<and> locks_documented L \<and>
     documents_documented (win_common L)"

lemma sleep_same: "win_documented L \<Longrightarrow> win_same L S k (sleep_ms L n k)"
  by (auto simp: win_documented_def locks_documented_def win_same_def win_frame_def)

lemma delete_same: "win_documented L \<Longrightarrow> win_same L {p} k (delete_file L p k)"
  by (simp add: win_documented_def moves_documented_def win_same_def)

lemma create_law:
  "win_documented L \<Longrightarrow> create_file L p d k = (r, k') \<Longrightarrow> d \<noteq> OPEN_EXISTING \<Longrightarrow>
     win_frame L {p} k k' \<and>
     (case r of Inl err \<Rightarrow> open_handles k' = open_handles k \<and> (win_kept L k p \<longrightarrow> win_files k' p = win_files k p)
      | Inr h \<Rightarrow> h \<noteq> INVALID_HANDLE_VALUE \<and> h \<notin> set (open_handles k) \<and> open_handles k' = h # open_handles k)"
  unfolding win_documented_def writes_documented_def by blast

lemma open_law:
  "win_documented L \<Longrightarrow> create_file L p OPEN_EXISTING k = (r, k') \<Longrightarrow>
     win_frame L {} k k' \<and>
     (case r of
        Inl err \<Rightarrow> open_handles k' = open_handles k \<and> (err = FILE_NOT_FOUND \<or> err = PATH_NOT_FOUND \<longrightarrow> win_files k' p = None)
      | Inr h \<Rightarrow> h \<noteq> INVALID_HANDLE_VALUE \<and> h \<notin> set (open_handles k) \<and> open_handles k' = h # open_handles k \<and>
          (\<exists>c. win_files k' p = Some c \<and>
             (\<forall>n. get_file_size L h k' = Some n \<longrightarrow> n = int (length c)) \<and>
             (\<forall>n t. read_file L h n k' = Some t \<longrightarrow> t = take n c)))"
  unfolding win_documented_def reads_documented_def by blast

lemma move_law:
  "win_documented L \<Longrightarrow> move_file L a b k = (r, k') \<Longrightarrow> a \<noteq> b \<Longrightarrow>
     open_handles k' = open_handles k \<and> win_frame L {a, b} k k' \<and>
        (case r of
           None \<Rightarrow> win_files k' a = None \<and> (win_kept L k a \<and> win_kept L k b \<longrightarrow> win_files k' b = win_files k a)
         | Some err \<Rightarrow> (\<forall>p. win_kept L k p \<longrightarrow> win_files k' p = win_files k p) \<and>
             (err = FILE_NOT_FOUND \<or> err = PATH_NOT_FOUND \<longrightarrow> win_files k' a = None))"
  unfolding win_documented_def moves_documented_def by blast

lemma create_temporary_law:
  assumes "win_documented L"
  shows "create_temporary a L path n k = (r, n', k') \<Longrightarrow> path = win_policy_path L \<Longrightarrow>
     (case r of
        None \<Rightarrow> win_same L {} k k'
      | Some (h, temporary) \<Rightarrow> \<exists>k1. win_same L {} k k1 \<and> create_file L temporary CREATE_NEW k1 = (Inr h, k') \<and>
          (\<exists>m. temporary = temporary_path L path m))"
proof (induction a arbitrary: n k)
  case 0
  then show ?case by simp
next
  case (Suc a)
  let ?t = "temporary_path L path (n + 1)"
  obtain c k1 where c: "create_file L ?t CREATE_NEW k = (c, k1)" by (rule prod.exhaust)
  show ?case
  proof (cases c)
    case (Inr h)
    with Suc.prems c have "r = Some (h, ?t)" "k' = k1" by (auto simp: Let_def)
    with c Inr show ?thesis by (auto intro!: exI[of _ k])
  next
    case (Inl err)
    have "win_frame L {?t} k k1 \<and> open_handles k1 = open_handles k \<and> (win_kept L k ?t \<longrightarrow> win_files k1 ?t = win_files k ?t)"
      using create_law[OF assms c] Inl by simp
    moreover have "win_kept L k ?t" using Suc.prems by (auto simp: win_kept_def)
    ultimately have s: "win_same L {} k k1" by (auto simp: win_same_def win_frame_def)
    show ?thesis
    proof (cases "err \<noteq> FILE_EXISTS \<and> err \<noteq> ALREADY_EXISTS")
      case True
      with Suc.prems c Inl s show ?thesis by (auto simp: Let_def)
    next
      case False
      with Suc.prems c Inl have "create_temporary a L path (n + 1) k1 = (r, n', k')" by (auto simp: Let_def)
      from Suc.IH[OF this Suc.prems(2)] s show ?thesis
        by (auto split: option.splits intro: win_same_trans)
    qed
  qed
qed

lemma move_over_law:
  assumes "win_documented L" "win_kept L k a" "a \<noteq> b"
  shows "move_over n L a b k = (ok, k') \<Longrightarrow> win_same L {a, b} k k' \<and>
    (win_kept L k b \<longrightarrow> (if ok then win_files k' b = win_files k a else win_files k' b = win_files k b))"
  using assms(2)
proof (induction n arbitrary: k)
  case 0
  then show ?case by simp
next
  case (Suc n)
  obtain r k1 where m: "move_file L a b k = (r, k1)" by (rule prod.exhaust)
  then have law: "open_handles k1 = open_handles k" "win_frame L {a, b} k k1"
    "case r of None \<Rightarrow> win_files k1 a = None \<and> (win_kept L k a \<and> win_kept L k b \<longrightarrow> win_files k1 b = win_files k a)
     | Some err \<Rightarrow> (\<forall>p. win_kept L k p \<longrightarrow> win_files k1 p = win_files k p)"
    using move_law[OF assms(1) m assms(3)] by (auto split: option.splits)
  show ?case
  proof (cases r)
    case None
    with Suc.prems m law show ?thesis by (simp add: win_same_def)
  next
    case (Some err)
    show ?thesis
    proof (cases "err \<noteq> ACCESS_DENIED \<and> err \<noteq> SHARING_VIOLATION \<and> err \<noteq> LOCK_VIOLATION")
      case True
      with Suc.prems m law Some show ?thesis by (auto simp: win_same_def)
    next
      case False
      let ?k = "sleep_ms L 1 k1"
      have s: "win_same L {} k1 ?k" by (rule sleep_same[OF assms(1)])
      have lock: "lock_handle k1 = lock_handle k" "lock_handle ?k = lock_handle k"
        using law(2) s by (auto simp: win_frame_def win_same_def)
      have kept: "win_kept L ?k p = win_kept L k p" "win_kept L k1 p = win_kept L k p" for p
        using lock by (simp_all add: win_kept_def)
      have files: "win_kept L k p \<Longrightarrow> win_files ?k p = win_files k p" for p
        using s law(3) Some kept by (simp add: win_same_def win_frame_def)
      from False Suc.prems m Some have "move_over n L a b ?k = (ok, k')" by auto
      from Suc.IH[OF this] Suc.prems(2) kept have IH: "win_same L {a, b} ?k k'"
        "win_kept L k b \<longrightarrow> (if ok then win_files k' b = win_files ?k a else win_files k' b = win_files ?k b)" by auto
      have "win_same L {a, b} k ?k"
        using law s lock files by (simp add: win_same_def win_frame_def)
      with IH files Suc.prems(2) show ?thesis by (auto intro: win_same_trans)
    qed
  qed
qed

lemma close_law:
  assumes "win_documented L"
  shows "open_handles (close_handle L h k) = remove1 h (open_handles k)" "win_files (close_handle L h k) = win_files k"
    "lock_handle (close_handle L h k) = (if lock_handle k = Some h then None else lock_handle k)"
  using assms by (auto simp: win_documented_def locks_documented_def)

text \<open>Staging: after it the handle is closed, and a success has the text in the staged file.\<close>

lemma stage_law:
  assumes L: "win_documented L" and c: "create_file L p CREATE_NEW k = (Inr h, k1)"
    and lk: "lock_handle k \<noteq> Some h" and st: "stage_text L h text k1 = (b, k2)"
  shows "win_same L {p} k (close_handle L h k2) \<and> (b \<longrightarrow> win_files (close_handle L h k2) p = Some text)"
proof -
  from create_law[OF L c] have C: "win_frame L {p} k k1" "open_handles k1 = h # open_handles k" by simp_all
  obtain r k0 where w: "write_file L h text k1 = (r, k0)" by (rule prod.exhaust)
  obtain f kf where f: "flush_file L h k0 = (f, kf)" by (rule prod.exhaust)
  from L c w f have W: "win_frame L {p} k1 k0" "open_handles k0 = open_handles k1"
    "win_frame L {p} k0 kf" "open_handles kf = open_handles k0" "f \<and> r = Some (length text) \<longrightarrow> win_files kf p = Some text"
    unfolding win_documented_def writes_documented_def by blast+
  have k2: "(k2 = k0 \<and> \<not> b) \<or> (k2 = kf \<and> (b \<longrightarrow> f \<and> r = Some (length text)))"
    using st w f by (auto simp: stage_text_def split: option.splits if_splits)
  then have "win_frame L {p} k k2" "open_handles k2 = h # open_handles k" "b \<longrightarrow> win_files k2 p = Some text"
    using win_frame_trans[OF C(1) W(1)] win_frame_trans[OF win_frame_trans[OF C(1) W(1)] W(3)] C(2) W by auto
  with lk close_law[OF L, of h k2] show ?thesis by (auto simp: win_same_def win_frame_def)
qed


lemma win_ok_parts:
  "win_ok w \<Longrightarrow> win_documented (win_lib_of w)"
  "win_ok w \<Longrightarrow> win_locked w \<Longrightarrow> lock_handle (win_kern w) = Some (update_lock_file w)"
  "win_ok w \<Longrightarrow> \<not> win_locked w \<Longrightarrow> lock_handle (win_kern w) = None"
  "win_ok w \<Longrightarrow> win_locked w \<Longrightarrow> win_kept (win_lib_of w) (win_kern w) (win_policy_path (win_lib_of w))"
  by (auto simp: win_ok_def win_documented_def Let_def win_kept_def split: if_splits)

lemma same_later:
  assumes "win_ok w" "win_same (win_lib_of w) S (win_kern w) k"
  shows "win_later w (w\<lparr>win_kern := k\<rparr>)" "win_later w (w\<lparr>win_kern := k, sequence_number := n\<rparr>)"
    "win_locked (w\<lparr>win_kern := k\<rparr>) = win_locked w" "win_locked (w\<lparr>win_kern := k, sequence_number := n\<rparr>) = win_locked w"
  using assms by (auto simp: win_later_def win_ok_def win_locked_def other_handles_def win_same_def win_frame_def Let_def)

lemma same_view:
  assumes "win_ok w" "win_locked w" "win_same (win_lib_of w) {} (win_kern w) k"
  shows "win_view (w\<lparr>win_kern := k\<rparr>) = win_view w"
  using assms win_ok_parts(4)[OF assms(1,2)] by (simp add: win_view_def win_same_def win_frame_def)

text \<open>No file is open on the update lock but the lock's own handle.\<close>

lemma fresh_not_lock:
  "win_ok w \<Longrightarrow> lock_handle k = lock_handle (win_kern w) \<Longrightarrow> open_handles k = open_handles (win_kern w) \<Longrightarrow>
     h \<notin> set (open_handles k) \<Longrightarrow> lock_handle k \<noteq> Some h"
  by (auto simp: win_ok_def split: if_splits)

lemma load_file_result:
  assumes L: "win_documented L" and c: "create_file L path OPEN_EXISTING k = (Inr h, k1)"
    and r: "ss_windows_temporal_policy_load_file L path k = (Some (p, f), k')"
  shows "win_files k' path = win_files k1 path \<and>
    (if f then win_text (win_common L) (win_files k1 path) = Some p \<and> stored (win_common L) p = p
     else win_text (win_common L) (win_files k1 path) = None)"
proof -
  from open_law[OF L c] obtain x where x: "win_files k1 path = Some x" "\<And>n. get_file_size L h k1 = Some n \<Longrightarrow> n = int (length x)"
    "\<And>n t. read_file L h n k1 = Some t \<Longrightarrow> t = take n x"
    by auto
  have k': "k' = close_handle L h k1" using r c
    by (auto simp: ss_windows_temporal_policy_load_file_def Let_def split: option.splits)
  have fmt: "policy_v3_parse (win_common L) t = Some q \<Longrightarrow> stored (win_common L) q = q" for t q
    using L by (auto simp: win_documented_def documents_documented_def format_documented_def)
  show ?thesis
  proof (cases "get_file_size L h k1")
    case None
    with r c show ?thesis by (auto simp: ss_windows_temporal_policy_load_file_def split: option.splits)
  next
    case (Some n)
    then have n: "n = int (length x)" by (rule x(2))
    show ?thesis
    proof (cases "x = [] \<or> SS_POLICY_CAPACITY \<le> length x")
      case True
      with r c Some n have "\<not> f" by (auto simp: ss_windows_temporal_policy_load_file_def split: option.splits if_splits)
      with True x(1) show ?thesis by (auto simp: win_text_def k' close_law[OF L])
    next
      case False
      with r c Some n obtain t where t: "read_file L h (length x) k1 = Some t" "length t = length x"
        by (auto simp: ss_windows_temporal_policy_load_file_def split: option.splits if_splits)
      then have tx: "t = x" using x(3)[OF t(1)] by simp
      show ?thesis using r c Some n False t tx x(1) fmt
        by (auto simp: ss_windows_temporal_policy_load_file_def win_text_def k' close_law[OF L] split: option.splits if_splits)
    qed
  qed
qed

lemma load_file_same:
  assumes ok: "win_ok w" and r: "ss_windows_temporal_policy_load_file (win_lib_of w) path (win_kern w) = (r, k')"
  shows "win_same (win_lib_of w) {} (win_kern w) k'"
proof -
  let ?L = "win_lib_of w"
  note L = win_ok_parts(1)[OF ok]
  obtain c k1 where c: "create_file ?L path OPEN_EXISTING (win_kern w) = (c, k1)" by (rule prod.exhaust)
  from open_law[OF L c] have f: "win_frame ?L {} (win_kern w) k1" by blast
  show ?thesis
  proof (cases c)
    case (Inl err)
    with open_law[OF L c] have "open_handles k1 = open_handles (win_kern w)" by simp
    with f r c Inl show ?thesis
      by (auto simp: ss_windows_temporal_policy_load_file_def win_same_def split: option.splits if_splits)
  next
    case (Inr h)
    with open_law[OF L c] have h: "open_handles k1 = h # open_handles (win_kern w)" "h \<notin> set (open_handles (win_kern w))"
      by simp_all
    have "lock_handle k1 \<noteq> Some h"
      using fresh_not_lock[OF ok refl refl h(2)] f by (simp add: win_frame_def)
    with f h r c Inr show ?thesis
      by (auto simp: ss_windows_temporal_policy_load_file_def win_same_def win_frame_def close_law[OF L] Let_def
          split: option.splits)
  qed
qed

lemma win_load_law:
  assumes ok: "win_ok w" and r: "win_platform_load w = (r, w')"
  shows "win_later w w' \<and> win_locked w' = win_locked w \<and> (win_locked w \<longrightarrow> win_view w' = win_view w) \<and>
    (\<forall>p f. r = Some (p, f) \<longrightarrow>
       (if f then win_view w' = Some p \<and> stored (win_common (win_lib_of w')) p = p else win_view w' = None))"
proof (cases "build_paths (win_lib_of w)")
  case None
  with r have "r = None" "w' = w" by (simp_all add: win_platform_load_def)
  then show ?thesis by (simp add: win_later_def)
next
  case (Some dp)
  then obtain d path where b: "build_paths (win_lib_of w) = Some (d, path)" by (cases dp) simp
  then have path: "path = win_policy_path (win_lib_of w)" by (simp add: win_policy_path_def)
  obtain k where k: "ss_windows_temporal_policy_load_file (win_lib_of w) path (win_kern w) = (r, k)" "w' = w\<lparr>win_kern := k\<rparr>"
    using r b by (auto simp: win_platform_load_def split: prod.splits)
  note L = win_ok_parts(1)[OF ok]
  note s = load_file_same[OF ok k(1)]
  have "if f then win_text (win_common (win_lib_of w)) (win_files k path) = Some p \<and> stored (win_common (win_lib_of w)) p = p
        else win_text (win_common (win_lib_of w)) (win_files k path) = None" if "r = Some (p, f)" for p f
  proof -
    obtain c k1 where c: "create_file (win_lib_of w) path OPEN_EXISTING (win_kern w) = (c, k1)" by (rule prod.exhaust)
    show ?thesis
    proof (cases c)
      case (Inl err)
      with open_law[OF L c] have "err = FILE_NOT_FOUND \<or> err = PATH_NOT_FOUND \<longrightarrow> win_files k1 path = None" by simp
      with k c Inl that show ?thesis
        by (auto simp: ss_windows_temporal_policy_load_file_def win_text_def split: option.splits if_splits)
    next
      case (Inr h)
      from load_file_result[OF L c[unfolded Inr] k(1)[unfolded that]] show ?thesis by simp
    qed
  qed
  then have "\<forall>p f. r = Some (p, f) \<longrightarrow>
      (if f then win_view w' = Some p \<and> stored (win_common (win_lib_of w')) p = p else win_view w' = None)"
    using k(2) path by (simp only: win_view_def) simp
  then show ?thesis using same_later(1,3)[OF ok s] same_view[OF ok _ s] k(2) by simp
qed

lemma directory_same:
  "win_documented L \<Longrightarrow> directory_ready L d k = (b, k') \<Longrightarrow> win_same L {} k k'"
  unfolding win_documented_def locks_documented_def directory_ready_def win_same_def
  by (auto split: prod.splits option.splits)

lemma save_file_law:
  assumes ok: "win_ok w" and path: "path = win_policy_path (win_lib_of w)"
    and same: "win_same (win_lib_of w) {} (win_kern w) k"
    and r: "ss_windows_temporal_policy_save_file (win_lib_of w) path p n k = (b, n', k')"
  shows "\<exists>S. win_same (win_lib_of w) S k k' \<and>
    (win_locked w \<longrightarrow>
       (if b then win_text (win_common (win_lib_of w)) (win_files k' path) = Some (stored (win_common (win_lib_of w)) p)
        else win_files k' path = win_files k path))"
proof -
  let ?L = "win_lib_of w"
  note L = win_ok_parts(1)[OF ok]
  have lock: "lock_handle k = lock_handle (win_kern w)" "open_handles k = open_handles (win_kern w)"
    using same by (simp_all add: win_same_def win_frame_def)
  show ?thesis
  proof (cases "policy_v3_serialize (win_common ?L) p SS_POLICY_CAPACITY")
    case None
    with r show ?thesis by (auto simp: ss_windows_temporal_policy_save_file_def intro!: exI[of _ "{}"])
  next
    case (Some t)
    with L have doc: "win_text (win_common ?L) (Some t) = Some (stored (win_common ?L) p)"
      unfolding win_documented_def documents_documented_def win_text_def by fastforce
    obtain c n1 k1 where c: "create_temporary 32 ?L path n k = (c, n1, k1)" by (rule prod_cases3)
    note C = create_temporary_law[OF L c path]
    have keptp: "win_locked w \<longrightarrow> win_kept ?L k path"
      using win_ok_parts(4)[OF ok] kept_lock[OF lock(1)] path by simp
    show ?thesis
    proof (cases c)
      case None
      with C Some r c keptp show ?thesis
        by (auto simp: ss_windows_temporal_policy_save_file_def win_same_def win_frame_def intro!: exI[of _ "{}"])
    next
      case (Some ht)
      obtain h tmp where ht: "c = Some (h, tmp)" using Some by (cases ht) simp
      with C obtain k0 where k0: "win_same ?L {} k k0" "create_file ?L tmp CREATE_NEW k0 = (Inr h, k1)"
        and tmp: "\<exists>m. tmp = temporary_path ?L path m" by auto
      have tp: "tmp \<noteq> path" using tmp by (auto simp: temporary_path_def)
      have l0: "lock_handle k0 \<noteq> Some h"
        using fresh_not_lock[OF ok, of k0 h] create_law[OF L k0(2)] k0(1) lock by (simp add: win_same_def win_frame_def)
      obtain st k2 where st: "stage_text ?L h t k1 = (st, k2)" by (rule prod.exhaust)
      let ?k3 = "close_handle ?L h k2"
      from stage_law[OF L k0(2) l0 st] have S: "win_same ?L {tmp} k0 ?k3" "st \<longrightarrow> win_files ?k3 tmp = Some t" by simp_all
      obtain mv k4 where mv: "(if st then move_over 64 ?L tmp path ?k3 else (False, ?k3)) = (mv, k4)" by (rule prod.exhaust)
      have kt: "win_kept ?L ?k3 tmp" using tmp path by (auto simp: win_kept_def)
      have M: "win_same ?L {tmp, path} ?k3 k4 \<and> (win_kept ?L ?k3 path \<longrightarrow>
          (if mv then st \<and> win_files k4 path = win_files ?k3 tmp else win_files k4 path = win_files ?k3 path))"
        using mv move_over_law[OF L kt tp, of 64 mv k4] by (auto split: if_splits)
      have res: "b = mv" "k' = (if mv then k4 else delete_file ?L tmp k4)"
        using r \<open>policy_v3_serialize _ _ _ = Some t\<close> c ht st mv
        by (auto simp: ss_windows_temporal_policy_save_file_def Let_def)
      have T: "win_same ?L {tmp, path} k ?k3"
        using k0(1) S(1) by (auto simp: win_same_def win_frame_def win_kept_def)
      have K: "win_same ?L {tmp, path} k4 k'"
        using res(2) delete_same[OF L, of tmp k4] by (auto simp: win_same_def win_frame_def)
      have "win_same ?L {tmp, path} k k'" using win_same_trans[OF win_same_trans[OF T] K] M by blast
      moreover have "if b then win_text (win_common ?L) (win_files k' path) = Some (stored (win_common ?L) p)
          else win_files k' path = win_files k path" if lw: "win_locked w"
      proof -
        have kp: "win_kept ?L k path" "win_kept ?L k0 path" "win_kept ?L ?k3 path" "win_kept ?L k4 path"
          using keptp lw k0(1) T M by (auto simp: win_same_def win_frame_def win_kept_def)
        have p3: "win_files ?k3 path = win_files k path"
          using k0(1) S(1) kp tp by (simp add: win_same_def win_frame_def)
        have "win_files (delete_file ?L tmp k4) path = win_files k4 path"
          using delete_same[OF L, of tmp k4] kp(4) tp by (simp add: win_same_def win_frame_def)
        with M kp(3) S(2) p3 doc res show ?thesis by (auto split: if_splits)
      qed
      ultimately show ?thesis by blast
    qed
  qed
qed


lemma build_policy_path: "build_paths L = Some (d, path) \<Longrightarrow> path = win_policy_path L"
  by (simp add: win_policy_path_def)

lemma win_save_law:
  assumes ok: "win_ok w" and r: "win_platform_save p w = (b, w')"
  shows "win_later w w' \<and> win_locked w' = win_locked w \<and>
    (win_locked w \<longrightarrow> (if b then win_view w' = Some (stored (win_common (win_lib_of w)) p)
       else win_view w' = win_view w \<or> win_view w' = Some (stored (win_common (win_lib_of w)) p)))"
proof (cases "build_paths (win_lib_of w)")
  case None
  with r show ?thesis by (auto simp: win_platform_save_def win_later_def)
next
  case (Some dp)
  then obtain d path where b: "build_paths (win_lib_of w) = Some (d, path)" by (cases dp) simp
  note path = build_policy_path[OF b]
  obtain there k1 where d: "directory_ready (win_lib_of w) d (win_kern w) = (there, k1)" by (rule prod.exhaust)
  note s1 = directory_same[OF win_ok_parts(1)[OF ok] d]
  show ?thesis
  proof (cases there)
    case False
    with r b d have "b = False" "w' = w\<lparr>win_kern := k1\<rparr>" by (auto simp: win_platform_save_def)
    then show ?thesis using same_later(1,3)[OF ok s1] same_view[OF ok _ s1] by simp
  next
    case True
    obtain bb n k2 where v: "ss_windows_temporal_policy_save_file (win_lib_of w) path p (sequence_number w) k1 = (bb, n, k2)"
      by (rule prod_cases3)
    with r b d True have w': "b = bb" "w' = w\<lparr>win_kern := k2, sequence_number := n\<rparr>" by (auto simp: win_platform_save_def)
    from save_file_law[OF ok path s1 v] obtain S where S: "win_same (win_lib_of w) S k1 k2"
      "win_locked w \<longrightarrow> (if bb then win_text (win_common (win_lib_of w)) (win_files k2 path) = Some (stored (win_common (win_lib_of w)) p)
        else win_files k2 path = win_files k1 path)" by blast
    have "win_same (win_lib_of w) S (win_kern w) k2"
      using s1 S(1) by (auto simp: win_same_def win_frame_def win_kept_def)
    note later = same_later(2,4)[OF ok this]
    have "win_view (w\<lparr>win_kern := k1\<rparr>) = win_view w" if "win_locked w" by (rule same_view[OF ok that s1])
    with S(2) later path show ?thesis unfolding w' by (auto simp: win_view_def split: if_splits)
  qed
qed

lemma win_clear_law:
  assumes ok: "win_ok w" and r: "win_platform_clear w = (b, w')"
  shows "win_later w w' \<and> win_locked w' = win_locked w \<and>
    (win_locked w \<longrightarrow> (if b then win_view w' = None else win_view w' = win_view w \<or> win_view w' = None))"
proof (cases "build_paths (win_lib_of w)")
  case None
  with r show ?thesis by (auto simp: win_platform_clear_def win_later_def)
next
  case (Some dp)
  let ?L = "win_lib_of w"
  note L = win_ok_parts(1)[OF ok]
  from Some obtain d path where b: "build_paths ?L = Some (d, path)" by (cases dp) simp
  note path = build_policy_path[OF b]
  have ne: "path \<noteq> []" using b by (auto simp: build_paths_def Let_def split: option.splits)
  let ?t = "path @ ''.deleted''"
  obtain m k1 where m: "move_file ?L path ?t (win_kern w) = (m, k1)" by (rule prod.exhaust)
  have "path \<noteq> ?t" by simp
  note M = move_law[OF L m this]
  show ?thesis
  proof (cases m)
    case (Some err)
    with r b m ne have w': "w' = w\<lparr>win_kern := k1\<rparr>" "b \<longrightarrow> err = FILE_NOT_FOUND \<or> err = PATH_NOT_FOUND"
      by (auto simp: win_platform_clear_def ss_windows_temporal_policy_clear_file_def)
    have s: "win_same ?L {} (win_kern w) k1" using M Some by (auto simp: win_same_def win_frame_def)
    from M Some w'(2) path have "b \<longrightarrow> win_view w' = None" by (auto simp: w'(1) win_view_def win_text_def)
    then show ?thesis using same_later(1,3)[OF ok s] same_view[OF ok _ s] w'(1) by auto
  next
    case None
    with r b m ne have w': "w' = w\<lparr>win_kern := delete_file ?L ?t k1\<rparr>" "b"
      by (auto simp: win_platform_clear_def ss_windows_temporal_policy_clear_file_def Let_def)
    have D: "win_same ?L {?t} k1 (delete_file ?L ?t k1)" by (rule delete_same[OF L])
    have s: "win_same ?L {path, ?t} (win_kern w) (delete_file ?L ?t k1)"
      using M D by (auto simp: win_same_def win_frame_def win_kept_def)
    have "win_files (delete_file ?L ?t k1) path = None" if "win_locked w"
    proof -
      have "win_kept ?L k1 path" using win_ok_parts(4)[OF ok that] path M by (simp add: win_kept_def win_frame_def)
      with D M None show ?thesis by (simp add: win_same_def win_frame_def)
    qed
    then show ?thesis using same_later(1,3)[OF ok s] path by (auto simp: w' win_view_def win_text_def)
  qed
qed

lemma lock_attempts_law:
  assumes L: "win_documented L"
  shows "lock_attempts n L h k = (b, k') \<Longrightarrow> open_handles k' = open_handles k \<and>
     (if b then lock_handle k = None \<and> lock_handle k' = Some h else win_same L {} k k')"
proof (induction n arbitrary: k)
  case 0
  then show ?case by simp
next
  case (Suc n)
  obtain r k1 where l: "lock_file L h k = (r, k1)" by (rule prod.exhaust)
  from L l have law: "open_handles k1 = open_handles k"
    "if r = None then lock_handle k = None \<and> lock_handle k1 = Some h else win_frame L {} k k1"
    unfolding win_documented_def locks_documented_def by blast+
  show ?case
  proof (cases r)
    case None
    with Suc.prems l law show ?thesis by simp
  next
    case (Some err)
    then have s: "win_same L {} k k1" using law by (simp add: win_same_def)
    show ?thesis
    proof (cases "err \<noteq> LOCK_VIOLATION \<and> err \<noteq> IO_PENDING")
      case True
      with Suc.prems l Some s law show ?thesis by auto
    next
      case False
      note sl = sleep_same[OF L, of "{}" k1 10]
      from False Suc.prems l Some have "lock_attempts n L h (sleep_ms L 10 k1) = (b, k')" by auto
      note IH = Suc.IH[OF this]
      have k: "win_same L {} k (sleep_ms L 10 k1)" by (rule win_same_trans[OF s sl])
      show ?thesis
      proof (cases b)
        case True
        with IH k show ?thesis by (simp add: win_same_def win_frame_def)
      next
        case False
        with IH have "win_same L {} (sleep_ms L 10 k1) k'" by simp
        from win_same_trans[OF k this] False show ?thesis by (simp add: win_same_def)
      qed
    qed
  qed
qed

lemma win_begin_law:
  assumes ok: "win_ok w" and r: "win_begin_update w = (b, w')"
  shows "win_later w w' \<and> (if b then \<not> win_locked w \<and> win_locked w' else win_locked w' = win_locked w) \<and>
    (win_locked w \<longrightarrow> win_view w' = win_view w)"
proof (cases "win_locked w \<or> build_paths (win_lib_of w) = None")
  case True
  with r have "b = False" "w' = w" by (auto simp: win_begin_update_def win_locked_def Let_def split: if_splits)
  then show ?thesis by (simp add: win_later_def)
next
  case False
  let ?L = "win_lib_of w"
  note L = win_ok_parts(1)[OF ok]
  from False have u: "update_lock_file w = INVALID_HANDLE_VALUE" by (simp add: win_locked_def)
  from False obtain d path where p: "build_paths ?L = Some (d, path)" by auto
  obtain there k1 where d: "directory_ready ?L d (win_kern w) = (there, k1)" by (rule prod.exhaust)
  note s1 = directory_same[OF L d]
  obtain c k2 where c: "create_file ?L (path @ ''.lock'') OPEN_ALWAYS k1 = (c, k2)" by (rule prod.exhaust)
  note C = create_law[OF L c]
  have none: "lock_handle (win_kern w) = None" using win_ok_parts(3)[OF ok] False by blast
  show ?thesis
  proof (cases "there \<and> (\<exists>h. c = Inr h)")
    case no: False
    define k where "k = (if there then k2 else k1)"
    have w': "b = False" "w' = w\<lparr>win_kern := k\<rparr>"
      using r no u p d c by (auto simp: win_begin_update_def k_def Let_def split: sum.splits if_splits)
    have "win_same ?L {path @ ''.lock''} (win_kern w) k"
      using s1 C no by (cases c) (auto simp: k_def win_same_def win_frame_def win_kept_def)
    from same_later(1,3)[OF ok this] False show ?thesis by (simp add: w')
  next
    case True
    then obtain h where h: "c = Inr h" and there by blast
    obtain ok' k3 where l: "lock_attempts 25 ?L h k2 = (ok', k3)" by (rule prod.exhaust)
    note A = lock_attempts_law[OF L l]
    have k2: "open_handles k2 = h # open_handles (win_kern w)" "h \<notin> set (open_handles (win_kern w))" "h \<noteq> INVALID_HANDLE_VALUE"
      "lock_handle k2 = None" using C h s1 none by (auto simp: win_same_def win_frame_def)
    show ?thesis
    proof (cases ok')
      case True
      with r u p d \<open>there\<close> c h l have w': "b" "w' = w\<lparr>win_kern := k3, update_lock_file := h\<rparr>"
        by (auto simp: win_begin_update_def Let_def)
      then show ?thesis using A True k2 ok False
        by (auto simp: win_later_def win_ok_def win_locked_def other_handles_def Let_def split: if_splits)
    next
      case no: False
      with r u p d \<open>there\<close> c h l have w': "b = False" "w' = w\<lparr>win_kern := close_handle ?L h k3\<rparr>"
        by (auto simp: win_begin_update_def Let_def)
      have "lock_handle k3 = None" "open_handles k3 = h # open_handles (win_kern w)"
        using A no k2 by (auto simp: win_same_def win_frame_def)
      then show ?thesis using close_law[OF L, of h k3] k2 ok False
        by (auto simp: w' win_later_def win_ok_def win_locked_def other_handles_def Let_def split: if_splits)
    qed
  qed
qed

lemma win_end_law:
  assumes ok: "win_ok w"
  shows "win_later w (win_end_update w) \<and> \<not> win_locked (win_end_update w) \<and> win_view (win_end_update w) = win_view w"
proof (cases "win_locked w")
  case False
  then have "win_end_update w = w" by (simp add: win_end_update_def win_locked_def)
  with False show ?thesis by (simp add: win_later_def)
next
  case True
  let ?L = "win_lib_of w" and ?h = "update_lock_file w"
  let ?k = "close_handle ?L ?h (unlock_file ?L ?h (win_kern w))"
  note L = win_ok_parts(1)[OF ok]
  have e: "win_end_update w = w\<lparr>win_kern := ?k, update_lock_file := INVALID_HANDLE_VALUE\<rparr>"
    using True by (simp add: win_end_update_def win_locked_def)
  have "open_handles (unlock_file ?L ?h (win_kern w)) = open_handles (win_kern w)"
    "win_files (unlock_file ?L ?h (win_kern w)) = win_files (win_kern w)"
    "lock_handle (unlock_file ?L ?h (win_kern w)) = None"
    using L True win_ok_parts(2)[OF ok] unfolding win_documented_def locks_documented_def by auto
  then have k: "open_handles ?k = remove1 ?h (open_handles (win_kern w))" "win_files ?k = win_files (win_kern w)"
    "lock_handle ?k = None" using close_law[OF L] by simp_all
  then show ?thesis using ok True unfolding e
    by (auto simp: win_later_def win_ok_def win_locked_def other_handles_def win_view_def Let_def split: if_splits)
qed

interpretation windows_store: policy_store win_platform_load win_platform_save win_platform_clear win_begin_update
  win_end_update win_ok win_locked win_view "\<lambda>w. stored (win_common (win_lib_of w))" win_later
proof (unfold_locales, goal_cases)
  case (1 w) show ?case by (simp add: win_later_def)
next
  case (2 u v w) then show ?case by (auto simp: win_later_def)
next
  case (3 w w') then show ?case by (simp add: win_later_def)
next
  case (4 w w') then show ?case by (simp add: win_later_def)
next
  case (5 w r w') then show ?case by (rule win_load_law)
next
  case (6 w p b w') then show ?case by (rule win_save_law)
next
  case (7 w b w') then show ?case by (rule win_clear_law)
next
  case (8 w b w') then show ?case by (rule win_begin_law)
next
  case (9 w) then show ?case by (rule win_end_law)
qed


lemma windows_table:
  "table win_platform_load win_platform_save win_platform_clear win_begin_update win_end_update ss_windows_temporal_policy_store"
  by (simp add: table_def ss_windows_temporal_policy_store_def)

text \<open>
  C11: on Windows, too, a setter of the model that succeeds has taken the update lock, loaded the policy
  current under it and published exactly the draft's edit of it, and one that fails leaves the model as it
  was; whatever fails on the way, no handle is left open and the lock is released.
\<close>

theorem windows_setter_merges:
  assumes "win_ok w" "attached ss_windows_temporal_policy_store model p" "\<not> saving p" "\<not> win_locked w"
    and "model_edit cm e model w = (b, model1, w1)"
  shows "win_ok w1 \<and> \<not> win_locked w1 \<and> set (open_handles (win_kern w1)) = set (open_handles (win_kern w)) \<and>
    (if b then
       (\<exists>w0 w2 base found new.
          win_later w w0 \<and> win_locked w0 \<and> win_platform_load w0 = (Some (base, found), w2) \<and>
          win_view w2 = (if found then Some base else None) \<and> drafted cm e base = Some new \<and>
          ss_date_time_model_policy model1 = Some new \<and>
          win_view w1 = Some (stored (win_common (win_lib_of w)) new))
     else model1 = model)"
proof -
  note E = windows_store.edit_law[OF windows_table assms(2,3,1,5)]
  have unlocked: "\<not> win_locked w1" using E assms(4) by (auto split: if_splits)
  then have "set (open_handles (win_kern w1)) = set (open_handles (win_kern w))"
    using E assms(1,4) by (auto simp: win_later_def other_handles_def win_locked_def win_ok_def Let_def)
  then have rest: "win_ok w1 \<and> \<not> win_locked w1 \<and> set (open_handles (win_kern w1)) = set (open_handles (win_kern w))"
    using E unlocked by blast
  show ?thesis
  proof (cases b)
    case False
    with E rest show ?thesis by simp
  next
    case True
    with E obtain w0 w2 base found new where h: "win_later w w0" "win_locked w0"
      "win_platform_load w0 = (Some (base, found), w2)" "win_view w2 = (if found then Some base else None)"
      "drafted cm e base = Some new"
      "model1 = put_private model (Some (p\<lparr>mp_policy := new, persisted_policy_present := True\<rparr>))"
      "win_view w1 = Some (stored (win_common (win_lib_of w)) new)"
      by (simp only: if_True) blast
    have "ss_date_time_model_policy model1 = Some new"
      using h(6) assms(2) by (simp add: attached_def ss_date_time_model_policy_def)
    with h rest True show ?thesis by (simp only: if_True) blast
  qed
qed

section \<open>An instance\<close>

definition fresh_handle :: "win_kernel \<Rightarrow> int" where
  "fresh_handle k = 1 + foldr max (open_handles k) 0"

definition open_on :: "string \<Rightarrow> win_kernel \<Rightarrow> win_kernel" where
  "open_on p k = k\<lparr>open_handles := fresh_handle k # open_handles k, handle_path := (handle_path k)(fresh_handle k := p)\<rparr>"

definition put_win :: "string \<Rightarrow> string option \<Rightarrow> win_kernel \<Rightarrow> win_kernel" where
  "put_win p c k = k\<lparr>win_files := (win_files k)(p := c)\<rparr>"

definition sample_win_lib :: win_lib where
  "sample_win_lib = \<lparr>
     win_common = sample_common,
     known_folder = Some ''C'',
     process_text = ''7'',
     ulong_text = (\<lambda>n. replicate (unat n) CHR ''x''),
     create_directory = (\<lambda>p k. (None, k)),
     create_file = (\<lambda>p d k. case d of
         OPEN_EXISTING \<Rightarrow> (if win_files k p = None then (Inl FILE_NOT_FOUND, k) else (Inr (fresh_handle k), open_on p k))
       | CREATE_NEW \<Rightarrow> (if win_files k p \<noteq> None then (Inl FILE_EXISTS, k)
                       else (Inr (fresh_handle k), put_win p (Some []) (open_on p k)))
       | OPEN_ALWAYS \<Rightarrow> (Inr (fresh_handle k), put_win p (Some []) (open_on p k))),
     get_file_size = (\<lambda>h k. map_option (\<lambda>c. int (length c)) (win_files k (handle_path k h))),
     read_file = (\<lambda>h n k. map_option (take n) (win_files k (handle_path k h))),
     write_file = (\<lambda>h t k. (Some (length t), put_win (handle_path k h) (Some t) k)),
     flush_file = (\<lambda>h k. (True, k)),
     close_handle = (\<lambda>h k. k\<lparr>open_handles := remove1 h (open_handles k),
                             lock_handle := (if lock_handle k = Some h then None else lock_handle k)\<rparr>),
     move_file = (\<lambda>a b k. case win_files k a of None \<Rightarrow> (Some FILE_NOT_FOUND, k)
                   | Some c \<Rightarrow> (None, put_win a None (put_win b (Some c) k))),
     delete_file = (\<lambda>p k. put_win p None k),
     lock_file = (\<lambda>h k. if lock_handle k = None then (None, k\<lparr>lock_handle := Some h\<rparr>) else (Some LOCK_VIOLATION, k)),
     unlock_file = (\<lambda>h k. if lock_handle k = Some h then k\<lparr>lock_handle := None\<rparr> else k),
     sleep_ms = (\<lambda>n k. k)\<rparr>"

definition sample_win_world :: win_world where
  "sample_win_world = \<lparr>win_lib_of = sample_win_lib, win_kern = \<lparr>win_files = (\<lambda>_. None), open_handles = [],
     handle_path = (\<lambda>_. []), lock_handle = None\<rparr>, update_lock_file = - 1, sequence_number = 0\<rparr>"

lemma fresh_handle_new: "0 < fresh_handle k" "fresh_handle k \<notin> set (open_handles k)"
proof -
  have "0 \<le> foldr max xs (0 :: int) \<and> (\<forall>x \<in> set xs. x \<le> foldr max xs 0)" for xs by (induction xs) auto
  from this[of "open_handles k"] show "0 < fresh_handle k" "fresh_handle k \<notin> set (open_handles k)"
    by (auto simp: fresh_handle_def)
qed

lemma put_win_simps [simp]:
  "win_files (put_win p c k) = (win_files k)(p := c)" "open_handles (put_win p c k) = open_handles k"
  "lock_handle (put_win p c k) = lock_handle k" "handle_path (put_win p c k) = handle_path k"
  "win_files (open_on p k) = win_files k" "open_handles (open_on p k) = fresh_handle k # open_handles k"
  "lock_handle (open_on p k) = lock_handle k" "handle_path (open_on p k) (fresh_handle k) = p"
  by (simp_all add: put_win_def open_on_def)

lemma sample_win_documented: "win_documented sample_win_lib"
proof -
  have inv: "fresh_handle k \<noteq> INVALID_HANDLE_VALUE" for k
    using fresh_handle_new(1)[of k] by (simp add: INVALID_HANDLE_VALUE_def)
  have "reads_documented sample_win_lib"
    using inv fresh_handle_new(2)
    by (auto simp: reads_documented_def sample_win_lib_def win_frame_def split: if_splits)
  moreover have "writes_documented sample_win_lib"
    using inv fresh_handle_new(2)
    by (auto simp: writes_documented_def sample_win_lib_def win_frame_def split: if_splits disposition.splits)
  moreover have "moves_documented sample_win_lib"
    by (auto simp: moves_documented_def sample_win_lib_def win_frame_def split: option.splits)
  moreover have "locks_documented sample_win_lib"
    by (auto simp: locks_documented_def sample_win_lib_def win_frame_def)
  moreover have "documents_documented sample_common"
  proof -
    have "format_documented sample_common"
      using sample_world_ok by (simp add: world_ok_def sample_world_def sample_lib_def)
    moreover have "t \<noteq> [] \<and> length t < 1024 \<and> CHR 0x00 \<notin> set t \<and> policy_v3_parse sample_common t = Some (stored sample_common q)"
      if "policy_v3_serialize sample_common q n = Some t" for q t n
    proof -
      have "document_of sample_documents q = Some t" using that by (simp add: sample_common_def)
      note d = sample_stored_document[OF this]
      then have "(t, stored sample_common q) \<in> set sample_documents" by (rule map_of_SomeD)
      then have "t \<in> {''P'', ''S'', ''Q'', ''L''}" by (auto simp: sample_documents_def)
      with d show ?thesis by (auto simp: sample_common_def)
    qed
    ultimately show ?thesis unfolding documents_documented_def SS_POLICY_CAPACITY_def by blast
  qed
  ultimately show ?thesis by (simp add: win_documented_def) (simp add: sample_win_lib_def)
qed

lemma sample_win_ok: "win_ok sample_win_world" "\<not> win_locked sample_win_world"
  using sample_win_documented
  by (simp_all add: win_ok_def win_documented_def win_locked_def sample_win_world_def INVALID_HANDLE_VALUE_def)

definition sample_win_model :: "win_world ss_model option" where
  "sample_win_model = Some \<lparr>address = 1, private_state = Some \<lparr>mp_policy = sample_policy,
     mp_store = Some ss_windows_temporal_policy_store, persisted_policy_present = False, saving = False\<rparr>\<rparr>"

lemma sample_win_attached:
  "attached ss_windows_temporal_policy_store sample_win_model (the (model_private sample_win_model))"
  "\<not> saving (the (model_private sample_win_model))"
  by (simp_all add: attached_def sample_win_model_def model_private_def)

lemma sample_win_edit: "fst (model_edit sample_common (Seconds True) sample_win_model sample_win_world) = True"
  by code_simp

theorem windows_setter_merges_witness:
  "\<exists>model1 w1. model_edit sample_common (Seconds True) sample_win_model sample_win_world = (True, model1, w1) \<and>
     \<not> win_locked w1 \<and> set (open_handles (win_kern w1)) = {}"
proof -
  obtain b model1 w1 where e: "model_edit sample_common (Seconds True) sample_win_model sample_win_world = (b, model1, w1)"
    by (rule prod_cases3)
  moreover have "b = True" using sample_win_edit e by simp
  ultimately show ?thesis
    using windows_setter_merges[OF sample_win_ok(1) sample_win_attached sample_win_ok(2) e]
    by (simp add: sample_win_world_def)
qed

end
