(* ===== verification/PolicyObserver.thy ===== *)
theory PolicyObserver
  imports "HOL-Library.Sublist" Prelude
begin

text \<open>
  \<open>policy-file-observer.c\<close>: the observation of one file through a monitor on the nearest directory that
  exists. A \<open>GFile\<close> is the list of the components of its path, the root \<open>[]\<close>; what the file system shows is
  an argument of every operation, and so is whether a monitor can be made. The callback is the second
  component of a handler's result.
\<close>

section \<open>The file system and the state\<close>

record file_system =
  is_directory :: "string list \<Rightarrow> bool"
  file_exists :: "string list \<Rightarrow> bool"
  monitor_possible :: "string list \<Rightarrow> bool"

datatype monitor_event =
    EVENT_CHANGED | EVENT_CHANGES_DONE_HINT | EVENT_CREATED | EVENT_DELETED | EVENT_MOVED | EVENT_RENAMED
  | EVENT_ATTRIBUTE_CHANGED | EVENT_MOVED_IN | EVENT_MOVED_OUT | EVENT_PRE_UNMOUNT | EVENT_UNMOUNTED

record observer =
  target_file :: "string list"
  target_directory :: "string list"
  watch_directory :: "string list option"
  monitor :: "string list option"
  retry_id :: nat
  target_exists :: bool
  sources :: "nat list"
  next_source_id :: nat

definition g_file_get_parent :: "string list \<Rightarrow> string list option" where
  "g_file_get_parent f = (if f = [] then None else Some (butlast f))"

definition relevant_event :: "monitor_event \<Rightarrow> bool" where
  "relevant_event e \<longleftrightarrow> e \<notin> {EVENT_PRE_UNMOUNT, EVENT_UNMOUNTED}"

function nearest_from :: "file_system \<Rightarrow> string list \<Rightarrow> string list option" where
  "nearest_from fs candidate =
     (if is_directory fs candidate then Some candidate
      else if candidate = [] then None
      else nearest_from fs (butlast candidate))"
  by pat_completeness auto
termination by (relation "measure (\<lambda>(fs, c). length c)") auto

declare nearest_from.simps [simp del]

definition nearest_existing_directory :: "file_system \<Rightarrow> observer \<Rightarrow> string list option" where
  "nearest_existing_directory fs ob = nearest_from fs (target_directory ob)"

definition schedule_retry :: "observer \<Rightarrow> observer" where
  "schedule_retry ob =
     (if retry_id ob \<noteq> 0 then ob
      else ob\<lparr>retry_id := next_source_id ob, sources := next_source_id ob # sources ob,
              next_source_id := next_source_id ob + 1\<rparr>)"

definition remove_retry :: "observer \<Rightarrow> observer" where
  "remove_retry ob =
     (if retry_id ob \<noteq> 0
      then ob\<lparr>sources := remove1 (retry_id ob) (sources ob), retry_id := 0\<rparr> else ob)"

definition bind_monitor :: "file_system \<Rightarrow> observer \<Rightarrow> bool \<times> observer" where
  "bind_monitor fs ob =
     (case nearest_existing_directory fs ob of
        None \<Rightarrow> (False, schedule_retry ob)
      | Some directory \<Rightarrow>
          if monitor ob \<noteq> None \<and> watch_directory ob = Some directory then (True, ob)
          else if \<not> monitor_possible fs directory then (False, schedule_retry ob)
          else (True, remove_retry (ob\<lparr>watch_directory := Some directory, monitor := Some directory\<rparr>)))"

definition monitor_changed ::
  "file_system \<Rightarrow> string list option \<Rightarrow> string list option \<Rightarrow> monitor_event \<Rightarrow> observer \<Rightarrow> observer \<times> bool" where
  "monitor_changed fs file other_file event ob =
     (if \<not> relevant_event event then (ob, False)
      else
        (let old_exists = target_exists ob;
             target_event = (file = Some (target_file ob) \<or> other_file = Some (target_file ob));
             desired = nearest_existing_directory fs ob;
             (rebound, ob1) = (if desired \<noteq> None \<and> watch_directory ob \<noteq> desired then bind_monitor fs ob else (False, ob));
             ob2 = ob1\<lparr>target_exists := file_exists fs (target_file ob1)\<rparr>
         in (ob2, target_event \<or> old_exists \<noteq> target_exists ob2 \<or> (rebound \<and> target_exists ob2))))"

text \<open>The result is \<open>G_SOURCE_REMOVE\<close>; the main loop then drops the source, which may be gone already.\<close>

definition retry_bind :: "file_system \<Rightarrow> observer \<Rightarrow> bool \<times> observer" where
  "retry_bind fs ob =
     (let (bound, ob1) = bind_monitor fs ob in if bound then (True, ob1\<lparr>retry_id := 0\<rparr>) else (False, ob1))"

definition fire_retry :: "file_system \<Rightarrow> nat \<Rightarrow> observer \<Rightarrow> observer" where
  "fire_retry fs i ob =
     (if i \<notin> set (sources ob) then ob
      else (let (removed, ob1) = retry_bind fs ob
            in if removed then ob1\<lparr>sources := filter (\<lambda>j. j \<noteq> i) (sources ob1)\<rparr> else ob1))"

definition ss_policy_file_observer_free :: "observer \<Rightarrow> observer" where
  "ss_policy_file_observer_free ob = (remove_retry ob)\<lparr>monitor := None, watch_directory := None\<rparr>"

text \<open>\<open>path\<close> is \<open>None\<close> for a null or empty path; the callback is given.\<close>

definition ss_policy_file_observer_new :: "file_system \<Rightarrow> string list option \<Rightarrow> observer option" where
  "ss_policy_file_observer_new fs path =
     (case path of
        None \<Rightarrow> None
      | Some f \<Rightarrow>
          (case g_file_get_parent f of
             None \<Rightarrow> None
           | Some directory \<Rightarrow>
               (let (bound, ob) = bind_monitor fs
                      \<lparr>target_file = f, target_directory = directory, watch_directory = None, monitor = None,
                       retry_id = 0, target_exists = file_exists fs f, sources = [], next_source_id = 1\<rparr>
                in Some (if bound then ob else schedule_retry ob))))"

section \<open>The nearest directory\<close>

text \<open>The longest prefix that is a directory.\<close>

lemma nearest_from_exact:
  "nearest_from fs d = Some c \<longleftrightarrow>
     prefix c d \<and> is_directory fs c \<and> (\<forall>p. prefix p d \<and> length c < length p \<longrightarrow> \<not> is_directory fs p)"
proof (induction fs d rule: nearest_from.induct)
  case (1 fs d)
  show ?case
  proof (cases "is_directory fs d")
    case True
    then have "nearest_from fs d = Some d" by (subst nearest_from.simps) simp
    with True show ?thesis
      by (metis leD option.inject prefix_length_le prefix_length_less prefix_order.le_less)
  next
    case no: False
    show ?thesis
    proof (cases "d = []")
      case True
      with no have "nearest_from fs d = None" by (subst nearest_from.simps) simp
      with no True show ?thesis by simp
    next
      case False
      then obtain e x where d: "d = e @ [x]" by (cases d rule: rev_cases) simp_all
      have "nearest_from fs d = nearest_from fs e"
        using no False by (subst nearest_from.simps) (simp add: d)
      moreover have "prefix p d \<longleftrightarrow> p = d \<or> prefix p e" for p by (simp add: d)
      ultimately show ?thesis using "1.IH"[OF no False] no d by auto
    qed
  qed
qed

section \<open>The invariant\<close>

text \<open>
  The watched directory is an ancestor of the target; there is always a monitor or a scheduled retry; the
  retry's source exists exactly once and there is no other source.
\<close>

definition observer_ok :: "observer \<Rightarrow> bool" where
  "observer_ok ob \<longleftrightarrow> monitor ob = watch_directory ob \<and>
     (\<forall>d. watch_directory ob = Some d \<longrightarrow> prefix d (target_directory ob)) \<and>
     (monitor ob = None \<longrightarrow> retry_id ob \<noteq> 0) \<and>
     sources ob = (if retry_id ob = 0 then [] else [retry_id ob]) \<and> retry_id ob < next_source_id ob"

inductive observer_step :: "observer \<Rightarrow> observer \<Rightarrow> bool" where
  event: "monitor ob \<noteq> None \<Longrightarrow> observer_step ob (fst (monitor_changed fs file other event ob))"
| retry: "observer_step ob (fire_retry fs i ob)"

lemma bind_ok:
  assumes "observer_ok ob" "bind_monitor fs ob = (b, ob')"
  shows "observer_ok ob' \<and> target_exists ob' = target_exists ob \<and> target_file ob' = target_file ob \<and>
    target_directory ob' = target_directory ob \<and>
    (if b then monitor ob' \<noteq> None \<and> watch_directory ob' = nearest_existing_directory fs ob
     else monitor ob' = monitor ob \<and> retry_id ob' \<noteq> 0)"
proof -
  have "nearest_existing_directory fs ob = Some d \<Longrightarrow> prefix d (target_directory ob)" for d
    by (simp add: nearest_existing_directory_def nearest_from_exact)
  then show ?thesis using assms
    by (auto simp: bind_monitor_def observer_ok_def schedule_retry_def remove_retry_def split: option.splits if_splits)
qed


lemma event_ok:
  assumes ok: "observer_ok ob" and m: "monitor ob \<noteq> None" and r: "relevant_event event"
    and e: "monitor_changed fs file other event ob = (ob', notified)"
  shows "observer_ok ob' \<and> target_exists ob' = file_exists fs (target_file ob) \<and> monitor ob' \<noteq> None \<and>
    target_file ob' = target_file ob \<and> target_directory ob' = target_directory ob \<and>
    (nearest_existing_directory fs ob = None \<or> watch_directory ob' = nearest_existing_directory fs ob \<or>
       watch_directory ob' = watch_directory ob \<and> retry_id ob' \<noteq> 0) \<and>
    (notified \<longleftrightarrow> file = Some (target_file ob) \<or> other = Some (target_file ob) \<or>
       target_exists ob \<noteq> file_exists fs (target_file ob) \<or>
       file_exists fs (target_file ob) \<and> watch_directory ob' \<noteq> watch_directory ob)"
proof -
  let ?near = "nearest_existing_directory fs ob"
  obtain rebound ob1 where b: "(if ?near \<noteq> None \<and> watch_directory ob \<noteq> ?near then bind_monitor fs ob else (False, ob)) = (rebound, ob1)"
    by (rule prod.exhaust)
  obtain y where y: "monitor ob = Some y" "watch_directory ob = Some y" using m ok by (auto simp: observer_ok_def)
  have B: "observer_ok ob1 \<and> target_file ob1 = target_file ob \<and> target_directory ob1 = target_directory ob \<and> monitor ob1 \<noteq> None \<and>
      (?near = None \<or> watch_directory ob1 = ?near \<or> watch_directory ob1 = watch_directory ob \<and> retry_id ob1 \<noteq> 0) \<and>
      rebound = (watch_directory ob1 \<noteq> watch_directory ob)"
  proof (cases "?near \<noteq> None \<and> watch_directory ob \<noteq> ?near")
    case True
    with b have bm: "bind_monitor fs ob = (rebound, ob1)" by simp
    note B = bind_ok[OF ok bm]
    show ?thesis
    proof (cases rebound)
      case r: True
      with B have "watch_directory ob1 = ?near" "monitor ob1 \<noteq> None" by simp_all
      with B True r show ?thesis by auto
    next
      case False
      with B y have "monitor ob1 = Some y" "retry_id ob1 \<noteq> 0" "watch_directory ob1 = Some y"
        by (auto simp: observer_ok_def)
      with B y False show ?thesis by simp
    qed
  next
    case False
    with b ok m show ?thesis by auto
  qed
  have o: "ob' = ob1\<lparr>target_exists := file_exists fs (target_file ob1)\<rparr>"
    and n: "notified = ((file = Some (target_file ob) \<or> other = Some (target_file ob)) \<or>
       target_exists ob \<noteq> file_exists fs (target_file ob1) \<or> (rebound \<and> file_exists fs (target_file ob1)))"
    using e r b by (auto simp: monitor_changed_def Let_def)
  have fields: "observer_ok ob' = observer_ok ob1" "target_exists ob' = file_exists fs (target_file ob1)"
    "monitor ob' = monitor ob1" "watch_directory ob' = watch_directory ob1" "retry_id ob' = retry_id ob1"
    "target_file ob' = target_file ob1" "target_directory ob' = target_directory ob1"
    by (simp_all add: o observer_ok_def)
  from B have eqs: "target_file ob1 = target_file ob" "target_directory ob1 = target_directory ob"
    "rebound = (watch_directory ob1 \<noteq> watch_directory ob)" by blast+
  have "notified \<longleftrightarrow> file = Some (target_file ob) \<or> other = Some (target_file ob) \<or>
       target_exists ob \<noteq> file_exists fs (target_file ob) \<or>
       file_exists fs (target_file ob) \<and> watch_directory ob' \<noteq> watch_directory ob"
    unfolding n fields eqs by blast
  with B show ?thesis unfolding fields eqs by blast
qed

lemma retry_ok:
  assumes "observer_ok ob" shows "observer_ok (fire_retry fs i ob)"
proof (cases "i \<in> set (sources ob)")
  case False
  with assms show ?thesis by (simp add: fire_retry_def)
next
  case True
  with assms have i: "i = retry_id ob" "i \<noteq> 0" by (auto simp: observer_ok_def split: if_splits)
  obtain b ob1 where b: "bind_monitor fs ob = (b, ob1)" by (rule prod.exhaust)
  note B = bind_ok[OF assms b]
  have "b \<Longrightarrow> retry_id ob1 = 0 \<or> retry_id ob1 = i"
    using b i by (auto simp: bind_monitor_def remove_retry_def split: option.splits if_splits)
  then have "b \<Longrightarrow> filter (\<lambda>j. j \<noteq> i) (sources ob1) = []" using B i by (auto simp: observer_ok_def)
  moreover have "fire_retry fs i ob =
      (if b then ob1\<lparr>retry_id := 0, sources := filter (\<lambda>j. j \<noteq> i) (sources ob1)\<rparr> else ob1)"
    using b True by (simp add: fire_retry_def retry_bind_def)
  moreover have "observer_ok (ob1\<lparr>retry_id := 0, sources := []\<rparr>)" if b
  proof -
    have "monitor ob1 \<noteq> None" "observer_ok ob1" using B that by simp_all
    then show ?thesis unfolding observer_ok_def by (simp split: if_splits)
  qed
  moreover have "observer_ok ob1" using B by simp
  ultimately show ?thesis by (cases b) simp_all
qed

lemma new_ok:
  assumes "ss_policy_file_observer_new fs path = Some ob"
  shows "observer_ok ob \<and> target_exists ob = file_exists fs (target_file ob)"
proof -
  obtain f d where p: "path = Some f" "g_file_get_parent f = Some d"
    using assms by (auto simp: ss_policy_file_observer_new_def split: option.splits)
  define start where "start = \<lparr>target_file = f, target_directory = d, watch_directory = None, monitor = None,
      retry_id = 0, target_exists = file_exists fs f, sources = [], next_source_id = 1\<rparr>"
  obtain b ob1 where b: "bind_monitor fs start = (b, ob1)" by (rule prod.exhaust)
  have ob: "ob = (if b then ob1 else schedule_retry ob1)"
    using assms p b by (simp add: ss_policy_file_observer_new_def start_def split: option.splits)
  have near: "nearest_existing_directory fs start = Some c \<Longrightarrow> prefix c d" for c
    by (simp add: nearest_existing_directory_def start_def nearest_from_exact)
  show ?thesis
  proof (cases b)
    case False
    then have "ob1 = schedule_retry start" using b by (auto simp: bind_monitor_def split: option.splits if_splits)
    with ob False show ?thesis by (simp add: schedule_retry_def start_def observer_ok_def)
  next
    case True
    then obtain c where "nearest_existing_directory fs start = Some c"
      "ob1 = remove_retry (start\<lparr>watch_directory := Some c, monitor := Some c\<rparr>)"
      using b by (auto simp: bind_monitor_def start_def split: option.splits if_splits)
    with ob True near show ?thesis by (simp add: remove_retry_def start_def observer_ok_def)
  qed
qed

inductive observer_run :: "observer \<Rightarrow> observer \<Rightarrow> bool" where
  observed: "observer_run ob ob"
| continues: "observer_run ob x \<Longrightarrow> observer_step x y \<Longrightarrow> observer_run ob y"

lemma step_observer_ok: "observer_step ob ob' \<Longrightarrow> observer_ok ob \<Longrightarrow> observer_ok ob'"
proof (induction rule: observer_step.induct)
  case (event ob fs f g ev)
  obtain ob' n where m: "monitor_changed fs f g ev ob = (ob', n)" by (rule prod.exhaust)
  show ?case
  proof (cases "relevant_event ev")
    case True
    from event_ok[OF event(2,1) True m] m show ?thesis by simp
  next
    case False
    with m event(2) show ?thesis by (simp add: monitor_changed_def)
  qed
next
  case (retry ob fs i)
  then show ?case by (intro retry_ok)
qed

lemma run_observer_ok: "observer_run ob ob' \<Longrightarrow> observer_ok ob \<Longrightarrow> observer_ok ob'"
  by (induction rule: observer_run.induct) (auto intro: step_observer_ok)

lemma retry_keeps: "target_file (fire_retry fs i ob) = target_file ob \<and>
    target_directory (fire_retry fs i ob) = target_directory ob \<and> target_exists (fire_retry fs i ob) = target_exists ob"
  by (auto simp: fire_retry_def retry_bind_def bind_monitor_def schedule_retry_def remove_retry_def
      split: option.splits prod.splits)

lemma run_keeps_target:
  "observer_run ob ob' \<Longrightarrow> observer_ok ob \<Longrightarrow>
     observer_ok ob' \<and> target_file ob' = target_file ob \<and> target_directory ob' = target_directory ob"
proof (induction rule: observer_run.induct)
  case (continues ob x y)
  then have x: "observer_ok x" by blast
  from continues(2) have "target_file y = target_file x \<and> target_directory y = target_directory x"
  proof (cases rule: observer_step.cases)
    case (event fs f g e)
    obtain ob' n where m: "monitor_changed fs f g e x = (ob', n)" by (rule prod.exhaust)
    show ?thesis
    proof (cases "relevant_event e")
      case True
      from event_ok[OF x event(2) True m] m event(1) show ?thesis by simp
    next
      case False
      with m event(1) show ?thesis by (simp add: monitor_changed_def)
    qed
  next
    case (retry fs i)
    then show ?thesis by (simp add: retry_keeps)
  qed
  with continues x show ?case using step_observer_ok by simp
qed simp

lemma new_targets:
  assumes "ss_policy_file_observer_new fs (Some f) = Some ob"
  shows "f \<noteq> [] \<and> target_file ob = f \<and> target_directory ob = butlast f"
proof -
  have f: "f \<noteq> []" using assms by (auto simp: ss_policy_file_observer_new_def g_file_get_parent_def)
  with assms show ?thesis
    by (auto simp: ss_policy_file_observer_new_def g_file_get_parent_def bind_monitor_def schedule_retry_def
        remove_retry_def Let_def split: option.splits if_splits prod.splits)
qed

section \<open>Properties\<close>

text \<open>
  C12: An observer of a file is never left without a way to notice it. From its construction through any
  sequence of monitor events and timeouts, under any file system, it keeps its target, its monitor is on the
  directory it records and that is the parent of the target or one of its ancestors, and it has the monitor
  or a scheduled retry, of which there is never more than one. Freeing it leaves no timer and no monitor.
\<close>

theorem observer_always_bound:
  assumes "ss_policy_file_observer_new fs (Some f) = Some ob" "observer_run ob ob'"
  shows "target_file ob' = f \<and> monitor ob' = watch_directory ob' \<and>
    (\<forall>d. watch_directory ob' = Some d \<longrightarrow> prefix d (butlast f)) \<and>
    (monitor ob' \<noteq> None \<or> retry_id ob' \<noteq> 0) \<and>
    sources ob' = (if retry_id ob' = 0 then [] else [retry_id ob']) \<and>
    sources (ss_policy_file_observer_free ob') = [] \<and> monitor (ss_policy_file_observer_free ob') = None"
proof -
  have ok: "observer_ok ob'" and to: "target_file ob' = f" "target_directory ob' = butlast f"
    using run_keeps_target[OF assms(2)] new_ok[OF assms(1)] new_targets[OF assms(1)] by simp_all
  have freed: "sources (ss_policy_file_observer_free ob') = []" "monitor (ss_policy_file_observer_free ob') = None"
    using ok by (simp_all add: observer_ok_def ss_policy_file_observer_free_def remove_retry_def)
  from ok show ?thesis unfolding observer_ok_def to freed by blast
qed

text \<open>
  What one monitor event does to an observer that has been through any history. An event of a relevant
  kind asks for a refresh exactly when it names the target at either end, or the target has appeared or
  disappeared since the observer last looked, or the watch moved to another directory and the target is
  there; the observer then remembers whether the target exists now. The watch is afterwards on the longest
  ancestor of the target that is a directory, or a retry is scheduled. An event of another kind changes
  nothing.
\<close>

theorem observer_event_exact:
  assumes "ss_policy_file_observer_new fs0 (Some f) = Some ob0" "observer_run ob0 ob" "monitor ob \<noteq> None"
    "monitor_changed fs file other event ob = (ob', notified)"
  shows "if relevant_event event then
      target_exists ob' = file_exists fs f \<and> monitor ob' \<noteq> None \<and>
      (notified \<longleftrightarrow> file = Some f \<or> other = Some f \<or> target_exists ob \<noteq> file_exists fs f \<or>
         file_exists fs f \<and> watch_directory ob' \<noteq> watch_directory ob) \<and>
      (\<forall>d. prefix d (butlast f) \<and> is_directory fs d \<and>
           (\<forall>p. prefix p (butlast f) \<and> length d < length p \<longrightarrow> \<not> is_directory fs p) \<longrightarrow>
         watch_directory ob' = Some d \<or> watch_directory ob' = watch_directory ob \<and> retry_id ob' \<noteq> 0)
    else ob' = ob \<and> \<not> notified"
proof (cases "relevant_event event")
  case False
  with assms(4) show ?thesis by (simp add: monitor_changed_def)
next
  case True
  have ob: "observer_ok ob" "target_file ob = f" "target_directory ob = butlast f"
    using run_keeps_target[OF assms(2)] new_ok[OF assms(1)] new_targets[OF assms(1)] by simp_all
  note E = event_ok[OF ob(1) assms(3) True assms(4), unfolded ob]
  have "watch_directory ob' = Some d \<or> watch_directory ob' = watch_directory ob \<and> retry_id ob' \<noteq> 0"
    if "prefix d (butlast f) \<and> is_directory fs d \<and>
      (\<forall>p. prefix p (butlast f) \<and> length d < length p \<longrightarrow> \<not> is_directory fs p)" for d
  proof -
    have "nearest_existing_directory fs ob = Some d"
      using that nearest_from_exact by (simp add: nearest_existing_directory_def ob)
    with E show ?thesis by simp
  qed
  with E True show ?thesis by simp
qed

section \<open>An instance\<close>

text \<open>The configuration directory appears after the observer was made, and the file with it.\<close>

definition bare_home :: file_system where
  "bare_home = \<lparr>is_directory = (\<lambda>d. d \<in> {[], [''home'']}), file_exists = (\<lambda>f. f \<in> {[], [''home'']}),
    monitor_possible = (\<lambda>_. True)\<rparr>"

definition configured_home :: file_system where
  "configured_home = \<lparr>is_directory = (\<lambda>d. d \<in> {[], [''home''], [''home'', ''cfg'']}),
    file_exists = (\<lambda>f. f \<in> {[], [''home''], [''home'', ''cfg''], [''home'', ''cfg'', ''policy'']}),
    monitor_possible = (\<lambda>_. True)\<rparr>"

definition sample_target :: "string list" where
  "sample_target = [''home'', ''cfg'', ''policy'']"

definition sample_observer :: observer where
  "sample_observer = the (ss_policy_file_observer_new bare_home (Some sample_target))"

lemma sample_observer: "ss_policy_file_observer_new bare_home (Some sample_target) = Some sample_observer"
  "watch_directory sample_observer = Some [''home'']" "monitor sample_observer \<noteq> None"
  by code_simp+

theorem observer_always_bound_witness:
  "target_file (fire_retry configured_home 1 sample_observer) = sample_target \<and>
   sources (ss_policy_file_observer_free (fire_retry configured_home 1 sample_observer)) = []"
proof -
  have "observer_run sample_observer (fire_retry configured_home 1 sample_observer)"
    by (rule continues[OF observed retry])
  then show ?thesis using observer_always_bound[OF sample_observer(1)] by blast
qed

theorem observer_event_exact_witness:
  "\<exists>ob'. monitor_changed configured_home (Some [''home'', ''cfg'']) None EVENT_CREATED sample_observer = (ob', True) \<and>
     target_exists ob'"
proof -
  obtain ob' n where e: "monitor_changed configured_home (Some [''home'', ''cfg'']) None EVENT_CREATED sample_observer = (ob', n)"
    by (rule prod.exhaust)
  have facts: "relevant_event EVENT_CREATED" "file_exists configured_home sample_target" "\<not> target_exists sample_observer"
    by code_simp+
  show ?thesis
    using observer_event_exact[OF sample_observer(1) observed sample_observer(3) e] facts e by simp
qed

end
