(* ===== verification/TimeSettingsCli.thy ===== *)
theory TimeSettingsCli
  imports LocationPanel
begin

text \<open>
  \<open>tools/time-settings-cli.c\<close> on Linux: one invocation is one transaction under the locality lock, when the
  command names a location, and the policy lock. The arguments are those after the program's name; the
  result is the exit code, the line on standard error and what is printed: the policy and whether it is an
  explicit one. The platform's operations may be null pointers, as in the code.
\<close>

section \<open>Options\<close>

datatype cli_message =
    Locality_lock_failed | Policy_lock_failed | Load_failed | Read_failed | Stage_failed
  | Clock_refused | Calendar_refused | Usage | Seconds_refused | Location_refused | Clear_refused
  | Staged_unreadable | Metadata_not_staged | Save_failed | Metadata_restored | Metadata_recovery
  | Native_not_synchronized

record cli_options =
  cli_draft :: "policy_draft option"
  location_change_requested :: bool
  location_clear_requested :: bool
  location_candidate :: location_metadata

definition command_touches_location :: "string list \<Rightarrow> bool" where
  "command_touches_location args = list_ex (\<lambda>a. a = ''--location'' \<or> a = ''--clear-location'') args"

definition custom_coordinates :: "common \<Rightarrow> double \<Rightarrow> double \<Rightarrow> location_metadata" where
  "custom_coordinates cm lat lon =
     cleared_metadata\<lparr>md_display_name := copy_string cm sizeof_display_name ''Custom coordinates'',
                      md_latitude := lat, md_longitude := lon\<rparr>"

definition set_location_option ::
  "common \<Rightarrow> string \<Rightarrow> string \<Rightarrow> cli_options \<Rightarrow> cli_message + cli_options" where
  "set_location_option cm lat_text lon_text opts =
     (case parse_double_range cm lat_text (Fin (- 90)) (Fin 90) of
        None \<Rightarrow> Inl Location_refused
      | Some lat \<Rightarrow>
          (case parse_double_range cm lon_text (Fin (- 180)) (Fin 180) of
             None \<Rightarrow> Inl Location_refused
           | Some lon \<Rightarrow>
               (case ss_date_time_policy_draft_set_location (cli_draft opts) True lat lon of
                  (False, _) \<Rightarrow> Inl Location_refused
                | (True, d) \<Rightarrow>
                    Inr \<lparr>cli_draft = d, location_change_requested = True, location_clear_requested = False,
                         location_candidate = custom_coordinates cm lat lon\<rparr>)))"

definition clear_location_option :: "cli_options \<Rightarrow> cli_message + cli_options" where
  "clear_location_option opts =
     (case ss_date_time_policy_draft_policy (cli_draft opts) of
        None \<Rightarrow> Inl Clear_refused
      | Some current \<Rightarrow>
          (case ss_date_time_policy_draft_set_location (cli_draft opts) False (latitude current) (longitude current) of
             (False, _) \<Rightarrow> Inl Clear_refused
           | (True, d) \<Rightarrow>
               Inr (opts\<lparr>cli_draft := d, location_change_requested := True, location_clear_requested := True\<rparr>)))"

definition put_draft :: "cli_message \<Rightarrow> cli_options \<Rightarrow> bool \<times> policy_draft option \<Rightarrow> cli_message + cli_options" where
  "put_draft message opts result = (if fst result then Inr (opts\<lparr>cli_draft := snd result\<rparr>) else Inl message)"

text \<open>One pass of the loop: the options read, and the arguments left.\<close>

definition take_option ::
  "common \<Rightarrow> string \<Rightarrow> string list \<Rightarrow> cli_options \<Rightarrow> (cli_message + cli_options) \<times> string list" where
  "take_option cm arg rest opts =
     (if arg = ''--clock'' \<and> 1 \<le> length rest
      then (put_draft Clock_refused opts (ss_date_time_policy_draft_set_clock_mode cm (cli_draft opts) (Some (rest ! 0))),
            drop 1 rest)
      else if arg = ''--calendar'' \<and> 1 \<le> length rest
      then (put_draft Calendar_refused opts (ss_date_time_policy_draft_set_calendar cm (cli_draft opts) (Some (rest ! 0))),
            drop 1 rest)
      else if arg = ''--seconds'' \<and> 1 \<le> length rest
      then (if rest ! 0 \<noteq> ''on'' \<and> rest ! 0 \<noteq> ''off'' then Inl Usage
            else put_draft Seconds_refused opts (ss_date_time_policy_draft_set_show_seconds (cli_draft opts) (rest ! 0 = ''on'')),
            drop 1 rest)
      else if arg = ''--location'' \<and> 2 \<le> length rest
      then (set_location_option cm (rest ! 0) (rest ! 1) opts, drop 2 rest)
      else if arg = ''--clear-location'' then (clear_location_option opts, rest)
      else (Inl Usage, rest))"

lemma take_option_shorter: "take_option cm arg rest opts = (r, left) \<Longrightarrow> length left < length (arg # rest)"
  unfolding take_option_def by (simp split: if_split_asm) (auto)

function apply_options :: "common \<Rightarrow> string list \<Rightarrow> cli_options \<Rightarrow> cli_message + cli_options" where
  "apply_options cm [] opts = Inr opts"
| "apply_options cm (arg # rest) opts =
     (case take_option cm arg rest opts of
        (Inl message, _) \<Rightarrow> Inl message
      | (Inr opts1, left) \<Rightarrow> apply_options cm left opts1)"
  by pat_completeness auto
termination
  by (relation "measure (\<lambda>(cm, args, opts). length args)") (use take_option_shorter in \<open>auto dest: sym\<close>)

section \<open>The transaction\<close>

record cli_result =
  exit_code :: int
  stderr_line :: "cli_message option"
  printed :: "(policy \<times> bool) option"

abbreviation failed :: "int \<Rightarrow> cli_message \<Rightarrow> cli_result" where
  "failed code message \<equiv> \<lparr>exit_code = code, stderr_line = Some message, printed = None\<rparr>"

text \<open>After the policy was saved: the metadata, or the previous policy again.\<close>

definition publish_metadata ::
  "world store \<Rightarrow> policy \<Rightarrow> bool \<Rightarrow> bool \<Rightarrow> bool \<Rightarrow> world \<Rightarrow> cli_message option \<times> world" where
  "publish_metadata platform original original_persisted clear_requested location_staged w =
     (let (metadata_ok, w1) =
            (if clear_requested then ss_location_metadata_clear w else ss_location_metadata_finish_staged w)
      in if metadata_ok then (None, w1)
         else
           (let (rolled_back, w2) =
                  (if original_persisted
                   then (case st_save platform of None \<Rightarrow> (False, w1) | Some sv \<Rightarrow> sv original w1)
                   else (case st_clear platform of None \<Rightarrow> (False, w1) | Some cl \<Rightarrow> cl w1));
                w3 = (if rolled_back \<and> location_staged then snd (ss_location_metadata_discard_staged w2) else w2)
            in (Some (if rolled_back then Metadata_restored else Metadata_recovery), w3)))"

definition publish_options ::
  "world store \<Rightarrow> policy \<Rightarrow> bool \<Rightarrow> cli_options \<Rightarrow> world \<Rightarrow> cli_result \<times> world" where
  "publish_options platform original original_persisted opts w =
     (case ss_date_time_policy_draft_policy (cli_draft opts) of
        None \<Rightarrow> (failed 2 Staged_unreadable, w)
      | Some new \<Rightarrow>
          (let staging = (location_change_requested opts \<and> \<not> location_clear_requested opts);
               (staged, w1) = (if staging then ss_location_metadata_stage (location_candidate opts) w else (True, w))
           in if \<not> staged then (failed 2 Metadata_not_staged, w1)
              else
                (let (saved, w2) = (case st_save platform of None \<Rightarrow> (False, w1) | Some sv \<Rightarrow> sv new w1)
                 in if \<not> saved
                    then (failed 2 Save_failed, if staging then snd (ss_location_metadata_discard_staged w2) else w2)
                    else
                      (let (message, w3) =
                             (if location_change_requested opts
                              then publish_metadata platform original original_persisted
                                     (location_clear_requested opts) staging w2
                              else (None, w2))
                       in case message of
                            Some m \<Rightarrow> (failed 3 m, w3)
                          | None \<Rightarrow>
                              (let (matches, w4) =
                                     (case st_compatibility_matches platform of None \<Rightarrow> (True, w3) | Some f \<Rightarrow> f new w3)
                               in if \<not> matches then (failed 3 Native_not_synchronized, w4)
                                  else (\<lparr>exit_code = 0, stderr_line = None, printed = Some (new, True)\<rparr>, w4))))))"

definition initial_options :: "policy_draft \<Rightarrow> cli_options" where
  "initial_options d = \<lparr>cli_draft = Some d, location_change_requested = False, location_clear_requested = False,
     location_candidate = cleared_metadata\<rparr>"

text \<open>From the label of the options to \<open>done\<close>. The two booleans are whether \<open>calloc\<close> returned memory.\<close>

definition process_options ::
  "common \<Rightarrow> bool \<Rightarrow> world store \<Rightarrow> string list \<Rightarrow> policy \<Rightarrow> bool \<Rightarrow> world \<Rightarrow> cli_result \<times> world" where
  "process_options cm draft_allocated platform args original original_persisted w =
     (case ss_date_time_policy_draft_new draft_allocated (Some original) of
        None \<Rightarrow> (failed 1 Stage_failed, w)
      | Some d \<Rightarrow>
          (case apply_options cm args (initial_options d) of
             Inl message \<Rightarrow> (failed 2 message, w)
           | Inr opts \<Rightarrow>
               if args \<noteq> [] then publish_options platform original original_persisted opts w
               else (\<lparr>exit_code = 0, stderr_line = None, printed = Some (original, original_persisted)\<rparr>, w)))"

definition release_platform_update :: "world store \<Rightarrow> bool \<Rightarrow> world \<Rightarrow> world" where
  "release_platform_update platform locked w =
     (if locked then (case st_end_update platform of None \<Rightarrow> w | Some en \<Rightarrow> en w) else w)"

definition release_locality :: "bool \<Rightarrow> world \<Rightarrow> world" where
  "release_locality locked w = (if locked then ss_location_metadata_transaction_end w else w)"

text \<open>
  The model is a local variable with the address 0. Clearing it releases nothing, as it was never saving.
\<close>

definition run_locked ::
  "common \<Rightarrow> bool \<Rightarrow> bool \<Rightarrow> world store \<Rightarrow> string list \<Rightarrow> bool \<Rightarrow> bool \<Rightarrow> world \<Rightarrow> cli_result \<times> world" where
  "run_locked cm model_allocated draft_allocated platform args loc_held platform_held w =
     (let (ready, m, w1) =
            ss_date_time_model_init cm model_allocated (Some \<lparr>address = 0, private_state = None\<rparr>) (Some platform) w
      in if \<not> ready
         then (failed 1 Load_failed, release_locality loc_held (release_platform_update platform platform_held w1))
         else
           (let (result, w2) =
                  (case ss_date_time_model_policy m of
                     None \<Rightarrow> (failed 1 Read_failed, w1)
                   | Some original \<Rightarrow>
                       process_options cm draft_allocated platform args original
                         (ss_date_time_model_has_persisted_policy m) w1);
                w3 = release_locality loc_held (release_platform_update platform platform_held w2);
                (_, w4) = ss_date_time_model_clear m w3
            in (result, w4)))"

definition cli_main ::
  "common \<Rightarrow> bool \<Rightarrow> bool \<Rightarrow> world store \<Rightarrow> string list \<Rightarrow> world \<Rightarrow> cli_result \<times> world" where
  "cli_main cm model_allocated draft_allocated platform args w =
     (let touching = (args \<noteq> [] \<and> command_touches_location args);
          (loc_held, w1) = (if touching then ss_location_metadata_transaction_begin w else (True, w))
      in if \<not> loc_held then (failed 2 Locality_lock_failed, w1)
         else if args \<noteq> [] \<and> st_begin_update platform \<noteq> None
         then
           (let (platform_held, w2) =
                  (if st_end_update platform = None then (False, w1)
                   else (case st_begin_update platform of None \<Rightarrow> (False, w1) | Some bg \<Rightarrow> bg w1))
            in if \<not> platform_held then (failed 2 Policy_lock_failed, release_locality touching w2)
               else run_locked cm model_allocated draft_allocated platform args touching True w2)
         else run_locked cm model_allocated draft_allocated platform args touching False w1)"

section \<open>Options as a list of edits\<close>

text \<open>A reference reading: the command is parsed first, without a policy, and the edits are applied after.\<close>

datatype cli_edit = Edit edit | Clear

fun apply_edit :: "common \<Rightarrow> cli_edit \<Rightarrow> policy \<Rightarrow> policy option" where
  "apply_edit cm (Edit e) p = drafted cm e p"
| "apply_edit cm Clear p = drafted cm (Location False (latitude p) (longitude p)) p"

fun apply_edits :: "common \<Rightarrow> cli_edit list \<Rightarrow> policy \<Rightarrow> policy option" where
  "apply_edits cm [] p = Some p"
| "apply_edits cm (e # es) p = Option.bind (apply_edit cm e p) (apply_edits cm es)"

definition parse_option :: "common \<Rightarrow> string \<Rightarrow> string list \<Rightarrow> (cli_edit \<times> string list) option" where
  "parse_option cm arg rest =
     (if arg = ''--clock'' \<and> 1 \<le> length rest then Some (Edit (Clock (Some (rest ! 0))), drop 1 rest)
      else if arg = ''--calendar'' \<and> 1 \<le> length rest then Some (Edit (Calendar (Some (rest ! 0))), drop 1 rest)
      else if arg = ''--seconds'' \<and> 1 \<le> length rest
      then (if rest ! 0 = ''on'' then Some (Edit (Seconds True), drop 1 rest)
            else if rest ! 0 = ''off'' then Some (Edit (Seconds False), drop 1 rest) else None)
      else if arg = ''--location'' \<and> 2 \<le> length rest
      then (case (parse_double_range cm (rest ! 0) (Fin (- 90)) (Fin 90),
                  parse_double_range cm (rest ! 1) (Fin (- 180)) (Fin 180)) of
              (Some lat, Some lon) \<Rightarrow> Some (Edit (Location True lat lon), drop 2 rest) | _ \<Rightarrow> None)
      else if arg = ''--clear-location'' then Some (Clear, rest)
      else None)"

lemma parse_option_shorter: "parse_option cm arg rest = Some (e, left) \<Longrightarrow> length left < length (arg # rest)"
  unfolding parse_option_def by (simp split: if_split_asm option.split_asm) auto

function command_edits :: "common \<Rightarrow> string list \<Rightarrow> cli_edit list option" where
  "command_edits cm [] = Some []"
| "command_edits cm (arg # rest) =
     (case parse_option cm arg rest of
        None \<Rightarrow> None
      | Some (e, left) \<Rightarrow> map_option ((#) e) (command_edits cm left))"
  by pat_completeness auto
termination
  by (relation "measure (\<lambda>(cm, args). length args)") (use parse_option_shorter in \<open>auto dest: sym\<close>)

text \<open>What an edit leaves of the request to change the metadata.\<close>

fun edit_options :: "common \<Rightarrow> cli_edit \<Rightarrow> cli_options \<Rightarrow> cli_options" where
  "edit_options cm (Edit (Location c lat lon)) opts =
     opts\<lparr>location_change_requested := True, location_clear_requested := False,
          location_candidate := custom_coordinates cm lat lon\<rparr>"
| "edit_options cm Clear opts = opts\<lparr>location_change_requested := True, location_clear_requested := True\<rparr>"
| "edit_options cm e opts = opts"

lemma take_option_edit:
  assumes "cli_draft opts = Some \<lparr>draft_policy = p\<rparr>"
  shows "(case take_option cm arg rest opts of
            (Inl m, _) \<Rightarrow> (case parse_option cm arg rest of None \<Rightarrow> True | Some (e, _) \<Rightarrow> apply_edit cm e p = None)
          | (Inr opts1, left) \<Rightarrow>
              (\<exists>e q. parse_option cm arg rest = Some (e, left) \<and> apply_edit cm e p = Some q \<and>
                 opts1 = edit_options cm e (opts\<lparr>cli_draft := Some \<lparr>draft_policy = q\<rparr>\<rparr>)))"
proof -
  have "take_option cm arg rest opts = (Inl Usage, rest) \<and> parse_option cm arg rest = None"
    if "\<not> (arg = ''--clock'' \<and> 1 \<le> length rest)" "\<not> (arg = ''--calendar'' \<and> 1 \<le> length rest)"
      "\<not> (arg = ''--seconds'' \<and> 1 \<le> length rest)" "\<not> (arg = ''--location'' \<and> 2 \<le> length rest)"
      "arg \<noteq> ''--clear-location''"
    by (simp only: take_option_def parse_option_def if_not_P[OF that(1)] if_not_P[OF that(2)] if_not_P[OF that(3)]
        if_not_P[OF that(4)] if_not_P[OF that(5)])
  then consider (clock) "arg = ''--clock'' \<and> 1 \<le> length rest" | (calendar) "arg = ''--calendar'' \<and> 1 \<le> length rest"
    | (seconds) "arg = ''--seconds'' \<and> 1 \<le> length rest" | (location) "arg = ''--location'' \<and> 2 \<le> length rest"
    | (clear) "arg = ''--clear-location''"
    | (other) "take_option cm arg rest opts = (Inl Usage, rest)" "parse_option cm arg rest = None"
    by (metis (no_types))
  then show ?thesis
  proof cases
    case clock
    then show ?thesis using assms
      by (simp add: take_option_def parse_option_def put_draft_def drafted_def ss_date_time_policy_draft_set_clock_mode_def
          ss_date_time_policy_draft_policy_def split: option.split)
  next
    case calendar
    then show ?thesis using assms
      by (simp add: take_option_def parse_option_def put_draft_def drafted_def ss_date_time_policy_draft_set_calendar_def
          ss_date_time_policy_draft_policy_def)
  next
    case seconds
    then show ?thesis using assms
      by (simp add: take_option_def parse_option_def put_draft_def drafted_def ss_date_time_policy_draft_set_show_seconds_def
          ss_date_time_policy_draft_policy_def)
  next
    case location
    then show ?thesis using assms
      by (simp add: take_option_def parse_option_def set_location_option_def drafted_def
          ss_date_time_policy_draft_set_location_def ss_date_time_policy_draft_policy_def split: option.split)
  next
    case clear
    then show ?thesis using assms
      by (simp add: take_option_def parse_option_def clear_location_option_def drafted_def
          ss_date_time_policy_draft_set_location_def ss_date_time_policy_draft_policy_def)
  next
    case other
    then show ?thesis by simp
  qed
qed

lemma edit_options_draft [simp]:
  "edit_options cm e (opts\<lparr>cli_draft := d\<rparr>) = (edit_options cm e opts)\<lparr>cli_draft := d\<rparr>"
  "cli_draft (edit_options cm e opts) = cli_draft opts"
  by (induction cm e opts rule: edit_options.induct) simp_all

lemma apply_options_edits:
  assumes "cli_draft opts = Some \<lparr>draft_policy = p\<rparr>"
  shows "(case apply_options cm args opts of
            Inl m \<Rightarrow> (case command_edits cm args of None \<Rightarrow> True | Some es \<Rightarrow> apply_edits cm es p = None)
          | Inr opts1 \<Rightarrow>
              (\<exists>es q. command_edits cm args = Some es \<and> apply_edits cm es p = Some q \<and>
                 opts1 = (fold (edit_options cm) es opts)\<lparr>cli_draft := Some \<lparr>draft_policy = q\<rparr>\<rparr>))"
  using assms
proof (induction cm args opts arbitrary: p rule: apply_options.induct)
  case (1 cm opts)
  then show ?case by (cases opts) simp
next
  case (2 cm arg rest opts)
  obtain r left where t: "take_option cm arg rest opts = (r, left)" by (rule prod.exhaust)
  note T = take_option_edit[OF 2(2), of cm arg rest]
  show ?case
  proof (cases r)
    case (Inl m)
    with t T show ?thesis by (cases "parse_option cm arg rest") (auto split: option.splits)
  next
    case (Inr opts1)
    with T t obtain e q where e: "parse_option cm arg rest = Some (e, left)" "apply_edit cm e p = Some q"
      "opts1 = edit_options cm e (opts\<lparr>cli_draft := Some \<lparr>draft_policy = q\<rparr>\<rparr>)" by auto
    have d: "cli_draft opts1 = Some \<lparr>draft_policy = q\<rparr>" by (simp add: e)
    have fold_draft: "fold (edit_options cm) es (o'\<lparr>cli_draft := x\<rparr>) = (fold (edit_options cm) es o')\<lparr>cli_draft := x\<rparr>" for es o' x
      by (induction es arbitrary: o') simp_all
    note IH = "2.IH"[OF t[symmetric] Inr d]
    have "apply_options cm (arg # rest) opts = apply_options cm left opts1" using t Inr by simp
    moreover have "command_edits cm (arg # rest) = map_option ((#) e) (command_edits cm left)" using e by simp
    ultimately show ?thesis using IH e
      by (cases "apply_options cm left opts1"; cases "command_edits cm left") (auto simp: fold_draft)
  qed
qed

text \<open>The metadata record that goes with the policy.\<close>

definition location_agrees :: "common \<Rightarrow> cli_options \<Rightarrow> policy \<Rightarrow> bool" where
  "location_agrees cm opts p \<longleftrightarrow> (location_change_requested opts \<longrightarrow>
     (if location_clear_requested opts then \<not> location_configured p
      else location_configured p \<and> location_candidate opts = custom_coordinates cm (latitude p) (longitude p)))"

lemma take_option_agrees:
  assumes "take_option cm arg rest opts = (Inr opts1, left)" "cli_draft opts = Some \<lparr>draft_policy = p\<rparr>"
    "location_agrees cm opts p"
  shows "location_agrees cm opts1 (draft_policy (the (cli_draft opts1))) \<and> cli_draft opts1 \<noteq> None \<and> set left \<subseteq> set rest \<and>
    (location_change_requested opts1 \<longrightarrow> location_change_requested opts \<or> arg \<in> {''--location'', ''--clear-location''})"
proof -
  have drops: "set (drop n rest) \<subseteq> set rest" for n by (rule set_drop_subset)
  consider (clock) "arg = ''--clock'' \<and> 1 \<le> length rest" | (calendar) "arg = ''--calendar'' \<and> 1 \<le> length rest"
    | (seconds) "arg = ''--seconds'' \<and> 1 \<le> length rest" | (location) "arg = ''--location'' \<and> 2 \<le> length rest"
    | (clear) "arg = ''--clear-location''"
    using assms(1) by (simp only: take_option_def split: if_split_asm) (metis (no_types) Inl_Inr_False Pair_inject)+
  then show ?thesis
  proof cases
    case clock
    then show ?thesis using assms drops[of 1]
      by (auto simp: take_option_def put_draft_def ss_date_time_policy_draft_set_clock_mode_def location_agrees_def
          assign_clock_mode_def split: option.splits if_splits)
  next
    case calendar
    then show ?thesis using assms drops[of 1]
      by (auto simp: take_option_def put_draft_def ss_date_time_policy_draft_set_calendar_def location_agrees_def
          assign_calendar_def split: if_splits)
  next
    case seconds
    then show ?thesis using assms drops[of 1]
      by (auto simp: take_option_def put_draft_def ss_date_time_policy_draft_set_show_seconds_def location_agrees_def
          split: if_splits)
  next
    case location
    then show ?thesis using assms drops[of 2]
      by (auto simp: take_option_def set_location_option_def ss_date_time_policy_draft_set_location_def location_agrees_def
          assign_location_def split: option.splits if_splits)
  next
    case clear
    then show ?thesis using assms
      by (auto simp: take_option_def clear_location_option_def ss_date_time_policy_draft_set_location_def location_agrees_def
          ss_date_time_policy_draft_policy_def assign_location_def split: if_splits)
  qed
qed

lemma apply_options_agrees:
  assumes "apply_options cm args opts = Inr opts1" "cli_draft opts = Some \<lparr>draft_policy = p\<rparr>" "location_agrees cm opts p"
  shows "location_agrees cm opts1 (draft_policy (the (cli_draft opts1))) \<and>
    (location_change_requested opts1 \<longrightarrow> location_change_requested opts \<or> command_touches_location args)"
  using assms
proof (induction cm args opts arbitrary: p rule: apply_options.induct)
  case (1 cm opts)
  then show ?case by auto
next
  case (2 cm arg rest opts)
  obtain r left where t: "take_option cm arg rest opts = (r, left)" by (rule prod.exhaust)
  with 2(2) obtain o2 where r: "r = Inr o2" by (cases r) auto
  note A = take_option_agrees[OF t[unfolded r] 2(3,4)]
  then obtain p2 where p2: "cli_draft o2 = Some \<lparr>draft_policy = p2\<rparr>" "location_agrees cm o2 p2"
    by (metis not_Some_eq old.unit.exhaust option.sel policy_draft.cases policy_draft.select_convs(1))
  have "apply_options cm left o2 = Inr opts1" using 2(2) t r by simp
  from "2.IH"[OF t[symmetric] r this p2] A show ?case
    by (auto simp: command_touches_location_def list_ex_iff)
qed

section \<open>What an invocation does\<close>

text \<open>The explicit policy that was found under the lock.\<close>

definition found_policy :: "bool \<Rightarrow> policy \<Rightarrow> policy option" where
  "found_policy found base = (if found then Some base else None)"

lemma store_fields [simp]:
  "st_load ss_platform_temporal_policy_store = Some platform_load"
  "st_save ss_platform_temporal_policy_store = Some platform_save"
  "st_clear ss_platform_temporal_policy_store = Some platform_clear"
  "st_begin_update ss_platform_temporal_policy_store = Some begin_update"
  "st_end_update ss_platform_temporal_policy_store = Some end_update"
  "st_compatibility_matches ss_platform_temporal_policy_store = Some platform_compatibility_matches"
  by (simp_all add: ss_platform_temporal_policy_store_def)

lemma platform_matches_same: "platform_compatibility_matches p w = (b, w') \<Longrightarrow> w' = w"
  by (auto simp: platform_compatibility_matches_def Let_def split: option.splits if_splits)

text \<open>Both locks owned, over the same paths and library.\<close>

definition holding :: "world \<Rightarrow> world \<Rightarrow> bool" where
  "holding w w' \<longleftrightarrow> world_ok w' \<and> policy_locked w' \<and> locality_locked w' = locality_locked w \<and> lib w' = lib w"

lemma holding_policy: "world_ok w \<Longrightarrow> policy_locked w \<Longrightarrow> world_later w w' \<Longrightarrow> policy_locked w' = policy_locked w \<Longrightarrow> holding w w'"
  by (simp add: holding_def world_later_def locality_locked_def)

lemma holding_metadata:
  "world_ok w \<Longrightarrow> policy_locked w \<Longrightarrow> locality_locked w \<Longrightarrow> metadata_later w w' \<Longrightarrow> locality_locked w' \<Longrightarrow>
     holding w w' \<and> policy_view w' = policy_view w"
  using metadata_later_policy[of w w'] metadata_later_ok[of w w'] by (auto simp: holding_def)

lemma save_held:
  assumes "world_ok w" "policy_locked w" "platform_save p w = (b, w')"
  shows "holding w w' \<and> (locality_locked w \<longrightarrow> meta w' = meta w \<and> journal w' = journal w) \<and>
    (if b then policy_view w' = Some (stored (lib_common (lib w)) p)
     else policy_view w' = policy_view w \<or> policy_view w' = Some (stored (lib_common (lib w)) p))"
  using linux_store.save_law[OF assms(1,3)] assms holding_policy[of w w'] world_later_files[of w w'] by auto

lemma clear_held:
  assumes "world_ok w" "policy_locked w" "platform_clear w = (b, w')"
  shows "holding w w' \<and> (locality_locked w \<longrightarrow> meta w' = meta w \<and> journal w' = journal w) \<and>
    (b \<longrightarrow> policy_view w' = None)"
  using linux_store.clear_law[OF assms(1,3)] assms holding_policy[of w w'] world_later_files[of w w'] by auto

lemma publish_metadata_law:
  assumes "world_ok w" "policy_locked w" "locality_locked w" "found \<longrightarrow> stored (lib_common (lib w)) base = base"
    and "publish_metadata ss_platform_temporal_policy_store base found clear staged w = (m, w')"
  shows "holding w w' \<and>
    (case m of
       None \<Rightarrow> policy_view w' = policy_view w \<and>
         (if clear then meta w' = None
          else \<exists>c md. journal w = Some c \<and> metadata_of_text (lib w) c = Some md \<and> meta w' = Some (metadata_text (lib w) md))
     | Some x \<Rightarrow> (x = Metadata_restored \<and> policy_view w' = found_policy found base) \<or> x = Metadata_recovery)"
proof -
  obtain q w1 where q: "(if clear then ss_location_metadata_clear w else ss_location_metadata_finish_staged w) = (q, w1)"
    by (rule prod.exhaust)
  have Q: "metadata_later w w1 \<and> locality_locked w1 \<and> lib w1 = lib w \<and>
      (q \<longrightarrow> (if clear then meta w1 = None
          else \<exists>c md. journal w = Some c \<and> metadata_of_text (lib w) c = Some md \<and> meta w1 = Some (metadata_text (lib w) md)))"
  proof (cases clear)
    case True
    with q have "ss_location_metadata_clear w = (q, w1)" by simp
    from clear_files[OF assms(1,3) this] True show ?thesis by (auto split: if_splits)
  next
    case False
    then have "ss_location_metadata_finish_staged w = (q, w1)" using q by simp
    from finish_files[OF assms(1,3) this] False show ?thesis by auto
  qed
  then have h1: "holding w w1" "policy_view w1 = policy_view w" using holding_metadata[OF assms(1-3)] by auto
  show ?thesis
  proof (cases q)
    case True
    with assms(5) q have "m = None" "w' = w1" by (simp_all add: publish_metadata_def)
    with Q h1 True show ?thesis by (auto split: if_splits)
  next
    case False
    obtain b w2 where b: "(if found then platform_save base w1 else platform_clear w1) = (b, w2)" by (rule prod.exhaust)
    have w1: "world_ok w1" "policy_locked w1" "lib w1 = lib w" "locality_locked w1" using h1 Q by (auto simp: holding_def)
    have B: "holding w1 w2 \<and> (b \<longrightarrow> policy_view w2 = found_policy found base)"
    proof (cases found)
      case True
      then have "platform_save base w1 = (b, w2)" using b by simp
      from save_held[OF w1(1,2) this] True assms(4) w1(3) show ?thesis by (auto simp: found_policy_def split: if_splits)
    next
      case False
      then have "platform_clear w1 = (b, w2)" using b by simp
      from clear_held[OF w1(1,2) this] False show ?thesis by (simp add: found_policy_def)
    qed
    then have w2: "world_ok w2" "policy_locked w2" "locality_locked w2" "lib w2 = lib w"
      using w1 by (auto simp: holding_def)
    obtain d w3 where d: "ss_location_metadata_discard_staged w2 = (d, w3)" by (rule prod.exhaust)
    have "metadata_later w2 w3" "locality_locked w3" using discard_files[OF w2(1,3) d] by auto
    then have D: "holding w2 w3" "policy_view w3 = policy_view w2" using holding_metadata[OF w2(1-3)] by auto
    have "m = Some (if b then Metadata_restored else Metadata_recovery)" "w' = (if b \<and> staged then w3 else w2)"
      using assms(5) q False b d by (auto simp: publish_metadata_def split: if_splits)
    with B D w2 assms(3) show ?thesis by (auto simp: holding_def)
  qed
qed

text \<open>The result against the policy file: \<open>before\<close> is what was found, \<open>new\<close> the edited policy.\<close>

definition cli_effect :: "common \<Rightarrow> policy option \<Rightarrow> policy \<Rightarrow> cli_result \<Rightarrow> policy option \<Rightarrow> bool" where
  "cli_effect cm before new r after \<longleftrightarrow>
     (case stderr_line r of
        None \<Rightarrow> exit_code r = 0 \<and> printed r = Some (new, True) \<and> after = Some (stored cm new)
      | Some message \<Rightarrow>
          printed r = None \<and>
          (case message of
             Native_not_synchronized \<Rightarrow> exit_code r = 3 \<and> after = Some (stored cm new)
           | Metadata_restored \<Rightarrow> exit_code r = 3 \<and> after = before
           | Metadata_recovery \<Rightarrow> exit_code r = 3
           | Save_failed \<Rightarrow> exit_code r = 2 \<and> (after = before \<or> after = Some (stored cm new))
           | Metadata_not_staged \<Rightarrow> exit_code r = 2 \<and> after = before
           | _ \<Rightarrow> False))"

text \<open>The metadata record of a published location.\<close>

definition cli_metadata :: "linux_lib \<Rightarrow> cli_options \<Rightarrow> string option \<Rightarrow> bool" where
  "cli_metadata L opts after \<longleftrightarrow> (location_change_requested opts \<longrightarrow>
     (if location_clear_requested opts then after = None
      else \<exists>md. metadata_of_text L (metadata_text L (location_candidate opts)) = Some md \<and>
                after = Some (metadata_text L md)))"

lemma publish_options_law:
  assumes "world_ok w" "policy_locked w" "location_change_requested opts \<longrightarrow> locality_locked w"
    and "found \<longrightarrow> stored (lib_common (lib w)) base = base" "policy_view w = found_policy found base"
    and "cli_draft opts = Some \<lparr>draft_policy = new\<rparr>"
    and "publish_options ss_platform_temporal_policy_store base found opts w = (r, w')"
  shows "holding w w' \<and> cli_effect (lib_common (lib w)) (found_policy found base) new r (policy_view w') \<and>
    (stderr_line r = None \<or> stderr_line r = Some Native_not_synchronized \<longrightarrow> cli_metadata (lib w) opts (meta w'))"
proof -
  define staging where "staging = (location_change_requested opts \<and> \<not> location_clear_requested opts)"
  obtain st w1 where st: "(if staging then ss_location_metadata_stage (location_candidate opts) w else (True, w)) = (st, w1)"
    by (rule prod.exhaust)
  have S: "holding w w1 \<and> policy_view w1 = policy_view w \<and>
      (st \<longrightarrow> staging \<longrightarrow> journal w1 = Some (metadata_text (lib w) (location_candidate opts)))"
  proof (cases staging)
    case True
    then have l: "locality_locked w" using assms(3) by (simp add: staging_def)
    from True st have "ss_location_metadata_stage (location_candidate opts) w = (st, w1)" by simp
    from stage_files[OF assms(1) l this] holding_metadata[OF assms(1,2) l, of w1] show ?thesis by auto
  next
    case False
    with st assms(1,2) show ?thesis by (auto simp: holding_def)
  qed
  have new: "ss_date_time_policy_draft_policy (cli_draft opts) = Some new"
    using assms(6) by (simp add: ss_date_time_policy_draft_policy_def)
  note P = assms(7)[unfolded publish_options_def new, simplified, folded staging_def]
  show ?thesis
  proof (cases st)
    case False
    with P st have "r = failed 2 Metadata_not_staged" "w' = w1" by auto
    with S assms(5) show ?thesis by (simp add: cli_effect_def)
  next
    case sT: True
    have w1: "world_ok w1" "policy_locked w1" "lib w1 = lib w" "locality_locked w1 = locality_locked w"
      using S by (auto simp: holding_def)
    obtain sv w2 where sv: "platform_save new w1 = (sv, w2)" by (rule prod.exhaust)
    note SV = save_held[OF w1(1,2) sv]
    then have w2: "world_ok w2" "policy_locked w2" "lib w2 = lib w" "locality_locked w2 = locality_locked w"
      using w1 by (auto simp: holding_def)
    show ?thesis
    proof (cases sv)
      case False
      obtain d w3 where d: "ss_location_metadata_discard_staged w2 = (d, w3)" by (rule prod.exhaust)
      have D: "holding w2 w3 \<and> policy_view w3 = policy_view w2" if staging
      proof -
        have l: "locality_locked w2" using that assms(3) w2 by (simp add: staging_def)
        from discard_files[OF w2(1) l d] holding_metadata[OF w2(1,2) l] show ?thesis by blast
      qed
      from P st sT sv False d have "r = failed 2 Save_failed" "w' = (if staging then w3 else w2)"
        by (auto split: if_splits)
      with D SV S False w1 w2 assms(5) show ?thesis by (auto simp: cli_effect_def holding_def)
    next
      case True
      then have v2: "policy_view w2 = Some (stored (lib_common (lib w)) new)" using SV w1 by simp
      obtain m w3 where m: "(if location_change_requested opts
          then publish_metadata ss_platform_temporal_policy_store base found (location_clear_requested opts) staging w2
          else (None, w2)) = (m, w3)" by (rule prod.exhaust)
      have M: "holding w2 w3 \<and> (case m of
          None \<Rightarrow> policy_view w3 = policy_view w2 \<and> cli_metadata (lib w) opts (meta w3)
        | Some x \<Rightarrow> (x = Metadata_restored \<and> policy_view w3 = found_policy found base) \<or> x = Metadata_recovery)"
      proof (cases "location_change_requested opts")
        case False
        with m w2 show ?thesis by (auto simp: holding_def cli_metadata_def)
      next
        case ch: True
        then have l: "locality_locked w2" using assms(3) w2 by simp
        from ch m have pm: "publish_metadata ss_platform_temporal_policy_store base found (location_clear_requested opts) staging w2 = (m, w3)"
          by simp
        note PM = publish_metadata_law[OF w2(1,2) l _ pm]
        have "journal w2 = Some (metadata_text (lib w) (location_candidate opts))" if "\<not> location_clear_requested opts"
          using that ch S sT SV w1 l w2 by (simp add: staging_def)
        with PM assms(4) w2(3) ch show ?thesis by (cases m) (auto simp: cli_metadata_def holding_def split: if_splits)
      qed
      show ?thesis
      proof (cases m)
        case (Some x)
        with P st sT sv True m have "r = failed 3 x" "w' = w3" by auto
        with M Some w2 show ?thesis by (auto simp: cli_effect_def holding_def)
      next
        case None
        obtain b w4 where b: "platform_compatibility_matches new w3 = (b, w4)" by (rule prod.exhaust)
        from P st sT sv True m None b platform_matches_same[OF b]
        have "r = (if b then \<lparr>exit_code = 0, stderr_line = None, printed = Some (new, True)\<rparr> else failed 3 Native_not_synchronized)"
          "w' = w3" by (auto split: if_splits)
        with M None v2 w2 show ?thesis by (auto simp: cli_effect_def holding_def)
      qed
    qed
  qed
qed

fun names_place :: "cli_edit \<Rightarrow> bool" where
  "names_place (Edit (Location c lat lon)) = True"
| "names_place Clear = True"
| "names_place e = False"

lemma fold_requested:
  "location_change_requested (fold (edit_options cm) es opts) \<longleftrightarrow>
     location_change_requested opts \<or> (\<exists>e \<in> set es. names_place e)"
proof (induction es arbitrary: opts)
  case (Cons e es)
  have "location_change_requested (edit_options cm e opts) \<longleftrightarrow> location_change_requested opts \<or> names_place e"
    by (induction cm e opts rule: edit_options.induct) simp_all
  with Cons show ?case by auto
qed simp

lemma parse_option_place:
  assumes "parse_option cm arg rest = Some (e, left)"
  shows "set left \<subseteq> set rest \<and> (names_place e \<longrightarrow> arg \<in> {''--location'', ''--clear-location''})"
  using assms set_drop_subset[of 1 rest] set_drop_subset[of 2 rest]
  unfolding parse_option_def by (simp split: if_split_asm option.split_asm) auto

lemma command_names_place:
  assumes "command_edits cm args = Some es"
  shows "(\<exists>e \<in> set es. names_place e) \<longrightarrow> command_touches_location args"
  using assms
proof (induction cm args arbitrary: es rule: command_edits.induct)
  case (2 cm arg rest)
  then obtain e left es1 where p: "parse_option cm arg rest = Some (e, left)" "command_edits cm left = Some es1" "es = e # es1"
    by (auto split: option.splits)
  from "2.IH"[OF p(1) refl p(2)] parse_option_place[OF p(1)] p(3) show ?case
    by (auto simp: command_touches_location_def list_ex_iff)
qed simp

text \<open>The two files of a place after a command with the edits \<open>es\<close> that made the policy \<open>new\<close>.\<close>

definition place_published :: "linux_lib \<Rightarrow> cli_edit list \<Rightarrow> policy \<Rightarrow> string option \<Rightarrow> bool" where
  "place_published L es new after \<longleftrightarrow> ((\<exists>e \<in> set es. names_place e) \<longrightarrow>
     (if location_configured new
      then \<exists>md. metadata_of_text L (metadata_text L (custom_coordinates (lib_common L) (latitude new) (longitude new))) = Some md \<and>
                after = Some (metadata_text L md)
      else after = None))"

definition refused :: "common \<Rightarrow> string list \<Rightarrow> policy \<Rightarrow> bool" where
  "refused cm args base \<longleftrightarrow> Option.bind (command_edits cm args) (\<lambda>es. apply_edits cm es base) = None"

lemma process_options_law:
  assumes "world_ok w" "policy_locked w" "command_touches_location args \<longrightarrow> locality_locked w" "args \<noteq> []"
    and "found \<longrightarrow> stored (lib_common (lib w)) base = base" "policy_view w = found_policy found base"
    and "process_options (lib_common (lib w)) allocated ss_platform_temporal_policy_store args base found w = (r, w')"
  shows "holding w w' \<and>
    (w' = w \<and> r = failed 1 Stage_failed \<or>
     w' = w \<and> (\<exists>m. r = failed 2 m) \<and> refused (lib_common (lib w)) args base \<or>
     (\<exists>es new. command_edits (lib_common (lib w)) args = Some es \<and> apply_edits (lib_common (lib w)) es base = Some new \<and>
        cli_effect (lib_common (lib w)) (found_policy found base) new r (policy_view w') \<and>
        (stderr_line r = None \<or> stderr_line r = Some Native_not_synchronized \<longrightarrow>
           place_published (lib w) es new (meta w'))))"
proof (cases allocated)
  case False
  with assms(1,2,7) show ?thesis by (simp add: process_options_def ss_date_time_policy_draft_new_def holding_def)
next
  case True
  define start where "start = initial_options \<lparr>draft_policy = base\<rparr>"
  have d: "cli_draft start = Some \<lparr>draft_policy = base\<rparr>" by (simp add: start_def initial_options_def)
  have a: "location_agrees (lib_common (lib w)) start base" by (simp add: start_def initial_options_def location_agrees_def)
  note E = apply_options_edits[OF d, of "lib_common (lib w)" args]
  have P: "(case apply_options (lib_common (lib w)) args start of
        Inl m \<Rightarrow> (failed 2 m, w)
      | Inr opts \<Rightarrow> publish_options ss_platform_temporal_policy_store base found opts w) = (r, w')"
    using assms(4,7) True
    by (simp add: process_options_def ss_date_time_policy_draft_new_def start_def split: sum.splits)
  show ?thesis
  proof (cases "apply_options (lib_common (lib w)) args start")
    case (Inl m)
    with E have "refused (lib_common (lib w)) args base" by (auto simp: refused_def split: option.splits)
    moreover from P Inl have "r = failed 2 m" "w' = w" by auto
    ultimately show ?thesis using assms(1,2) by (auto simp: holding_def)
  next
    case (Inr opts)
    with E obtain es new where e: "command_edits (lib_common (lib w)) args = Some es"
      "apply_edits (lib_common (lib w)) es base = Some new"
      "opts = (fold (edit_options (lib_common (lib w))) es start)\<lparr>cli_draft := Some \<lparr>draft_policy = new\<rparr>\<rparr>" by auto
    note A = apply_options_agrees[OF Inr d a]
    have req: "location_change_requested opts \<longleftrightarrow> (\<exists>e \<in> set es. names_place e)"
      by (simp add: e(3) fold_requested) (simp add: start_def initial_options_def)
    have lock: "location_change_requested opts \<longrightarrow> locality_locked w" using A assms(3) by (simp add: start_def initial_options_def)
    have dn: "cli_draft opts = Some \<lparr>draft_policy = new\<rparr>" by (simp add: e(3))
    from P Inr have "publish_options ss_platform_temporal_policy_store base found opts w = (r, w')" by simp
    note R = publish_options_law[OF assms(1,2) lock assms(5,6) dn this]
    have "location_agrees (lib_common (lib w)) opts new" using A dn by simp
    then have "place_published (lib w) es new (meta w')" if "cli_metadata (lib w) opts (meta w')"
      using that req by (auto simp: place_published_def location_agrees_def cli_metadata_def split: if_splits)
    with R e(1,2) show ?thesis by blast
  qed
qed

text \<open>One invocation with arguments, on unlocked files.\<close>

lemma cli_law:
  assumes "world_ok w" "\<not> policy_locked w" "\<not> locality_locked w" "args \<noteq> []"
    and e: "cli_main (lib_common (lib w)) a1 a2 ss_platform_temporal_policy_store args w = (r, w')"
  shows "world_ok w' \<and> \<not> policy_locked w' \<and> \<not> locality_locked w' \<and> lib w' = lib w \<and>
    ((\<exists>m \<in> {Locality_lock_failed, Policy_lock_failed}. r = failed 2 m) \<or> r = failed 1 Load_failed \<or>
     (\<exists>wl base found wb. policy_locked wl \<and> lib wl = lib w \<and> platform_load wl = (Some (base, found), wb) \<and>
        policy_view wb = found_policy found base \<and>
        (policy_view w' = found_policy found base \<and> r = failed 1 Stage_failed \<or>
         policy_view w' = found_policy found base \<and> (\<exists>m. r = failed 2 m) \<and> refused (lib_common (lib w)) args base \<or>
         (\<exists>es new. command_edits (lib_common (lib w)) args = Some es \<and> apply_edits (lib_common (lib w)) es base = Some new \<and>
            cli_effect (lib_common (lib w)) (found_policy found base) new r (policy_view w') \<and>
            (stderr_line r = None \<or> stderr_line r = Some Native_not_synchronized \<longrightarrow>
               place_published (lib w) es new (meta w'))))))"
proof -
  define touching where "touching = command_touches_location args"
  obtain lh w1 where lh: "(if touching then ss_location_metadata_transaction_begin w else (True, w)) = (lh, w1)" by (rule prod.exhaust)
  have L: "world_ok w1 \<and> \<not> policy_locked w1 \<and> lib w1 = lib w \<and> (if lh then locality_locked w1 = touching else \<not> locality_locked w1)"
  proof (cases touching)
    case True
    then have t: "ss_location_metadata_transaction_begin w = (lh, w1)" using lh by simp
    from transaction_begin_law[OF assms(1) t] assms(2,3) metadata_later_lock[of w w1] True
    show ?thesis by (auto simp: locality_locked_def split: if_splits)
  next
    case False
    with lh assms show ?thesis by auto
  qed
  have unlock: "world_ok (release_locality touching v) \<and> \<not> policy_locked (release_locality touching v) \<and>
      \<not> locality_locked (release_locality touching v) \<and> lib (release_locality touching v) = lib v \<and>
      files (kern (release_locality touching v)) = files (kern v)"
    if "world_ok v" "\<not> policy_locked v" "locality_locked v \<longrightarrow> touching" for v
    using that transaction_end_law[of v] handler_end[of v] by (auto simp: release_locality_def)
  show ?thesis
  proof (cases lh)
    case False
    with e lh L assms(4) show ?thesis by (auto simp: cli_main_def touching_def)
  next
    case lT: True
    obtain ph w2 where ph: "begin_update w1 = (ph, w2)" by (rule prod.exhaust)
    have B: "world_ok w2 \<and> lib w2 = lib w \<and> locality_locked w2 = touching \<and> policy_locked w2 = ph"
      using linux_store.begin_law[OF _ ph] L lT by (auto simp: world_later_def locality_locked_def split: if_splits)
    show ?thesis
    proof (cases ph)
      case False
      from e lh lT ph False assms(4) have "r = failed 2 Policy_lock_failed" "w' = release_locality touching w2"
        by (auto simp: cli_main_def touching_def)
      with unlock[of w2] B False show ?thesis by auto
    next
      case pT: True
      obtain b m w3 where ini: "ss_date_time_model_init (lib_common (lib w)) a1 (Some \<lparr>address = 0, private_state = None\<rparr>)
          (Some ss_platform_temporal_policy_store) w2 = (b, m, w3)" by (rule prod_cases3)
      have w2: "world_ok w2" "policy_locked w2" "lib w2 = lib w" using B pT by auto
      have z: "model_private (Some \<lparr>address = 0, private_state = None\<rparr> :: world ss_model option) = None"
        "(Some \<lparr>address = 0, private_state = None\<rparr> :: world ss_model option) \<noteq> None" by (simp_all add: model_private_def)
      note I = linux_store.init_law[OF linux_table w2(1) z ini]
      have w3: "world_ok w3" "policy_locked w3" "lib w3 = lib w" "locality_locked w3 = touching"
        using I w2 B by (auto simp: world_later_def locality_locked_def)
      have final: "world_ok (release_locality touching (end_update v)) \<and> \<not> policy_locked (release_locality touching (end_update v)) \<and>
          \<not> locality_locked (release_locality touching (end_update v)) \<and> lib (release_locality touching (end_update v)) = lib v \<and>
          policy_view (release_locality touching (end_update v)) = policy_view v \<and>
          (touching \<longrightarrow> meta (release_locality touching (end_update v)) = meta v)"
        if v: "world_ok v" "policy_locked v" "locality_locked v = touching" for v
      proof -
        note N = linux_store.end_law[OF v(1)]
        then have n: "world_ok (end_update v)" "\<not> policy_locked (end_update v)" "locality_locked (end_update v) = touching"
          "lib (end_update v) = lib v" using v by (auto simp: world_later_def locality_locked_def)
        have "touching \<longrightarrow> meta (end_update v) = meta v" using world_later_files[of v "end_update v"] v N by auto
        moreover define u where "u = release_locality touching (end_update v)"
        moreover have "world_ok u \<and> \<not> policy_locked u \<and> \<not> locality_locked u \<and> lib u = lib (end_update v) \<and>
            files (kern u) = files (kern (end_update v))" unfolding u_def using n by (intro unlock) simp_all
        ultimately show ?thesis using N n(4) unfolding u_def[symmetric] by (simp add: policy_view_def)
      qed
      have R: "run_locked (lib_common (lib w)) a1 a2 ss_platform_temporal_policy_store args touching True w2 = (r, w')"
        using e lh lT ph pT assms(4) by (simp add: cli_main_def touching_def)
      show ?thesis
      proof (cases b)
        case False
        with R ini have "r = failed 1 Load_failed" "w' = release_locality touching (end_update w3)"
          by (auto simp: run_locked_def release_platform_update_def)
        with final[OF w3(1,2,4)] w3(3) show ?thesis by simp
      next
        case True
        with I obtain p base found where q: "platform_attached m p" "\<not> saving p" "platform_load w2 = (Some (base, found), w3)"
          "mp_policy p = base" "persisted_policy_present p = found" "policy_view w3 = (if found then Some base else None)"
          by (simp only: if_True) blast
        have pol: "ss_date_time_model_policy m = Some base" "ss_date_time_model_has_persisted_policy m = found"
          using q by (auto simp: attached_def ss_date_time_model_policy_def ss_date_time_model_has_persisted_policy_def)
        have clr: "snd (ss_date_time_model_clear m v) = v" for v
          using q by (cases m) (auto simp: attached_def model_private_def ss_date_time_model_clear_def release_update_lock_def
              split: option.splits)
        obtain r2 w4 where p2: "process_options (lib_common (lib w)) a2 ss_platform_temporal_policy_store args base found w3 = (r2, w4)"
          by (rule prod.exhaust)
        obtain m5 w5 where cl: "ss_date_time_model_clear m (release_locality touching (end_update w4)) = (m5, w5)" by (rule prod.exhaust)
        have "w5 = release_locality touching (end_update w4)" using clr[of "release_locality touching (end_update w4)"] cl by simp
        then have "r2 = r" and w': "w' = release_locality touching (end_update w4)"
          using R ini True pol cl p2 by (simp_all add: run_locked_def release_platform_update_def)
        then have p: "process_options (lib_common (lib w)) a2 ss_platform_temporal_policy_store args base found w3 = (r, w4)"
          using p2 by simp
        have st: "found \<longrightarrow> stored (lib_common (lib w3)) base = base"
          using linux_store.load_law[OF w2(1) q(3)] by (auto split: if_splits)
        have tl: "command_touches_location args \<longrightarrow> locality_locked w3" using w3(4) by (simp add: touching_def)
        have pv: "policy_view w3 = found_policy found base" using q(6) by (simp add: found_policy_def)
        note O = process_options_law[OF w3(1,2) tl assms(4) st pv p[folded w3(3)]]
        have w4: "world_ok w4" "policy_locked w4" "locality_locked w4 = touching" "lib w4 = lib w"
          using O w3 by (auto simp: holding_def)
        note F = final[OF w4(1-3)]
        have mt: "meta w' = meta w4" if "touching" using F that unfolding w' by blast
        have pl: "place_published (lib w) es new (meta w')"
          if "command_edits (lib_common (lib w)) args = Some es" "place_published (lib w) es new (meta w4)" for es new
          using that mt command_names_place[OF that(1)] by (auto simp: place_published_def touching_def)
        have end': "world_ok w'" "\<not> policy_locked w'" "\<not> locality_locked w'" "lib w' = lib w" "policy_view w' = policy_view w4"
          using F w4(4) unfolding w' by auto
        have "policy_view w' = found_policy found base \<and> r = failed 1 Stage_failed \<or>
         policy_view w' = found_policy found base \<and> (\<exists>m. r = failed 2 m) \<and> refused (lib_common (lib w)) args base \<or>
         (\<exists>es new. command_edits (lib_common (lib w)) args = Some es \<and> apply_edits (lib_common (lib w)) es base = Some new \<and>
            cli_effect (lib_common (lib w)) (found_policy found base) new r (policy_view w') \<and>
            (stderr_line r = None \<or> stderr_line r = Some Native_not_synchronized \<longrightarrow>
               place_published (lib w) es new (meta w')))"
          using O[unfolded w3(3)] pl pv unfolding end'(5) by blast
        with end' w2(2,3) q(3) pv show ?thesis by blast
      qed
    qed
  qed
qed

section \<open>Properties\<close>

text \<open>
  C30: a command line means its options from left to right. Applying the options as the program reads them,
  one by one on the draft, succeeds exactly when the line parses as a list of edits and the edits can be
  applied to the policy in that order, and it ends with the same policy; the metadata record that is
  staged is the one of the policy's coordinates, none when the last place option cleared the location.
\<close>

theorem cli_options_equivalent:
  "(\<exists>opts. apply_options cm args (initial_options \<lparr>draft_policy = p\<rparr>) = Inr opts \<and>
      ss_date_time_policy_draft_policy (cli_draft opts) = Some q \<and> location_agrees cm opts q) \<longleftrightarrow>
   (\<exists>es. command_edits cm args = Some es \<and> apply_edits cm es p = Some q)"
proof -
  have d: "cli_draft (initial_options \<lparr>draft_policy = p\<rparr>) = Some \<lparr>draft_policy = p\<rparr>"
    and a: "location_agrees cm (initial_options \<lparr>draft_policy = p\<rparr>) p"
    by (simp_all add: initial_options_def location_agrees_def)
  note E = apply_options_edits[OF d, of cm args]
  show ?thesis
  proof (cases "apply_options cm args (initial_options \<lparr>draft_policy = p\<rparr>)")
    case (Inl m)
    with E show ?thesis by (auto split: option.splits)
  next
    case (Inr opts)
    with E apply_options_agrees[OF Inr d a] show ?thesis by (auto simp: ss_date_time_policy_draft_policy_def)
  qed
qed



section \<open>An instance\<close>

text \<open>The sample file system with a desktop that shows the default policy.\<close>

definition cli_world :: world where
  "cli_world = sample_world\<lparr>kern := (kern sample_world)\<lparr>settings := (\<lambda>_ _. None)(CINNAMON :=
     [''clock-use-24h'' \<mapsto> GBool False, ''clock-show-seconds'' \<mapsto> GBool False])\<rparr>\<rparr>"

lemma sample_cli_place: "exit_code (fst (cli_main sample_common True True ss_platform_temporal_policy_store
     [''--location'', ''10'', ''-61''] cli_world)) = 0"
  by code_simp

lemma sample_cli_usage:
  "fst (cli_main sample_common True True ss_platform_temporal_policy_store [''--seconds'', ''maybe''] cli_world) = failed 2 Usage"
  "map_option (map names_place) (command_edits sample_common [''--location'', ''10'', ''-61'']) = Some [True]"
  by code_simp+

lemmas sample_cli = sample_cli_place sample_cli_usage

lemma sample_unlocked: "world_ok cli_world" "\<not> policy_locked cli_world" "\<not> locality_locked cli_world"
  "lib_common (lib cli_world) = sample_common"
proof -
  have "frame_but {} (kern sample_world) (kern cli_world)" by (simp add: frame_but_def cli_world_def)
  from frame_but_ok[OF this sample_world_ok] show "world_ok cli_world" by (simp add: cli_world_def)
qed (simp_all add: cli_world_def sample_world_def sample_lib_def policy_locked_def locality_locked_def)



end
