(* ===== verification/NativePayload.thy ===== *)
theory NativePayload
  imports "HOL-Library.Word" Prelude
begin

text \<open>
  The payload of the self-extracting installer (\<open>packaging/native-installer.c\<close>) and the part of
  \<open>packaging/source-asset-builder.c\<close> that writes it: the program, the compressed sources and a footer of 32
  bytes with their size. Files are byte strings. What the system calls return is a parameter.
\<close>

section \<open>Constants\<close>

definition FOOTER_SIZE :: nat where "FOOTER_SIZE = 32"
definition FOOTER_PREFIX_SIZE :: nat where "FOOTER_PREFIX_SIZE = 11"
definition PAYLOAD_DIGITS :: nat where "PAYLOAD_DIGITS = 20"
definition FOOTER_PREFIX :: string where "FOOTER_PREFIX = CHR 0x0A # ''SSPAYLOAD=''"
definition COPY_BUFFER :: nat where "COPY_BUFFER = 64 * 1024"

section \<open>Finding the payload\<close>

text \<open>\<open>strtoull\<close> on decimal digits; at \<open>2 ^ 64\<close> it sets \<open>errno\<close>.\<close>

definition decimal :: "string \<Rightarrow> nat" where
  "decimal s = foldl (\<lambda>n c. 10 * n + digit_value c) 0 s"

definition strtoull :: "string \<Rightarrow> 64 word option" where
  "strtoull s = (if decimal s < 2 ^ 64 then Some (of_nat (decimal s)) else None)"

text \<open>
  \<open>st_size\<close> is \<open>None\<close> when \<open>fstat\<close> fails; \<open>footer\<close> is what \<open>pread\<close> read at the end. The comparison with the
  file's size is in 64 bits, the start is computed in \<open>off_t\<close>.
\<close>

definition payload_bounds :: "int option \<Rightarrow> string \<Rightarrow> (int \<times> 64 word) option" where
  "payload_bounds st_size footer =
     (case st_size of
        None \<Rightarrow> None
      | Some n \<Rightarrow>
          if n < int FOOTER_SIZE \<or> length footer \<noteq> FOOTER_SIZE then None
          else if take FOOTER_PREFIX_SIZE footer \<noteq> FOOTER_PREFIX \<or> footer ! (FOOTER_SIZE - 1) \<noteq> CHR 0x0A then None
          else
            (let digits = take PAYLOAD_DIGITS (drop FOOTER_PREFIX_SIZE footer) in
             if \<not> list_all is_digit digits then None
             else
               (case strtoull digits of
                  None \<Rightarrow> None
                | Some bytes \<Rightarrow>
                    if bytes = 0 then None
                    else if (word_of_int n :: 64 word) < bytes + of_nat FOOTER_SIZE then None
                    else
                      (let start = n - int FOOTER_SIZE - sint bytes
                       in if 0 < start then Some (start, bytes) else None))))"

section \<open>Copying it\<close>

text \<open>
  The results of \<open>read\<close> by file offset and of \<open>write\<close> by the bytes already written, each with the count asked
  for; no call is repeated at the same place.
\<close>

record copy_env =
  self_contents :: "string option"
  temporary_name :: "string option"
  chmod_works :: bool
  seek_works :: bool
  sync_works :: bool
  read_count :: "nat \<Rightarrow> nat \<Rightarrow> int"
  write_count :: "nat \<Rightarrow> nat \<Rightarrow> int"

definition payload_template :: string where
  "payload_template = ''/tmp/system-settings-payload-XXXXXX''"

function write_all :: "(nat \<Rightarrow> nat \<Rightarrow> int) \<Rightarrow> string \<Rightarrow> string \<Rightarrow> bool \<times> string" where
  "write_all wr buffer out =
     (if buffer = [] then (True, out)
      else (let out_count = wr (length out) (length buffer)
            in if out_count \<le> 0 then (False, out)
               else write_all wr (drop (nat out_count) buffer) (out @ take (nat out_count) buffer)))"
  by pat_completeness auto
termination by (relation "measure (\<lambda>(wr, buffer, out). length buffer)") auto

declare write_all.simps [simp del]

function copy_loop :: "copy_env \<Rightarrow> string \<Rightarrow> nat \<Rightarrow> nat \<Rightarrow> string \<Rightarrow> bool \<times> string" where
  "copy_loop E whole position remaining out =
     (if remaining = 0 then (True, out)
      else
        (let want = min remaining COPY_BUFFER;
             count = read_count E position want
         in if count \<le> 0 then (False, out)
            else
              (case write_all (write_count E) (take (nat count) (drop position whole)) out of
                 (False, out1) \<Rightarrow> (False, out1)
               | (True, out1) \<Rightarrow> copy_loop E whole (position + nat count) (remaining - nat count) out1)))"
  by pat_completeness auto
termination by (relation "measure (\<lambda>(E, whole, position, remaining, out). remaining)") auto

declare copy_loop.simps [simp del]

text \<open>
  The files of \<open>/tmp\<close> are a map. The result is the name copied to \<open>archive_path\<close>; on failure \<open>temporary\<close> is
  unlinked, whether \<open>mkstemp\<close> had replaced the template or not.
\<close>

definition copy_payload ::
  "copy_env \<Rightarrow> nat \<Rightarrow> (string \<Rightarrow> string option) \<Rightarrow> string option \<times> (string \<Rightarrow> string option)" where
  "copy_payload E archive_capacity tmp =
     (case self_contents E of
        None \<Rightarrow> (None, tmp(payload_template := None))
      | Some whole \<Rightarrow>
          (case payload_bounds (Some (int (length whole))) (drop (length whole - FOOTER_SIZE) whole) of
             None \<Rightarrow> (None, tmp(payload_template := None))
           | Some (start, bytes) \<Rightarrow>
               (case temporary_name E of
                  None \<Rightarrow> (None, tmp(payload_template := None))
                | Some name \<Rightarrow>
                    if \<not> chmod_works E \<or> \<not> seek_works E then (None, tmp(name := None))
                    else
                      (case copy_loop E whole (nat start) (unat bytes) [] of
                         (False, out) \<Rightarrow> (None, tmp(name := None))
                       | (True, out) \<Rightarrow>
                           if \<not> sync_works E \<or> archive_capacity \<le> length name then (None, tmp(name := None))
                           else (Some name, tmp(name := Some out))))))"

section \<open>The builder's side\<close>

text \<open>\<open>%020llu\<close>: at least twenty digits.\<close>

fun digits_of :: "nat \<Rightarrow> nat \<Rightarrow> string" where
  "digits_of 0 n = []"
| "digits_of (Suc k) n = digits_of k (n div 10) @ [char_of (48 + n mod 10)]"

definition footer_text :: "nat \<Rightarrow> string" where
  "footer_text n = FOOTER_PREFIX @ digits_of PAYLOAD_DIGITS n @ [CHR 0x0A]"

text \<open>The run file: the program, the payload and the footer, whose length \<open>fprintf\<close> must report as 32.\<close>

definition run_file :: "string \<Rightarrow> string \<Rightarrow> string" where
  "run_file binary payload = binary @ payload @ footer_text (length payload)"

section \<open>Lemmas\<close>

lemma digits_length [simp]: "length (digits_of k n) = k"
  by (induction k arbitrary: n) auto

lemma digit_char: "d < 10 \<Longrightarrow> is_digit (char_of (48 + d)) \<and> digit_value (char_of (48 + d)) = d"
  by (simp add: is_digit_def digit_value_def)

lemma digits_digit: "list_all is_digit (digits_of k n)"
  by (induction k arbitrary: n) (use digit_char in auto)

lemma decimal_append: "decimal (s @ [c]) = 10 * decimal s + digit_value c"
  by (simp add: decimal_def)

lemma decimal_digits: "decimal (digits_of k n) = n mod 10 ^ k"
proof (induction k arbitrary: n)
  case (Suc k)
  have "decimal (digits_of (Suc k) n) = 10 * (n div 10 mod 10 ^ k) + n mod 10"
    using Suc digit_char[of "n mod 10"] by (simp add: decimal_append)
  also have "\<dots> = n mod 10 ^ Suc k" by (simp add: mod_mult2_eq)
  finally show ?case .
qed (simp add: decimal_def)

lemma decimal_bound: "list_all is_digit s \<Longrightarrow> decimal s < 10 ^ length s"
proof (induction s rule: rev_induct)
  case (snoc c s)
  then have "decimal s < 10 ^ length s" "digit_value c \<le> 9" using digit_value_le by auto
  then show ?case by (simp add: decimal_append)
qed (simp add: decimal_def)

lemma write_all_result: "write_all wr buffer out = (True, out1) \<Longrightarrow> out1 = out @ buffer"
proof (induction wr buffer out rule: write_all.induct)
  case (1 wr buffer out)
  then show ?case by (subst (asm) (2) write_all.simps) (auto simp: Let_def split: if_splits)
qed

lemma write_all_total:
  assumes "\<And>m n. 0 < n \<Longrightarrow> 0 < wr m n" shows "write_all wr buffer out = (True, out @ buffer)"
  using assms
proof (induction wr buffer out rule: write_all.induct)
  case (1 wr buffer out)
  show ?case
  proof (cases "buffer = []")
    case True
    then show ?thesis by (subst write_all.simps) simp
  next
    case False
    define c where "c = wr (length out) (length buffer)"
    have c: "0 < c" using 1(2) False by (simp add: c_def)
    then have "write_all wr (drop (nat c) buffer) (out @ take (nat c) buffer) = (True, out @ buffer)"
      using "1.IH"[OF False c_def] 1(2) by simp
    with False c show ?thesis by (subst write_all.simps) (simp add: flip: c_def)
  qed
qed

text \<open>\<open>read\<close> gives no more than asked for and no more than the file has.\<close>

definition reads_documented :: "copy_env \<Rightarrow> string \<Rightarrow> bool" where
  "reads_documented E whole \<longleftrightarrow>
     (\<forall>p n. read_count E p n \<le> int n \<and> (0 < read_count E p n \<longrightarrow> p + nat (read_count E p n) \<le> length whole))"

lemma copy_loop_result:
  assumes "reads_documented E whole" "copy_loop E whole p n out = (True, out1)" "p \<le> length whole"
  shows "p + n \<le> length whole \<and> out1 = out @ take n (drop p whole)"
  using assms
proof (induction E whole p n out rule: copy_loop.induct)
  case (1 E whole p n out)
  show ?case
  proof (cases "n = 0")
    case True
    with 1(3,4) show ?thesis by (subst (asm) copy_loop.simps) simp
  next
    case n: False
    define want where "want = min n COPY_BUFFER"
    define c where "c = read_count E p want"
    obtain b o1 where w: "write_all (write_count E) (take (nat c) (drop p whole)) out = (b, o1)" by (rule prod.exhaust)
    from 1(3) n have pos: "0 < c" "b" "copy_loop E whole (p + nat c) (n - nat c) o1 = (True, out1)"
      using w by (subst (asm) copy_loop.simps, auto simp: want_def c_def Let_def split: if_splits bool.splits)+
    have cw: "c \<le> int want" "p + nat c \<le> length whole" using 1(2) pos(1) by (auto simp: reads_documented_def c_def)
    have o1: "o1 = out @ take (nat c) (drop p whole)" using write_all_result w pos(2) by simp
    have "p + nat c + (n - nat c) \<le> length whole \<and> out1 = o1 @ take (n - nat c) (drop (p + nat c) whole)"
      using "1.IH"[OF n want_def c_def] pos w 1(2) cw(2) by simp
    moreover have "nat c \<le> n" using cw(1) by (simp add: want_def)
    moreover have "take n (drop p whole) = take (nat c) (drop p whole) @ take (n - nat c) (drop (p + nat c) whole)"
      using \<open>nat c \<le> n\<close> by (metis add.commute drop_drop le_add_diff_inverse take_add)
    ultimately show ?thesis using o1 by simp
  qed
qed

lemma size_compare:
  assumes "0 \<le> n" "n < 2 ^ 63" "v < 2 ^ 64"
  shows "(word_of_int n :: 64 word) < of_nat v + of_nat FOOTER_SIZE \<longleftrightarrow> nat n < (v + 32) mod 2 ^ 64"
proof -
  have "unat (word_of_int n :: 64 word) = nat n"
    using assms(1,2) by (simp add: unat_eq_nat_uint uint_word_of_int)
  moreover have "unat (of_nat v + of_nat FOOTER_SIZE :: 64 word) = (v + 32) mod 2 ^ 64"
  proof -
    have "(of_nat v + of_nat FOOTER_SIZE :: 64 word) = of_nat (v + 32)" by (simp add: FOOTER_SIZE_def)
    then show ?thesis by (simp only: unat_of_nat) simp
  qed
  ultimately show ?thesis by (simp add: word_less_nat_alt)
qed

text \<open>The footer that is accepted, and the bounds it gives.\<close>

definition footer_digits :: "string \<Rightarrow> string \<Rightarrow> bool" where
  "footer_digits footer ds \<longleftrightarrow> footer = FOOTER_PREFIX @ ds @ [CHR 0x0A] \<and> length ds = PAYLOAD_DIGITS \<and> list_all is_digit ds"

lemmas footer_constants = FOOTER_SIZE_def FOOTER_PREFIX_SIZE_def PAYLOAD_DIGITS_def FOOTER_PREFIX_def

lemma footer_shape:
  "length footer = FOOTER_SIZE \<and> take FOOTER_PREFIX_SIZE footer = FOOTER_PREFIX \<and> footer ! (FOOTER_SIZE - 1) = CHR 0x0A \<and>
     list_all is_digit (take PAYLOAD_DIGITS (drop FOOTER_PREFIX_SIZE footer)) \<longleftrightarrow>
   footer_digits footer (take PAYLOAD_DIGITS (drop FOOTER_PREFIX_SIZE footer))"
  (is "?l \<longleftrightarrow> ?r")
proof
  assume l: ?l
  then have len: "length footer = 32" by (simp add: FOOTER_SIZE_def)
  have "footer = take 11 footer @ take 20 (drop 11 footer) @ drop 31 footer"
    by (metis append.assoc append_take_drop_id drop_drop numeral_plus_numeral add_One add_num_simps take_add)
  moreover have "drop 31 footer = [footer ! 31]"
    using len by (metis Cons_nth_drop_Suc drop_all eq_imp_le lessI numeral_eq_Suc pred_numeral_simps(2) semiring_norm(26,27))
  ultimately show ?r using l len by (simp add: footer_digits_def footer_constants)
next
  assume ?r
  then have f: "footer = FOOTER_PREFIX @ take PAYLOAD_DIGITS (drop FOOTER_PREFIX_SIZE footer) @ [CHR 0x0A]"
    and l: "length (take PAYLOAD_DIGITS (drop FOOTER_PREFIX_SIZE footer)) = PAYLOAD_DIGITS"
    and d: "list_all is_digit (take PAYLOAD_DIGITS (drop FOOTER_PREFIX_SIZE footer))" by (auto simp: footer_digits_def)
  define ds where "ds = take PAYLOAD_DIGITS (drop FOOTER_PREFIX_SIZE footer)"
  have f': "footer = FOOTER_PREFIX @ ds @ [CHR 0x0A]" using f by (simp add: ds_def)
  have l': "length ds = 20" using l by (simp add: ds_def PAYLOAD_DIGITS_def)
  have "length footer = FOOTER_SIZE" "take FOOTER_PREFIX_SIZE footer = FOOTER_PREFIX" "footer ! (FOOTER_SIZE - 1) = CHR 0x0A"
    unfolding f' using l' by (simp_all add: footer_constants nth_append)
  with d show ?l by simp
qed

lemma footer_digits_take: "footer_digits footer ds \<Longrightarrow> take PAYLOAD_DIGITS (drop FOOTER_PREFIX_SIZE footer) = ds"
  by (simp add: footer_digits_def footer_constants)

lemma payload_bounds_iff:
  assumes "0 \<le> n" "n < 2 ^ 63"
  shows "payload_bounds (Some n) footer = Some (start, bytes) \<longleftrightarrow>
    (\<exists>ds. footer_digits footer ds \<and> 32 \<le> n \<and> 0 < decimal ds \<and> decimal ds < 2 ^ 64 \<and> bytes = of_nat (decimal ds) \<and>
       (decimal ds + 32) mod 2 ^ 64 \<le> nat n \<and> start = n - 32 - sint bytes \<and> 0 < start)"
  (is "?l \<longleftrightarrow> (\<exists>ds. ?r ds)")
proof -
  define ds where "ds = take PAYLOAD_DIGITS (drop FOOTER_PREFIX_SIZE footer)"
  have zero: "(of_nat (decimal ds) :: 64 word) = 0 \<longleftrightarrow> decimal ds = 0" if "decimal ds < 2 ^ 64"
    using that nat_dvd_not_less[of "decimal ds" "2 ^ 64"]
    by (cases "decimal ds = 0") (auto simp: word_of_nat_eq_0_iff)
  note C = size_compare[OF assms]
  have "?l \<longleftrightarrow> footer_digits footer ds \<and> ?r ds"
    unfolding payload_bounds_def footer_shape[symmetric, of footer, folded ds_def] strtoull_def Let_def option.case
    using C[of "decimal ds"] zero
    by (auto simp: ds_def[symmetric] FOOTER_SIZE_def not_less not_le split: if_splits)
  also have "\<dots> \<longleftrightarrow> (\<exists>ds. ?r ds)" using footer_digits_take ds_def by auto
  finally show ?thesis .
qed

text \<open>Below the wrap the size is what the digits say; above it the bounds cannot be read.\<close>

lemma sint_size:
  assumes "v < 2 ^ 64" "v + 32 < 2 ^ 64 \<longrightarrow> v < 2 ^ 63"
  shows "sint (of_nat v :: 64 word) = (if v + 32 < 2 ^ 64 then int v else int v - 2 ^ 64)"
proof -
  have "uint (of_nat v :: 64 word) = int v"
    using assms(1) by (simp add: uint_nat unat_of_nat)
  then have s: "sint (of_nat v :: 64 word) = (int v + 2 ^ 63) mod 2 ^ 64 - 2 ^ 63"
    by (simp add: sint_uint signed_take_bit_eq_take_bit_shift take_bit_eq_mod)
  show ?thesis
  proof (cases "v + 32 < 2 ^ 64")
    case True
    then have "(int v + 2 ^ 63) mod 2 ^ 64 = int v + 2 ^ 63" using assms(2) by (intro mod_pos_pos_trivial) simp_all
    with s True show ?thesis by simp
  next
    case False
    have "int v + 2 ^ 63 = (int v - 2 ^ 63) + 2 ^ 64" by simp
    then have "(int v + 2 ^ 63) mod 2 ^ 64 = (int v - 2 ^ 63) mod 2 ^ 64" by (simp only: mod_add_self2)
    also have "\<dots> = int v - 2 ^ 63" using False assms(1) by (intro mod_pos_pos_trivial) simp_all
    finally show ?thesis using s False by simp
  qed
qed

lemma copy_loop_total:
  assumes "reads_documented E whole" "\<And>p n. 0 < n \<Longrightarrow> p < length whole \<Longrightarrow> 0 < read_count E p n"
    and "\<And>m n. 0 < n \<Longrightarrow> 0 < write_count E m n" "p + n \<le> length whole"
  shows "fst (copy_loop E whole p n out)"
  using assms
proof (induction E whole p n out rule: copy_loop.induct)
  case (1 E whole p n out)
  show ?case
  proof (cases "n = 0")
    case True
    then show ?thesis by (subst copy_loop.simps) simp
  next
    case n: False
    define want where "want = min n COPY_BUFFER"
    define c where "c = read_count E p want"
    have "0 < want" using n by (simp add: want_def COPY_BUFFER_def)
    then have c: "0 < c" "c \<le> int want" using 1(2,3,5) n by (auto simp: c_def reads_documented_def)
    then have cn: "nat c \<le> n" by (simp add: want_def)
    have w: "write_all (write_count E) (take (nat c) (drop p whole)) out = (True, out @ take (nat c) (drop p whole))"
      using write_all_total[of "write_count E"] 1(4) by simp
    have nc: "\<not> c \<le> 0" using c by simp
    have "p + nat c + (n - nat c) \<le> length whole" using cn 1(5) by simp
    from "1.IH"[OF n want_def c_def nc w[symmetric] refl 1(2-4) this] n c w
    show ?thesis by (subst copy_loop.simps) (simp add: Let_def flip: want_def c_def)
  qed
qed

lemma run_file_copied:
  assumes "self_contents E = Some (run_file binary payload)" "binary \<noteq> []" "payload \<noteq> []"
    and "length (run_file binary payload) < 2 ^ 63" "reads_documented E (run_file binary payload)"
    and "\<And>p n. 0 < n \<Longrightarrow> p < length (run_file binary payload) \<Longrightarrow> 0 < read_count E p n"
    and "\<And>m n. 0 < n \<Longrightarrow> 0 < write_count E m n"
    and "temporary_name E = Some name" "chmod_works E" "seek_works E" "sync_works E" "length name < capacity"
  shows "copy_payload E capacity tmp = (Some name, tmp(name := Some payload))"
proof -
  define whole where "whole = run_file binary payload"
  define v where "v = length payload"
  define footer where "footer = footer_text v"
  have whole: "whole = binary @ payload @ footer" by (simp add: whole_def run_file_def footer_def v_def)
  have fl: "length footer = 32" by (simp add: footer_def footer_text_def footer_constants)
  have n: "int (length whole) < 2 ^ 63" "32 \<le> length whole" using assms(4) fl by (simp_all add: whole flip: whole_def)
  then have vb: "0 < v" "v + 32 < 2 ^ 63" "v + 32 < length whole" using assms(2,3) fl by (auto simp: whole v_def)
  have dec: "decimal (digits_of PAYLOAD_DIGITS v) = v" using vb by (simp add: decimal_digits PAYLOAD_DIGITS_def)
  have fd: "footer_digits footer (digits_of PAYLOAD_DIGITS v)"
    by (simp add: footer_digits_def footer_def footer_text_def digits_digit)
  have drop: "drop (length whole - FOOTER_SIZE) whole = footer" using fl by (simp add: whole FOOTER_SIZE_def)
  have st: "int (length whole) - 32 - sint (of_nat v :: 64 word) = int (length binary)"
    using sint_size[of v] vb fl by (simp add: whole v_def)
  have pb: "payload_bounds (Some (int (length whole))) footer = Some (int (length binary), of_nat v)"
    unfolding payload_bounds_iff[OF _ n(1), simplified]
    using fd dec vb n st assms(2) by (intro exI[of _ "digits_of PAYLOAD_DIGITS v"]) simp
  have un: "unat (of_nat v :: 64 word) = v" using vb by (simp add: unat_of_nat)
  have "length binary + v \<le> length whole" by (simp add: whole v_def)
  from copy_loop_total[OF assms(5-7)[folded whole_def] this] obtain out
    where l: "copy_loop E whole (length binary) v [] = (True, out)" by (metis prod.collapse)
  have "out = payload" using copy_loop_result[OF assms(5)[folded whole_def] l] by (simp add: whole v_def)
  with l pb un drop assms(1,8-12) show ?thesis by (simp add: copy_payload_def flip: whole_def)
qed

section \<open>Properties\<close>

text \<open>
  C24: what the installer unpacks is what the builder packed. From any run file written as the builder does, of
  a program and a payload that are not empty, the installer finds the payload and its copy has exactly the
  payload's bytes, however the kernel cuts the reads and writes.
\<close>

theorem native_payload_roundtrip:
  assumes "self_contents E = Some (run_file binary payload)" "binary \<noteq> []" "payload \<noteq> []"
    and "length (run_file binary payload) < 2 ^ 63" "reads_documented E (run_file binary payload)"
    and "\<And>p n. 0 < n \<Longrightarrow> p < length (run_file binary payload) \<Longrightarrow> 0 < read_count E p n"
    and "\<And>m n. 0 < n \<Longrightarrow> 0 < write_count E m n"
    and "temporary_name E = Some name" "chmod_works E" "seek_works E" "sync_works E" "length name < capacity"
  shows "copy_payload E capacity tmp = (Some name, tmp(name := Some payload))"
  using assms by (rule run_file_copied)

text \<open>
  C32: the installer takes nothing else for a payload. When the copy of any file succeeds, that file ends
  with a payload and a footer whose twenty digits are the payload's length, something precedes the payload, and
  the archive has exactly its bytes; sizes beyond the file, the ones at which the check of the size wraps
  around 64 bits included, are refused. When it fails, no temporary file is left.
\<close>

theorem native_payload_exact:
  assumes "self_contents E = Some whole" "length whole < 2 ^ 63" "reads_documented E whole"
    and "copy_payload E capacity tmp = (r, tmp')"
  shows "(case r of
      None \<Rightarrow> \<forall>f. tmp' f = tmp f \<or> tmp' f = None
    | Some name \<Rightarrow>
        \<exists>binary payload ds. whole = binary @ payload @ FOOTER_PREFIX @ ds @ [CHR 0x0A] \<and> binary \<noteq> [] \<and> payload \<noteq> [] \<and>
          length ds = PAYLOAD_DIGITS \<and> list_all is_digit ds \<and> decimal ds = length payload \<and>
          temporary_name E = Some name \<and> length name < capacity \<and> tmp' = tmp(name := Some payload))"
proof (cases r)
  case None
  with assms(1,4) show ?thesis
    by (auto simp: copy_payload_def split: option.splits prod.splits bool.splits if_splits)
next
  case (Some name)
  define footer where "footer = drop (length whole - FOOTER_SIZE) whole"
  from assms(1,4) Some obtain start bytes out where c: "payload_bounds (Some (int (length whole))) footer = Some (start, bytes)"
    "copy_loop E whole (nat start) (unat bytes) [] = (True, out)" "temporary_name E = Some name" "length name < capacity"
    "tmp' = tmp(name := Some out)"
    by (auto simp: copy_payload_def footer_def split: option.splits prod.splits bool.splits if_splits)
  have n: "0 \<le> int (length whole)" "int (length whole) < 2 ^ 63" using assms(2) by simp_all
  from c(1)[unfolded payload_bounds_iff[OF n]] obtain ds where d: "footer_digits footer ds" "32 \<le> length whole"
    "0 < decimal ds" "decimal ds < 2 ^ 64" "bytes = of_nat (decimal ds)" "(decimal ds + 32) mod 2 ^ 64 \<le> length whole"
    "start = int (length whole) - 32 - sint bytes" "0 < start" by auto
  define v where "v = decimal ds"
  have un: "unat bytes = v" using d(4,5) by (simp add: unat_of_nat v_def)
  have small: "v + 32 < 2 ^ 64 \<longrightarrow> v < 2 ^ 63" using d(6) assms(2) by (auto simp: v_def)
  have si: "sint bytes = (if v + 32 < 2 ^ 64 then int v else int v - 2 ^ 64)"
    using sint_size[of v] d(4,5) small by (simp add: v_def)
  have "nat start \<le> length whole" using d(4,7) si by (auto simp: v_def)
  from copy_loop_result[OF assms(3) c(2) this] un
  have l: "nat start + v \<le> length whole" "out = take v (drop (nat start) whole)" by simp_all
  have nw: "v + 32 < 2 ^ 64"
  proof (rule ccontr)
    assume "\<not> v + 32 < 2 ^ 64"
    then have "length whole < v" using assms(2) by simp
    with l(1) show False by simp
  qed
  then have st: "nat start + v + 32 = length whole" using si d(7,8) by simp
  define binary where "binary = take (nat start) whole"
  have whole: "whole = binary @ out @ footer"
  proof -
    have "drop (nat start) whole = take v (drop (nat start) whole) @ drop v (drop (nat start) whole)"
      by (rule append_take_drop_id[symmetric])
    moreover have "drop v (drop (nat start) whole) = footer"
    proof -
      have "v + nat start = length whole - 32" using st by simp
      then show ?thesis by (simp add: footer_def FOOTER_SIZE_def)
    qed
    ultimately show ?thesis using l(2) by (metis append_take_drop_id binary_def)
  qed
  have ft: "footer = FOOTER_PREFIX @ ds @ [CHR 0x0A]" "length ds = PAYLOAD_DIGITS" "list_all is_digit ds"
    using d(1) by (simp_all add: footer_digits_def)
  have "decimal ds = length out" using l st by (simp add: v_def)
  moreover from this have "binary \<noteq> []" "out \<noteq> []" using d(2,3,8) st by (auto simp: binary_def v_def)
  ultimately show ?thesis using c(3-5) ft(2,3) whole[unfolded ft(1)] unfolding Some option.case by blast
qed

text \<open>
  The size check by itself accepts a footer whose size wraps: with \<open>2 ^ 64 - 1\<close> the payload would begin in
  the footer. The copy then reaches the end of the file and fails.
\<close>

lemma oversized_footer_accepted:
  "payload_bounds (Some 100) (FOOTER_PREFIX @ ''18446744073709551615'' @ [CHR 0x0A]) = Some (69, - 1)"
proof -
  have d: "decimal ''18446744073709551615'' = 18446744073709551615" by (simp add: decimal_def digit_value_def)
  have f: "footer_digits (FOOTER_PREFIX @ ''18446744073709551615'' @ [CHR 0x0A]) ''18446744073709551615''"
    by (simp add: footer_digits_def PAYLOAD_DIGITS_def is_digit_def)
  have w: "(of_nat 18446744073709551615 :: 64 word) = - 1" by simp
  show ?thesis
    using payload_bounds_iff[of 100 "FOOTER_PREFIX @ ''18446744073709551615'' @ [CHR 0x0A]" 69 "- 1"] f d w by auto
qed

section \<open>An instance\<close>

text \<open>Reads of at most three bytes, writes of at most two.\<close>

definition sample_copy :: "string \<Rightarrow> copy_env" where
  "sample_copy whole = \<lparr>self_contents = Some whole, temporary_name = Some ''/tmp/p1'', chmod_works = True, seek_works = True,
     sync_works = True, read_count = (\<lambda>p n. int (min 3 (min n (length whole - p)))), write_count = (\<lambda>m n. int (min 2 n))\<rparr>"

lemma sample_copy_reads: "reads_documented (sample_copy whole) whole"
  by (auto simp: reads_documented_def sample_copy_def)

lemma sample_run_file: "length (run_file ''ELF'' ''sources'') < 2 ^ 63"
  by (simp add: run_file_def footer_text_def footer_constants)

lemma sample_copy_fields:
  "self_contents (sample_copy whole) = Some whole" "temporary_name (sample_copy whole) = Some ''/tmp/p1''"
  "chmod_works (sample_copy whole)" "seek_works (sample_copy whole)" "sync_works (sample_copy whole)"
  "0 < n \<Longrightarrow> p < length whole \<Longrightarrow> 0 < read_count (sample_copy whole) p n" "0 < n \<Longrightarrow> 0 < write_count (sample_copy whole) p n"
  "length ''/tmp/p1'' < 4096"
  by (simp_all add: sample_copy_def)

theorem native_payload_roundtrip_witness:
  "copy_payload (sample_copy (run_file ''ELF'' ''sources'')) 4096 (\<lambda>_. None) = (Some ''/tmp/p1'', [''/tmp/p1'' \<mapsto> ''sources''])"
  by (rule native_payload_roundtrip[OF sample_copy_fields(1) _ _ sample_run_file sample_copy_reads sample_copy_fields(6,7,2-5,8)])
     simp_all

theorem native_payload_exact_witness:
  "\<exists>payload. payload = ''sources'' \<and>
     copy_payload (sample_copy (run_file ''ELF'' ''sources'')) 4096 (\<lambda>_. None) = (Some ''/tmp/p1'', [''/tmp/p1'' \<mapsto> payload]) \<and>
     (\<exists>binary ds. run_file ''ELF'' ''sources'' = binary @ payload @ FOOTER_PREFIX @ ds @ [CHR 0x0A])"
proof -
  have c: "copy_payload (sample_copy (run_file ''ELF'' ''sources'')) 4096 (\<lambda>_. None) = (Some ''/tmp/p1'', [''/tmp/p1'' \<mapsto> ''sources''])"
    by (rule run_file_copied[OF sample_copy_fields(1) _ _ sample_run_file sample_copy_reads sample_copy_fields(6,7,2-5,8)])
       simp_all
  from native_payload_exact[OF sample_copy_fields(1) sample_run_file sample_copy_reads c, unfolded option.case]
  obtain binary payload ds where p: "run_file ''ELF'' ''sources'' = binary @ payload @ FOOTER_PREFIX @ ds @ [CHR 0x0A]"
      "[''/tmp/p1'' \<mapsto> ''sources''] = [''/tmp/p1'' \<mapsto> payload]" by blast
  have "payload = ''sources''" using fun_cong[OF p(2), of "''/tmp/p1''"] by (simp only: fun_upd_same option.inject)
  with p(1) c show ?thesis by blast
qed

end
