(* ===== verification/NativeInstaller.thy ===== *)
theory NativeInstaller
  imports NativePayload "HOL-Library.Sublist"
begin

text \<open>
  The rest of \<open>packaging/native-installer.c\<close>: the tree removal, the search for commands and for the package, and
  \<open>main\<close>, which builds the unpacked sources twice, tests both builds, packages the second and installs the
  package. What the system does is a parameter of the calls made so far, the trace; \<open>fail\<close> is exit code 1.
\<close>

section \<open>Removing a tree\<close>

text \<open>Whatever is not a directory, a link to one included, is unlinked. The oracles say which calls work.\<close>

datatype node = Leaf_node | Directory "(string \<times> node) list"

definition PATH_MAX :: nat where "PATH_MAX = 4096"

record tree_calls =
  unlink_works :: "string \<Rightarrow> bool"
  opendir_works :: "string \<Rightarrow> bool"
  closedir_works :: "string \<Rightarrow> bool"
  rmdir_works :: "string \<Rightarrow> bool"

text \<open>What is left of a node, and the result. The entries are met in the order \<open>readdir\<close> gives them.\<close>

fun remove_node :: "tree_calls \<Rightarrow> string \<Rightarrow> node \<Rightarrow> node option \<times> bool"
and remove_entries :: "tree_calls \<Rightarrow> string \<Rightarrow> (string \<times> node) list \<Rightarrow> (string \<times> node) list \<times> bool" where
  "remove_node C path Leaf_node = (if unlink_works C path then (None, True) else (Some Leaf_node, False))"
| "remove_node C path (Directory es) =
     (if \<not> opendir_works C path then (Some (Directory es), False)
      else
        (case remove_entries C path es of
           (es1, False) \<Rightarrow> (Some (Directory es1), False)
         | (es1, True) \<Rightarrow>
             if closedir_works C path \<and> es1 = [] \<and> rmdir_works C path then (None, True)
             else (Some (Directory es1), False)))"
| "remove_entries C path [] = ([], True)"
| "remove_entries C path ((name, n) # es) =
     (let child = path @ ''/'' @ name in
      if PATH_MAX - 1 \<le> length child then ((name, n) # es, False)
      else
        (case remove_node C child n of
           (left, False) \<Rightarrow> ((case left of None \<Rightarrow> es | Some m \<Rightarrow> (name, m) # es), False)
         | (left, True) \<Rightarrow>
             (case remove_entries C path es of
                (es1, r) \<Rightarrow> ((case left of None \<Rightarrow> es1 | Some m \<Rightarrow> (name, m) # es1), r))))"

definition remove_tree :: "tree_calls \<Rightarrow> string \<Rightarrow> node option \<Rightarrow> node option \<times> bool" where
  "remove_tree C path n = (case n of None \<Rightarrow> (None, True) | Some m \<Rightarrow> remove_node C path m)"

text \<open>Every call works on every path of the tree, and the paths fit.\<close>

fun removable :: "tree_calls \<Rightarrow> string \<Rightarrow> node \<Rightarrow> bool"
and entries_removable :: "tree_calls \<Rightarrow> string \<Rightarrow> (string \<times> node) list \<Rightarrow> bool" where
  "removable C path Leaf_node = unlink_works C path"
| "removable C path (Directory es) \<longleftrightarrow>
     opendir_works C path \<and> closedir_works C path \<and> rmdir_works C path \<and> entries_removable C path es"
| "entries_removable C path [] = True"
| "entries_removable C path ((name, n) # es) \<longleftrightarrow>
     length (path @ ''/'' @ name) < PATH_MAX - 1 \<and> removable C (path @ ''/'' @ name) n \<and> entries_removable C path es"

lemma remove_node_exact:
  "(snd (remove_node C path n) \<longleftrightarrow> removable C path n) \<and> (snd (remove_node C path n) \<longleftrightarrow> fst (remove_node C path n) = None)"
  "(snd (remove_entries C path es) \<longleftrightarrow> entries_removable C path es) \<and>
   (snd (remove_entries C path es) \<longrightarrow> fst (remove_entries C path es) = [])"
  by (induction C path n and C path es rule: remove_node_remove_entries.induct)
     (auto simp: Let_def split: prod.splits bool.splits option.splits)

section \<open>The system\<close>

datatype event =
    Ran "string option" "string list" int
  | Captured "string list"
  | Made_directory string
  | Made_work string
  | Removed string
  | Unlinked string

record machine =
  setenv_works :: bool
  exe_link :: "string option"
  effective_user :: int
  online_processors :: int
  work_directory :: "string option"
  accessible :: "event list \<Rightarrow> string \<Rightarrow> bool"
  command_status :: "event list \<Rightarrow> string option \<Rightarrow> string list \<Rightarrow> int"
  command_output :: "event list \<Rightarrow> string list \<Rightarrow> string option"
  mkdir_works :: "event list \<Rightarrow> string \<Rightarrow> bool"
  directory_names :: "event list \<Rightarrow> string \<Rightarrow> string list option"
  payload_copy :: "event list \<Rightarrow> string \<Rightarrow> copy_env"

definition trusted_path :: string where
  "trusted_path = ''/usr/local/sbin:/usr/local/bin:/usr/sbin:/usr/bin:/sbin:/bin''"

text \<open>\<open>strtok_r\<close>: the parts between separators that are not empty.\<close>

fun split_on :: "char \<Rightarrow> string \<Rightarrow> string \<Rightarrow> string list" where
  "split_on d part [] = (if part = [] then [] else [rev part])"
| "split_on d part (c # s) =
     (if c = d then (if part = [] then split_on d [] s else rev part # split_on d [] s) else split_on d (c # part) s)"

definition command_exists :: "(string \<Rightarrow> bool) \<Rightarrow> string option \<Rightarrow> string \<Rightarrow> bool" where
  "command_exists access path name =
     (case path of None \<Rightarrow> False
      | Some p \<Rightarrow>
          name \<noteq> [] \<and>
          list_ex (\<lambda>part. let candidate = part @ ''/'' @ name in length candidate < PATH_MAX \<and> access candidate)
            (split_on CHR '':'' [] p))"

abbreviation have_command :: "machine \<Rightarrow> event list \<Rightarrow> string \<Rightarrow> bool" where
  "have_command M tr name \<equiv> command_exists (accessible M tr) (Some trusted_path) name"

definition run_command :: "machine \<Rightarrow> string option \<Rightarrow> string list \<Rightarrow> event list \<Rightarrow> int \<times> event list" where
  "run_command M cwd argv tr = (let s = command_status M tr cwd argv in (s, tr @ [Ran cwd argv s]))"

definition build_prerequisites_available :: "machine \<Rightarrow> event list \<Rightarrow> bool \<times> event list" where
  "build_prerequisites_available M tr =
     (if \<not> list_all (have_command M tr)
           [''tar'', ''cmake'', ''cc'', ''make'', ''ctest'', ''cpack'', ''pkg-config'', ''dpkg-deb'', ''xvfb-run'', ''dbus-daemon'']
      then (False, tr)
      else
        (let (gtk, tr1) = run_command M None [''pkg-config'', ''--exists'', ''gtk4 >= 4.6''] tr in
         if gtk \<noteq> 0 then (False, tr1)
         else (let (geocode, tr2) = run_command M None [''pkg-config'', ''--exists'', ''geocode-glib-2.0''] tr1
               in (geocode = 0, tr2))))"

definition prerequisite_update :: "string list" where
  "prerequisite_update = [''sudo'', ''apt-get'', ''-o'', ''DPkg::Lock::Timeout=300'', ''update'']"

definition prerequisite_install :: "string list" where
  "prerequisite_install =
     [''sudo'', ''apt-get'', ''-o'', ''DPkg::Lock::Timeout=300'', ''install'', ''-y'', ''--no-install-recommends'',
      ''build-essential'', ''cmake'', ''dpkg-dev'', ''pkg-config'', ''libgtk-4-dev'', ''libgeocode-glib-dev'', ''xvfb'',
      ''dbus-x11'', ''tar'']"

text \<open>False is \<open>fail\<close>.\<close>

definition ensure_prerequisites :: "machine \<Rightarrow> event list \<Rightarrow> bool \<times> event list" where
  "ensure_prerequisites M tr =
     (let (available, tr1) = build_prerequisites_available M tr in
      if available then (True, tr1)
      else if \<not> have_command M tr1 ''apt-get'' \<or> \<not> have_command M tr1 ''sudo'' then (False, tr1)
      else
        (let (updated, tr2) = run_command M None prerequisite_update tr1 in
         if updated \<noteq> 0 then (False, tr2)
         else
           (let (installed, tr3) = run_command M None prerequisite_install tr2 in
            if installed \<noteq> 0 then (False, tr3) else build_prerequisites_available M tr3)))"

definition compiler_supports_gcc_pgo :: "machine \<Rightarrow> event list \<Rightarrow> bool \<times> event list" where
  "compiler_supports_gcc_pgo M tr =
     (let argv = [''cc'', ''--version''] in
      (case command_output M tr argv of
         None \<Rightarrow> False
       | Some out \<Rightarrow>
           strstr out ''clang'' = None \<and>
           (strstr out ''gcc'' \<noteq> None \<or> strstr out ''GCC'' \<noteq> None \<or> strstr out ''Free Software Foundation'' \<noteq> None),
       tr @ [Captured argv]))"

text \<open>\<open>readlink\<close> fills at most \<open>capacity - 1\<close> bytes.\<close>

definition executable_path :: "string option \<Rightarrow> string option \<Rightarrow> nat \<Rightarrow> string option" where
  "executable_path link argv0 capacity =
     (if capacity < 2 then None
      else
        (case link of
           Some l \<Rightarrow> if l \<noteq> [] then Some (take (capacity - 1) l)
                     else (case argv0 of None \<Rightarrow> None | Some a \<Rightarrow> if a = [] \<or> capacity \<le> length a then None else Some a)
         | None \<Rightarrow> (case argv0 of None \<Rightarrow> None | Some a \<Rightarrow> if a = [] \<or> capacity \<le> length a then None else Some a)))"

definition extract_payload :: "machine \<Rightarrow> string \<Rightarrow> string \<Rightarrow> event list \<Rightarrow> bool \<times> event list" where
  "extract_payload M self destination tr =
     (case copy_payload (payload_copy M tr self) PATH_MAX (\<lambda>_. None) of
        (None, _) \<Rightarrow> (False, tr)
      | (Some archive, _) \<Rightarrow>
          (let (status, tr1) = run_command M None [''tar'', ''-xzf'', archive, ''-C'', destination] tr
           in (status = 0, tr1 @ [Unlinked archive])))"

text \<open>\<open>snprintf\<close> into an array of the capacity, refused when it had to be cut or filled all but one byte.\<close>

definition formatted :: "nat \<Rightarrow> string \<Rightarrow> string option" where
  "formatted capacity s = (if s = [] \<or> capacity - 1 \<le> length (take (capacity - 1) s) then None else Some s)"

text \<open>The loop over the names; the array keeps what was written last.\<close>

fun find_package :: "string \<Rightarrow> nat \<Rightarrow> string option \<Rightarrow> string list \<Rightarrow> string option" where
  "find_package directory capacity found [] = found"
| "find_package directory capacity found (name # names) =
     (if \<not> starts_with name ''system-settings_'' \<or> \<not> ends_with name ''.deb''
      then find_package directory capacity found names
      else if found \<noteq> None then None
      else (case formatted capacity (directory @ ''/'' @ name) of
              None \<Rightarrow> None
            | Some out \<Rightarrow> find_package directory capacity (Some out) names))"

definition find_debian_package :: "machine \<Rightarrow> event list \<Rightarrow> string \<Rightarrow> nat \<Rightarrow> string option" where
  "find_debian_package M tr directory capacity =
     (case directory_names M tr directory of None \<Rightarrow> None | Some names \<Rightarrow> find_package directory capacity None names)"

section \<open>The build\<close>

definition generate_flags_text :: "string \<Rightarrow> string" where
  "generate_flags_text pgo = ''-O3 -DNDEBUG -march=native -mtune=native -flto -fprofile-generate='' @ pgo"

definition final_flags_text :: "string \<Rightarrow> string" where
  "final_flags_text pgo = ''-O3 -DNDEBUG -march=native -mtune=native -flto -fprofile-use='' @ pgo @
     '' -fprofile-correction -Wno-missing-profile''"

text \<open>The arguments printed without a check are cut to their arrays.\<close>

definition configure_argv :: "string \<Rightarrow> string \<Rightarrow> string \<Rightarrow> string \<Rightarrow> string \<Rightarrow> string list" where
  "configure_argv work build profile flags data =
     [''cmake'', ''-S'', work, ''-B'', build, ''-DCMAKE_BUILD_TYPE=Release'',
      take 63 (''-DSYSTEM_SETTINGS_BUILD_PROFILE='' @ profile), ''-DBUILD_TESTING=ON'',
      take (PATH_MAX + 159) (''-DCMAKE_C_FLAGS_RELEASE='' @ flags),
      take (PATH_MAX + 63) (''-DSYSTEM_SETTINGS_NATIVE_PROFILE_DATA_DIR='' @ data)]"

definition build_argv :: "string \<Rightarrow> string \<Rightarrow> string list" where
  "build_argv build jobs = [''cmake'', ''--build'', build, ''--parallel'', jobs]"

definition test_argv :: "string \<Rightarrow> string list" where
  "test_argv build = [''ctest'', ''--test-dir'', build, ''--output-on-failure'']"

definition cpack_argv :: "string list" where "cpack_argv = [''cpack'', ''-G'', ''DEB'']"

definition install_argv :: "string \<Rightarrow> string list" where
  "install_argv deb = [''sudo'', ''apt-get'', ''install'', ''-y'', deb]"

text \<open>Commands joined with \<open>||\<close>: the first that fails ends them.\<close>

fun run_all :: "machine \<Rightarrow> (string option \<times> string list) list \<Rightarrow> event list \<Rightarrow> bool \<times> event list" where
  "run_all M [] tr = (True, tr)"
| "run_all M ((cwd, argv) # cs) tr =
     (let (s, tr1) = run_command M cwd argv tr in if s \<noteq> 0 then (False, tr1) else run_all M cs tr1)"

text \<open>Both builds, the tests and the package: the package's path, or \<open>None\<close> for a failure.\<close>

definition build_package :: "machine \<Rightarrow> string \<Rightarrow> string \<Rightarrow> string \<Rightarrow> string \<Rightarrow> event list \<Rightarrow> string option \<times> event list" where
  "build_package M work build pgo jobs tr =
     (let (trained, tr1) = run_all M
            [(None, configure_argv work build ''generic'' (generate_flags_text pgo) []),
             (None, build_argv build jobs), (None, test_argv build)] tr
      in if \<not> trained then (None, tr1)
         else
           (let (optimised, tr2) = run_all M
                  [(None, configure_argv work build ''native'' (final_flags_text pgo) pgo), (None, build_argv build jobs)] tr1
            in if \<not> optimised then (None, tr2)
               else
                 (let (tested, tr3) = run_command M None (test_argv build) tr2
                  in if tested \<noteq> 0 then (None, tr3)
                     else
                       (let (packed, tr4) = run_command M (Some build) cpack_argv tr3
                        in if packed \<noteq> 0 then (None, tr4)
                           else (find_debian_package M tr4 build PATH_MAX, tr4)))))"

definition job_count :: "int \<Rightarrow> int" where
  "job_count online = (if online < 1 then 1 else if 1 < online then online - 1 else online)"

fun nat_text :: "nat \<Rightarrow> string" where
  "nat_text n = (if n < 10 then [char_of (48 + n)] else nat_text (n div 10) @ [char_of (48 + n mod 10)])"

declare nat_text.simps [simp del]

text \<open>From the unpacked sources to the installed package: whether it succeeded.\<close>

definition build_and_install :: "machine \<Rightarrow> bool \<Rightarrow> string \<Rightarrow> event list \<Rightarrow> bool \<times> event list" where
  "build_and_install M build_only work tr =
     (case (formatted PATH_MAX (work @ ''/build''), formatted PATH_MAX (work @ ''/pgo'')) of
        (Some build, Some pgo) \<Rightarrow>
          if \<not> mkdir_works M tr pgo then (False, tr)
          else
            (let tr1 = tr @ [Made_directory pgo] in
             if formatted (PATH_MAX + 128) (generate_flags_text pgo) = None \<or>
                formatted (PATH_MAX + 128) (final_flags_text pgo) = None then (False, tr1)
             else
               (case build_package M work build pgo (nat_text (nat (job_count (online_processors M)))) tr1 of
                  (None, tr2) \<Rightarrow> (False, tr2)
                | (Some deb, tr2) \<Rightarrow>
                    if build_only then (True, tr2)
                    else
                      (let (installed, tr3) = run_command M None (install_argv deb) tr2 in
                       if installed \<noteq> 0 then (False, tr3)
                       else (accessible M tr3 ''/Programs/system-settings'' \<and>
                             accessible M tr3 ''/System/Commands/system-settings-time'', tr3))))
      | _ \<Rightarrow> (False, tr))"

definition native_install :: "machine \<Rightarrow> bool \<Rightarrow> string \<Rightarrow> event list \<Rightarrow> int \<times> event list" where
  "native_install M build_only self tr =
     (if effective_user M = 0 then (1, tr)
      else
        (case ensure_prerequisites M tr of
           (False, tr1) \<Rightarrow> (1, tr1)
         | (True, tr1) \<Rightarrow>
             if \<not> build_only \<and> \<not> have_command M tr1 ''sudo'' then (1, tr1)
             else
               (case compiler_supports_gcc_pgo M tr1 of
                  (False, tr2) \<Rightarrow> (1, tr2)
                | (True, tr2) \<Rightarrow>
                    (case work_directory M of
                       None \<Rightarrow> (1, tr2)
                     | Some work \<Rightarrow>
                         (case extract_payload M self work (tr2 @ [Made_work work]) of
                            (False, tr3) \<Rightarrow> (1, tr3 @ [Removed work])
                          | (True, tr3) \<Rightarrow>
                              (let (succeeded, tr4) = build_and_install M build_only work tr3
                               in (if succeeded then 0 else 1, tr4 @ [Removed work])))))))"

definition installer_main :: "machine \<Rightarrow> string option \<Rightarrow> string list \<Rightarrow> int \<times> event list" where
  "installer_main M argv0 args =
     (if \<not> setenv_works M then (1, [])
      else if args = [''--help''] \<or> args = [''-h''] then (0, [])
      else
        (let build_only = (args = [''--build-only'']) in
         if \<not> build_only \<and> args \<noteq> [] \<and> \<not> (length args = 2 \<and> hd args = ''--extract'') then (2, [])
         else
           (case executable_path (exe_link M) argv0 PATH_MAX of
              None \<Rightarrow> (1, [])
            | Some self \<Rightarrow>
                if length args = 2 \<and> hd args = ''--extract''
                then
                  (let destination = args ! 1 in
                   if destination = [] \<or> \<not> mkdir_works M [] destination then (1, [])
                   else
                     (case extract_payload M self destination [Made_directory destination] of
                        (False, tr) \<Rightarrow> (1, tr @ [Removed destination])
                      | (True, tr) \<Rightarrow> (0, tr)))
                else if args \<noteq> [] \<and> \<not> build_only then (2, [])
                else native_install M build_only self [])))"

section \<open>Lemmas\<close>

text \<open>A step extends the trace by events that install nothing.\<close>

definition harmless :: "event \<Rightarrow> bool" where
  "harmless e \<longleftrightarrow> (\<forall>cwd deb s. e \<noteq> Ran cwd (install_argv deb) s) \<and> (\<forall>w. e \<noteq> Made_work w)"

definition quiet_step :: "event list \<Rightarrow> event list \<Rightarrow> bool" where
  "quiet_step tr tr1 \<longleftrightarrow> (\<exists>es. tr1 = tr @ es \<and> list_all harmless es)"

lemma quiet_refl [intro]: "quiet_step tr tr"
  by (simp add: quiet_step_def)

lemma quiet_trans: "quiet_step a b \<Longrightarrow> quiet_step b c \<Longrightarrow> quiet_step a c"
  by (auto simp: quiet_step_def)

lemma quiet_snoc: "harmless e \<Longrightarrow> quiet_step a b \<Longrightarrow> quiet_step a (b @ [e])"
  by (auto simp: quiet_step_def)

lemma run_quiet:
  assumes "run_command M cwd argv tr = (s, tr1)" "argv = [] \<or> hd argv \<noteq> ''sudo'' \<or> argv ! 2 \<noteq> ''install''"
  shows "tr1 = tr @ [Ran cwd argv s] \<and> quiet_step tr tr1"
proof -
  have "tr1 = tr @ [Ran cwd argv s]" using assms(1) by (auto simp: run_command_def Let_def)
  moreover have "harmless (Ran cwd argv s)" using assms(2) by (auto simp: harmless_def install_argv_def)
  ultimately show ?thesis by (simp add: quiet_step_def)
qed

lemma run_all_quiet:
  assumes "run_all M cs tr = (b, tr1)" "\<forall>(cwd, argv) \<in> set cs. argv = [] \<or> hd argv \<noteq> ''sudo'' \<or> argv ! 2 \<noteq> ''install''"
  shows "quiet_step tr tr1 \<and> (b \<longrightarrow> tr1 = tr @ map (\<lambda>(cwd, argv). Ran cwd argv 0) cs)"
  using assms
proof (induction M cs tr rule: run_all.induct)
  case (2 M cwd argv cs tr)
  obtain s tr2 where r: "run_command M cwd argv tr = (s, tr2)" by (rule prod.exhaust)
  have "argv = [] \<or> hd argv \<noteq> ''sudo'' \<or> argv ! 2 \<noteq> ''install''" using 2(3) by auto
  note R = run_quiet[OF r this]
  show ?case
  proof (cases "s = 0")
    case True
    then have "run_all M cs tr2 = (b, tr1)" using 2(2) r by simp
    then have "quiet_step tr2 tr1 \<and> (b \<longrightarrow> tr1 = tr2 @ map (\<lambda>(cwd, argv). Ran cwd argv 0) cs)"
      using "2.IH"[OF r[symmetric] refl] True 2(3) by auto
    with R True quiet_trans[of tr tr2 tr1] show ?thesis by auto
  next
    case False
    with 2(2) r R show ?thesis by auto
  qed
qed auto

lemma prerequisites_quiet: "build_prerequisites_available M tr = (b, tr1) \<Longrightarrow> quiet_step tr tr1"
  unfolding build_prerequisites_available_def Let_def
  by (auto split: if_splits prod.splits dest!: run_quiet intro: quiet_trans)

lemma ensure_quiet: "ensure_prerequisites M tr = (b, tr1) \<Longrightarrow> quiet_step tr tr1"
  unfolding ensure_prerequisites_def Let_def
  by (auto split: if_splits prod.splits dest!: run_quiet prerequisites_quiet
      simp: prerequisite_update_def prerequisite_install_def intro: quiet_trans)

lemma compiler_quiet: "compiler_supports_gcc_pgo M tr = (b, tr1) \<Longrightarrow> quiet_step tr tr1"
  by (auto simp: compiler_supports_gcc_pgo_def Let_def harmless_def intro: quiet_snoc)

lemma extract_quiet:
  assumes "extract_payload M self destination tr = (b, tr1)" shows "quiet_step tr tr1"
proof -
  have "harmless (Unlinked a)" for a by (simp add: harmless_def)
  with assms show ?thesis unfolding extract_payload_def Let_def
    by (auto split: option.splits prod.splits dest!: run_quiet intro: quiet_snoc)
qed

lemma build_package_law:
  assumes "build_package M work build pgo jobs tr = (r, tr1)"
  shows "quiet_step tr tr1 \<and>
    (\<forall>deb. r = Some deb \<longrightarrow> find_debian_package M tr1 build PATH_MAX = Some deb \<and>
       (\<exists>early. tr1 = early @
          [Ran None (configure_argv work build ''native'' (final_flags_text pgo) pgo) 0, Ran None (build_argv build jobs) 0,
           Ran None (test_argv build) 0, Ran (Some build) cpack_argv 0]))"
proof -
  define train where "train = [(None :: string option, configure_argv work build ''generic'' (generate_flags_text pgo) []),
             (None, build_argv build jobs), (None, test_argv build)]"
  define opt where "opt = [(None :: string option, configure_argv work build ''native'' (final_flags_text pgo) pgo),
             (None, build_argv build jobs)]"
  obtain b1 t1 where r1: "run_all M train tr = (b1, t1)" by (rule prod.exhaust)
  obtain b2 t2 where r2: "run_all M opt t1 = (b2, t2)" by (rule prod.exhaust)
  obtain s3 t3 where r3: "run_command M None (test_argv build) t2 = (s3, t3)" by (rule prod.exhaust)
  obtain s4 t4 where r4: "run_command M (Some build) cpack_argv t3 = (s4, t4)" by (rule prod.exhaust)
  have q1: "quiet_step tr t1"
    using run_all_quiet[OF r1] by (simp add: train_def configure_argv_def build_argv_def test_argv_def)
  have q2: "quiet_step t1 t2" "b2 \<longrightarrow> t2 = t1 @ map (\<lambda>(cwd, argv). Ran cwd argv 0) opt"
    using run_all_quiet[OF r2] by (simp_all add: opt_def configure_argv_def build_argv_def)
  have heads: "hd (test_argv build) \<noteq> ''sudo''" "hd cpack_argv \<noteq> ''sudo''" by (simp_all add: test_argv_def cpack_argv_def)
  have q3: "t3 = t2 @ [Ran None (test_argv build) s3]" "quiet_step t2 t3"
    using run_quiet[OF r3] heads by blast+
  have q4: "t4 = t3 @ [Ran (Some build) cpack_argv s4]" "quiet_step t3 t4"
    using run_quiet[OF r4] heads by blast+
  have e: "(r, tr1) = (if \<not> b1 then (None, t1) else if \<not> b2 then (None, t2) else if s3 \<noteq> 0 then (None, t3)
      else if s4 \<noteq> 0 then (None, t4) else (find_debian_package M t4 build PATH_MAX, t4))"
    using assms unfolding build_package_def train_def[symmetric] opt_def[symmetric] by (cases b1; cases b2; cases "s3 = 0"; cases "s4 = 0"; simp add: r1 r2 r3 r4)
  have t4: "b2 \<Longrightarrow> s3 = 0 \<Longrightarrow> s4 = 0 \<Longrightarrow> t4 = t1 @
          [Ran None (configure_argv work build ''native'' (final_flags_text pgo) pgo) 0, Ran None (build_argv build jobs) 0,
           Ran None (test_argv build) 0, Ran (Some build) cpack_argv 0]"
    using q2(2) q3(1) q4(1) by (simp add: opt_def)
  have "quiet_step tr t2" "quiet_step tr t3" "quiet_step tr t4" using q1 q2 q3 q4 quiet_trans by blast+
  with e q1 t4 show ?thesis by (auto split: if_splits)
qed

text \<open>What the trace of an installation looks like: \<open>installed\<close> is the one event that installs.\<close>

definition tested_build :: "machine \<Rightarrow> string \<Rightarrow> event list \<Rightarrow> string \<Rightarrow> bool" where
  "tested_build M work pre deb \<longleftrightarrow>
     (\<exists>build pgo jobs early. build = work @ ''/build'' \<and> pgo = work @ ''/pgo'' \<and>
        find_debian_package M pre build PATH_MAX = Some deb \<and>
        pre = early @
          [Ran None (configure_argv work build ''native'' (final_flags_text pgo) pgo) 0, Ran None (build_argv build jobs) 0,
           Ran None (test_argv build) 0, Ran (Some build) cpack_argv 0])"

lemma formatted_Some: "formatted capacity s = Some t \<Longrightarrow> t = s"
  by (auto simp: formatted_def split: if_splits)

lemma build_and_install_law:
  assumes "build_and_install M build_only work tr = (b, tr1)"
  shows "quiet_step tr tr1 \<or>
    (\<not> build_only \<and> (\<exists>pre deb s. tr1 = pre @ [Ran None (install_argv deb) s] \<and> quiet_step tr pre \<and> tested_build M work pre deb \<and>
       (b \<longrightarrow> s = 0)))"
proof (cases "\<exists>build pgo. formatted PATH_MAX (work @ ''/build'') = Some build \<and> formatted PATH_MAX (work @ ''/pgo'') = Some pgo \<and>
    mkdir_works M tr pgo \<and> formatted (PATH_MAX + 128) (generate_flags_text pgo) \<noteq> None \<and>
    formatted (PATH_MAX + 128) (final_flags_text pgo) \<noteq> None")
  case False
  then have "tr1 = tr \<or> (\<exists>d. tr1 = tr @ [Made_directory d])"
    using assms by (auto simp: build_and_install_def Let_def split: option.splits if_splits)
  then show ?thesis by (auto simp: harmless_def quiet_step_def)
next
  case True
  then obtain build pgo where p: "formatted PATH_MAX (work @ ''/build'') = Some build" "formatted PATH_MAX (work @ ''/pgo'') = Some pgo"
    "mkdir_works M tr pgo" "formatted (PATH_MAX + 128) (generate_flags_text pgo) \<noteq> None"
    "formatted (PATH_MAX + 128) (final_flags_text pgo) \<noteq> None" by blast
  define t1 where "t1 = tr @ [Made_directory pgo]"
  define jobs where "jobs = nat_text (nat (job_count (online_processors M)))"
  obtain r t2 where bp: "build_package M work build pgo jobs t1 = (r, t2)" by (rule prod.exhaust)
  note B = build_package_law[OF bp]
  have q: "quiet_step tr t2" using B quiet_trans[of tr t1 t2] by (auto simp: t1_def harmless_def quiet_step_def)
  show ?thesis
  proof (cases r)
    case None
    with assms p bp have "tr1 = t2" by (auto simp: build_and_install_def simp flip: t1_def jobs_def)
    with q show ?thesis by simp
  next
    case (Some deb)
    show ?thesis
    proof (cases build_only)
      case True
      with assms p bp Some have "tr1 = t2" by (auto simp: build_and_install_def simp flip: t1_def jobs_def)
      with q show ?thesis by simp
    next
      case False
      obtain s t3 where i: "run_command M None (install_argv deb) t2 = (s, t3)" by (rule prod.exhaust)
      then have t3: "t3 = t2 @ [Ran None (install_argv deb) s]" by (auto simp: run_command_def Let_def)
      from assms p bp Some False i have "tr1 = t3 \<and> (b \<longrightarrow> s = 0)"
        by (auto simp: build_and_install_def simp flip: t1_def jobs_def split: if_splits)
      moreover have "tested_build M work t2 deb"
        using B Some formatted_Some[OF p(1)] formatted_Some[OF p(2)] unfolding tested_build_def by blast
      ultimately show ?thesis using False t3 q by blast
    qed
  qed
qed

lemma quiet_none: "quiet_step [] tr \<Longrightarrow> e \<in> set tr \<Longrightarrow> harmless e"
  by (auto simp: quiet_step_def list_all_iff)

text \<open>The shape of every run of \<open>main\<close>.\<close>

lemma main_law:
  assumes "installer_main M argv0 args = (code, tr)"
  shows "list_all harmless tr \<or>
    (args \<in> {[], [''--build-only'']} \<and> effective_user M \<noteq> 0 \<and>
     (\<exists>work a c. work_directory M = Some work \<and> quiet_step [] a \<and> quiet_step (a @ [Made_work work]) c \<and>
       (tr = c @ [Removed work] \<or>
        (\<exists>deb s. tr = c @ [Ran None (install_argv deb) s, Removed work] \<and> args = [] \<and> tested_build M work c deb \<and>
           (code = 0 \<longrightarrow> s = 0)))))"
proof (cases "args \<in> {[], [''--build-only'']} \<and> (\<exists>self. executable_path (exe_link M) argv0 PATH_MAX = Some self) \<and>
    setenv_works M \<and> effective_user M \<noteq> 0")
  case False
  have "harmless (Made_directory d)" "harmless (Removed d)" for d by (simp_all add: harmless_def)
  then have "list_all harmless tr"
    using False assms
    by (auto simp: installer_main_def native_install_def Let_def quiet_step_def dest!: extract_quiet
        split: if_splits option.splits prod.splits bool.splits)
  then show ?thesis by blast
next
  case True
  then obtain self where self: "executable_path (exe_link M) argv0 PATH_MAX = Some self" by blast
  define only where "only = (args = [''--build-only''])"
  have m: "native_install M only self [] = (code, tr)" using True self assms by (auto simp: installer_main_def only_def)
  obtain b1 t1 where e1: "ensure_prerequisites M [] = (b1, t1)" by (rule prod.exhaust)
  obtain b2 t2 where e2: "compiler_supports_gcc_pgo M t1 = (b2, t2)" by (rule prod.exhaust)
  have q1: "quiet_step [] t1" and q2: "quiet_step [] t2"
    using ensure_quiet[OF e1] compiler_quiet[OF e2] quiet_trans by blast+
  show ?thesis
  proof (cases "b1 \<and> (\<not> only \<longrightarrow> have_command M t1 ''sudo'') \<and> b2 \<and> work_directory M \<noteq> None")
    case False
    with m e1 e2 True have "tr = t1 \<or> tr = t2"
      by (auto simp: native_install_def split: if_splits option.splits bool.splits)
    with q1 q2 show ?thesis by (auto simp: quiet_step_def)
  next
    case go: True
    then obtain work where w: "work_directory M = Some work" by blast
    obtain b3 t3 where e3: "extract_payload M self work (t2 @ [Made_work work]) = (b3, t3)" by (rule prod.exhaust)
    obtain b4 t4 where e4: "build_and_install M only work t3 = (b4, t4)" by (rule prod.exhaust)
    have m': "(code, tr) = (if b3 then (if b4 then 0 else 1, t4 @ [Removed work]) else (1, t3 @ [Removed work]))"
      using m go True e1 e2 e3 e4 w by (auto simp: native_install_def Let_def)
    note q3 = extract_quiet[OF e3]
    show ?thesis
    proof (cases "b3 \<and> \<not> quiet_step t3 t4")
      case False
      with m' q3 have "\<exists>c. quiet_step (t2 @ [Made_work work]) c \<and> tr = c @ [Removed work]"
        by (metis Pair_inject quiet_trans)
      with True w q2 show ?thesis by blast
    next
      case inst: True
      then obtain pre deb s where p: "\<not> only" "t4 = pre @ [Ran None (install_argv deb) s]" "quiet_step t3 pre"
        "tested_build M work pre deb" "b4 \<longrightarrow> s = 0" using build_and_install_law[OF e4] by blast
      have "quiet_step (t2 @ [Made_work work]) pre" using q3 p(3) quiet_trans by blast
      moreover have "tr = pre @ [Ran None (install_argv deb) s, Removed work]" "args = []" "code = 0 \<longrightarrow> s = 0"
        using m' inst p True by (auto simp: only_def split: if_splits)
      ultimately show ?thesis using True w q2 p(4) by blast
    qed
  qed
qed

text \<open>Before the removal or the installation the only other event that is not harmless made the directory.\<close>

lemma working_events:
  assumes "quiet_step [] a" "quiet_step (a @ [Made_work work]) c" "e \<in> set c" shows "harmless e \<or> e = Made_work work"
  using assms by (auto simp: quiet_step_def list_all_iff)

lemma install_harmful: "\<not> harmless (Ran cwd (install_argv deb) s)" "\<not> harmless (Made_work w)"
  by (auto simp: harmless_def)

section \<open>Properties\<close>


section \<open>An instance\<close>

text \<open>A machine on which every call works and the package is found.\<close>

definition sample_machine :: machine where
  "sample_machine = \<lparr>setenv_works = True, exe_link = Some ''/home/u/S.run'', effective_user = 1000, online_processors = 5,
     work_directory = Some ''/tmp/w'', accessible = (\<lambda>_ _. True), command_status = (\<lambda>_ _ _. 0),
     command_output = (\<lambda>_ _. Some ''gcc 13''), mkdir_works = (\<lambda>_ _. True),
     directory_names = (\<lambda>_ _. Some [''Makefile'', ''system-settings_1.deb'']),
     payload_copy = (\<lambda>_ _. sample_copy (run_file ''ELF'' ''sources''))\<rparr>"

lemma sample_copied: "copy_payload (sample_copy (run_file ''ELF'' ''sources'')) PATH_MAX (\<lambda>_. None) = (Some ''/tmp/p1'', [''/tmp/p1'' \<mapsto> ''sources''])"
  unfolding PATH_MAX_def
  by (rule run_file_copied[OF sample_copy_fields(1) _ _ sample_run_file sample_copy_reads sample_copy_fields(6,7,2-5,8)])
     simp_all

lemma sample_commands:
  "build_prerequisites_available sample_machine tr =
     (True, tr @ [Ran None [''pkg-config'', ''--exists'', ''gtk4 >= 4.6''] 0, Ran None [''pkg-config'', ''--exists'', ''geocode-glib-2.0''] 0])"
  "command_exists (\<lambda>_. True) (Some trusted_path) ''sudo''"
  "compiler_supports_gcc_pgo sample_machine tr = (True, tr @ [Captured [''cc'', ''--version'']])"
  "executable_path (exe_link sample_machine) None PATH_MAX = Some ''/home/u/S.run''"
  by (simp_all add: build_prerequisites_available_def command_exists_def trusted_path_def run_command_def sample_machine_def
      compiler_supports_gcc_pgo_def executable_path_def PATH_MAX_def Let_def starts_with_def)

lemma sample_formatted:
  "formatted PATH_MAX ''/tmp/w/build'' = Some ''/tmp/w/build''" "formatted PATH_MAX ''/tmp/w/pgo'' = Some ''/tmp/w/pgo''"
  "formatted (PATH_MAX + 128) (generate_flags_text ''/tmp/w/pgo'') \<noteq> None"
  "formatted (PATH_MAX + 128) (final_flags_text ''/tmp/w/pgo'') \<noteq> None"
  "find_debian_package sample_machine tr ''/tmp/w/build'' PATH_MAX = Some ''/tmp/w/build/system-settings_1.deb''"
  by (simp_all add: formatted_def generate_flags_text_def final_flags_text_def PATH_MAX_def find_debian_package_def
      sample_machine_def starts_with_def ends_with_def)

definition sample_trace :: "event list" where
  "sample_trace =
     (let job = ''4'';
          train = configure_argv ''/tmp/w'' ''/tmp/w/build'' ''generic'' (generate_flags_text ''/tmp/w/pgo'') [];
          final = configure_argv ''/tmp/w'' ''/tmp/w/build'' ''native'' (final_flags_text ''/tmp/w/pgo'') ''/tmp/w/pgo'';
          make = build_argv ''/tmp/w/build'' job;
          test = test_argv ''/tmp/w/build''
      in map (\<lambda>argv. Ran None argv 0) [[''pkg-config'', ''--exists'', ''gtk4 >= 4.6''], [''pkg-config'', ''--exists'', ''geocode-glib-2.0'']] @
         [Captured [''cc'', ''--version''], Made_work ''/tmp/w'', Ran None [''tar'', ''-xzf'', ''/tmp/p1'', ''-C'', ''/tmp/w''] 0,
          Unlinked ''/tmp/p1'', Made_directory ''/tmp/w/pgo''] @
         map (\<lambda>argv. Ran None argv 0) [train, make, test, final, make, test] @
         [Ran (Some ''/tmp/w/build'') cpack_argv 0])"

lemma sample_extracted:
  "extract_payload sample_machine self ''/tmp/w'' tr =
     (True, tr @ [Ran None [''tar'', ''-xzf'', ''/tmp/p1'', ''-C'', ''/tmp/w''] 0, Unlinked ''/tmp/p1''])"
proof -
  have "payload_copy sample_machine tr self = sample_copy (run_file ''ELF'' ''sources'')" by (simp add: sample_machine_def)
  then show ?thesis by (simp add: extract_payload_def sample_copied run_command_def sample_machine_def)
qed

lemma installed_run:
  "installer_main sample_machine None [] =
     (0, sample_trace @ [Ran None (install_argv ''/tmp/w/build/system-settings_1.deb'') 0, Removed ''/tmp/w''])"
proof -
  have run: "run_command sample_machine cwd argv tr = (0, tr @ [Ran cwd argv 0])" for cwd argv tr
    by (simp add: run_command_def sample_machine_def)
  have jobs: "nat_text (nat (job_count (online_processors sample_machine))) = ''4''"
    by (simp add: sample_machine_def job_count_def nat_text.simps char_of_def bit_iff_odd)
  have m: "mkdir_works sample_machine tr d" "accessible sample_machine = (\<lambda>_ _. True)" "effective_user sample_machine \<noteq> 0"
    "work_directory sample_machine = Some ''/tmp/w''" "setenv_works sample_machine" for tr d
    by (simp_all add: sample_machine_def)
  have b: "build_and_install sample_machine False ''/tmp/w'' tr = (True,
       (fst (snd (build_package sample_machine ''/tmp/w'' ''/tmp/w/build'' ''/tmp/w/pgo'' ''4'' (tr @ [Made_directory ''/tmp/w/pgo''])), ())) @
       [Ran None (install_argv ''/tmp/w/build/system-settings_1.deb'') 0])" for tr
    by (simp add: build_and_install_def sample_formatted m jobs run build_package_def)
  show ?thesis
    using sample_commands(4)
    by (simp add: installer_main_def native_install_def ensure_prerequisites_def sample_commands sample_extracted m b
        build_package_def run sample_formatted sample_trace_def Let_def)
qed


end
