(* ===== verification/ClockResources.thy ===== *)
theory ClockResources
  imports PanelState
begin

text \<open>
  What the two places that show the time use of Common's presentation runtime and of GLib, as one record of
  parameters. A presentation handle is known by the mode it was made for.
\<close>

text \<open>The fields of a \<open>GDateTime\<close> the code reads; the offset from UTC is in microseconds.\<close>

record instant =
  unix_seconds :: int
  microsecond :: int
  utc_offset_us :: int
  civil_year :: int
  civil_month :: int
  civil_day :: int

text \<open>
  \<open>presentation_format\<close>: mode, language, microseconds, offset in seconds, seconds shown, a flag the code
  never sets, location known, latitude, longitude and the buffer's size; \<open>next_tick\<close>: mode, microseconds,
  offset, seconds shown, latitude, longitude; \<open>format_date\<close>: whether there is a provider, calendar, day.
\<close>

record runtime =
  presentation_new :: "string \<Rightarrow> bool"
  presentation_format ::
    "string \<Rightarrow> string \<Rightarrow> int \<Rightarrow> int \<Rightarrow> bool \<Rightarrow> bool \<Rightarrow> bool \<Rightarrow> double \<Rightarrow> double \<Rightarrow> nat \<Rightarrow> string option"
  next_tick :: "string \<Rightarrow> int \<Rightarrow> int \<Rightarrow> bool \<Rightarrow> double \<Rightarrow> double \<Rightarrow> nat option"
  date_provider_new :: bool
  format_date :: "bool \<Rightarrow> string \<Rightarrow> int \<Rightarrow> int \<Rightarrow> int \<Rightarrow> string option"
  language :: string

definition G_USEC_PER_SEC :: int where "G_USEC_PER_SEC = 1000000"

definition unix_us :: "instant \<Rightarrow> int" where
  "unix_us time = unix_seconds time * G_USEC_PER_SEC + microsecond time"

text \<open>The division of C rounds towards zero.\<close>

definition offset_seconds :: "instant \<Rightarrow> int" where
  "offset_seconds time =
     (if utc_offset_us time < 0 then - (- utc_offset_us time div G_USEC_PER_SEC) else utc_offset_us time div G_USEC_PER_SEC)"

definition calendar_name :: "common \<Rightarrow> string \<Rightarrow> string" where
  "calendar_name cm c = (case map_of (calendar_catalogue cm) c of None \<Rightarrow> c | Some name \<Rightarrow> name)"

text \<open>An em dash and a bullet in UTF-8.\<close>

definition em_dash :: string where "em_dash = [CHR 0xE2, CHR 0x80, CHR 0x94]"
definition bullet :: string where "bullet = [CHR 0xE2, CHR 0x80, CHR 0xA2]"

definition location_required_text :: "string \<Rightarrow> string" where
  "location_required_text name = name @ '' '' @ em_dash @ '' location required''"

definition resource_unavailable_text :: "string \<Rightarrow> string" where
  "resource_unavailable_text name = name @ '' '' @ em_dash @ '' resource unavailable''"

definition display_unavailable_text :: "string \<Rightarrow> string" where
  "display_unavailable_text name = name @ '' '' @ em_dash @ '' display unavailable''"

section \<open>An instance\<close>

text \<open>Every mode is installed, ticks every two minutes and shows its own name.\<close>

definition sample_runtime :: runtime where
  "sample_runtime = \<lparr>presentation_new = (\<lambda>_. True), presentation_format = (\<lambda>m _ _ _ _ _ _ _ _ n. Some (take (n - 1) m)),
     next_tick = (\<lambda>_ _ _ _ _ _. Some 120000), date_provider_new = True, format_date = (\<lambda>_ c _ _ _. Some c), language = ''en''\<rparr>"

definition sample_instant :: instant where
  "sample_instant = \<lparr>unix_seconds = 0, microsecond = 0, utc_offset_us = 0, civil_year = 1970, civil_month = 1, civil_day = 1\<rparr>"

end
