(* ===== verification/DatePreview.thy ===== *)
theory DatePreview
  imports ClockResources
begin

text \<open>
  \<open>linux-date-time-preview.c\<close> and its boundary: the live clock and date of the panel. The labels are their
  texts, the main loop is the list of pending sources, and what the panel shows the preview of itself is a
  \<open>host\<close>. The current time is an argument of every operation that reads it, \<open>None\<close> when it cannot be read.
\<close>

section \<open>State\<close>

datatype preview_source = Preview_timer nat | Preview_idle

record preview =
  pv_clock_label :: "string option"
  pv_date_label :: "string option"
  pv_provider :: bool
  pv_presentation :: "string option"
  pv_presentation_id :: "string option"
  pv_timer_id :: nat
  pv_idle_id :: nat
  pv_year :: int
  pv_month :: int
  pv_day :: int
  pv_calendar :: "string option"
  pv_cache_valid :: bool
  pv_sources :: "(nat \<times> preview_source) list"
  pv_next_source :: nat

text \<open>The root widget is \<open>None\<close> for a null pointer, otherwise whether it is mapped.\<close>

record host =
  host_policy :: "policy option"
  host_region :: regional_context
  host_uses_24h :: bool
  host_root :: "bool option"

definition preview_host :: "linux_lib \<Rightarrow> kernel \<Rightarrow> bool option \<Rightarrow> panel \<Rightarrow> host" where
  "preview_host L k widget p = \<lparr>host_policy = ss_date_time_model_policy (model p), host_region = regional p,
     host_uses_24h = ss_linux_date_time_panel_desktop_uses_24h L k p, host_root = widget\<rparr>"

section \<open>Formatting\<close>

definition ensure_calendar_date_provider :: "runtime \<Rightarrow> preview \<Rightarrow> preview" where
  "ensure_calendar_date_provider R pv = (if pv_provider pv then pv else pv\<lparr>pv_provider := date_provider_new R\<rparr>)"

definition ensure_clock_presentation :: "runtime \<Rightarrow> string \<Rightarrow> preview \<Rightarrow> string option \<times> preview" where
  "ensure_clock_presentation R clock_id pv =
     (let pv1 = (if pv_presentation_id pv = Some clock_id then pv
                 else pv\<lparr>pv_presentation_id := Some clock_id,
                         pv_presentation := (if presentation_new R clock_id then Some clock_id else None)\<rparr>)
      in (pv_presentation pv1, pv1))"

definition preview_coordinates :: "host \<Rightarrow> (double \<times> double) option" where
  "preview_coordinates h =
     (case host_policy h of
        Some p \<Rightarrow>
          if location_configured p then Some (latitude p, longitude p)
          else if has_reference_coordinates (host_region h)
          then Some (reference_latitude (host_region h), reference_longitude (host_region h)) else None
      | None \<Rightarrow>
          if has_reference_coordinates (host_region h)
          then Some (reference_latitude (host_region h), reference_longitude (host_region h)) else None)"

definition effective_mode :: "host \<Rightarrow> policy \<Rightarrow> string" where
  "effective_mode h p =
     (if clock_mode p = ''standard'' then ss_native_clock_mode_id (host_uses_24h h) else clock_mode p)"

text \<open>The text written to the buffer, \<open>None\<close> for false.\<close>

definition format_preview_at ::
  "common \<Rightarrow> runtime \<Rightarrow> host \<Rightarrow> instant \<Rightarrow> nat \<Rightarrow> preview \<Rightarrow> string option \<times> preview" where
  "format_preview_at cm R h time capacity pv =
     (case host_policy h of
        None \<Rightarrow> (None, pv)
      | Some p \<Rightarrow>
          (if capacity = 0 then (None, pv)
           else
             (let id = effective_mode h p in
              case clock_mode_find cm id of
                None \<Rightarrow> (None, pv)
              | Some mode \<Rightarrow>
                  (let place = preview_coordinates h in
                   if (requires_latitude mode \<or> requires_longitude mode) \<and> place = None
                   then (Some (take (capacity - 1) (location_required_text (mode_name mode))), pv)
                   else
                     (case ensure_clock_presentation R id pv of
                        (None, pv1) \<Rightarrow> (Some (take (capacity - 1) (resource_unavailable_text (mode_name mode))), pv1)
                      | (Some handle, pv1) \<Rightarrow>
                          (let (lat, lon) = (case place of None \<Rightarrow> (dzero, dzero) | Some c \<Rightarrow> c) in
                           case presentation_format R handle (language R) (unix_us time) (offset_seconds time) (show_seconds p)
                                  False (place \<noteq> None) lat lon capacity of
                             None \<Rightarrow> (Some (take (capacity - 1) (display_unavailable_text (mode_name mode))), pv1)
                           | Some t \<Rightarrow> (Some t, pv1)))))))"

definition CLOCK_TEXT :: nat where "CLOCK_TEXT = 160"

definition date_summary :: "common \<Rightarrow> string \<Rightarrow> string option \<Rightarrow> string" where
  "date_summary cm cal formatted =
     calendar_name cm cal @ '' '' @ bullet @ '' '' @ (case formatted of Some d \<Rightarrow> d | None \<Rightarrow> ''resource unavailable'')"

definition refresh_clock :: "common \<Rightarrow> runtime \<Rightarrow> host \<Rightarrow> instant \<Rightarrow> preview \<Rightarrow> preview" where
  "refresh_clock cm R h time pv =
     (case format_preview_at cm R h time CLOCK_TEXT pv of
        (Some t, pv1) \<Rightarrow> if pv_clock_label pv1 \<noteq> Some t then pv1\<lparr>pv_clock_label := Some t\<rparr> else pv1
      | (None, pv1) \<Rightarrow> pv1)"

definition date_cache_hit :: "policy \<Rightarrow> instant \<Rightarrow> preview \<Rightarrow> bool" where
  "date_cache_hit p time pv \<longleftrightarrow>
     pv_cache_valid pv \<and> pv_year pv = civil_year time \<and> pv_month pv = civil_month time \<and> pv_day pv = civil_day time \<and>
     pv_calendar pv = Some (calendar p)"

definition refresh_date :: "common \<Rightarrow> runtime \<Rightarrow> policy \<Rightarrow> instant \<Rightarrow> preview \<Rightarrow> preview" where
  "refresh_date cm R p time pv =
     (if date_cache_hit p time pv then pv
      else
        (let pv1 = ensure_calendar_date_provider R pv;
             formatted = format_date R (pv_provider pv1) (calendar p) (civil_year time) (civil_month time) (civil_day time);
             summary = date_summary cm (calendar p) formatted;
             pv2 = (if pv_date_label pv1 \<noteq> Some summary then pv1\<lparr>pv_date_label := Some summary\<rparr> else pv1)
         in if formatted \<noteq> None
            then pv2\<lparr>pv_year := civil_year time, pv_month := civil_month time, pv_day := civil_day time,
                     pv_calendar := Some (calendar p), pv_cache_valid := True\<rparr>
            else pv2))"

definition ss_linux_date_time_preview_refresh ::
  "common \<Rightarrow> runtime \<Rightarrow> host \<Rightarrow> instant option \<Rightarrow> preview \<Rightarrow> preview" where
  "ss_linux_date_time_preview_refresh cm R h time pv =
     (if pv_clock_label pv = None \<or> pv_date_label pv = None then pv
      else
        (case (time, host_policy h) of
           (Some t, Some p) \<Rightarrow> refresh_date cm R p t (refresh_clock cm R h t pv)
         | _ \<Rightarrow> pv))"

section \<open>Timing\<close>

definition add_source :: "preview_source \<Rightarrow> preview \<Rightarrow> nat \<times> preview" where
  "add_source s pv =
     (pv_next_source pv, pv\<lparr>pv_sources := (pv_next_source pv, s) # pv_sources pv, pv_next_source := pv_next_source pv + 1\<rparr>)"

definition remove_source :: "nat \<Rightarrow> preview \<Rightarrow> preview" where
  "remove_source i pv = pv\<lparr>pv_sources := filter (\<lambda>(j, s). j \<noteq> i) (pv_sources pv)\<rparr>"

definition stop_preview_timer :: "preview \<Rightarrow> preview" where
  "stop_preview_timer pv =
     (if pv_timer_id pv \<noteq> 0 then (remove_source (pv_timer_id pv) pv)\<lparr>pv_timer_id := 0\<rparr> else pv)"

definition ss_linux_date_time_panel_preview_interval_ms :: "host \<Rightarrow> nat" where
  "ss_linux_date_time_panel_preview_interval_ms h =
     (case host_policy h of
        None \<Rightarrow> 1000
      | Some p \<Rightarrow>
          if \<not> show_seconds p then 1000
          else if clock_mode p = ''standard'' \<or> clock_mode p = ''standard-12'' \<or> clock_mode p = ''standard-24'' then 1000
          else 250)"

definition next_preview_boundary_ms ::
  "common \<Rightarrow> runtime \<Rightarrow> host \<Rightarrow> instant option \<Rightarrow> preview \<Rightarrow> nat \<times> preview" where
  "next_preview_boundary_ms cm R h time pv =
     (case host_policy h of
        None \<Rightarrow> (1000, pv)
      | Some p \<Rightarrow>
          (let id = effective_mode h p in
           case ensure_clock_presentation R id pv of
             (None, pv1) \<Rightarrow> (60000, pv1)
           | (Some handle, pv1) \<Rightarrow>
               (let place = preview_coordinates h;
                    placeless = (case clock_mode_find cm id of
                                   None \<Rightarrow> False
                                 | Some mode \<Rightarrow> (requires_latitude mode \<or> requires_longitude mode) \<and> place = None);
                    (lat, lon) = (case place of None \<Rightarrow> (dzero, dzero) | Some c \<Rightarrow> c)
                in if placeless then (60000, pv1)
                   else
                     (case time of
                        None \<Rightarrow> (ss_linux_date_time_panel_preview_interval_ms h, pv1)
                      | Some t \<Rightarrow>
                          (case next_tick R handle (unix_us t) (offset_seconds t) (show_seconds p) lat lon of
                             Some tick \<Rightarrow> if 0 < tick then (min tick 60000, pv1)
                                         else (ss_linux_date_time_panel_preview_interval_ms h, pv1)
                           | None \<Rightarrow> (ss_linux_date_time_panel_preview_interval_ms h, pv1))))))"

definition ss_linux_date_time_preview_restart ::
  "common \<Rightarrow> runtime \<Rightarrow> host \<Rightarrow> instant option \<Rightarrow> preview \<Rightarrow> preview" where
  "ss_linux_date_time_preview_restart cm R h time pv =
     (if host_root h \<noteq> Some True then pv
      else
        (let pv1 = stop_preview_timer pv;
             (ms, pv2) = next_preview_boundary_ms cm R h time pv1;
             (i, pv3) = add_source (Preview_timer ms) pv2
         in pv3\<lparr>pv_timer_id := i\<rparr>))"

text \<open>The two readings of the clock in one tick are separate.\<close>

definition preview_timer_once ::
  "common \<Rightarrow> runtime \<Rightarrow> host \<Rightarrow> instant option \<Rightarrow> instant option \<Rightarrow> preview \<Rightarrow> preview" where
  "preview_timer_once cm R h time later pv =
     ss_linux_date_time_preview_restart cm R h later
       (ss_linux_date_time_preview_refresh cm R h time (pv\<lparr>pv_timer_id := 0\<rparr>))"

definition refresh_preview_once :: "common \<Rightarrow> runtime \<Rightarrow> host \<Rightarrow> instant option \<Rightarrow> preview \<Rightarrow> preview" where
  "refresh_preview_once cm R h time pv = ss_linux_date_time_preview_refresh cm R h time (pv\<lparr>pv_idle_id := 0\<rparr>)"

text \<open>The main loop runs a pending source and drops it, since both callbacks ask for that.\<close>

definition fire_preview ::
  "common \<Rightarrow> runtime \<Rightarrow> host \<Rightarrow> instant option \<Rightarrow> instant option \<Rightarrow> nat \<Rightarrow> preview \<Rightarrow> preview" where
  "fire_preview cm R h time later i pv =
     (case map_of (pv_sources pv) i of
        None \<Rightarrow> pv
      | Some (Preview_timer ms) \<Rightarrow> remove_source i (preview_timer_once cm R h time later pv)
      | Some Preview_idle \<Rightarrow> remove_source i (refresh_preview_once cm R h time pv))"

definition on_panel_mapped ::
  "common \<Rightarrow> runtime \<Rightarrow> host \<Rightarrow> instant option \<Rightarrow> instant option \<Rightarrow> preview \<Rightarrow> preview" where
  "on_panel_mapped cm R h time later pv =
     (let pv1 = ss_linux_date_time_preview_refresh cm R h time pv
      in if pv_timer_id pv1 = 0 then ss_linux_date_time_preview_restart cm R h later pv1 else pv1)"

definition on_panel_unmapped :: "preview \<Rightarrow> preview" where
  "on_panel_unmapped pv = stop_preview_timer pv"

definition ss_linux_date_time_preview_init :: "runtime \<Rightarrow> preview \<Rightarrow> preview" where
  "ss_linux_date_time_preview_init R pv = ensure_calendar_date_provider R pv"

definition ss_linux_date_time_preview_schedule_initial :: "preview \<Rightarrow> preview" where
  "ss_linux_date_time_preview_schedule_initial pv =
     (if pv_idle_id pv \<noteq> 0 then pv else (let (i, pv1) = add_source Preview_idle pv in pv1\<lparr>pv_idle_id := i\<rparr>))"

definition ss_linux_date_time_preview_dispose :: "preview \<Rightarrow> preview" where
  "ss_linux_date_time_preview_dispose pv =
     (let pv1 = stop_preview_timer pv;
          pv2 = (if pv_idle_id pv1 \<noteq> 0 then (remove_source (pv_idle_id pv1) pv1)\<lparr>pv_idle_id := 0\<rparr> else pv1)
      in pv2\<lparr>pv_calendar := None, pv_presentation := None, pv_presentation_id := None, pv_provider := False,
             pv_cache_valid := False\<rparr>)"

text \<open>The state of a new panel: zeroed, the labels made.\<close>

definition new_preview :: preview where
  "new_preview = \<lparr>pv_clock_label = Some [], pv_date_label = Some [], pv_provider = False, pv_presentation = None,
     pv_presentation_id = None, pv_timer_id = 0, pv_idle_id = 0, pv_year = 0, pv_month = 0, pv_day = 0, pv_calendar = None,
     pv_cache_valid = False, pv_sources = [], pv_next_source = 1\<rparr>"

section \<open>The event loop\<close>

text \<open>
  A state is whether the panel is on the screen and the preview. What the panel shows and the time may be
  different at every event, and so may Common and its resources within the set \<open>E\<close>.
\<close>

inductive preview_step :: "(common \<times> runtime) set \<Rightarrow> bool \<times> preview \<Rightarrow> bool \<times> preview \<Rightarrow> bool" for E where
  mapped: "(cm, R) \<in> E \<Longrightarrow> host_root h = Some True \<Longrightarrow>
     preview_step E (v, pv) (True, on_panel_mapped cm R h time later pv)"
| unmapped: "preview_step E (v, pv) (False, on_panel_unmapped pv)"
| fired: "(cm, R) \<in> E \<Longrightarrow> host_root h = Some v \<Longrightarrow> preview_step E (v, pv) (v, fire_preview cm R h time later i pv)"
| refreshed: "(cm, R) \<in> E \<Longrightarrow> preview_step E (v, pv) (v, ss_linux_date_time_preview_refresh cm R h time pv)"
| restarted: "(cm, R) \<in> E \<Longrightarrow> host_root h = Some v \<Longrightarrow>
     preview_step E (v, pv) (v, ss_linux_date_time_preview_restart cm R h later pv)"
| initial: "preview_step E (v, pv) (v, ss_linux_date_time_preview_schedule_initial pv)"

text \<open>Every source is the one its identifier field names, and the delays are within a minute.\<close>

definition sources_ok :: "(nat \<times> preview_source) list \<Rightarrow> nat \<Rightarrow> nat \<Rightarrow> nat \<Rightarrow> bool" where
  "sources_ok srcs next timer idle \<longleftrightarrow> distinct (map fst srcs) \<and> 0 < next \<and>
     (\<forall>(i, s) \<in> set srcs. 0 < i \<and> i < next \<and>
        (case s of Preview_timer ms \<Rightarrow> i = timer \<and> 0 < ms \<and> ms \<le> 60000 | Preview_idle \<Rightarrow> i = idle)) \<and>
     (timer \<noteq> 0 \<longrightarrow> (\<exists>ms. (timer, Preview_timer ms) \<in> set srcs)) \<and> (idle \<noteq> 0 \<longrightarrow> (idle, Preview_idle) \<in> set srcs)"

definition preview_ok :: "preview \<Rightarrow> bool" where
  "preview_ok pv \<longleftrightarrow> sources_ok (pv_sources pv) (pv_next_source pv) (pv_timer_id pv) (pv_idle_id pv)"

text \<open>Formatting touches no source.\<close>

definition scheduling :: "preview \<Rightarrow> (nat \<times> preview_source) list \<times> nat \<times> nat \<times> nat" where
  "scheduling pv = (pv_sources pv, pv_next_source pv, pv_timer_id pv, pv_idle_id pv)"

lemma scheduling_ok: "scheduling pv' = scheduling pv \<Longrightarrow> preview_ok pv' = preview_ok pv \<and> pv_timer_id pv' = pv_timer_id pv"
  by (simp add: preview_ok_def scheduling_def)

lemma scheduling_update [simp]:
  "scheduling (pv\<lparr>pv_clock_label := a\<rparr>) = scheduling pv" "scheduling (pv\<lparr>pv_date_label := a\<rparr>) = scheduling pv"
  "scheduling (pv\<lparr>pv_presentation_id := a, pv_presentation := b\<rparr>) = scheduling pv" "scheduling (pv\<lparr>pv_provider := c\<rparr>) = scheduling pv"
  "scheduling (pv\<lparr>pv_year := y, pv_month := mo, pv_day := d, pv_calendar := a, pv_cache_valid := c\<rparr>) = scheduling pv"
  by (simp_all add: scheduling_def)

lemma presentation_scheduling: "scheduling (snd (ensure_clock_presentation R m pv)) = scheduling pv"
  by (simp add: ensure_clock_presentation_def)

lemma presentation_same: "ensure_clock_presentation R m pv = (x, pv') \<Longrightarrow> scheduling pv' = scheduling pv"
  using presentation_scheduling[of R m pv] by simp

lemma format_same: "format_preview_at cm R h t n pv = (x, pv') \<Longrightarrow> scheduling pv' = scheduling pv"
  by (auto simp: format_preview_at_def Let_def presentation_same split: option.splits prod.splits if_splits)

lemma clock_same: "scheduling (refresh_clock cm R h t pv) = scheduling pv"
proof -
  obtain x pv1 where f: "format_preview_at cm R h t CLOCK_TEXT pv = (x, pv1)" by (rule prod.exhaust)
  with format_same[OF f] show ?thesis by (simp add: refresh_clock_def split: option.split)
qed

lemma date_same: "scheduling (refresh_date cm R p t pv) = scheduling pv"
  by (simp add: refresh_date_def ensure_calendar_date_provider_def Let_def)

lemma refresh_same: "scheduling (ss_linux_date_time_preview_refresh cm R h t pv) = scheduling pv"
  by (simp add: ss_linux_date_time_preview_refresh_def clock_same date_same split: option.split)

lemma interval_bounds: "0 < ss_linux_date_time_panel_preview_interval_ms h \<and> ss_linux_date_time_panel_preview_interval_ms h \<le> 1000"
  by (simp add: ss_linux_date_time_panel_preview_interval_ms_def split: option.split)

lemma boundary_bounds:
  assumes "next_preview_boundary_ms cm R h t pv = (ms, pv')"
  shows "0 < ms \<and> ms \<le> 60000 \<and> scheduling pv' = scheduling pv"
proof (cases "host_policy h")
  case None
  with assms show ?thesis by (simp add: next_preview_boundary_ms_def)
next
  case (Some p)
  obtain x pv1 where e: "ensure_clock_presentation R (effective_mode h p) pv = (x, pv1)" by (rule prod.exhaust)
  have i: "ss_linux_date_time_panel_preview_interval_ms h \<le> 60000" using interval_bounds[of h] by simp
  from assms Some e have "pv' = pv1 \<and> 0 < ms \<and> ms \<le> 60000"
    using i interval_bounds[of h]
    by (auto simp: next_preview_boundary_ms_def Let_def split: option.splits prod.splits if_splits)
  with presentation_same[OF e] show ?thesis by simp
qed

lemma sources_remove:
  assumes "sources_ok srcs next timer idle"
  shows "sources_ok (filter (\<lambda>(j, s). j \<noteq> timer) srcs) next 0 idle" "sources_ok (filter (\<lambda>(j, s). j \<noteq> idle) srcs) next timer 0"
proof -
  have d: "distinct (map fst srcs)" and m: "\<And>i s. (i, s) \<in> set srcs \<Longrightarrow> 0 < i \<and> i < next \<and>
        (case s of Preview_timer ms \<Rightarrow> i = timer \<and> 0 < ms \<and> ms \<le> 60000 | Preview_idle \<Rightarrow> i = idle)"
    and t: "timer \<noteq> 0 \<Longrightarrow> \<exists>ms. (timer, Preview_timer ms) \<in> set srcs" and u: "idle \<noteq> 0 \<Longrightarrow> (idle, Preview_idle) \<in> set srcs"
    and n: "0 < next"
    using assms by (auto simp: sources_ok_def)
  have e: "timer \<noteq> 0 \<Longrightarrow> idle \<noteq> timer" using t u eq_key_imp_eq_value[OF d] by (metis preview_source.distinct(1))
  have f: "distinct (map fst (filter P srcs))" for P using d by (rule distinct_map_filter)
  show "sources_ok (filter (\<lambda>(j, s). j \<noteq> timer) srcs) next 0 idle"
    unfolding sources_ok_def using f n m u e by (auto split: preview_source.splits dest!: m)
  show "sources_ok (filter (\<lambda>(j, s). j \<noteq> idle) srcs) next timer 0"
    unfolding sources_ok_def using f n m t e by (auto split: preview_source.splits dest!: m)
qed

lemma stop_ok: "preview_ok pv \<Longrightarrow> preview_ok (stop_preview_timer pv) \<and> pv_timer_id (stop_preview_timer pv) = 0"
  using sources_remove(1)[of "pv_sources pv" "pv_next_source pv" "pv_timer_id pv" "pv_idle_id pv"]
  by (cases "pv_timer_id pv = 0") (simp_all add: preview_ok_def stop_preview_timer_def remove_source_def)

lemma sources_add:
  assumes "sources_ok srcs next timer idle"
  shows "timer = 0 \<Longrightarrow> 0 < ms \<Longrightarrow> ms \<le> 60000 \<Longrightarrow> sources_ok ((next, Preview_timer ms) # srcs) (next + 1) next idle"
    "idle = 0 \<Longrightarrow> sources_ok ((next, Preview_idle) # srcs) (next + 1) timer next"
proof -
  have d: "next \<notin> fst ` set srcs" using assms by (auto simp: sources_ok_def)
  have m: "\<And>i s. (i, s) \<in> set srcs \<Longrightarrow> 0 < i \<and> i < next \<and>
        (case s of Preview_timer ms \<Rightarrow> i = timer \<and> 0 < ms \<and> ms \<le> 60000 | Preview_idle \<Rightarrow> i = idle)"
    using assms by (auto simp: sources_ok_def)
  show "timer = 0 \<Longrightarrow> 0 < ms \<Longrightarrow> ms \<le> 60000 \<Longrightarrow> sources_ok ((next, Preview_timer ms) # srcs) (next + 1) next idle"
    "idle = 0 \<Longrightarrow> sources_ok ((next, Preview_idle) # srcs) (next + 1) timer next"
    using assms d unfolding sources_ok_def by (auto split: preview_source.splits dest!: m)
qed

lemma add_timer_ok:
  assumes "preview_ok pv" "pv_timer_id pv = 0" "add_source (Preview_timer ms) pv = (i, pv')" "0 < ms" "ms \<le> 60000"
  shows "preview_ok (pv'\<lparr>pv_timer_id := i\<rparr>) \<and> 0 < i"
proof -
  have "0 < pv_next_source pv" using assms(1) by (simp add: preview_ok_def sources_ok_def)
  with assms sources_add(1) show ?thesis by (auto simp: preview_ok_def add_source_def)
qed

lemma restart_ok:
  assumes "preview_ok pv" "host_root h = Some v"
  shows "preview_ok (ss_linux_date_time_preview_restart cm R h t pv) \<and>
    (v \<longrightarrow> 0 < pv_timer_id (ss_linux_date_time_preview_restart cm R h t pv)) \<and>
    (\<not> v \<longrightarrow> ss_linux_date_time_preview_restart cm R h t pv = pv)"
proof (cases v)
  case True
  obtain ms pv2 where b: "next_preview_boundary_ms cm R h t (stop_preview_timer pv) = (ms, pv2)" by (rule prod.exhaust)
  obtain i pv3 where a: "add_source (Preview_timer ms) pv2 = (i, pv3)" by (rule prod.exhaust)
  note B = boundary_bounds[OF b]
  have "preview_ok pv2" "pv_timer_id pv2 = 0" using stop_ok[OF assms(1)] B scheduling_ok[of pv2] by metis+
  from add_timer_ok[OF this a] B have "preview_ok (pv3\<lparr>pv_timer_id := i\<rparr>) \<and> 0 < i" by blast
  with True assms(2) b a show ?thesis by (simp add: ss_linux_date_time_preview_restart_def)
next
  case False
  with assms show ?thesis by (simp add: ss_linux_date_time_preview_restart_def)
qed

lemma schedule_initial_ok:
  assumes "preview_ok pv"
  shows "preview_ok (ss_linux_date_time_preview_schedule_initial pv) \<and>
    pv_timer_id (ss_linux_date_time_preview_schedule_initial pv) = pv_timer_id pv"
  using assms sources_add(2) by (auto simp: preview_ok_def ss_linux_date_time_preview_schedule_initial_def add_source_def)

lemma restart_scheduling:
  assumes "pv_timer_id pv = 0" "host_root h = Some True"
  shows "\<exists>ms. 0 < ms \<and> ms \<le> 60000 \<and> scheduling (ss_linux_date_time_preview_restart cm R h t pv) =
    ((pv_next_source pv, Preview_timer ms) # pv_sources pv, pv_next_source pv + 1, pv_next_source pv, pv_idle_id pv)"
proof -
  obtain ms pv1 where b: "next_preview_boundary_ms cm R h t pv = (ms, pv1)" by (rule prod.exhaust)
  have "stop_preview_timer pv = pv" using assms(1) by (simp add: stop_preview_timer_def)
  with assms b boundary_bounds[OF b] show ?thesis
    by (auto simp: ss_linux_date_time_preview_restart_def add_source_def scheduling_def)
qed

text \<open>The timer fires: its own source goes, and on the screen another one takes its place.\<close>

lemma preview_timer_ok:
  assumes ok: "preview_ok pv" and h: "host_root h = Some v" and m: "map_of (pv_sources pv) i = Some (Preview_timer ms)"
  shows "preview_ok (fire_preview cm R h t t' i pv) \<and> pv_timer_id pv \<noteq> 0 \<and> (pv_timer_id (fire_preview cm R h t t' i pv) \<noteq> 0 \<longleftrightarrow> v)"
proof -
  have i: "i = pv_timer_id pv" "0 < i" "i < pv_next_source pv"
    using ok map_of_SomeD[OF m] by (auto simp: preview_ok_def sources_ok_def)
  define pv0 where "pv0 = ss_linux_date_time_preview_refresh cm R h t (pv\<lparr>pv_timer_id := 0\<rparr>)"
  have s0: "scheduling pv0 = (pv_sources pv, pv_next_source pv, 0, pv_idle_id pv)"
    using refresh_same[of cm R h t "pv\<lparr>pv_timer_id := 0\<rparr>"] by (simp add: pv0_def scheduling_def)
  have f: "fire_preview cm R h t t' i pv = remove_source i (ss_linux_date_time_preview_restart cm R h t' pv0)"
    by (simp add: fire_preview_def m preview_timer_once_def flip: pv0_def)
  have rest: "sources_ok (filter (\<lambda>(j, s). j \<noteq> i) (pv_sources pv)) (pv_next_source pv) 0 (pv_idle_id pv)"
    using sources_remove(1) ok i(1) by (simp add: preview_ok_def)
  show ?thesis
  proof (cases v)
    case True
    with h s0 restart_scheduling[of pv0 h cm R t'] obtain n where n: "0 < n" "n \<le> 60000"
      "scheduling (ss_linux_date_time_preview_restart cm R h t' pv0) =
         ((pv_next_source pv, Preview_timer n) # pv_sources pv, pv_next_source pv + 1, pv_next_source pv, pv_idle_id pv)"
      by (auto simp: scheduling_def)
    have "sources_ok ((pv_next_source pv, Preview_timer n) # filter (\<lambda>(j, s). j \<noteq> i) (pv_sources pv)) (pv_next_source pv + 1)
        (pv_next_source pv) (pv_idle_id pv)"
      using sources_add(1)[OF rest _ n(1,2)] by simp
    moreover have "pv_next_source pv \<noteq> i" using i(3) by simp
    ultimately show ?thesis using n(3) i True
      unfolding f preview_ok_def scheduling_def remove_source_def by simp
  next
    case False
    with h have "ss_linux_date_time_preview_restart cm R h t' pv0 = pv0" by (simp add: ss_linux_date_time_preview_restart_def)
    with rest s0 False i(2) show ?thesis unfolding f preview_ok_def scheduling_def remove_source_def using i(1) by simp
  qed
qed

lemma fire_idle_ok:
  assumes ok: "preview_ok pv" and m: "map_of (pv_sources pv) i = Some Preview_idle"
  shows "preview_ok (fire_preview cm R h t t' i pv) \<and> pv_timer_id (fire_preview cm R h t t' i pv) = pv_timer_id pv"
proof -
  have i: "i = pv_idle_id pv" using ok map_of_SomeD[OF m] by (auto simp: preview_ok_def sources_ok_def)
  have "scheduling (refresh_preview_once cm R h t pv) = (pv_sources pv, pv_next_source pv, pv_timer_id pv, 0)"
    by (simp add: refresh_preview_once_def refresh_same) (simp add: scheduling_def)
  moreover have "fire_preview cm R h t t' i pv = remove_source i (refresh_preview_once cm R h t pv)" by (simp add: fire_preview_def m)
  ultimately show ?thesis using sources_remove(2) ok i by (simp add: preview_ok_def scheduling_def remove_source_def)
qed

lemma mapped_ok:
  assumes "preview_ok pv" "host_root h = Some True"
  shows "preview_ok (on_panel_mapped cm R h t t' pv) \<and> pv_timer_id (on_panel_mapped cm R h t t' pv) \<noteq> 0"
proof -
  define pv1 where "pv1 = ss_linux_date_time_preview_refresh cm R h t pv"
  have ok: "preview_ok pv1" using assms(1) scheduling_ok[OF refresh_same] by (simp add: pv1_def)
  show ?thesis using ok restart_ok[OF ok assms(2), of cm R t'] by (simp add: on_panel_mapped_def flip: pv1_def)
qed

lemma dispose_empty:
  assumes "preview_ok pv"
  shows "pv_sources (ss_linux_date_time_preview_dispose pv) = []"
proof -
  have "sources_ok srcs n 0 0 \<Longrightarrow> srcs = []" for srcs n
    by (cases srcs; cases "snd (hd srcs)") (auto simp: sources_ok_def)
  moreover have "sources_ok (pv_sources (ss_linux_date_time_preview_dispose pv)) (pv_next_source pv) 0 0"
  proof -
    have s: "preview_ok (stop_preview_timer pv)" "pv_timer_id (stop_preview_timer pv) = 0"
      "pv_next_source (stop_preview_timer pv) = pv_next_source pv"
      using stop_ok[OF assms] by (auto simp: stop_preview_timer_def remove_source_def)
    then have "sources_ok (pv_sources (stop_preview_timer pv)) (pv_next_source pv) 0 (pv_idle_id (stop_preview_timer pv))"
      by (simp add: preview_ok_def)
    from this sources_remove(2)[OF this] show ?thesis
      by (cases "pv_idle_id (stop_preview_timer pv) = 0")
         (simp_all add: ss_linux_date_time_preview_dispose_def remove_source_def Let_def)
  qed
  ultimately show ?thesis by blast
qed

lemma step_ok:
  assumes "preview_step E (v, pv) (v', pv')" "preview_ok pv" "v \<longleftrightarrow> pv_timer_id pv \<noteq> 0"
  shows "preview_ok pv' \<and> (v' \<longleftrightarrow> pv_timer_id pv' \<noteq> 0)"
  using assms(1)
proof (cases rule: preview_step.cases)
  case (mapped h cm R t t')
  then show ?thesis using mapped_ok[OF assms(2)] by simp
next
  case unmapped
  then show ?thesis using stop_ok[OF assms(2)] by (simp add: on_panel_unmapped_def)
next
  case (fired h cm R t t' i)
  show ?thesis
  proof (cases "map_of (pv_sources pv) i")
    case None
    with fired assms show ?thesis by (simp add: fire_preview_def)
  next
    case (Some s)
    then show ?thesis
      using fired assms(3) preview_timer_ok[OF assms(2)] fire_idle_ok[OF assms(2)] by (cases s) simp_all
  qed
next
  case (refreshed cm R h t)
  then show ?thesis using assms(2,3) scheduling_ok[OF refresh_same] by simp
next
  case (restarted cm R h t)
  then show ?thesis using assms(2,3) restart_ok[OF assms(2), of h v cm R t] by (cases v) simp_all
next
  case initial
  then show ?thesis using assms(3) schedule_initial_ok[OF assms(2)] by simp
qed

lemma new_preview_ok: "preview_ok new_preview" "pv_timer_id new_preview = 0"
  by (simp_all add: preview_ok_def sources_ok_def new_preview_def)

lemma run_ok:
  assumes "(preview_step E)\<^sup>*\<^sup>* (False, new_preview) s"
  shows "preview_ok (snd s) \<and> (fst s \<longleftrightarrow> pv_timer_id (snd s) \<noteq> 0)"
  using assms
proof (induction rule: rtranclp_induct)
  case base
  then show ?case using new_preview_ok by simp
next
  case (step s s')
  obtain v pv v' pv' where "s = (v, pv)" "s' = (v', pv')" by (cases s; cases s')
  with step step_ok[of E v pv v' pv'] show ?case by simp
qed

section \<open>What the labels show\<close>

text \<open>The caches agree with the resources: with the same resources, and every date formatted, they are the values themselves.\<close>

definition caches_ok :: "common \<Rightarrow> runtime \<Rightarrow> preview \<Rightarrow> bool" where
  "caches_ok cm R pv \<longleftrightarrow>
     pv_clock_label pv \<noteq> None \<and> pv_date_label pv \<noteq> None \<and> (pv_provider pv \<longrightarrow> date_provider_new R) \<and>
     (\<forall>m. pv_presentation_id pv = Some m \<longrightarrow> pv_presentation pv = (if presentation_new R m then Some m else None)) \<and>
     (pv_cache_valid pv \<longrightarrow> (\<exists>cal. pv_calendar pv = Some cal \<and> pv_date_label pv =
        Some (date_summary cm cal (format_date R (date_provider_new R) cal (pv_year pv) (pv_month pv) (pv_day pv)))))"

definition dates_available :: "runtime \<Rightarrow> bool" where
  "dates_available R \<longleftrightarrow> (\<forall>cal y m d. format_date R (date_provider_new R) cal y m d \<noteq> None)"

lemma ensure_caches: "caches_ok cm R pv \<Longrightarrow> ensure_clock_presentation R m pv = (x, pv') \<Longrightarrow>
    caches_ok cm R pv' \<and> x = (if presentation_new R m then Some m else None) \<and> pv_clock_label pv' = pv_clock_label pv"
  by (auto simp: ensure_clock_presentation_def Let_def caches_ok_def split: if_splits)

lemma format_caches:
  assumes "caches_ok cm R pv" "format_preview_at cm R h t n pv = (x, pv')" "caches_ok cm R pw"
  shows "caches_ok cm R pv' \<and> x = fst (format_preview_at cm R h t n pw) \<and> pv_clock_label pv' = pv_clock_label pv"
proof (cases "host_policy h")
  case None
  with assms show ?thesis by (simp add: format_preview_at_def)
next
  case (Some p)
  obtain y pv1 where e: "ensure_clock_presentation R (effective_mode h p) pv = (y, pv1)" by (rule prod.exhaust)
  obtain z pw1 where f: "ensure_clock_presentation R (effective_mode h p) pw = (z, pw1)" by (rule prod.exhaust)
  have yz: "y = z" "caches_ok cm R pv1" "pv_clock_label pv1 = pv_clock_label pv" using ensure_caches[OF assms(1) e] ensure_caches[OF assms(3) f] by auto
  from assms(1,2) Some e f yz(2,3) show ?thesis unfolding yz(1)
    by (auto simp: format_preview_at_def Let_def split: option.splits prod.splits if_splits)
qed

text \<open>What the label of the day is when nothing is cached.\<close>

definition fresh_date :: "common \<Rightarrow> runtime \<Rightarrow> policy \<Rightarrow> instant \<Rightarrow> string" where
  "fresh_date cm R p t =
     date_summary cm (calendar p) (format_date R (date_provider_new R) (calendar p) (civil_year t) (civil_month t) (civil_day t))"

lemma date_caches:
  assumes "caches_ok cm R pv" "dates_available R"
  shows "caches_ok cm R (refresh_date cm R p t pv) \<and> pv_date_label (refresh_date cm R p t pv) = Some (fresh_date cm R p t) \<and>
    pv_clock_label (refresh_date cm R p t pv) = pv_clock_label pv"
proof -
  define pv1 where "pv1 = ensure_calendar_date_provider R pv"
  have one: "caches_ok cm R pv1" "pv_provider pv1 = date_provider_new R" "pv_clock_label pv1 = pv_clock_label pv"
    using assms(1) by (auto simp: pv1_def ensure_calendar_date_provider_def caches_ok_def)
  have "format_date R (date_provider_new R) (calendar p) (civil_year t) (civil_month t) (civil_day t) \<noteq> None"
    using assms(2) by (simp add: dates_available_def)
  with one assms(1) show ?thesis
    by (auto simp: refresh_date_def date_cache_hit_def fresh_date_def caches_ok_def Let_def simp flip: pv1_def)
qed

lemma refresh_caches:
  assumes "caches_ok cm R pv" "dates_available R"
  shows "caches_ok cm R (ss_linux_date_time_preview_refresh cm R h time pv) \<and>
    (\<forall>t p. time = Some t \<and> host_policy h = Some p \<longrightarrow>
      pv_date_label (ss_linux_date_time_preview_refresh cm R h time pv) = Some (fresh_date cm R p t) \<and>
      (\<forall>pw. caches_ok cm R pw \<longrightarrow> pv_clock_label (ss_linux_date_time_preview_refresh cm R h time pv) =
         (case fst (format_preview_at cm R h t CLOCK_TEXT pw) of None \<Rightarrow> pv_clock_label pv | Some x \<Rightarrow> Some x)))"
proof (cases "time = None \<or> host_policy h = None")
  case True
  with assms show ?thesis by (auto simp: ss_linux_date_time_preview_refresh_def split: option.split)
next
  case False
  then obtain t p where t: "time = Some t" "host_policy h = Some p" by auto
  obtain x pv1 where f: "format_preview_at cm R h t CLOCK_TEXT pv = (x, pv1)" by (rule prod.exhaust)
  define pv2 where "pv2 = refresh_clock cm R h t pv"
  note F = format_caches[OF assms(1) f]
  have two: "caches_ok cm R pv2" "pv_clock_label pv2 = (case x of None \<Rightarrow> pv_clock_label pv | Some x \<Rightarrow> Some x)"
    using F[OF assms(1)] f by (auto simp: pv2_def refresh_clock_def caches_ok_def split: option.split)
  have "ss_linux_date_time_preview_refresh cm R h time pv = refresh_date cm R p t pv2"
    using assms(1) t by (auto simp: ss_linux_date_time_preview_refresh_def caches_ok_def pv2_def)
  with date_caches[OF two(1) assms(2), of p t] two(2) t F show ?thesis by auto
qed

lemma scheduling_caches:
  "caches_ok cm R (remove_source i pv) = caches_ok cm R pv" "caches_ok cm R (pv\<lparr>pv_timer_id := n\<rparr>) = caches_ok cm R pv"
  "caches_ok cm R (pv\<lparr>pv_idle_id := n\<rparr>) = caches_ok cm R pv" "caches_ok cm R (stop_preview_timer pv) = caches_ok cm R pv"
  "caches_ok cm R (pv\<lparr>pv_sources := a, pv_next_source := n\<rparr>) = caches_ok cm R pv"
  by (simp_all add: caches_ok_def remove_source_def stop_preview_timer_def add_source_def)

lemma restart_caches:
  assumes "caches_ok cm R pv" shows "caches_ok cm R (ss_linux_date_time_preview_restart cm R h time pv)"
proof -
  obtain ms pv1 where b: "next_preview_boundary_ms cm R h time (stop_preview_timer pv) = (ms, pv1)" by (rule prod.exhaust)
  have "caches_ok cm R pv1"
  proof (cases "host_policy h")
    case None
    with b assms show ?thesis by (auto simp: next_preview_boundary_ms_def scheduling_caches)
  next
    case (Some p)
    obtain x pv2 where e: "ensure_clock_presentation R (effective_mode h p) (stop_preview_timer pv) = (x, pv2)" by (rule prod.exhaust)
    with b Some have "pv1 = pv2"
      by (auto simp: next_preview_boundary_ms_def Let_def split: option.splits prod.splits if_splits)
    with ensure_caches[OF _ e] assms show ?thesis by (simp add: scheduling_caches)
  qed
  with b assms show ?thesis
    by (simp add: ss_linux_date_time_preview_restart_def scheduling_caches add_source_def)
qed

lemma run_caches:
  assumes "(preview_step {(cm, R)})\<^sup>*\<^sup>* (False, new_preview) s" "dates_available R"
  shows "caches_ok cm R (snd s)"
  using assms(1)
proof (induction rule: rtranclp_induct)
  case base
  then show ?case by (simp add: caches_ok_def new_preview_def)
next
  case (step s s')
  note refresh = conjunct1[OF refresh_caches[OF _ assms(2)]]
  from step(2,3) show ?case
  proof (cases rule: preview_step.cases)
    case (mapped cm' R' h v pv t t')
    with step(3) show ?thesis by (simp add: on_panel_mapped_def Let_def refresh restart_caches)
  next
    case (unmapped v pv)
    with step(3) show ?thesis by (simp add: on_panel_unmapped_def scheduling_caches)
  next
    case (fired cm' R' h v pv t t' i)
    with step(3) show ?thesis
      by (simp add: fire_preview_def preview_timer_once_def refresh_preview_once_def scheduling_caches refresh restart_caches
          split: option.split preview_source.split)
  next
    case (refreshed cm' R' h t v pv)
    with step(3) show ?thesis by (simp add: refresh)
  next
    case (restarted cm' R' h v t pv)
    with step(3) show ?thesis by (simp add: restart_caches)
  next
    case (initial v pv)
    with step(3) show ?thesis
      by (simp add: ss_linux_date_time_preview_schedule_initial_def scheduling_caches add_source_def)
  qed
qed

lemma sources_exact:
  assumes "sources_ok srcs n timer idle"
  shows "distinct srcs \<and> (\<exists>ms. 0 < ms \<and> ms \<le> 60000 \<and>
      set srcs = (if timer \<noteq> 0 then {(timer, Preview_timer ms)} else {}) \<union> (if idle = 0 then {} else {(idle, Preview_idle)}))"
proof -
  have d: "distinct (map fst srcs)" and m: "\<And>i s. (i, s) \<in> set srcs \<Longrightarrow> 0 < i \<and>
        (case s of Preview_timer ms \<Rightarrow> i = timer \<and> 0 < ms \<and> ms \<le> 60000 | Preview_idle \<Rightarrow> i = idle)"
    and t: "timer \<noteq> 0 \<Longrightarrow> \<exists>ms. (timer, Preview_timer ms) \<in> set srcs" and u: "idle \<noteq> 0 \<Longrightarrow> (idle, Preview_idle) \<in> set srcs"
    using assms by (auto simp: sources_ok_def)
  have only: "(i, s) \<in> set srcs \<Longrightarrow> (timer \<noteq> 0 \<and> i = timer \<and> (\<exists>ms. s = Preview_timer ms)) \<or> (idle \<noteq> 0 \<and> i = idle \<and> s = Preview_idle)" for i s
    using m[of i s] by (cases s) auto
  show ?thesis
  proof (cases "timer = 0")
    case True
    have "set srcs = (if idle = 0 then {} else {(idle, Preview_idle)})"
      by (rule set_eqI, rename_tac x, case_tac x) (use only u True in auto)
    with True d show ?thesis by (auto simp: distinct_map intro: exI[of _ 1])
  next
    case False
    then obtain ms where ms: "(timer, Preview_timer ms) \<in> set srcs" using t by blast
    have only2: "(i = timer \<and> s = Preview_timer ms) \<or> (idle \<noteq> 0 \<and> i = idle \<and> s = Preview_idle)" if "(i, s) \<in> set srcs" for i s
      using only[OF that] eq_key_imp_eq_value[OF d _ ms] that by blast
    have "set srcs = {(timer, Preview_timer ms)} \<union> (if idle = 0 then {} else {(idle, Preview_idle)})"
    proof (rule set_eqI)
      fix x :: "nat \<times> preview_source"
      obtain i s where "x = (i, s)" by (cases x)
      then show "x \<in> set srcs \<longleftrightarrow> x \<in> {(timer, Preview_timer ms)} \<union> (if idle = 0 then {} else {(idle, Preview_idle)})"
        using only2[of i s] ms u by (cases "idle = 0") auto
    qed
    moreover have "0 < ms" "ms \<le> 60000" "distinct srcs" using m[OF ms] d by (simp_all add: distinct_map)
    ultimately show ?thesis using False by auto
  qed
qed

section \<open>Properties\<close>

text \<open>
  C21: the visible clock is always about to be refreshed. In every run, whatever the panel, the time and the
  installed resources do, exactly one refresh timer is pending while the panel is on the screen and none
  while it is not, its delay is between a millisecond and a minute, at most one first refresh is pending, there is
  no other source, and disposal leaves none.
\<close>

theorem preview_event_loop:
  assumes "(preview_step E)\<^sup>*\<^sup>* (False, new_preview) (visible, pv)"
  shows "distinct (pv_sources pv) \<and>
    (\<exists>ms. 0 < ms \<and> ms \<le> 60000 \<and>
      set (pv_sources pv) = (if visible then {(pv_timer_id pv, Preview_timer ms)} else {}) \<union>
        (if pv_idle_id pv = 0 then {} else {(pv_idle_id pv, Preview_idle)})) \<and>
    pv_sources (ss_linux_date_time_preview_dispose pv) = []"
proof -
  have "preview_ok pv" "visible \<longleftrightarrow> pv_timer_id pv \<noteq> 0" using run_ok[OF assms] by simp_all
  with sources_exact[of "pv_sources pv" "pv_next_source pv"] dispose_empty show ?thesis
    unfolding preview_ok_def by blast
qed


text \<open>
  The hypothesis on the dates is needed. When the date of another calendar could not be written, its message
  stays on the screen after the choice returns to the calendar whose date is in the cache.
\<close>

lemma unavailable_date_stays:
  assumes "date_cache_hit p t pv" "format_date R (pv_provider pv) other (civil_year t) (civil_month t) (civil_day t) = None"
    and "calendar q = other" "other \<noteq> calendar p" "pv_provider pv"
  shows "pv_date_label (refresh_date cm R p t (refresh_date cm R q t pv)) = Some (date_summary cm other None)"
  using assms by (auto simp: refresh_date_def date_cache_hit_def ensure_calendar_date_provider_def Let_def)

section \<open>An instance\<close>

definition sample_host :: host where
  "sample_host = \<lparr>host_policy = Some sample_policy, host_region = \<lparr>timezone_id = [], timezone_city = [], reference_latitude = dzero,
     reference_longitude = dzero, has_reference_coordinates = False\<rparr>, host_uses_24h = True, host_root = Some True\<rparr>"

abbreviation sample_shown :: preview where
  "sample_shown \<equiv> on_panel_mapped sample_common sample_runtime sample_host (Some sample_instant) (Some sample_instant) new_preview"

lemma sample_mapped: "(preview_step {(sample_common, sample_runtime)})\<^sup>*\<^sup>* (False, new_preview) (True, sample_shown)"
  by (rule r_into_rtranclp, rule preview_step.mapped) (simp_all add: sample_host_def)

theorem preview_event_loop_witness:
  "\<exists>ms. 0 < ms \<and> ms \<le> 60000 \<and> (pv_timer_id sample_shown, Preview_timer ms) \<in> set (pv_sources sample_shown)"
  using preview_event_loop[OF sample_mapped] by auto


end
