(* ===== verification/HomePresenter.thy ===== *)
theory HomePresenter
  imports ClockResources PolicyObserver
begin

text \<open>
  \<open>home-temporal-presentation.c\<close>: the clock and date of the Home page. The presenter keeps the policy it last
  read, a date cache, an observer of the policy file and one retry of a failed read; its pending sources are
  pairs of identifier and delay in seconds. The observer is the one of \<open>PolicyObserver\<close>.
\<close>

section \<open>State\<close>

record presentation =
  clock_text :: "string option"
  date_text :: "string option"
  system_time_text :: "string option"

record presenter =
  hp_policy :: policy
  hp_policy_valid :: bool
  hp_use_24h :: bool
  hp_settings :: "string option"
  hp_settings_handler :: bool
  hp_observer :: "observer option"
  hp_retry_id :: nat
  hp_retry_seconds :: nat
  hp_provider :: bool
  hp_date_text :: "string option"
  hp_calendar_id :: "string option"
  hp_year :: int
  hp_month :: int
  hp_day :: int
  hp_sources :: "(nat \<times> nat) list"
  hp_next_source :: nat

definition HOME_TEMPORAL_REFRESH_INTERVAL_MS :: nat where "HOME_TEMPORAL_REFRESH_INTERVAL_MS = 60000"

definition HOME_BUFFER :: nat where "HOME_BUFFER = 192"

section \<open>Formatting\<close>

definition desktop_uses_24h_from_settings :: "linux_lib \<Rightarrow> kernel \<Rightarrow> string option \<Rightarrow> bool" where
  "desktop_uses_24h_from_settings L k handle =
     (case handle of None \<Rightarrow> True
      | Some s \<Rightarrow> (case ss_cinnamon_interface_get_boolean L (Some s) (Some ''clock-use-24h'') k of None \<Rightarrow> True | Some v \<Rightarrow> v))"

definition format_clock :: "common \<Rightarrow> runtime \<Rightarrow> policy \<Rightarrow> instant \<Rightarrow> bool \<Rightarrow> string option" where
  "format_clock cm R p time use_24h =
     (let mode_name_of = (if clock_mode p = ''standard'' then ss_native_clock_mode_id use_24h else clock_mode p) in
      case clock_mode_find cm mode_name_of of
        None \<Rightarrow> None
      | Some mode \<Rightarrow>
          if (requires_latitude mode \<or> requires_longitude mode) \<and> \<not> location_configured p
          then Some (location_required_text (mode_name mode))
          else if \<not> presentation_new R mode_name_of then Some (resource_unavailable_text (mode_name mode))
          else
            (case presentation_format R mode_name_of (language R) (unix_us time) (offset_seconds time) (show_seconds p) False
                    (location_configured p) (latitude p) (longitude p) HOME_BUFFER of
               Some t \<Rightarrow> Some t
             | None \<Rightarrow> Some (display_unavailable_text (mode_name mode))))"

definition format_date_with_provider :: "common \<Rightarrow> runtime \<Rightarrow> policy \<Rightarrow> instant \<Rightarrow> bool \<Rightarrow> string" where
  "format_date_with_provider cm R p time provider =
     (case format_date R provider (calendar p) (civil_year time) (civil_month time) (civil_day time) of
        Some d \<Rightarrow> d
      | None \<Rightarrow> resource_unavailable_text (calendar_name cm (calendar p)))"

text \<open>The three texts, \<open>None\<close> when the clock has none.\<close>

definition presentation_of :: "string option \<Rightarrow> string \<Rightarrow> presentation option" where
  "presentation_of clock date =
     (case clock of None \<Rightarrow> None
      | Some c \<Rightarrow> Some \<lparr>clock_text = Some c, date_text = Some date, system_time_text = Some (date @ ''  '' @ c)\<rparr>)"

definition format_into :: "common \<Rightarrow> runtime \<Rightarrow> policy \<Rightarrow> instant \<Rightarrow> bool \<Rightarrow> bool \<Rightarrow> presentation option" where
  "format_into cm R p time use_24h provider =
     presentation_of (format_clock cm R p time use_24h) (format_date_with_provider cm R p time provider)"

definition ss_home_temporal_presentation_format ::
  "common \<Rightarrow> runtime \<Rightarrow> policy option \<Rightarrow> instant option \<Rightarrow> bool \<Rightarrow> presentation option" where
  "ss_home_temporal_presentation_format cm R p time use_24h =
     (case (p, time) of (Some q, Some t) \<Rightarrow> format_into cm R q t use_24h (date_provider_new R) | _ \<Rightarrow> None)"

definition presenter_format_date :: "common \<Rightarrow> runtime \<Rightarrow> instant \<Rightarrow> presenter \<Rightarrow> string \<times> presenter" where
  "presenter_format_date cm R time hp =
     (let fresh =
        (case format_date R (hp_provider hp) (calendar (hp_policy hp)) (civil_year time) (civil_month time) (civil_day time) of
           None \<Rightarrow> (resource_unavailable_text (calendar_name cm (calendar (hp_policy hp))), hp)
         | Some d \<Rightarrow> (d, hp\<lparr>hp_date_text := Some d, hp_calendar_id := Some (calendar (hp_policy hp)),
                            hp_year := civil_year time, hp_month := civil_month time, hp_day := civil_day time\<rparr>))
      in case (hp_date_text hp, hp_calendar_id hp) of
           (Some d, Some c) \<Rightarrow>
             if hp_year hp = civil_year time \<and> hp_month hp = civil_month time \<and> hp_day hp = civil_day time \<and>
                c = calendar (hp_policy hp)
             then (d, hp) else fresh
         | _ \<Rightarrow> fresh)"

definition presenter_format_into ::
  "common \<Rightarrow> runtime \<Rightarrow> instant \<Rightarrow> presenter \<Rightarrow> presentation option \<times> presenter" where
  "presenter_format_into cm R time hp =
     (if \<not> hp_policy_valid hp then (None, hp)
      else
        (let clock = format_clock cm R (hp_policy hp) time (hp_use_24h hp);
             (date, hp1) = presenter_format_date cm R time hp
         in (presentation_of clock date, hp1)))"

definition ss_home_temporal_presenter_format_now ::
  "common \<Rightarrow> runtime \<Rightarrow> instant option \<Rightarrow> presenter \<Rightarrow> presentation option \<times> presenter" where
  "ss_home_temporal_presenter_format_now cm R time hp =
     (if \<not> hp_policy_valid hp then (None, hp)
      else (case time of None \<Rightarrow> (None, hp) | Some t \<Rightarrow> presenter_format_into cm R t hp))"

definition ss_home_temporal_presenter_refresh_interval_ms :: "presenter option \<Rightarrow> nat" where
  "ss_home_temporal_presenter_refresh_interval_ms hp = HOME_TEMPORAL_REFRESH_INTERVAL_MS"

section \<open>Reading the policy\<close>

definition presenter_reload_policy :: "presenter \<Rightarrow> world \<Rightarrow> bool \<times> presenter \<times> world" where
  "presenter_reload_policy hp w =
     (case policy_v3_default (lib_common (lib w)) of
        None \<Rightarrow> (False, hp, w)
      | Some _ \<Rightarrow>
          (case st_load ss_platform_temporal_policy_store of
             None \<Rightarrow> (False, hp, w)
           | Some load \<Rightarrow>
               (case load w of
                  (None, w1) \<Rightarrow> (False, hp, w1)
                | (Some (loaded, found), w1) \<Rightarrow>
                    (True, hp\<lparr>hp_policy := loaded\<lparr>show_seconds := False\<rparr>, hp_policy_valid := True\<rparr>, w1))))"

definition on_presenter_settings_changed :: "linux_lib \<Rightarrow> kernel \<Rightarrow> string \<Rightarrow> presenter \<Rightarrow> presenter" where
  "on_presenter_settings_changed L k key hp =
     (if key = ''clock-use-24h'' then hp\<lparr>hp_use_24h := desktop_uses_24h_from_settings L k (hp_settings hp)\<rparr> else hp)"

definition schedule_policy_reload_retry :: "presenter \<Rightarrow> presenter" where
  "schedule_policy_reload_retry hp =
     (if hp_retry_id hp \<noteq> 0 then hp
      else
        (let delay = (if hp_retry_seconds hp \<noteq> 0 then hp_retry_seconds hp else 2)
         in hp\<lparr>hp_retry_id := hp_next_source hp, hp_sources := (hp_next_source hp, delay) # hp_sources hp,
               hp_next_source := hp_next_source hp + 1,
               hp_retry_seconds := (if delay < 60 then min (delay * 2) 60 else 60)\<rparr>))"

definition drop_source :: "nat \<Rightarrow> presenter \<Rightarrow> presenter" where
  "drop_source i hp = hp\<lparr>hp_sources := filter (\<lambda>(j, d). j \<noteq> i) (hp_sources hp)\<rparr>"

definition on_policy_file_changed :: "presenter \<Rightarrow> world \<Rightarrow> presenter \<times> world" where
  "on_policy_file_changed hp w =
     (case presenter_reload_policy hp w of
        (False, hp1, w1) \<Rightarrow> (schedule_policy_reload_retry hp1, w1)
      | (True, hp1, w1) \<Rightarrow>
          (let hp2 = (if hp_retry_id hp1 \<noteq> 0 then (drop_source (hp_retry_id hp1) hp1)\<lparr>hp_retry_id := 0\<rparr> else hp1)
           in (hp2\<lparr>hp_retry_seconds := 2\<rparr>, w1)))"

text \<open>It always asks to be removed.\<close>

definition retry_policy_reload :: "presenter \<Rightarrow> world \<Rightarrow> presenter \<times> world" where
  "retry_policy_reload hp w =
     (case presenter_reload_policy (hp\<lparr>hp_retry_id := 0\<rparr>) w of
        (True, hp1, w1) \<Rightarrow> (hp1\<lparr>hp_retry_seconds := 2\<rparr>, w1)
      | (False, hp1, w1) \<Rightarrow> (schedule_policy_reload_retry hp1, w1))"

definition fire_reload :: "nat \<Rightarrow> presenter \<Rightarrow> world \<Rightarrow> presenter \<times> world" where
  "fire_reload i hp w =
     (if i \<notin> fst ` set (hp_sources hp) then (hp, w)
      else (let (hp1, w1) = retry_policy_reload hp w in (drop_source i hp1, w1)))"

text \<open>A monitor event, and the callback when the observer makes it.\<close>

definition observer_event ::
  "file_system \<Rightarrow> string list option \<Rightarrow> string list option \<Rightarrow> monitor_event \<Rightarrow> presenter \<Rightarrow> world \<Rightarrow> presenter \<times> world" where
  "observer_event fs file other event hp w =
     (case hp_observer hp of
        None \<Rightarrow> (hp, w)
      | Some ob \<Rightarrow>
          (let (ob1, notified) = monitor_changed fs file other event ob; hp1 = hp\<lparr>hp_observer := Some ob1\<rparr>
           in if notified then on_policy_file_changed hp1 w else (hp1, w)))"

definition ss_home_temporal_presenter_free :: "presenter \<Rightarrow> presenter" where
  "ss_home_temporal_presenter_free hp =
     (let hp1 = (if hp_settings hp \<noteq> None \<and> hp_settings_handler hp then hp\<lparr>hp_settings_handler := False\<rparr> else hp);
          hp2 = hp1\<lparr>hp_observer := map_option ss_policy_file_observer_free (hp_observer hp1)\<rparr>;
          hp3 = (if hp_retry_id hp2 \<noteq> 0 then (drop_source (hp_retry_id hp2) hp2)\<lparr>hp_retry_id := 0\<rparr> else hp2)
      in hp3\<lparr>hp_settings := None, hp_date_text := None, hp_calendar_id := None, hp_provider := False\<rparr>)"

text \<open>The zeroed structure; \<open>path\<close> is the path of the policy file.\<close>

definition zeroed_presenter :: presenter where
  "zeroed_presenter = \<lparr>hp_policy = \<lparr>clock_mode = [], calendar = [], show_seconds = False, location_configured = False,
       latitude = dzero, longitude = dzero\<rparr>, hp_policy_valid = False, hp_use_24h = False, hp_settings = None,
     hp_settings_handler = False, hp_observer = None, hp_retry_id = 0, hp_retry_seconds = 0, hp_provider = False,
     hp_date_text = None, hp_calendar_id = None, hp_year = 0, hp_month = 0, hp_day = 0, hp_sources = [], hp_next_source = 1\<rparr>"

definition ss_home_temporal_presenter_new ::
  "runtime \<Rightarrow> file_system \<Rightarrow> string list option \<Rightarrow> world \<Rightarrow> presenter option \<times> world" where
  "ss_home_temporal_presenter_new R fs path w =
     (let handle = ss_cinnamon_interface_settings_new (lib w);
          hp = zeroed_presenter\<lparr>hp_retry_seconds := 2, hp_settings := handle,
                 hp_use_24h := desktop_uses_24h_from_settings (lib w) (kern w) handle,
                 hp_settings_handler := (handle \<noteq> None), hp_provider := date_provider_new R\<rparr>;
          (loaded, hp1, w1) = presenter_reload_policy hp w;
          hp2 = (if \<not> hp_policy_valid hp1 then schedule_policy_reload_retry hp1 else hp1)
      in case ss_policy_file_observer_new fs path of
           None \<Rightarrow> (None, w1)
         | Some ob \<Rightarrow> (Some (hp2\<lparr>hp_observer := Some ob\<rparr>), w1))"

section \<open>The event loop\<close>

text \<open>
  The desktop's settings, the file system, the policy file and the time may be different at every event; the
  resources are those of the set \<open>E\<close>.
\<close>

inductive home_step :: "(common \<times> runtime) set \<Rightarrow> presenter \<Rightarrow> presenter \<Rightarrow> bool" for E where
  settings: "home_step E hp (on_presenter_settings_changed L k key hp)"
| event: "hp_observer hp = Some ob \<Longrightarrow> monitor ob \<noteq> None \<Longrightarrow> home_step E hp (fst (observer_event fs changed other ev hp w))"
| observer_retry: "hp_observer hp = Some ob \<Longrightarrow> home_step E hp (hp\<lparr>hp_observer := Some (fire_retry fs i ob)\<rparr>)"
| reload: "home_step E hp (fst (fire_reload i hp w))"
| shown: "(cm, R) \<in> E \<Longrightarrow> home_step E hp (snd (ss_home_temporal_presenter_format_now cm R time hp))"

text \<open>The retry is the only source; without a policy there is one; the delays double up to a minute.\<close>

definition single_retry :: "presenter \<Rightarrow> bool" where
  "single_retry hp \<longleftrightarrow> hp_retry_id hp < hp_next_source hp \<and> hp_retry_seconds hp \<in> {2..60} \<and>
     (if hp_retry_id hp = 0 then hp_sources hp = [] else \<exists>d \<in> {2..60}. hp_sources hp = [(hp_retry_id hp, d)])"

definition home_ok :: "presenter \<Rightarrow> bool" where
  "home_ok hp \<longleftrightarrow> single_retry hp \<and> (\<exists>ob. hp_observer hp = Some ob \<and> observer_ok ob) \<and>
     (if hp_policy_valid hp then \<not> show_seconds (hp_policy hp) else hp_retry_id hp \<noteq> 0)"

lemma schedule_single: "single_retry hp \<Longrightarrow> single_retry (schedule_policy_reload_retry hp) \<and> hp_retry_id (schedule_policy_reload_retry hp) \<noteq> 0"
  by (auto simp: single_retry_def schedule_policy_reload_retry_def Let_def)

lemma schedule_keeps:
  "hp_policy (schedule_policy_reload_retry hp) = hp_policy hp" "hp_policy_valid (schedule_policy_reload_retry hp) = hp_policy_valid hp"
  "hp_observer (schedule_policy_reload_retry hp) = hp_observer hp"
  by (simp_all add: schedule_policy_reload_retry_def Let_def)

lemma home_reload_law:
  assumes "presenter_reload_policy hp w = (b, hp', w')"
  shows "(if b then \<exists>p f w1. platform_load w = (Some (p, f), w1) \<and> hp' = hp\<lparr>hp_policy := p\<lparr>show_seconds := False\<rparr>, hp_policy_valid := True\<rparr>
      else hp' = hp)"
  using assms by (auto simp: presenter_reload_policy_def ss_platform_temporal_policy_store_def split: option.splits prod.splits)

lemma changed_law:
  assumes "on_policy_file_changed hp w = (hp', w')" "single_retry hp"
  shows "single_retry hp' \<and> hp_observer hp' = hp_observer hp \<and>
    (if hp_retry_id hp' \<noteq> 0 then hp_policy hp' = hp_policy hp \<and> hp_policy_valid hp' = hp_policy_valid hp
     else hp_policy_valid hp' \<and> (\<exists>p f w1. platform_load w = (Some (p, f), w1) \<and> hp_policy hp' = p\<lparr>show_seconds := False\<rparr>))"
proof -
  obtain b hp1 w1 where r: "presenter_reload_policy hp w = (b, hp1, w1)" by (rule prod_cases3)
  note R = home_reload_law[OF r]
  show ?thesis
  proof (cases b)
    case True
    from R True obtain p f w2 where l: "platform_load w = (Some (p, f), w2)"
      and h: "hp1 = hp\<lparr>hp_policy := p\<lparr>show_seconds := False\<rparr>, hp_policy_valid := True\<rparr>" by auto
    from assms(1) r True have "hp' = (if hp_retry_id hp1 \<noteq> 0 then (drop_source (hp_retry_id hp1) hp1)\<lparr>hp_retry_id := 0\<rparr> else hp1)\<lparr>hp_retry_seconds := 2\<rparr>"
      by (simp add: on_policy_file_changed_def Let_def)
    with assms(2) h l show ?thesis by (auto simp: single_retry_def drop_source_def)
  next
    case False
    with assms(1) r R have "hp' = schedule_policy_reload_retry hp" by (simp add: on_policy_file_changed_def)
    with schedule_single[OF assms(2)] show ?thesis by (simp add: schedule_keeps)
  qed
qed

lemma fire_reload_law:
  assumes "fire_reload i hp w = (hp', w')" "single_retry hp" "i = hp_retry_id hp" "i \<noteq> 0"
  shows "single_retry hp' \<and> hp_observer hp' = hp_observer hp \<and>
    (if hp_retry_id hp' \<noteq> 0 then hp_policy hp' = hp_policy hp \<and> hp_policy_valid hp' = hp_policy_valid hp
     else hp_policy_valid hp' \<and> (\<exists>p f w1. platform_load w = (Some (p, f), w1) \<and> hp_policy hp' = p\<lparr>show_seconds := False\<rparr>))"
proof -
  obtain d where s: "hp_sources hp = [(i, d)]" and i: "i < hp_next_source hp" "hp_retry_seconds hp \<in> {2..60}"
    using assms(2-4) by (auto simp: single_retry_def)
  obtain b hp1 w1 where r: "presenter_reload_policy (hp\<lparr>hp_retry_id := 0\<rparr>) w = (b, hp1, w1)" by (rule prod_cases3)
  note R = home_reload_law[OF r]
  show ?thesis
  proof (cases b)
    case True
    from R True obtain p f w2 where l: "platform_load w = (Some (p, f), w2)"
      and h: "hp1 = hp\<lparr>hp_retry_id := 0, hp_policy := p\<lparr>show_seconds := False\<rparr>, hp_policy_valid := True\<rparr>" by auto
    from assms(1) r True s have "hp' = drop_source i (hp1\<lparr>hp_retry_seconds := 2\<rparr>)"
      by (simp add: fire_reload_def retry_policy_reload_def)
    with h l s i show ?thesis by (simp add: single_retry_def drop_source_def)
  next
    case False
    with assms(1) r R s have "hp' = drop_source i (schedule_policy_reload_retry (hp\<lparr>hp_retry_id := 0\<rparr>))"
      by (simp add: fire_reload_def retry_policy_reload_def)
    with s i show ?thesis by (auto simp: single_retry_def drop_source_def schedule_policy_reload_retry_def Let_def)
  qed
qed

lemma format_now_keeps:
  assumes "ss_home_temporal_presenter_format_now cm R time hp = (x, hp')"
  shows "single_retry hp' = single_retry hp \<and> hp_observer hp' = hp_observer hp \<and> hp_policy hp' = hp_policy hp \<and>
    hp_policy_valid hp' = hp_policy_valid hp \<and> hp_retry_id hp' = hp_retry_id hp \<and> hp_use_24h hp' = hp_use_24h hp \<and>
    hp_settings hp' = hp_settings hp \<and> hp_settings_handler hp' = hp_settings_handler hp"
  using assms
  by (auto simp: ss_home_temporal_presenter_format_now_def presenter_format_into_def presenter_format_date_def Let_def single_retry_def
      split: if_splits option.splits)

lemma observer_event_law:
  assumes "observer_event fs changed other ev hp w = (hp', w')" "home_ok hp" "hp_observer hp = Some ob" "monitor ob \<noteq> None"
  shows "home_ok hp'"
proof -
  obtain ob1 n where m: "monitor_changed fs changed other ev ob = (ob1, n)" by (rule prod.exhaust)
  define hp1 where "hp1 = hp\<lparr>hp_observer := Some ob1\<rparr>"
  have "observer_step ob ob1" using observer_step.event[OF assms(4), of fs changed other ev] m by simp
  then have ob1: "observer_ok ob1" using step_observer_ok assms(2,3) by (auto simp: home_ok_def)
  have one: "single_retry hp1" using assms(2) by (simp add: hp1_def home_ok_def single_retry_def)
  show ?thesis
  proof (cases n)
    case True
    with assms(1,3) m have c: "on_policy_file_changed hp1 w = (hp', w')" by (simp add: observer_event_def hp1_def)
    note C = changed_law[OF c one]
    have "hp_observer hp1 = Some ob1" "hp_policy hp1 = hp_policy hp" "hp_policy_valid hp1 = hp_policy_valid hp"
      by (simp_all add: hp1_def)
    with C assms(2) ob1 show ?thesis unfolding home_ok_def by (auto split: if_splits)
  next
    case False
    with assms m ob1 have "hp' = hp1" by (simp add: observer_event_def hp1_def)
    with assms(2) one ob1 show ?thesis by (simp add: home_ok_def hp1_def)
  qed
qed

lemma home_step_ok:
  assumes "home_step E hp hp'" "home_ok hp" shows "home_ok hp'"
  using assms(1)
proof cases
  case (settings L k key)
  with assms(2) show ?thesis by (simp add: on_presenter_settings_changed_def home_ok_def single_retry_def)
next
  case (event ob fs changed other ev w)
  then show ?thesis using observer_event_law[of fs changed other ev hp w "fst (observer_event fs changed other ev hp w)"
      "snd (observer_event fs changed other ev hp w)" ob] assms(2) by simp
next
  case (observer_retry ob fs i)
  with assms(2) show ?thesis using PolicyObserver.retry_ok[of ob fs i] by (auto simp: home_ok_def single_retry_def)
next
  case (reload i w)
  show ?thesis
  proof (cases "i \<in> fst ` set (hp_sources hp)")
    case True
    with assms(2) have i: "i = hp_retry_id hp" "i \<noteq> 0" by (auto simp: home_ok_def single_retry_def split: if_splits)
    obtain hp1 w1 where f: "fire_reload i hp w = (hp1, w1)" by (rule prod.exhaust)
    from fire_reload_law[OF f _ i] assms(2) reload f show ?thesis by (auto simp: home_ok_def split: if_splits)
  next
    case False
    with reload assms(2) show ?thesis by (simp add: fire_reload_def)
  qed
next
  case (shown cm R time)
  obtain x hp1 where f: "ss_home_temporal_presenter_format_now cm R time hp = (x, hp1)" by (rule prod.exhaust)
  with format_now_keeps[OF f] shown assms(2) show ?thesis by (simp add: home_ok_def)
qed

lemma new_home_ok:
  assumes "ss_home_temporal_presenter_new R fs path w = (Some hp, w')"
  shows "home_ok hp \<and> hp_date_text hp = None \<and> hp_provider hp = date_provider_new R"
proof -
  define hp0 where "hp0 = zeroed_presenter\<lparr>hp_retry_seconds := 2, hp_settings := ss_cinnamon_interface_settings_new (lib w),
      hp_use_24h := desktop_uses_24h_from_settings (lib w) (kern w) (ss_cinnamon_interface_settings_new (lib w)),
      hp_settings_handler := (ss_cinnamon_interface_settings_new (lib w) \<noteq> None), hp_provider := date_provider_new R\<rparr>"
  obtain b hp1 w1 where r: "presenter_reload_policy hp0 w = (b, hp1, w1)" by (rule prod_cases3)
  note R = home_reload_law[OF r]
  have z: "single_retry hp0" "\<not> hp_policy_valid hp0" "hp_retry_id hp0 = 0" "hp_date_text hp0 = None" "hp_provider hp0 = date_provider_new R"
    by (simp_all add: hp0_def single_retry_def zeroed_presenter_def)
  from assms r obtain ob where ob: "ss_policy_file_observer_new fs path = Some ob"
    and hp: "hp = (if \<not> hp_policy_valid hp1 then schedule_policy_reload_retry hp1 else hp1)\<lparr>hp_observer := Some ob\<rparr>"
    by (auto simp: ss_home_temporal_presenter_new_def Let_def hp0_def split: option.splits)
  note N = new_ok[OF ob]
  show ?thesis
  proof (cases b)
    case True
    with R obtain p where h: "hp1 = hp0\<lparr>hp_policy := p\<lparr>show_seconds := False\<rparr>, hp_policy_valid := True\<rparr>" by auto
    then have "hp = hp1\<lparr>hp_observer := Some ob\<rparr>" using hp by simp
    with h z N show ?thesis by (simp add: home_ok_def single_retry_def)
  next
    case False
    with R have "hp1 = hp0" by simp
    with hp z have "hp = (schedule_policy_reload_retry hp0)\<lparr>hp_observer := Some ob\<rparr>" by simp
    with z N schedule_single[OF z(1)] show ?thesis
      by (simp add: home_ok_def single_retry_def schedule_keeps) (simp add: schedule_policy_reload_retry_def Let_def)
  qed
qed

section \<open>The date cache\<close>

text \<open>What is in the cache is what formatting its day in its calendar gives.\<close>

definition cache_ok :: "runtime \<Rightarrow> presenter \<Rightarrow> bool" where
  "cache_ok R hp \<longleftrightarrow> hp_provider hp = date_provider_new R \<and>
     (\<forall>d c. hp_date_text hp = Some d \<longrightarrow> hp_calendar_id hp = Some c \<longrightarrow>
        format_date R (hp_provider hp) c (hp_year hp) (hp_month hp) (hp_day hp) = Some d)"

lemma date_cached:
  assumes "cache_ok R hp" "presenter_format_date cm R t hp = (d, hp')"
  shows "d = format_date_with_provider cm R (hp_policy hp) t (date_provider_new R) \<and> cache_ok R hp'"
  using assms by (auto simp: presenter_format_date_def format_date_with_provider_def cache_ok_def Let_def split: option.splits if_splits)

lemma format_now_cached:
  assumes "cache_ok R hp" "ss_home_temporal_presenter_format_now cm R time hp = (x, hp')"
  shows "cache_ok R hp' \<and> (hp_policy_valid hp \<longrightarrow>
    x = ss_home_temporal_presentation_format cm R (Some (hp_policy hp)) time (hp_use_24h hp))"
proof (cases "hp_policy_valid hp \<and> time \<noteq> None")
  case False
  with assms show ?thesis
    by (auto simp: ss_home_temporal_presenter_format_now_def ss_home_temporal_presentation_format_def split: option.splits if_splits)
next
  case True
  then obtain t where t: "time = Some t" by auto
  obtain d hp1 where f: "presenter_format_date cm R t hp = (d, hp1)" by (rule prod.exhaust)
  with assms t True date_cached[OF assms(1) f] show ?thesis
    by (auto simp: ss_home_temporal_presenter_format_now_def presenter_format_into_def
        ss_home_temporal_presentation_format_def format_into_def Let_def)
qed

definition cache_fields ::
  "presenter \<Rightarrow> (string option \<times> bool) \<times> bool \<times> string option \<times> string option \<times> int \<times> int \<times> int" where
  "cache_fields hp = ((hp_settings hp, hp_settings_handler hp), hp_provider hp, hp_date_text hp, hp_calendar_id hp, hp_year hp, hp_month hp, hp_day hp)"

lemma cache_fields_ok: "cache_fields hp' = cache_fields hp \<Longrightarrow> cache_ok R hp' = cache_ok R hp"
  by (simp add: cache_fields_def cache_ok_def)

lemma reload_cache: "presenter_reload_policy hp w = (b, hp', w') \<Longrightarrow> cache_fields hp' = cache_fields hp"
  using home_reload_law[of hp w b hp' w'] by (auto simp: cache_fields_def split: if_splits)

lemma schedule_cache: "cache_fields (schedule_policy_reload_retry hp) = cache_fields hp"
  by (simp add: schedule_policy_reload_retry_def cache_fields_def Let_def)

lemma changed_cache: "cache_fields (fst (on_policy_file_changed hp w)) = cache_fields hp"
proof -
  obtain b hp1 w1 where r: "presenter_reload_policy hp w = (b, hp1, w1)" by (rule prod_cases3)
  with reload_cache[OF r] show ?thesis
    by (cases b) (simp_all add: on_policy_file_changed_def schedule_cache Let_def, simp add: cache_fields_def drop_source_def)
qed

lemma fire_cache: "cache_fields (fst (fire_reload i hp w)) = cache_fields hp"
proof -
  obtain b hp1 w1 where r: "presenter_reload_policy (hp\<lparr>hp_retry_id := 0\<rparr>) w = (b, hp1, w1)" by (rule prod_cases3)
  have "cache_fields (drop_source j h) = cache_fields h" for j h by (simp add: cache_fields_def drop_source_def)
  moreover have "cache_fields (h\<lparr>hp_retry_seconds := n\<rparr>) = cache_fields h" "cache_fields (h\<lparr>hp_retry_id := n\<rparr>) = cache_fields h" for h n
    by (simp_all add: cache_fields_def)
  ultimately show ?thesis using reload_cache[OF r] r
    by (cases b) (simp_all add: fire_reload_def retry_policy_reload_def schedule_cache)
qed

lemma home_step_fields:
  assumes "home_step E hp hp'"
  shows "fst (cache_fields hp') = fst (cache_fields hp) \<and>
    (cache_fields hp' = cache_fields hp \<or>
     (\<exists>cm R time. (cm, R) \<in> E \<and> hp' = snd (ss_home_temporal_presenter_format_now cm R time hp)))"
  using assms
proof cases
  case (settings L k key)
  have "cache_fields hp' = cache_fields hp" by (simp add: settings on_presenter_settings_changed_def cache_fields_def)
  then show ?thesis by simp
next
  case (event ob fs changed other ev w)
  have "cache_fields (h\<lparr>hp_observer := z\<rparr>) = cache_fields h" for h z by (simp add: cache_fields_def)
  then have "cache_fields hp' = cache_fields hp"
    using event changed_cache by (simp add: observer_event_def Let_def split: prod.split)
  then show ?thesis by simp
next
  case (observer_retry ob fs i)
  have "cache_fields hp' = cache_fields hp" by (simp add: observer_retry cache_fields_def)
  then show ?thesis by simp
next
  case (reload i w)
  then show ?thesis using fire_cache by simp
next
  case (shown cm' R' time)
  obtain x hp1 where f: "ss_home_temporal_presenter_format_now cm' R' time hp = (x, hp1)" by (rule prod.exhaust)
  have "fst (cache_fields hp') = fst (cache_fields hp)" using format_now_keeps[OF f] shown f by (simp add: cache_fields_def)
  with shown show ?thesis by blast
qed

text \<open>A run from the creation of the presenter.\<close>

definition home_run :: "(common \<times> runtime) set \<Rightarrow> runtime \<Rightarrow> presenter \<Rightarrow> bool" where
  "home_run E R hp \<longleftrightarrow>
     (\<exists>fs path w hp0 w1. ss_home_temporal_presenter_new R fs path w = (Some hp0, w1) \<and> (home_step E)\<^sup>*\<^sup>* hp0 hp)"

lemma new_settings:
  assumes "ss_home_temporal_presenter_new R fs path w = (Some hp, w')"
  shows "hp_settings_handler hp \<longleftrightarrow> hp_settings hp \<noteq> None"
proof -
  define hp0 where "hp0 = zeroed_presenter\<lparr>hp_retry_seconds := 2, hp_settings := ss_cinnamon_interface_settings_new (lib w),
      hp_use_24h := desktop_uses_24h_from_settings (lib w) (kern w) (ss_cinnamon_interface_settings_new (lib w)),
      hp_settings_handler := (ss_cinnamon_interface_settings_new (lib w) \<noteq> None), hp_provider := date_provider_new R\<rparr>"
  obtain b hp1 w1 where r: "presenter_reload_policy hp0 w = (b, hp1, w1)" by (rule prod_cases3)
  from assms r obtain ob where "hp = (if \<not> hp_policy_valid hp1 then schedule_policy_reload_retry hp1 else hp1)\<lparr>hp_observer := Some ob\<rparr>"
    by (auto simp: ss_home_temporal_presenter_new_def Let_def hp0_def split: option.splits)
  moreover have "cache_fields hp1 = cache_fields hp0" by (rule reload_cache[OF r])
  ultimately have "fst (cache_fields hp) = fst (cache_fields hp0)"
    using schedule_cache[of hp1] by (auto simp: cache_fields_def)
  then show ?thesis by (simp add: cache_fields_def hp0_def)
qed

lemma home_run_ok:
  assumes "home_run E R hp" shows "home_ok hp \<and> (hp_settings_handler hp \<longleftrightarrow> hp_settings hp \<noteq> None)"
proof -
  obtain fs path w hp0 w1 where n: "ss_home_temporal_presenter_new R fs path w = (Some hp0, w1)" and r: "(home_step E)\<^sup>*\<^sup>* hp0 hp"
    using assms by (auto simp: home_run_def)
  from r show ?thesis
  proof (induction rule: rtranclp_induct)
    case base
    then show ?case using new_home_ok[OF n] new_settings[OF n] by simp
  next
    case (step hp hp')
    then show ?case using home_step_ok[of E hp hp'] home_step_fields[of E hp hp'] by (simp add: cache_fields_def)
  qed
qed

lemma home_run_cache:
  assumes "home_run {(cm, R)} R hp" shows "cache_ok R hp"
proof -
  obtain fs path w hp0 w1 where n: "ss_home_temporal_presenter_new R fs path w = (Some hp0, w1)" and r: "(home_step {(cm, R)})\<^sup>*\<^sup>* hp0 hp"
    using assms by (auto simp: home_run_def)
  from r show ?thesis
  proof (induction rule: rtranclp_induct)
    case base
    then show ?case using new_home_ok[OF n] by (simp add: cache_ok_def)
  next
    case (step hp hp')
    from home_step_fields[OF step(2)] show ?case
    proof (elim conjE disjE exE)
      assume "cache_fields hp' = cache_fields hp"
      with step(3) cache_fields_ok show ?thesis by blast
    next
      fix cm' R' time
      assume e: "(cm', R') \<in> {(cm, R)}" and h: "hp' = snd (ss_home_temporal_presenter_format_now cm' R' time hp)"
      obtain x hp1 where f: "ss_home_temporal_presenter_format_now cm R time hp = (x, hp1)" by (rule prod.exhaust)
      with format_now_cached[OF step(3) f] e h show ?thesis by simp
    qed
  qed
qed

section \<open>Properties\<close>


text \<open>
  The cache is invisible. With the same resources installed, what the presenter shows in any reachable state
  is what formatting its policy afresh with a new provider gives, date and clock, successes and failures.
\<close>

theorem home_equals_uncached:
  assumes "home_run {(cm, R)} R hp" "hp_policy_valid hp"
  shows "fst (ss_home_temporal_presenter_format_now cm R time hp) =
    ss_home_temporal_presentation_format cm R (Some (hp_policy hp)) time (hp_use_24h hp)"
proof -
  obtain x hp1 where f: "ss_home_temporal_presenter_format_now cm R time hp = (x, hp1)" by (rule prod.exhaust)
  with format_now_cached[OF home_run_cache[OF assms(1)] f] assms(2) show ?thesis by simp
qed

text \<open>
  A failed read is repeated until one succeeds. When the pending read comes due, either the policy is read and
  shown from then on, without its seconds, with nothing pending; or the policy shown stays and another read is
  pending, twice as late and at most a minute.
\<close>

theorem home_read_retried:
  assumes "home_run E R hp" "hp_retry_id hp \<noteq> 0" "fire_reload (hp_retry_id hp) hp w = (hp', w')"
  shows "(case platform_load w of
      (Some (p, found), w1) \<Rightarrow> policy_v3_default (lib_common (lib w)) \<noteq> None \<longrightarrow>
        hp_retry_id hp' = 0 \<and> hp_sources hp' = [] \<and> hp_policy_valid hp' \<and> hp_policy hp' = p\<lparr>show_seconds := False\<rparr>
    | (None, w1) \<Rightarrow>
        hp_retry_id hp' \<noteq> 0 \<and> hp_sources hp' = [(hp_retry_id hp', hp_retry_seconds hp)] \<and> hp_policy hp' = hp_policy hp \<and>
        hp_policy_valid hp' = hp_policy_valid hp \<and> hp_retry_seconds hp' = min (2 * hp_retry_seconds hp) 60)"
proof -
  have ok: "single_retry hp" using home_run_ok[OF assms(1)] by (simp add: home_ok_def)
  define i where "i = hp_retry_id hp"
  obtain d where s: "hp_sources hp = [(i, d)]" "i < hp_next_source hp" "hp_retry_seconds hp \<in> {2..60}"
    using ok assms(2) by (auto simp: single_retry_def i_def)
  obtain b hp1 w1 where r: "presenter_reload_policy (hp\<lparr>hp_retry_id := 0\<rparr>) w = (b, hp1, w1)" by (rule prod_cases3)
  have hp': "hp' = drop_source i (if b then hp1\<lparr>hp_retry_seconds := 2\<rparr> else schedule_policy_reload_retry hp1)"
    using assms(3) r s by (auto simp: fire_reload_def retry_policy_reload_def i_def split: bool.splits)
  show ?thesis
  proof (cases b)
    case True
    with home_reload_law[OF r] s hp' show ?thesis by (auto simp: drop_source_def)
  next
    case False
    with home_reload_law[OF r] have h: "hp1 = hp\<lparr>hp_retry_id := 0\<rparr>" by simp
    have "platform_load w = (Some (p, f), w2) \<Longrightarrow> policy_v3_default (lib_common (lib w)) = None" for p f w2
      using r False by (auto simp: presenter_reload_policy_def ss_platform_temporal_policy_store_def split: option.splits)
    with hp' False h s show ?thesis
      by (auto simp: drop_source_def schedule_policy_reload_retry_def Let_def split: option.split prod.split)
  qed
qed


section \<open>An instance\<close>

text \<open>A presenter created while the policy could not be read.\<close>

definition unreadable_world :: world where
  "unreadable_world = sample_world\<lparr>lib := sample_lib\<lparr>posix_policy_load := (\<lambda>k. (IO_OTHER 0, sample_policy, False, k))\<rparr>\<rparr>"

definition waiting_presenter :: presenter where
  "waiting_presenter = (schedule_policy_reload_retry (zeroed_presenter\<lparr>hp_retry_seconds := 2, hp_settings := Some CINNAMON,
     hp_use_24h := True, hp_settings_handler := True, hp_provider := True\<rparr>))\<lparr>hp_observer := Some sample_observer\<rparr>"

lemma sample_loads: "platform_load sample_world = (Some (sample_policy, False), sample_world)"
  "fst (platform_load unreadable_world) = None" "policy_v3_default (lib_common (lib sample_world)) = Some sample_policy"
  by (simp_all add: platform_load_def unreadable_world_def sample_world_def sample_lib_def sample_kernel_def sample_common_def
      load_cinnamon_defaults_def ss_cinnamon_interface_settings_new_def g_settings_get_boolean_def sample_policy_def Let_def)

lemma waiting_new:
  "fst (ss_home_temporal_presenter_new sample_runtime bare_home (Some sample_target) unreadable_world) = Some waiting_presenter"
proof -
  obtain w1 where l: "platform_load unreadable_world = (None, w1)" using sample_loads(2) by (metis prod.collapse)
  have s: "ss_cinnamon_interface_settings_new (lib unreadable_world) = Some CINNAMON"
    "policy_v3_default (lib_common (lib unreadable_world)) = Some sample_policy" "date_provider_new sample_runtime"
    by (simp_all add: unreadable_world_def sample_world_def sample_lib_def ss_cinnamon_interface_settings_new_def sample_common_def
        sample_runtime_def)
  have u: "desktop_uses_24h_from_settings (lib unreadable_world) (kern unreadable_world) (Some CINNAMON)"
    by (simp add: desktop_uses_24h_from_settings_def ss_cinnamon_interface_get_boolean_def unreadable_world_def sample_world_def
        sample_kernel_def split: option.split)
  have r: "presenter_reload_policy hp unreadable_world = (False, hp, w1)" for hp
    by (simp add: presenter_reload_policy_def ss_platform_temporal_policy_store_def s(2) l)
  show ?thesis
    by (simp add: ss_home_temporal_presenter_new_def s u r sample_observer(1) waiting_presenter_def)
       (simp add: zeroed_presenter_def)
qed

lemma waiting_run: "home_run E sample_runtime waiting_presenter"
  using waiting_new unfolding home_run_def by (metis prod.collapse rtranclp.rtrancl_refl)

lemma waiting_fields: "hp_retry_id waiting_presenter = 1" "hp_sources waiting_presenter = [(1, 2)]"
  by (simp_all add: waiting_presenter_def schedule_policy_reload_retry_def zeroed_presenter_def Let_def)


theorem home_read_retried_witness:
  "hp_policy_valid (fst (fire_reload 1 waiting_presenter sample_world)) \<and>
   hp_policy (fst (fire_reload 1 waiting_presenter sample_world)) = sample_policy\<lparr>show_seconds := False\<rparr>"
proof -
  obtain hp' w' where f: "fire_reload 1 waiting_presenter sample_world = (hp', w')" by (rule prod.exhaust)
  from home_read_retried[OF waiting_run _ f[folded waiting_fields(1)]] waiting_fields f show ?thesis
    by (simp add: sample_loads)
qed

theorem home_equals_uncached_witness:
  "\<exists>hp. fst (ss_home_temporal_presenter_format_now sample_common sample_runtime (Some sample_instant) hp) =
     ss_home_temporal_presentation_format sample_common sample_runtime (Some (sample_policy\<lparr>show_seconds := False\<rparr>))
       (Some sample_instant) True"
proof -
  define hp where "hp = fst (fire_reload 1 waiting_presenter sample_world)"
  obtain hp' w' where f: "fire_reload 1 waiting_presenter sample_world = (hp', w')" by (rule prod.exhaust)
  have "home_step {(sample_common, sample_runtime)} waiting_presenter hp" unfolding hp_def by (rule home_step.reload)
  then have run: "home_run {(sample_common, sample_runtime)} sample_runtime hp"
    using waiting_run[of "{(sample_common, sample_runtime)}"] unfolding home_run_def by (meson rtranclp.rtrancl_into_rtrancl)
  have "hp_policy_valid hp" "hp_policy hp = sample_policy\<lparr>show_seconds := False\<rparr>" "hp_use_24h hp = True"
    using sample_loads(1,3) waiting_fields
    by (simp_all add: hp_def fire_reload_def retry_policy_reload_def presenter_reload_policy_def drop_source_def
        ss_platform_temporal_policy_store_def) (simp add: waiting_presenter_def schedule_policy_reload_retry_def zeroed_presenter_def Let_def)
  with home_equals_uncached[OF run, of "Some sample_instant"] show ?thesis by metis
qed

end
