(* ===== verification/SourceTrees.thy ===== *)
theory SourceTrees
  imports NativeInstaller "HOL-Library.Multiset" "HOL-Library.List_Lexorder" "HOL-Library.Char_ord"
begin

text \<open>
  The file and tree routines of \<open>packaging/source-asset-builder.c\<close>: copying and comparing files in blocks,
  collecting, comparing and dating trees, the manifest of hashes, the version. A stream is its bytes and the
  place where reading fails, if any. A tree gives the shape that \<open>readdir\<close> and \<open>lstat\<close> show, in the order of
  \<open>readdir\<close>; what opening a path gives is a function.
\<close>

section \<open>Streams\<close>

record stream =
  st_bytes :: string
  st_error_at :: "nat option"

definition fails :: "stream \<Rightarrow> bool" where
  "fails s \<longleftrightarrow> (case st_error_at s of None \<Rightarrow> False | Some e \<Rightarrow> e \<le> length (st_bytes s))"

definition stream_limit :: "stream \<Rightarrow> nat" where
  "stream_limit s = (case st_error_at s of None \<Rightarrow> length (st_bytes s) | Some e \<Rightarrow> min e (length (st_bytes s)))"

text \<open>\<open>fread\<close> of \<open>n\<close> bytes at a position: the bytes, and \<open>feof\<close> and \<open>ferror\<close> afterwards.\<close>

definition fread :: "stream \<Rightarrow> nat \<Rightarrow> nat \<Rightarrow> string \<times> bool \<times> bool" where
  "fread s n pos =
     (let chunk = take n (drop pos (take (stream_limit s) (st_bytes s)))
      in (chunk, length chunk < n \<and> \<not> fails s, length chunk < n \<and> fails s))"

definition COPY_BLOCK :: nat where "COPY_BLOCK = 64 * 1024"
definition COMPARE_BLOCK :: nat where "COMPARE_BLOCK = 8192"

text \<open>The room left on the device is \<open>None\<close> when there is enough; a write that does not fit writes what fits.\<close>

definition fwrite :: "nat option \<Rightarrow> string \<Rightarrow> string \<Rightarrow> bool \<times> string" where
  "fwrite room bytes out =
     (case room of None \<Rightarrow> (True, out @ bytes)
      | Some r \<Rightarrow> (length out + length bytes \<le> r, out @ take (r - length out) bytes))"

lemma fread_full:
  "fread s n pos = (chunk, eof, err) \<Longrightarrow> \<not> length chunk < n \<Longrightarrow> 0 < n \<Longrightarrow> pos + n \<le> length (st_bytes s)"
  by (auto simp: fread_def Let_def)

function copy_blocks :: "stream \<Rightarrow> nat option \<Rightarrow> nat \<Rightarrow> string \<Rightarrow> bool \<times> string" where
  "copy_blocks s room pos out =
     (case fread s COPY_BLOCK pos of
        (chunk, eof, err) \<Rightarrow>
          (case (if chunk \<noteq> [] then fwrite room chunk out else (True, out)) of
             (False, out1) \<Rightarrow> (False, out1)
           | (True, out1) \<Rightarrow>
               if length chunk < COPY_BLOCK then (eof \<and> \<not> err, out1) else copy_blocks s room (pos + COPY_BLOCK) out1))"
  by pat_completeness auto
termination
  by (relation "measure (\<lambda>(s, room, pos, out). length (st_bytes s) + 1 - pos)")
     (auto simp: COPY_BLOCK_def dest!: fread_full[OF sym])

declare copy_blocks.simps [simp del]

definition copy_stream :: "nat option \<Rightarrow> string \<Rightarrow> stream \<Rightarrow> bool \<times> string" where
  "copy_stream room out s = copy_blocks s room 0 out"

text \<open>\<open>close_works\<close> is the result of \<open>fclose\<close>.\<close>

definition append_file :: "nat option \<Rightarrow> bool \<Rightarrow> string \<Rightarrow> stream option \<Rightarrow> bool \<times> string" where
  "append_file room close_works out source =
     (case source of None \<Rightarrow> (False, out)
      | Some s \<Rightarrow> (let (ok, out1) = copy_stream room out s in (ok \<and> close_works, out1)))"

function compare_blocks :: "stream \<Rightarrow> stream \<Rightarrow> nat \<Rightarrow> bool" where
  "compare_blocks a b pos =
     (case (fread a COMPARE_BLOCK pos, fread b COMPARE_BLOCK pos) of
        ((achunk, aeof, aerr), (bchunk, beof, berr)) \<Rightarrow>
          if length achunk \<noteq> length bchunk \<or> (achunk \<noteq> [] \<and> achunk \<noteq> bchunk) then False
          else if length achunk < COMPARE_BLOCK then aeof \<and> beof \<and> \<not> aerr \<and> \<not> berr
          else compare_blocks a b (pos + COMPARE_BLOCK))"
  by pat_completeness auto
termination
  by (relation "measure (\<lambda>(a, b, pos). length (st_bytes a) + 1 - pos)")
     (auto simp: COMPARE_BLOCK_def dest!: fread_full[OF sym])

declare compare_blocks.simps [simp del]

definition files_equal :: "stream option \<Rightarrow> stream option \<Rightarrow> bool" where
  "files_equal left right = (case (left, right) of (Some a, Some b) \<Rightarrow> compare_blocks a b 0 | _ \<Rightarrow> False)"

lemma fread_exact:
  assumes "0 < n"
  shows "fread s n pos = (take n (drop pos (take (stream_limit s) (st_bytes s))),
     stream_limit s < pos + n \<and> \<not> fails s, stream_limit s < pos + n \<and> fails s)"
proof -
  have "stream_limit s \<le> length (st_bytes s)" by (simp add: stream_limit_def split: option.split)
  with assms show ?thesis by (auto simp: fread_def Let_def)
qed

lemma readable_limit: "\<not> fails s \<Longrightarrow> stream_limit s = length (st_bytes s)"
  by (simp add: fails_def stream_limit_def split: option.splits)

text \<open>One block, in terms of the bytes that can be read.\<close>

lemma limit_length: "length (take (stream_limit s) (st_bytes s)) = stream_limit s"
  by (simp add: stream_limit_def split: option.split)

lemma block_cons: "take n (drop pos xs) @ drop (pos + n) xs = drop pos xs"
  by (metis add.commute append_take_drop_id drop_drop)

text \<open>Comparing by blocks is comparing the bytes that are left.\<close>

lemma compare_blocks_exact:
  "pos \<le> stream_limit a \<Longrightarrow> pos \<le> stream_limit b \<Longrightarrow>
   compare_blocks a b pos \<longleftrightarrow> \<not> fails a \<and> \<not> fails b \<and> drop pos (st_bytes a) = drop pos (st_bytes b)"
proof (induction a b pos rule: compare_blocks.induct)
  case (1 a b pos)
  define A where "A = take (stream_limit a) (st_bytes a)"
  define B where "B = take (stream_limit b) (st_bytes b)"
  let ?n = COMPARE_BLOCK
  have n: "0 < ?n" by (simp add: COMPARE_BLOCK_def)
  have A: "length A = stream_limit a" "\<not> fails a \<Longrightarrow> A = st_bytes a" and B: "length B = stream_limit b" "\<not> fails b \<Longrightarrow> B = st_bytes b"
    using limit_length readable_limit by (simp_all add: A_def B_def)
  have unfold_once: "compare_blocks a b pos \<longleftrightarrow>
      take ?n (drop pos A) = take ?n (drop pos B) \<and>
      (if stream_limit a < pos + ?n then stream_limit b < pos + ?n \<and> \<not> fails a \<and> \<not> fails b else compare_blocks a b (pos + ?n))"
  proof -
    define ca cb where "ca = take ?n (drop pos A)" and "cb = take ?n (drop pos B)"
    have la: "length ca < ?n \<longleftrightarrow> stream_limit a < pos + ?n" and lb: "length cb < ?n \<longleftrightarrow> stream_limit b < pos + ?n"
      using A(1) B(1) n by (auto simp: ca_def cb_def)
    have d: "length ca \<noteq> length cb \<or> (ca \<noteq> [] \<and> ca \<noteq> cb) \<longleftrightarrow> ca \<noteq> cb" by (metis length_0_conv)
    have "compare_blocks a b pos \<longleftrightarrow> (if ca \<noteq> cb then False
        else if length ca < ?n then (stream_limit a < pos + ?n \<and> \<not> fails a) \<and> (stream_limit b < pos + ?n \<and> \<not> fails b) \<and>
          \<not> (stream_limit a < pos + ?n \<and> fails a) \<and> \<not> (stream_limit b < pos + ?n \<and> fails b)
        else compare_blocks a b (pos + ?n))"
      unfolding compare_blocks.simps[of a b pos] fread_exact[OF n] prod.case A_def[symmetric] B_def[symmetric]
        ca_def[symmetric] cb_def[symmetric] d ..
    with la lb show ?thesis unfolding ca_def[symmetric] cb_def[symmetric] by (cases "ca = cb") auto
  qed
  show ?case
  proof (cases "stream_limit a < pos + ?n")
    case True
    show ?thesis
    proof
      assume "compare_blocks a b pos"
      with True unfold_once have e: "take ?n (drop pos A) = take ?n (drop pos B)" "stream_limit b < pos + ?n" "\<not> fails a" "\<not> fails b"
        by auto
      with True A B show "\<not> fails a \<and> \<not> fails b \<and> drop pos (st_bytes a) = drop pos (st_bytes b)" by simp
    next
      assume r: "\<not> fails a \<and> \<not> fails b \<and> drop pos (st_bytes a) = drop pos (st_bytes b)"
      then have "drop pos A = drop pos B" using A B by simp
      moreover from this have "stream_limit a - pos = stream_limit b - pos" using A(1) B(1) by (metis length_drop)
      ultimately show "compare_blocks a b pos" using True r unfold_once 1(2,3) by simp
    qed
  next
    case False
    have step: "compare_blocks a b (pos + ?n) \<longleftrightarrow> \<not> fails a \<and> \<not> fails b \<and> drop (pos + ?n) (st_bytes a) = drop (pos + ?n) (st_bytes b)"
      if "take ?n (drop pos A) = take ?n (drop pos B)"
    proof -
      have l: "length (take ?n (drop pos A)) = ?n" using False A(1) by simp
      with that have "length (take ?n (drop pos B)) = ?n" by simp
      then have "pos + ?n \<le> stream_limit b" using B(1) 1(3) by auto
      moreover have "\<not> (length (take ?n (drop pos A)) \<noteq> length (take ?n (drop pos B)) \<or>
          take ?n (drop pos A) \<noteq> [] \<and> take ?n (drop pos A) \<noteq> take ?n (drop pos B))" using that by simp
      ultimately show ?thesis
        using "1.IH"[of "(take ?n (drop pos A), False, False)" "(take ?n (drop pos B), stream_limit b < pos + ?n \<and> \<not> fails b, stream_limit b < pos + ?n \<and> fails b)"]
          False that l by (auto simp: fread_exact[OF n] simp flip: A_def B_def)
    qed
    have "drop pos A = drop pos B \<longleftrightarrow> take ?n (drop pos A) = take ?n (drop pos B) \<and> drop (pos + ?n) A = drop (pos + ?n) B"
      using block_cons[of ?n pos A] block_cons[of ?n pos B] by (metis add.commute drop_drop)
    with step unfold_once False A(2) B(2) show ?thesis by (cases "fails a \<or> fails b") auto
  qed
qed

lemma copy_blocks_exact:
  "pos \<le> stream_limit s \<Longrightarrow> copy_blocks s room pos out = (True, out1) \<Longrightarrow> \<not> fails s \<and> out1 = out @ drop pos (st_bytes s)"
proof (induction s room pos out rule: copy_blocks.induct)
  case (1 s room pos out)
  define A where "A = take (stream_limit s) (st_bytes s)"
  let ?n = COPY_BLOCK
  have n: "0 < ?n" by (simp add: COPY_BLOCK_def)
  have A: "length A = stream_limit s" "\<not> fails s \<Longrightarrow> A = st_bytes s" using limit_length readable_limit by (simp_all add: A_def)
  define ca where "ca = take ?n (drop pos A)"
  have f: "fread s ?n pos = (ca, stream_limit s < pos + ?n \<and> \<not> fails s, stream_limit s < pos + ?n \<and> fails s)"
    by (simp add: fread_exact[OF n] ca_def A_def)
  have la: "length ca < ?n \<longleftrightarrow> stream_limit s < pos + ?n" using A(1) n by (auto simp: ca_def)
  obtain b o1 where w: "(if ca \<noteq> [] then fwrite room ca out else (True, out)) = (b, o1)" by (rule prod.exhaust)
  from 1(3)[unfolded copy_blocks.simps[of s room pos out] f prod.case w] have b: b by (cases b) simp_all
  with w have o1: "o1 = out @ ca" by (auto simp: fwrite_def split: if_splits option.splits)
  note u = 1(3)[unfolded copy_blocks.simps[of s room pos out] f prod.case w]
  show ?case
  proof (cases "length ca < ?n")
    case True
    with u b have "\<not> fails s \<and> out1 = o1" by auto
    with True la A o1 show ?thesis by (auto simp: ca_def)
  next
    case False
    with u b have r: "copy_blocks s room (pos + ?n) o1 = (True, out1)" by simp
    have le: "pos + ?n \<le> stream_limit s" using False la by simp
    from "1.IH"[OF f[symmetric] refl w[symmetric] _ False le r] b have I: "\<not> fails s" "out1 = o1 @ drop (pos + ?n) (st_bytes s)"
      by auto
    then show ?thesis using o1 A(2) block_cons[of ?n pos A] by (simp add: ca_def)
  qed
qed

lemma copy_blocks_total:
  "pos \<le> stream_limit s \<Longrightarrow> \<not> fails s \<Longrightarrow> copy_blocks s None pos out = (True, out @ drop pos (st_bytes s))"
proof (induction s "None :: nat option" pos out rule: copy_blocks.induct)
  case (1 s pos out)
  let ?n = COPY_BLOCK and ?A = "st_bytes s"
  have n: "0 < ?n" by (simp add: COPY_BLOCK_def)
  have A: "stream_limit s = length ?A" using readable_limit 1(3) by simp
  define ca where "ca = take ?n (drop pos ?A)"
  have f: "fread s ?n pos = (ca, length ?A < pos + ?n, False)" using 1(3) A by (simp add: fread_exact[OF n] ca_def)
  have w: "(if ca \<noteq> [] then fwrite None ca out else (True, out)) = (True, out @ ca)" by (simp add: fwrite_def)
  show ?case
  proof (cases "length ca < ?n")
    case True
    then have "length ?A < pos + ?n" using A by (auto simp: ca_def)
    with True show ?thesis unfolding copy_blocks.simps[of s None pos out] f prod.case w by (simp add: ca_def)
  next
    case False
    then have le: "pos + ?n \<le> stream_limit s" using A n by (auto simp: ca_def)
    from "1.hyps"[OF f[symmetric] refl w[symmetric] refl False le 1(3)] False show ?thesis
      using block_cons[of ?n pos ?A] by (simp add: copy_blocks.simps[of s None pos out] f w) (simp add: ca_def)
  qed
qed

section \<open>Paths and lists of paths\<close>

definition path_join :: "nat \<Rightarrow> string \<Rightarrow> string \<Rightarrow> string option" where
  "path_join capacity left right =
     (let p = left @ ''/'' @ right in if length p < capacity then Some p else None)"

text \<open>What the walk calls: whether the calls work on a path, and whether memory can be had.\<close>

record walk =
  walk_opendir :: "string \<Rightarrow> bool"
  walk_closedir :: "string \<Rightarrow> bool"
  walk_lstat :: "string \<Rightarrow> bool"
  walk_utimes :: "string \<Rightarrow> bool"
  walk_realloc :: "nat \<Rightarrow> bool"
  walk_strdup :: "string \<Rightarrow> bool"

record path_list =
  pl_items :: "string list"
  pl_capacity :: nat

definition empty_list :: path_list where "empty_list = \<lparr>pl_items = [], pl_capacity = 0\<rparr>"

definition path_list_add :: "walk \<Rightarrow> path_list \<Rightarrow> string \<Rightarrow> bool \<times> path_list" where
  "path_list_add W pl path =
     (let next = (if pl_capacity pl = 0 then 32 else pl_capacity pl * 2);
          full = (length (pl_items pl) = pl_capacity pl)
      in if full \<and> \<not> walk_realloc W next then (False, pl)
         else
           (let pl1 = (if full then pl\<lparr>pl_capacity := next\<rparr> else pl)
            in if \<not> walk_strdup W path then (False, pl1) else (True, pl1\<lparr>pl_items := pl_items pl1 @ [path]\<rparr>)))"

section \<open>Trees\<close>

datatype shape = Regular_file | Folder "(string \<times> shape) list" | Special_file

definition common_markers :: "string list" where
  "common_markers = [''.system-settings-common-commit'', ''.system-settings-common-sha256'']"

definition directory_path :: "string \<Rightarrow> string \<Rightarrow> string option" where
  "directory_path base relative =
     (if relative = [] then (if PATH_MAX \<le> length base then None else Some base) else path_join PATH_MAX base relative)"

definition child_relative :: "string \<Rightarrow> string \<Rightarrow> string option" where
  "child_relative relative name =
     (if relative = [] then (if name = [] \<or> PATH_MAX \<le> length name then None else Some name)
      else path_join PATH_MAX relative name)"

text \<open>One entry: its relative path, when both of its paths fit and it can be examined.\<close>

definition entry_path :: "walk \<Rightarrow> string \<Rightarrow> string \<Rightarrow> string \<Rightarrow> (string \<times> string) option" where
  "entry_path W base relative name =
     (case child_relative relative name of
        None \<Rightarrow> None
      | Some child \<Rightarrow>
          (case path_join PATH_MAX base child of
             None \<Rightarrow> None | Some path \<Rightarrow> if walk_lstat W path then Some (child, path) else None))"

fun collect_files :: "walk \<Rightarrow> string \<Rightarrow> string \<Rightarrow> shape \<Rightarrow> path_list \<Rightarrow> bool \<times> path_list"
and collect_entries :: "walk \<Rightarrow> string \<Rightarrow> string \<Rightarrow> (string \<times> shape) list \<Rightarrow> path_list \<Rightarrow> bool \<times> path_list" where
  "collect_files W base relative (Folder es) pl =
     (case directory_path base relative of
        None \<Rightarrow> (False, pl)
      | Some directory \<Rightarrow>
          if \<not> walk_opendir W directory then (False, pl)
          else (case collect_entries W base relative es pl of
                  (False, pl1) \<Rightarrow> (False, pl1) | (True, pl1) \<Rightarrow> (walk_closedir W directory, pl1)))"
| "collect_files W base relative _ pl = (False, pl)"
| "collect_entries W base relative [] pl = (True, pl)"
| "collect_entries W base relative ((name, n) # es) pl =
     (case entry_path W base relative name of
        None \<Rightarrow> (False, pl)
      | Some (child, path) \<Rightarrow>
          (case (case n of
                   Folder _ \<Rightarrow> collect_files W base child n pl
                 | Regular_file \<Rightarrow> if child \<in> set common_markers then (True, pl) else path_list_add W pl child
                 | Special_file \<Rightarrow> (False, pl)) of
             (False, pl1) \<Rightarrow> (False, pl1)
           | (True, pl1) \<Rightarrow> collect_entries W base relative es pl1))"

text \<open>\<open>qsort\<close> with \<open>strcmp\<close>: the order of bytes.\<close>

definition sorted_items :: "path_list \<Rightarrow> string list" where
  "sorted_items pl = sort (pl_items pl)"

text \<open>What opening a path gives; the two trees are walked with their own calls.\<close>

fun compare_items :: "(string \<Rightarrow> stream option) \<Rightarrow> string \<Rightarrow> string \<Rightarrow> string list \<Rightarrow> string list \<Rightarrow> bool" where
  "compare_items opened left right (l # ls) (r # rs) =
     (case (path_join PATH_MAX left l, path_join PATH_MAX right r) of
        (Some lp, Some rp) \<Rightarrow> l = r \<and> files_equal (opened lp) (opened rp) \<and> compare_items opened left right ls rs
      | _ \<Rightarrow> False)"
| "compare_items opened left right [] rs = (rs = [])"
| "compare_items opened left right (l # ls) [] = False"

definition trees_equal ::
  "walk \<Rightarrow> (string \<Rightarrow> stream option) \<Rightarrow> string \<Rightarrow> shape \<Rightarrow> string \<Rightarrow> shape \<Rightarrow> bool" where
  "trees_equal W opened left_root left_tree right_root right_tree =
     (case collect_files W left_root [] left_tree empty_list of
        (False, _) \<Rightarrow> False
      | (True, left) \<Rightarrow>
          (case collect_files W right_root [] right_tree empty_list of
             (False, _) \<Rightarrow> False
           | (True, right) \<Rightarrow>
               length (pl_items left) = length (pl_items right) \<and>
               compare_items opened left_root right_root (sorted_items left) (sorted_items right)))"

text \<open>The paths whose times are set, in that order; the directory comes after its entries.\<close>

fun normalize_tree_times :: "walk \<Rightarrow> string \<Rightarrow> string \<Rightarrow> shape \<Rightarrow> string list \<Rightarrow> bool \<times> string list"
and normalize_entries :: "walk \<Rightarrow> string \<Rightarrow> string \<Rightarrow> (string \<times> shape) list \<Rightarrow> string list \<Rightarrow> bool \<times> string list" where
  "normalize_tree_times W base relative (Folder es) touched =
     (case directory_path base relative of
        None \<Rightarrow> (False, touched)
      | Some directory \<Rightarrow>
          if \<not> walk_opendir W directory then (False, touched)
          else (case normalize_entries W base relative es touched of
                  (False, t) \<Rightarrow> (False, t)
                | (True, t) \<Rightarrow>
                    if \<not> walk_closedir W directory \<or> \<not> walk_utimes W directory then (False, t) else (True, t @ [directory])))"
| "normalize_tree_times W base relative _ touched = (False, touched)"
| "normalize_entries W base relative [] touched = (True, touched)"
| "normalize_entries W base relative ((name, n) # es) touched =
     (case entry_path W base relative name of
        None \<Rightarrow> (False, touched)
      | Some (child, path) \<Rightarrow>
          (case (case n of
                   Folder _ \<Rightarrow> normalize_tree_times W base child n touched
                 | Regular_file \<Rightarrow> (True, touched)
                 | Special_file \<Rightarrow> (False, touched)) of
             (False, t) \<Rightarrow> (False, t)
           | (True, t) \<Rightarrow>
               if \<not> walk_utimes W path then (False, t)
               else normalize_entries W base relative es (t @ [path])))"

section \<open>Captured output, hashes and the version\<close>

text \<open>The bytes a command wrote and whether it ended with status 0; the buffer keeps one byte for the terminator.\<close>

definition trimmed_byte :: "char \<Rightarrow> bool" where
  "trimmed_byte c \<longleftrightarrow> c = CHR 0x0A \<or> c = CHR 0x0D \<or> c = CHR '' '' \<or> c = CHR 0x09"

definition drop_trailing :: "(char \<Rightarrow> bool) \<Rightarrow> string \<Rightarrow> string" where
  "drop_trailing P s = rev (dropWhile P (rev s))"

definition capture_command :: "(string \<times> bool) option \<Rightarrow> nat \<Rightarrow> string option" where
  "capture_command result capacity =
     (case result of None \<Rightarrow> None
      | Some (written, succeeded) \<Rightarrow>
          if capacity < 2 \<or> \<not> succeeded then None
          else (let out = drop_trailing trimmed_byte (take (capacity - 1) written) in if out = [] then None else Some out))"

definition is_hex :: "char \<Rightarrow> bool" where
  "is_hex c \<longleftrightarrow> is_digit c \<or> (CHR ''a'' \<le> c \<and> c \<le> CHR ''f'') \<or> (CHR ''A'' \<le> c \<and> c \<le> CHR ''F'')"

definition to_lower :: "char \<Rightarrow> char" where
  "to_lower c = (if CHR ''A'' \<le> c \<and> c \<le> CHR ''Z'' then char_of (code_of c + 32) else c)"

definition sha256_file :: "(string list \<Rightarrow> (string \<times> bool) option) \<Rightarrow> string \<Rightarrow> string option" where
  "sha256_file run path =
     (case capture_command (run [''sha256sum'', path]) 256 of
        None \<Rightarrow> None
      | Some out \<Rightarrow>
          if length out < 64 \<or> \<not> list_all is_hex (take 64 out) then None else Some (map to_lower (take 64 out)))"

fun manifest_lines ::
  "(string list \<Rightarrow> (string \<times> bool) option) \<Rightarrow> string \<Rightarrow> string list \<Rightarrow> string \<Rightarrow> bool \<times> string" where
  "manifest_lines run base [] out = (True, out)"
| "manifest_lines run base (p # ps) out =
     (case path_join PATH_MAX base p of
        None \<Rightarrow> (False, out)
      | Some path \<Rightarrow>
          (case sha256_file run path of
             None \<Rightarrow> (False, out)
           | Some hash \<Rightarrow> manifest_lines run base ps (out @ hash @ ''  '' @ p @ [CHR 0x0A])))"

text \<open>The result and the text written to the manifest, if it was opened; \<open>io_works\<close> are opening and flushing with closing.\<close>

definition write_common_manifest ::
  "walk \<Rightarrow> (string list \<Rightarrow> (string \<times> bool) option) \<Rightarrow> bool \<Rightarrow> bool \<Rightarrow> string \<Rightarrow> shape \<Rightarrow> bool \<times> (string \<times> string) option" where
  "write_common_manifest W run open_works flush_works common_root tree =
     (case collect_files W common_root [] tree empty_list of
        (False, _) \<Rightarrow> (False, None)
      | (True, pl) \<Rightarrow>
          (case path_join PATH_MAX common_root ''.system-settings-common-sha256'' of
             None \<Rightarrow> (False, None)
           | Some path \<Rightarrow>
               if \<not> open_works then (False, None)
               else (let (ok, out) = manifest_lines run common_root (sorted_items pl) []
                     in (ok \<and> flush_works, Some (path, out)))))"

fun version_loop :: "nat \<Rightarrow> bool \<Rightarrow> string \<Rightarrow> bool" where
  "version_loop dots digit [] = (dots = 2 \<and> digit)"
| "version_loop dots digit (c # s) =
     (if c = CHR ''.'' then (if \<not> digit \<or> 2 \<le> dots then False else version_loop (dots + 1) False s)
      else if is_digit c then version_loop dots True s
      else False)"

definition valid_version :: "string \<Rightarrow> bool" where
  "valid_version value = (if value = [] then False else version_loop 0 False value)"

definition is_space_byte :: "char \<Rightarrow> bool" where
  "is_space_byte c \<longleftrightarrow> c = CHR '' '' \<or> (9 \<le> code_of c \<and> code_of c \<le> 13)"

definition read_trimmed :: "stream option \<Rightarrow> nat \<Rightarrow> string option" where
  "read_trimmed stream capacity =
     (case stream of None \<Rightarrow> None
      | Some s \<Rightarrow>
          if capacity < 2 then None
          else
            (case fread s (capacity - 1) 0 of
               (bytes, eof, err) \<Rightarrow>
                 if err \<or> \<not> eof then None
                 else (let out = drop_trailing is_space_byte bytes in if out = [] then None else Some out)))"

section \<open>Walking a tree\<close>

text \<open>The relative paths of the regular files that are no marker, in the order they are met.\<close>

definition child_of :: "string \<Rightarrow> string \<Rightarrow> string" where
  "child_of relative name = (if relative = [] then name else relative @ ''/'' @ name)"

fun tree_files :: "string \<Rightarrow> shape \<Rightarrow> string list"
and entries_files :: "string \<Rightarrow> (string \<times> shape) list \<Rightarrow> string list" where
  "tree_files relative (Folder es) = entries_files relative es"
| "tree_files relative Regular_file = (if relative \<in> set common_markers then [] else [relative])"
| "tree_files relative Special_file = []"
| "entries_files relative [] = []"
| "entries_files relative ((name, n) # es) = tree_files (child_of relative name) n @ entries_files relative es"

lemma entry_path_Some:
  "entry_path W b relative name = Some (child, path) \<Longrightarrow> child = child_of relative name \<and> path_join PATH_MAX b child = Some path"
  by (auto simp: entry_path_def child_relative_def child_of_def path_join_def Let_def split: option.splits if_splits)

lemma path_list_add_items: "path_list_add W pl p = (True, pl') \<Longrightarrow> pl_items pl' = pl_items pl @ [p]"
  by (auto simp: path_list_add_def Let_def split: if_splits)

lemma collect_exact:
  "collect_files W b relative n pl = (True, pl') \<Longrightarrow>
     pl_items pl' = pl_items pl @ tree_files relative n \<and> (\<forall>p \<in> set (tree_files relative n). path_join PATH_MAX b p \<noteq> None)"
  "collect_entries W b relative es pl = (True, pl') \<Longrightarrow>
     pl_items pl' = pl_items pl @ entries_files relative es \<and> (\<forall>p \<in> set (entries_files relative es). path_join PATH_MAX b p \<noteq> None)"
proof (induction W b relative n pl and W b relative es pl arbitrary: pl' and pl' rule: collect_files_collect_entries.induct)
  case (4 W b relative name n es pl)
  obtain child path where e: "entry_path W b relative name = Some (child, path)"
    using 4(3) by (auto split: option.splits)
  note E = entry_path_Some[OF e]
  obtain pl1 where one: "(case n of Folder _ \<Rightarrow> collect_files W b child n pl
        | Regular_file \<Rightarrow> if child \<in> set common_markers then (True, pl) else path_list_add W pl child
        | Special_file \<Rightarrow> (False, pl)) = (True, pl1)" and two: "collect_entries W b relative es pl1 = (True, pl')"
    using 4(3) e by (auto split: prod.splits bool.splits)
  have "pl_items pl1 = pl_items pl @ tree_files child n \<and> (\<forall>p \<in> set (tree_files child n). path_join PATH_MAX b p \<noteq> None)"
  proof (cases n)
    case (Folder es1)
    with "4.IH"(1)[OF e refl Folder] one show ?thesis by simp
  next
    case Regular_file
    with one E path_list_add_items[of W pl child pl1] show ?thesis by (auto split: if_splits)
  qed (use one in simp)
  moreover have "pl_items pl' = pl_items pl1 @ entries_files relative es \<and> (\<forall>p \<in> set (entries_files relative es). path_join PATH_MAX b p \<noteq> None)"
    using "4.IH"(2)[OF e refl one[symmetric] refl two] by simp
  ultimately show ?case using E by auto
qed (auto split: option.splits prod.splits bool.splits if_splits)

lemma compare_items_exact:
  "compare_items opened left right ls rs \<longleftrightarrow> ls = rs \<and>
     (\<forall>p \<in> set ls. \<exists>lp rp. path_join PATH_MAX left p = Some lp \<and> path_join PATH_MAX right p = Some rp \<and> files_equal (opened lp) (opened rp))"
  by (induction opened left right ls rs rule: compare_items.induct) (auto split: option.splits)

lemma sort_eq_iff: "sort xs = sort ys \<longleftrightarrow> mset xs = mset (ys :: string list)"
  by (metis mset_sort properties_for_sort sorted_sort)

lemma files_equal_exact:
  "files_equal left right \<longleftrightarrow> (\<exists>a b. left = Some a \<and> right = Some b \<and> \<not> fails a \<and> \<not> fails b \<and> st_bytes a = st_bytes b)"
  using compare_blocks_exact[of 0] by (auto simp: files_equal_def split: option.splits)

text \<open>The two trees hold the same files with the same bytes, and all of them can be read.\<close>

definition same_contents :: "(string \<Rightarrow> stream option) \<Rightarrow> string \<Rightarrow> shape \<Rightarrow> string \<Rightarrow> shape \<Rightarrow> bool" where
  "same_contents opened left left_tree right right_tree \<longleftrightarrow>
     mset (tree_files [] left_tree) = mset (tree_files [] right_tree) \<and>
     (\<forall>p \<in> set (tree_files [] left_tree). \<exists>a b.
        opened (left @ ''/'' @ p) = Some a \<and> opened (right @ ''/'' @ p) = Some b \<and> \<not> fails a \<and> \<not> fails b \<and> st_bytes a = st_bytes b)"

lemma path_join_Some: "path_join capacity l r \<noteq> None \<Longrightarrow> path_join capacity l r = Some (l @ ''/'' @ r)"
  by (simp add: path_join_def Let_def split: if_splits)

lemma trees_equal_law:
  "trees_equal W opened left left_tree right right_tree \<longleftrightarrow>
     fst (collect_files W left [] left_tree empty_list) \<and> fst (collect_files W right [] right_tree empty_list) \<and>
     same_contents opened left left_tree right right_tree"
proof -
  obtain b1 l where l: "collect_files W left [] left_tree empty_list = (b1, l)" by (rule prod.exhaust)
  obtain b2 r where r: "collect_files W right [] right_tree empty_list = (b2, r)" by (rule prod.exhaust)
  show ?thesis
  proof (cases "b1 \<and> b2")
    case False
    with l r show ?thesis by (cases b1; cases b2) (simp_all add: trees_equal_def)
  next
    case True
    have L: "pl_items l = tree_files [] left_tree" "\<And>p. p \<in> set (tree_files [] left_tree) \<Longrightarrow> path_join PATH_MAX left p \<noteq> None"
      and R: "pl_items r = tree_files [] right_tree" "\<And>p. p \<in> set (tree_files [] right_tree) \<Longrightarrow> path_join PATH_MAX right p \<noteq> None"
      using collect_exact(1)[of W left "[]" left_tree empty_list l] collect_exact(1)[of W right "[]" right_tree empty_list r] l r True
      by (simp_all add: empty_list_def)
    have "trees_equal W opened left left_tree right right_tree \<longleftrightarrow> length (pl_items l) = length (pl_items r) \<and>
        compare_items opened left right (sorted_items l) (sorted_items r)"
      using l r True by (simp add: trees_equal_def)
    also have "\<dots> \<longleftrightarrow> mset (pl_items l) = mset (pl_items r) \<and> (\<forall>p \<in> set (pl_items l). \<exists>lp rp. path_join PATH_MAX left p = Some lp \<and>
        path_join PATH_MAX right p = Some rp \<and> files_equal (opened lp) (opened rp))"
      using mset_eq_length[of "pl_items l" "pl_items r"] by (auto simp: compare_items_exact sorted_items_def sort_eq_iff)
    also have "\<dots> \<longleftrightarrow> same_contents opened left left_tree right right_tree"
    proof (cases "mset (pl_items l) = mset (pl_items r)")
      case m: True
      then have "set (tree_files [] left_tree) = set (tree_files [] right_tree)" using L(1) R(1) mset_eq_setD by metis
      then have "path_join PATH_MAX left p = Some (left @ ''/'' @ p) \<and> path_join PATH_MAX right p = Some (right @ ''/'' @ p)"
        if "p \<in> set (tree_files [] left_tree)" for p using L(2) R(2) path_join_Some that by blast
      with m L(1) R(1) show ?thesis by (simp add: same_contents_def files_equal_exact)
    qed (use L(1) R(1) in \<open>simp add: same_contents_def\<close>)
    finally show ?thesis using l r True by simp
  qed
qed

text \<open>Every directory and every file, relative to the root.\<close>

fun tree_paths :: "string \<Rightarrow> shape \<Rightarrow> string set"
and entries_paths :: "string \<Rightarrow> (string \<times> shape) list \<Rightarrow> string set" where
  "tree_paths relative (Folder es) = entries_paths relative es"
| "tree_paths relative _ = {}"
| "entries_paths relative [] = {}"
| "entries_paths relative ((name, n) # es) =
     insert (child_of relative name) (tree_paths (child_of relative name) n) \<union> entries_paths relative es"

lemma entry_directory:
  assumes "entry_path W b relative name = Some (child, path)" shows "directory_path b child = Some path \<and> path = b @ ''/'' @ child"
proof -
  have "child \<noteq> []" using assms
    by (auto simp: entry_path_def child_relative_def path_join_def Let_def split: option.splits if_splits)
  with assms entry_path_Some[OF assms] show ?thesis
    by (auto simp: directory_path_def path_join_def Let_def split: if_splits)
qed

lemma normalize_covers:
  "normalize_tree_times W b relative n touched = (True, t) \<Longrightarrow> \<exists>d. directory_path b relative = Some d \<and> t \<noteq> [] \<and> last t = d \<and>
     set t = set touched \<union> insert d ((\<lambda>p. b @ ''/'' @ p) ` tree_paths relative n)"
  "normalize_entries W b relative es touched = (True, t) \<Longrightarrow>
     set t = set touched \<union> ((\<lambda>p. b @ ''/'' @ p) ` entries_paths relative es)"
proof (induction W b relative n touched and W b relative es touched arbitrary: t and t rule: normalize_tree_times_normalize_entries.induct)
  case (1 W b relative es touched)
  obtain d where d: "directory_path b relative = Some d" "walk_opendir W d" using 1(2) by (auto split: option.splits if_splits)
  obtain t1 where e: "normalize_entries W b relative es touched = (True, t1)" using 1(2) d by (auto split: prod.splits bool.splits)
  with 1(2) d have "t = t1 @ [d]" by (auto split: if_splits)
  with "1.IH"[OF d(1) _ e] d show ?case by simp
next
  case (4 W b relative name n es touched)
  obtain child path where e: "entry_path W b relative name = Some (child, path)" using 4(3) by (auto split: option.splits)
  note E = entry_path_Some[OF e] entry_directory[OF e]
  obtain t1 where one: "(case n of Folder _ \<Rightarrow> normalize_tree_times W b child n touched | Regular_file \<Rightarrow> (True, touched)
      | Special_file \<Rightarrow> (False, touched)) = (True, t1)" and u: "walk_utimes W path"
    and two: "normalize_entries W b relative es (t1 @ [path]) = (True, t)"
    using 4(3) e by (auto split: prod.splits bool.splits if_splits)
  have "insert path (set t1) = set touched \<union> insert path ((\<lambda>p. b @ ''/'' @ p) ` tree_paths child n)"
  proof (cases n)
    case (Folder es1)
    with "4.IH"(1)[OF e refl Folder] one E show ?thesis by auto
  qed (use one in auto)
  moreover have "set t = insert path (set t1) \<union> ((\<lambda>p. b @ ''/'' @ p) ` entries_paths relative es)"
    using "4.IH"(2)[OF e refl one[symmetric] refl _ two] u by auto
  ultimately show ?case using E by auto
qed auto

lemma version_two: "version_loop 2 d s \<longleftrightarrow> list_all is_digit s \<and> (d \<or> s \<noteq> [])"
  by (induction s arbitrary: d) (auto simp: is_digit_def)

lemma version_dot: "\<not> is_digit CHR ''.''"
  by (simp add: is_digit_def)

text \<open>Cutting at a dot, one character at a time.\<close>

lemma cut_cons:
  "(\<exists>b c. x # s = b @ ''.'' @ c \<and> P b c) \<longleftrightarrow> (x = CHR ''.'' \<and> P [] s) \<or> (\<exists>b c. s = b @ ''.'' @ c \<and> P (x # b) c)"
proof
  assume "\<exists>b c. x # s = b @ ''.'' @ c \<and> P b c"
  then obtain b c where "x # s = b @ ''.'' @ c" "P b c" by blast
  then show "(x = CHR ''.'' \<and> P [] s) \<or> (\<exists>b c. s = b @ ''.'' @ c \<and> P (x # b) c)" by (cases b) auto
next
  assume "(x = CHR ''.'' \<and> P [] s) \<or> (\<exists>b c. s = b @ ''.'' @ c \<and> P (x # b) c)"
  then show "\<exists>b c. x # s = b @ ''.'' @ c \<and> P b c"
  proof
    assume "x = CHR ''.'' \<and> P [] s"
    then show ?thesis by (intro exI[of _ "[]"] exI[of _ s]) simp
  next
    assume "\<exists>b c. s = b @ ''.'' @ c \<and> P (x # b) c"
    then obtain b c where "s = b @ ''.'' @ c" "P (x # b) c" by blast
    then show ?thesis by (intro exI[of _ "x # b"] exI[of _ c]) simp
  qed
qed

lemma cut_nil: "\<not> (\<exists>b c. [] = b @ ''.'' @ c \<and> P b c)"
  by simp

lemma version_one:
  "version_loop 1 d s \<longleftrightarrow> (\<exists>b c. s = b @ ''.'' @ c \<and> list_all is_digit (b @ c) \<and> (d \<or> b \<noteq> []) \<and> c \<noteq> [])"
proof (induction s arbitrary: d)
  case (Cons x s)
  show ?case
    unfolding cut_cons using Cons version_two[of False s] version_dot by (auto simp: numeral_2_eq_2)
qed simp

lemma version_zero:
  "version_loop 0 d s \<longleftrightarrow>
    (\<exists>a t. s = a @ ''.'' @ t \<and> list_all is_digit a \<and> (d \<or> a \<noteq> []) \<and>
       (\<exists>b c. t = b @ ''.'' @ c \<and> list_all is_digit (b @ c) \<and> b \<noteq> [] \<and> c \<noteq> []))"
proof (induction s arbitrary: d)
  case (Cons x s)
  show ?case
    unfolding cut_cons[of x s] using Cons version_one[of False s] version_dot by auto
qed simp

lemma version_exact:
  "valid_version s \<longleftrightarrow> (\<exists>a b c. s = a @ ''.'' @ b @ ''.'' @ c \<and> list_all is_digit (a @ b @ c) \<and> a \<noteq> [] \<and> b \<noteq> [] \<and> c \<noteq> [])"
proof -
  have "valid_version s \<longleftrightarrow> version_loop 0 False s" by (auto simp: valid_version_def)
  then show ?thesis unfolding version_zero by auto
qed

section \<open>The manifest\<close>

definition manifest_line :: "(string list \<Rightarrow> (string \<times> bool) option) \<Rightarrow> string \<Rightarrow> string \<Rightarrow> string" where
  "manifest_line run base p = the (sha256_file run (base @ ''/'' @ p)) @ ''  '' @ p @ [CHR 0x0A]"

lemma manifest_lines_exact:
  "manifest_lines run base ps out = (True, out') \<Longrightarrow>
     out' = out @ concat (map (manifest_line run base) ps) \<and> (\<forall>p \<in> set ps. sha256_file run (base @ ''/'' @ p) \<noteq> None)"
proof (induction run base ps out rule: manifest_lines.induct)
  case (2 run base p ps out)
  obtain path hash where h: "path_join PATH_MAX base p = Some path" "sha256_file run path = Some hash"
    using 2(2) by (auto split: option.splits)
  with 2 path_join_Some[of PATH_MAX base p] show ?case by (simp add: manifest_line_def)
qed simp

lemma lower_hex: "is_hex c \<Longrightarrow> is_digit (to_lower c) \<or> (CHR ''a'' \<le> to_lower c \<and> to_lower c \<le> CHR ''f'')"
  by (auto simp: is_hex_def to_lower_def is_digit_def less_eq_char_def)

lemma hash_shape: "sha256_file run path = Some h \<Longrightarrow> length h = 64 \<and> list_all (\<lambda>c. is_digit c \<or> (CHR ''a'' \<le> c \<and> c \<le> CHR ''f'')) h"
  by (auto simp: sha256_file_def list_all_iff split: option.splits if_splits) (use lower_hex in blast)+

lemma manifest_exact:
  assumes "write_common_manifest W run open_works flush_works base tree = (True, written)"
  shows "written = Some (base @ ''/.system-settings-common-sha256'', concat (map (manifest_line run base) (sort (tree_files [] tree))))"
proof -
  obtain pl path where c: "collect_files W base [] tree empty_list = (True, pl)"
    "path_join PATH_MAX base ''.system-settings-common-sha256'' = Some path" "open_works"
    using assms by (auto simp: write_common_manifest_def split: prod.splits bool.splits option.splits if_splits)
  obtain ok out where m: "manifest_lines run base (sorted_items pl) [] = (ok, out)" by (rule prod.exhaust)
  have "sorted_items pl = sort (tree_files [] tree)" using collect_exact(1)[OF c(1)] by (simp add: sorted_items_def empty_list_def)
  moreover from assms c m have "ok" "written = Some (path, out)" by (auto simp: write_common_manifest_def)
  moreover have "path = base @ ''/.system-settings-common-sha256''" using c(2) by (simp add: path_join_def Let_def split: if_splits)
  ultimately show ?thesis using manifest_lines_exact[of run base "sorted_items pl" "[]" out] m by simp
qed

end
