(* ===== verification/SourceAssetBuilder.thy ===== *)
theory SourceAssetBuilder
  imports SourceTrees
begin

text \<open>
  \<open>main\<close> of \<open>packaging/source-asset-builder.c\<close>: from the release commit to the two assets, the self-extracting
  installer and the source archive, and their verification. What the system does is a parameter of the calls
  made so far, the trace; \<open>fail\<close> is exit code 1. Commands and file names are those of the code.
\<close>

section \<open>The system\<close>

datatype builder_event =
    Executed "string option" "string list" int
  | Read_output "string option" "string list"
  | Made string
  | Temporary string
  | Written string string
  | Permitted string
  | Dated "string list"
  | Cleared string

datatype mkdir_result = Mkdir_created | Mkdir_exists | Mkdir_failed

type_synonym trace = "builder_event list"

record builder =
  b_setenv :: bool
  b_output :: "trace \<Rightarrow> string option \<Rightarrow> string list \<Rightarrow> (string \<times> bool) option"
  b_status :: "trace \<Rightarrow> string option \<Rightarrow> string list \<Rightarrow> int"
  b_chdir :: "string \<Rightarrow> bool"
  b_mkdir :: "trace \<Rightarrow> string \<Rightarrow> mkdir_result"
  b_getcwd :: "string option"
  b_mkdtemp :: "string option"
  b_opened :: "trace \<Rightarrow> string \<Rightarrow> stream option"
  b_walk :: "trace \<Rightarrow> walk"
  b_tree :: "trace \<Rightarrow> string \<Rightarrow> shape"
  b_create :: "trace \<Rightarrow> string \<Rightarrow> bool"
  b_room :: "trace \<Rightarrow> nat option"
  b_flush :: "trace \<Rightarrow> string \<Rightarrow> bool"
  b_close :: "trace \<Rightarrow> string \<Rightarrow> bool"
  b_size :: "trace \<Rightarrow> string \<Rightarrow> int option"
  b_chmod :: "trace \<Rightarrow> string \<Rightarrow> bool"

text \<open>A step either goes on or stops with a failure; its trace is kept.\<close>

type_synonym step = "trace \<Rightarrow> bool \<times> trace"

fun run_steps :: "step list \<Rightarrow> step" where
  "run_steps [] tr = (True, tr)"
| "run_steps (f # fs) tr = (case f tr of (False, tr1) \<Rightarrow> (False, tr1) | (True, tr1) \<Rightarrow> run_steps fs tr1)"

definition checked :: "bool \<Rightarrow> step" where
  "checked b tr = (b, tr)"

definition run :: "builder \<Rightarrow> string option \<Rightarrow> string list \<Rightarrow> step" where
  "run B cwd argv tr = (let s = b_status B tr cwd argv in (s = 0, tr @ [Executed cwd argv s]))"

definition capture :: "builder \<Rightarrow> string option \<Rightarrow> string list \<Rightarrow> nat \<Rightarrow> trace \<Rightarrow> string option \<times> trace" where
  "capture B cwd argv capacity tr = (capture_command (b_output B tr cwd argv) capacity, tr @ [Read_output cwd argv])"

definition mkdir_one :: "builder \<Rightarrow> string \<Rightarrow> step" where
  "mkdir_one B path tr =
     (case b_mkdir B tr path of
        Mkdir_created \<Rightarrow> (True, tr @ [Made path]) | Mkdir_exists \<Rightarrow> (True, tr) | Mkdir_failed \<Rightarrow> (False, tr))"

definition make_new :: "builder \<Rightarrow> string \<Rightarrow> step" where
  "make_new B path tr = (if b_mkdir B tr path = Mkdir_created then (True, tr @ [Made path]) else (False, tr))"

definition write_text :: "builder \<Rightarrow> string \<Rightarrow> string \<Rightarrow> step" where
  "write_text B path txt tr =
     (if \<not> b_create B tr path then (False, tr)
      else (let (ok, out) = fwrite (b_room B tr) txt []
            in (ok \<and> b_flush B tr path \<and> b_close B tr path, tr @ [Written path out])))"

section \<open>The release\<close>

definition common_relative :: string where "common_relative = ''src/vendor/infiltratr-common''"

text \<open>\<open>strtoll\<close> of the whole text: spaces, a sign and digits, within 64 bits.\<close>

definition parse_epoch :: "string \<Rightarrow> int option" where
  "parse_epoch s =
     (let t = dropWhile is_space_byte s;
          negative = (t \<noteq> [] \<and> hd t = CHR ''-'');
          digits = (if t \<noteq> [] \<and> (hd t = CHR ''-'' \<or> hd t = CHR ''+'') then tl t else t);
          v = (if negative then - int (decimal digits) else int (decimal digits))
      in if digits = [] \<or> \<not> list_all is_digit digits \<or> v < - (2 ^ 63) \<or> 2 ^ 63 \<le> v \<or> v \<le> 0 then None else Some v)"

record release =
  rel_root :: string
  rel_epoch :: int
  rel_version :: string
  rel_common :: string
  rel_pin :: string
  rel_output :: string

text \<open>The repository, its commit's time, and that the tracked files are those of the commit.\<close>

definition read_head :: "builder \<Rightarrow> trace \<Rightarrow> (string \<times> int) option \<times> trace" where
  "read_head B tr =
     (case capture B None [''git'', ''rev-parse'', ''--show-toplevel''] PATH_MAX tr of
        (None, tr1) \<Rightarrow> (None, tr1)
      | (Some base, tr1) \<Rightarrow>
          if \<not> b_chdir B base then (None, tr1)
          else
            (case capture B (Some base) [''git'', ''show'', ''-s'', ''--format=%ct'', ''HEAD''] 32 tr1 of
               (None, tr2) \<Rightarrow> (None, tr2)
             | (Some epoch_text, tr2) \<Rightarrow>
                 (case parse_epoch epoch_text of
                    None \<Rightarrow> (None, tr2)
                  | Some epoch \<Rightarrow>
                      (case run B (Some base) [''git'', ''diff'', ''--quiet'', ''HEAD'', ''--''] tr2 of
                         (False, tr3) \<Rightarrow> (None, tr3) | (True, tr3) \<Rightarrow> (Some (base, epoch), tr3)))))"

definition read_version :: "builder \<Rightarrow> string \<Rightarrow> trace \<Rightarrow> string option" where
  "read_version B base tr =
     (case path_join PATH_MAX base ''VERSION'' of
        None \<Rightarrow> None
      | Some version_path \<Rightarrow>
          (case read_trimmed (b_opened B tr version_path) 64 of
             None \<Rightarrow> None | Some version \<Rightarrow> if valid_version version then Some version else None))"

text \<open>The commit of Common: the one the release names must be the one checked out.\<close>

definition pin_argv :: "string list" where "pin_argv = [''git'', ''rev-parse'', ''HEAD:'' @ common_relative]"

definition common_head_argv :: "string \<Rightarrow> string list" where
  "common_head_argv common = [''git'', ''-C'', common, ''rev-parse'', ''HEAD'']"

definition read_pin :: "builder \<Rightarrow> string \<Rightarrow> string \<Rightarrow> trace \<Rightarrow> string option \<times> trace" where
  "read_pin B base common tr =
     (case capture B (Some base) pin_argv 80 tr of
        (None, tr1) \<Rightarrow> (None, tr1)
      | (Some pin, tr1) \<Rightarrow>
          (case capture B (Some base) (common_head_argv common) 80 tr1 of
             (None, tr2) \<Rightarrow> (None, tr2)
           | (Some common_head, tr2) \<Rightarrow> if pin = common_head then (Some pin, tr2) else (None, tr2)))"

definition resolve_output :: "builder \<Rightarrow> string \<Rightarrow> string option" where
  "resolve_output B arg =
     (if hd arg = CHR ''/'' then (if PATH_MAX \<le> length arg then None else Some arg)
      else (case b_getcwd B of None \<Rightarrow> None | Some current \<Rightarrow> path_join PATH_MAX current arg))"

definition read_release :: "builder \<Rightarrow> string \<Rightarrow> trace \<Rightarrow> release option \<times> trace" where
  "read_release B arg tr =
     (case read_head B tr of
        (None, tr1) \<Rightarrow> (None, tr1)
      | (Some (base, epoch), tr1) \<Rightarrow>
          (case (read_version B base tr1, path_join PATH_MAX base common_relative) of
             (Some version, Some common) \<Rightarrow>
               (case read_pin B base common tr1 of
                  (None, tr2) \<Rightarrow> (None, tr2)
                | (Some pin, tr2) \<Rightarrow>
                    (case mkdir_one B arg tr2 of
                       (False, tr3) \<Rightarrow> (None, tr3)
                     | (True, tr3) \<Rightarrow>
                         (case resolve_output B arg of
                            None \<Rightarrow> (None, tr3)
                          | Some output \<Rightarrow>
                              (Some \<lparr>rel_root = base, rel_epoch = epoch, rel_version = version, rel_common = common,
                                     rel_pin = pin, rel_output = output\<rparr>, tr3))))
           | _ \<Rightarrow> (None, tr1)))"

section \<open>The assets\<close>

text \<open>The directories above and at the place of Common in the export.\<close>

fun parents :: "string \<Rightarrow> string \<Rightarrow> string list" where
  "parents done [] = [done]"
| "parents done (c # s) = (if c = CHR ''/'' then done # parents (done @ [c]) s else parents (done @ [c]) s)"

text \<open>A path that does not fit stops the run, so the places below a directory are those of the code when they do.\<close>

definition joined :: "string \<Rightarrow> string \<Rightarrow> step" where
  "joined left right = checked (path_join PATH_MAX left right \<noteq> None)"

abbreviation below :: "string \<Rightarrow> string \<Rightarrow> string" where "below left right \<equiv> left @ ''/'' @ right"

definition export_step :: "builder \<Rightarrow> release \<Rightarrow> string \<Rightarrow> step" where
  "export_step B rel work =
     (let source = below work ''source''; export = below source common_relative;
          root_tar = below work ''root.tar''; common_tar = below work ''common.tar''
      in run_steps (
           map (mkdir_one B) (parents (source @ ''/'') common_relative) @
           [joined work ''root.tar'', joined work ''common.tar'',
            checked (length (''--output='' @ root_tar) < PATH_MAX \<and> length (''--output='' @ common_tar) < PATH_MAX),
            run B (Some (rel_root rel)) [''git'', ''archive'', ''--format=tar'', ''--output='' @ root_tar, ''HEAD''],
            run B (Some (rel_root rel)) [''tar'', ''-xf'', root_tar, ''-C'', source],
            run B (Some (rel_root rel)) [''git'', ''-C'', rel_common rel, ''archive'', ''--format=tar'', ''--output='' @ common_tar, rel_pin rel],
            run B (Some (rel_root rel)) [''tar'', ''-xf'', common_tar, ''-C'', export]]))"

definition manifest_step :: "builder \<Rightarrow> string \<Rightarrow> step" where
  "manifest_step B export tr =
     (case write_common_manifest (b_walk B tr) (b_output B tr None) (b_create B tr (below export ''.system-settings-common-sha256''))
             (b_flush B tr (below export ''.system-settings-common-sha256'') \<and> b_close B tr (below export ''.system-settings-common-sha256''))
             export (b_tree B tr export) of
        (ok, None) \<Rightarrow> (ok, tr)
      | (ok, Some (path, txt)) \<Rightarrow> (ok, tr @ [Written path txt]))"

definition date_step :: "builder \<Rightarrow> string \<Rightarrow> step" where
  "date_step B source tr =
     (let (ok, touched) = normalize_tree_times (b_walk B tr) source [] (b_tree B tr source) [] in (ok, tr @ [Dated touched]))"

definition provenance_step :: "builder \<Rightarrow> release \<Rightarrow> string \<Rightarrow> step" where
  "provenance_step B rel work =
     (let source = below work ''source''; export = below source common_relative
      in run_steps
           [joined export ''.system-settings-common-commit'',
            checked (length (rel_pin rel @ [CHR 0x0A]) < 128),
            write_text B (below export ''.system-settings-common-commit'') (rel_pin rel @ [CHR 0x0A]),
            manifest_step B export, date_step B source])"

definition run_name :: "release \<Rightarrow> string" where
  "run_name rel = ''System-Settings-'' @ rel_version rel @ ''-native.run''"

definition zip_name :: "release \<Rightarrow> string" where
  "zip_name rel = ''System-Settings-'' @ rel_version rel @ ''-source.zip''"

text \<open>The run file: the installer's program, the payload and the footer with the size that \<open>stat\<close> gave.\<close>

definition write_run_file :: "builder \<Rightarrow> string \<Rightarrow> string \<Rightarrow> string \<Rightarrow> step" where
  "write_run_file B run_path binary payload tr =
     (case b_size B tr payload of
        None \<Rightarrow> (False, tr)
      | Some bytes \<Rightarrow>
          if bytes \<le> 0 \<or> \<not> b_create B tr run_path then (False, tr)
          else
            (case append_file (b_room B tr) True [] (b_opened B tr binary) of
               (False, out) \<Rightarrow> (False, tr @ [Written run_path out])
             | (True, out) \<Rightarrow>
                 (case append_file (b_room B tr) True out (b_opened B tr payload) of
                    (False, out1) \<Rightarrow> (False, tr @ [Written run_path out1])
                  | (True, out1) \<Rightarrow>
                      (let (ok, out2) = fwrite (b_room B tr) (footer_text (nat bytes)) out1
                       in (ok \<and> b_flush B tr run_path \<and> b_close B tr run_path, tr @ [Written run_path out2])))))"

definition chmod_step :: "builder \<Rightarrow> string \<Rightarrow> step" where
  "chmod_step B path tr = (if b_chmod B tr path then (True, tr @ [Permitted path]) else (False, tr))"

definition package_step :: "builder \<Rightarrow> release \<Rightarrow> string \<Rightarrow> step" where
  "package_step B rel work =
     (let source = below work ''source''; payload = below work ''source.tar.gz''; binary = below work ''native-installer'';
          program = below source ''packaging/native-installer.c''; run_path = below (rel_output rel) (run_name rel);
          zip_path = below (rel_output rel) (zip_name rel); toplevel = Some (rel_root rel); mtime = ''--mtime=@'' @ nat_text (nat (rel_epoch rel))
      in run_steps
           [joined work ''source.tar.gz'', checked (length mtime < 64),
            run B toplevel [''tar'', ''--sort=name'', mtime, ''--owner=0'', ''--group=0'', ''--numeric-owner'', ''-czf'', payload, ''-C'', source, ''.''],
            joined source ''packaging/native-installer.c'', joined work ''native-installer'',
            run B toplevel [''cc'', ''-std=c11'', ''-O2'', ''-Wall'', ''-Wextra'', ''-Wpedantic'', ''-Werror'', ''-o'', binary, program],
            checked (length (run_name rel) < PATH_MAX), joined (rel_output rel) (run_name rel),
            write_run_file B run_path binary payload, chmod_step B run_path,
            checked (length (zip_name rel) < PATH_MAX), joined (rel_output rel) (zip_name rel),
            run B (Some source) [''cmake'', ''-E'', ''tar'', ''cf'', zip_path, ''--format=zip'', ''--'', ''.'']])"

definition files_step :: "builder \<Rightarrow> string \<Rightarrow> string \<Rightarrow> step" where
  "files_step B left right tr = (files_equal (b_opened B tr left) (b_opened B tr right), tr)"

definition trees_step :: "builder \<Rightarrow> string \<Rightarrow> string \<Rightarrow> step" where
  "trees_step B left right tr =
     (trees_equal (b_walk B tr) (b_opened B tr) left (b_tree B tr left) right (b_tree B tr right), tr)"

definition verify_step :: "builder \<Rightarrow> release \<Rightarrow> string \<Rightarrow> step" where
  "verify_step B rel work =
     (let source = below work ''source''; export = below source common_relative; verified = below work ''verified'';
          run_path = below (rel_output rel) (run_name rel); toplevel = Some (rel_root rel)
      in run_steps
           [run B toplevel [''readelf'', ''-h'', run_path], run B toplevel [run_path, ''--help''],
            joined work ''verified'', run B toplevel [run_path, ''--extract'', verified],
            trees_step B source verified,
            joined source ''VERSION'', joined verified ''VERSION'', joined export ''VERSION'',
            joined verified (common_relative @ ''/VERSION''),
            files_step B (below source ''VERSION'') (below verified ''VERSION''),
            files_step B (below export ''VERSION'') (below verified (common_relative @ ''/VERSION'')),
            joined work ''verify-build'',
            run B toplevel [''cmake'', ''-S'', verified, ''-B'', below work ''verify-build'', ''-DBUILD_TESTING=OFF'',
              ''-DSYSTEM_SETTINGS_BUILD_PROFILE=generic'']])"

definition build_assets :: "builder \<Rightarrow> release \<Rightarrow> string \<Rightarrow> step" where
  "build_assets B rel work =
     run_steps [export_step B rel work, provenance_step B rel work, package_step B rel work, verify_step B rel work]"

definition builder_main :: "builder \<Rightarrow> string list \<Rightarrow> int \<times> trace" where
  "builder_main B args =
     (if \<not> b_setenv B then (1, [])
      else if args = [''--help''] \<or> args = [''-h''] then (0, [])
      else if length args \<noteq> 1 \<or> hd args = [] then (2, [])
      else
        (case read_release B (hd args) [] of
           (None, tr) \<Rightarrow> (1, tr)
         | (Some rel, tr) \<Rightarrow>
             (case b_mkdtemp B of
                None \<Rightarrow> (1, tr)
              | Some work \<Rightarrow>
                  (let source = below work ''source'' in
                   case run_steps [joined work ''source'', make_new B source, joined source common_relative] (tr @ [Temporary work]) of
                     (False, tr1) \<Rightarrow> (1, tr1)
                   | (True, tr1) \<Rightarrow>
                       (let (ok, tr2) = build_assets B rel work tr1 in (if ok then 0 else 1, tr2 @ [Cleared work]))))))"

section \<open>Where the builder writes\<close>

fun event_paths :: "builder_event \<Rightarrow> string set" where
  "event_paths (Executed cwd argv s) = {}"
| "event_paths (Read_output cwd argv) = {}"
| "event_paths (Made p) = {p}"
| "event_paths (Temporary p) = {p}"
| "event_paths (Written p txt) = {p}"
| "event_paths (Permitted p) = {p}"
| "event_paths (Dated ps) = set ps"
| "event_paths (Cleared p) = {p}"

definition reads_only :: "string set \<Rightarrow> trace \<Rightarrow> trace \<Rightarrow> bool" where
  "reads_only S tr tr' \<longleftrightarrow> (\<exists>es. tr' = tr @ es \<and> (\<forall>e \<in> set es. event_paths e \<subseteq> S))"

lemma reads_refl [intro]: "reads_only S tr tr"
  by (simp add: reads_only_def)

lemma reads_trans: "reads_only S a b \<Longrightarrow> reads_only S b c \<Longrightarrow> reads_only S a c"
  unfolding reads_only_def by (elim exE, rename_tac es es1, rule_tac x = "es @ es1" in exI) auto

lemma reads_snoc [intro]: "event_paths e \<subseteq> S \<Longrightarrow> reads_only S tr (tr @ [e])"
  by (simp add: reads_only_def)

text \<open>The paths a step may touch beyond reading.\<close>

definition confined :: "string set \<Rightarrow> step \<Rightarrow> bool" where
  "confined S f \<longleftrightarrow> (\<forall>tr ok tr'. f tr = (ok, tr') \<longrightarrow> reads_only S tr tr')"

definition inside :: "string \<Rightarrow> string set" where
  "inside directory = insert directory (range (\<lambda>p. below directory p))"

named_theorems confining "steps that write only below some directories"

lemma confined_steps [confining]: "(\<forall>f \<in> set fs. confined S f) \<Longrightarrow> confined S (run_steps fs)"
proof (induction fs)
  case (Cons f fs)
  then have f: "confined S f" and fs: "confined S (run_steps fs)" by simp_all
  show ?case unfolding confined_def
  proof (intro allI impI)
    fix tr ok tr' assume r: "run_steps (f # fs) tr = (ok, tr')"
    obtain b t where ft: "f tr = (b, t)" by (rule prod.exhaust)
    have "reads_only S tr t" using f ft by (simp add: confined_def)
    moreover have "tr' = t \<or> reads_only S t tr'" using r ft fs by (cases b) (auto simp: confined_def)
    ultimately show "reads_only S tr tr'" using reads_trans by blast
  qed
qed (auto simp: confined_def)

lemma confined_checked [confining]: "confined S (checked b)" "confined S (joined l r)"
  by (auto simp: confined_def checked_def joined_def)

lemma confined_run [confining]: "confined S (run B cwd argv)"
  by (auto simp: confined_def run_def Let_def)

lemma confined_mkdir [confining]: "p \<in> S \<Longrightarrow> confined S (mkdir_one B p)" "p \<in> S \<Longrightarrow> confined S (make_new B p)"
  by (auto simp: confined_def mkdir_one_def make_new_def split: mkdir_result.splits if_splits)

lemma confined_text [confining]: "p \<in> S \<Longrightarrow> confined S (write_text B p txt)"
  by (auto simp: confined_def write_text_def Let_def split: if_splits prod.splits)

lemma confined_chmod [confining]: "p \<in> S \<Longrightarrow> confined S (chmod_step B p)"
  by (auto simp: confined_def chmod_step_def split: if_splits)

lemma confined_compare [confining]: "confined S (files_step B l r)" "confined S (trees_step B l r)"
  by (auto simp: confined_def files_step_def trees_step_def)

lemma confined_run_file [confining]: "p \<in> S \<Longrightarrow> confined S (write_run_file B p binary payload)"
  by (auto simp: confined_def write_run_file_def Let_def split: option.splits if_splits prod.splits bool.splits)

lemma confined_manifest [confining]: "below export ''.system-settings-common-sha256'' \<in> S \<Longrightarrow> confined S (manifest_step B export)"
  by (auto simp: confined_def manifest_step_def write_common_manifest_def path_join_def Let_def
      split: option.splits if_splits prod.splits bool.splits)

lemma entry_inside: "entry_path W b relative name = Some (child, path) \<Longrightarrow> path \<in> inside b"
  using entry_directory[of W b relative name child path] by (simp add: inside_def)

lemma directory_inside: "directory_path b relative = Some d \<Longrightarrow> d \<in> inside b"
  by (auto simp: directory_path_def path_join_def inside_def Let_def split: if_splits)

lemma touched_inside:
  "normalize_tree_times W b relative n touched = (ok, t) \<Longrightarrow> set t \<subseteq> set touched \<union> inside b"
  "normalize_entries W b relative es touched = (ok, t) \<Longrightarrow> set t \<subseteq> set touched \<union> inside b"
proof (induction W b relative n touched and W b relative es touched arbitrary: ok t and ok t rule: normalize_tree_times_normalize_entries.induct)
  case (1 W b relative es touched)
  show ?case
  proof (cases "\<exists>d. directory_path b relative = Some d \<and> walk_opendir W d")
    case True
    then obtain d where d: "directory_path b relative = Some d" "walk_opendir W d" by blast
    obtain ok1 t1 where e: "normalize_entries W b relative es touched = (ok1, t1)" by (rule prod.exhaust)
    with 1(2) d have "t = t1 \<or> t = t1 @ [d]" by (auto split: if_splits bool.splits)
    with "1.IH"[OF d(1) _ e] d directory_inside[OF d(1)] show ?thesis by auto
  next
    case False
    with 1(2) show ?thesis by (auto split: option.splits if_splits)
  qed
next
  case (4 W b relative name n es touched)
  show ?case
  proof (cases "entry_path W b relative name")
    case None
    with 4(3) show ?thesis by simp
  next
    case (Some cp)
    obtain child path where cp: "cp = (child, path)" by (rule prod.exhaust)
    note e = Some[unfolded cp]
    obtain ok1 t1 where one: "(case n of Folder _ \<Rightarrow> normalize_tree_times W b child n touched | Regular_file \<Rightarrow> (True, touched)
        | Special_file \<Rightarrow> (False, touched)) = (ok1, t1)" by (rule prod.exhaust)
    have t1: "set t1 \<subseteq> set touched \<union> inside b"
    proof (cases n)
      case (Folder es1)
      with "4.IH"(1)[OF e refl Folder] one show ?thesis by simp
    qed (use one in auto)
    show ?thesis
    proof (cases "ok1 \<and> walk_utimes W path")
      case True
      with 4(3) e one have "normalize_entries W b relative es (t1 @ [path]) = (ok, t)" by simp
      from "4.IH"(2)[OF e refl one[symmetric] _ _ this] True have "set t \<subseteq> set (t1 @ [path]) \<union> inside b" by simp
      with t1 entry_inside[OF e] show ?thesis by auto
    next
      case False
      with 4(3) e one have "t = t1" by (auto split: bool.splits)
      with t1 show ?thesis by simp
    qed
  qed
qed auto

lemma confined_dates [confining]: "inside source \<subseteq> S \<Longrightarrow> confined S (date_step B source)"
  using touched_inside(1)[of _ source "[]" _ "[]"]
  by (fastforce simp: confined_def date_step_def Let_def split: prod.splits)

lemma inside_below: "below d p \<in> inside d" "inside (below d p) \<subseteq> inside d" "x \<in> inside (below d p) \<Longrightarrow> x \<in> inside d"
  by (auto simp: inside_def intro: range_eqI[of _ _ "p @ ''/'' @ q" for q])

lemma parents_inside: "p \<in> set (parents (d @ ''/'' @ q) s) \<Longrightarrow> p \<in> inside d"
proof (induction s arbitrary: q)
  case Nil
  then show ?case by (simp add: inside_def)
next
  case (Cons c s)
  have "d @ ''/'' @ q \<in> inside d" by (simp add: inside_def)
  with Cons(2) Cons(1)[of "q @ [c]"] show ?case by (auto split: if_splits)
qed

lemma inside_cons [simp]: "d @ CHR ''/'' # x \<in> inside d"
  by (simp add: inside_def)

lemma build_confined: "confined (inside work \<union> inside (rel_output rel)) (build_assets B rel work)"
proof -
  let ?S = "inside work \<union> inside (rel_output rel)"
  have p: "p \<in> set (parents (below work ''source'' @ ''/'') common_relative) \<Longrightarrow> p \<in> inside work" for p
    using parents_inside[of p "below work ''source''" "[]" common_relative] inside_below(3) by simp
  have "confined ?S (export_step B rel work)"
    unfolding export_step_def Let_def
    by (rule confined_steps) (use p in \<open>auto intro!: confining\<close>)
  moreover have "confined ?S (provenance_step B rel work)"
    using inside_below(3)[of _ work "''source''"] by (auto simp: provenance_step_def Let_def intro!: confining)
  moreover have "confined ?S (package_step B rel work)" "confined ?S (verify_step B rel work)"
    using inside_below(1)[of "rel_output rel"] by (auto simp: package_step_def verify_step_def Let_def intro!: confining)
  ultimately show ?thesis unfolding build_assets_def by (intro confined_steps) auto
qed

text \<open>The release is only read, apart from the directory the command line names.\<close>

definition output_directory :: "builder \<Rightarrow> string \<Rightarrow> string option" where
  "output_directory B arg = (if hd arg = CHR ''/'' then Some arg else map_option (\<lambda>current. below current arg) (b_getcwd B))"

lemma capture_reads: "capture B cwd argv n tr = (r, tr') \<Longrightarrow> reads_only S tr tr' \<and> r = capture_command (b_output B tr cwd argv) n"
  by (auto simp: capture_def reads_only_def)

lemma run_reads: "run B cwd argv tr = (ok, tr') \<Longrightarrow> reads_only S tr tr' \<and> (ok \<longrightarrow> tr' = tr @ [Executed cwd argv 0])"
  by (auto simp: run_def reads_only_def Let_def)

lemma head_reads:
  "read_head B tr = (r, tr') \<Longrightarrow> reads_only S tr tr' \<and>
    (\<forall>base epoch. r = Some (base, epoch) \<longrightarrow> last tr' = Executed (Some base) [''git'', ''diff'', ''--quiet'', ''HEAD'', ''--''] 0 \<and> tr' \<noteq> [])"
  unfolding read_head_def
  by (auto split: option.splits prod.splits bool.splits if_splits dest!: capture_reads run_reads intro: reads_trans)

lemma release_reads:
  assumes "read_release B arg tr = (r, tr')"
  shows "reads_only {arg} tr tr' \<and> (\<forall>rel. r = Some rel \<longrightarrow> output_directory B arg = Some (rel_output rel))"
proof -
  obtain h t1 where h: "read_head B tr = (h, t1)" by (rule prod.exhaust)
  have one: "reads_only {arg} tr t1" using head_reads[OF h] by blast
  show ?thesis
  proof (cases "\<exists>base epoch version common. h = Some (base, epoch) \<and> read_version B base t1 = Some version \<and>
      path_join PATH_MAX base common_relative = Some common")
    case False
    with assms h have "r = None \<and> tr' = t1" by (auto simp: read_release_def split: option.splits)
    with one show ?thesis by simp
  next
    case True
    then obtain base epoch version common where e: "h = Some (base, epoch)" "read_version B base t1 = Some version"
      "path_join PATH_MAX base common_relative = Some common" by blast
    obtain p t2 where p: "read_pin B base common t1 = (p, t2)" by (rule prod.exhaust)
    have two: "reads_only {arg} t1 t2" using p unfolding read_pin_def
      by (auto split: option.splits prod.splits if_splits dest!: capture_reads intro: reads_trans)
    obtain ok t3 where m: "mkdir_one B arg t2 = (ok, t3)" by (rule prod.exhaust)
    have three: "reads_only {arg} t2 t3" using confined_mkdir(1)[of arg "{arg}" B] m by (simp add: confined_def)
    from assms h e p m have "tr' = t2 \<or> tr' = t3" by (auto simp: read_release_def split: option.splits bool.splits)
    then have "reads_only {arg} tr tr'" using one two three reads_trans by blast
    moreover have "output_directory B arg = Some (rel_output rel)" if "r = Some rel" for rel
    proof -
      have "resolve_output B arg = Some (rel_output rel)" using assms h e p m that
        by (auto simp: read_release_def split: option.splits bool.splits)
      then show ?thesis
        by (auto simp: resolve_output_def output_directory_def path_join_def Let_def split: if_splits option.splits)
    qed
    ultimately show ?thesis by blast
  qed
qed

section \<open>What success shows\<close>

text \<open>A chain of steps that succeeded, step by step.\<close>

lemma steps_True:
  "run_steps [] tr = (True, tr') \<longleftrightarrow> tr' = tr"
  "run_steps (f # fs) tr = (True, tr') \<longleftrightarrow> (\<exists>t. f tr = (True, t) \<and> run_steps fs t = (True, tr'))"
  "run B cwd argv tr = (True, tr') \<longleftrightarrow> b_status B tr cwd argv = 0 \<and> tr' = tr @ [Executed cwd argv 0]"
  "checked b tr = (True, tr') \<longleftrightarrow> b \<and> tr' = tr"
  "joined l r tr = (True, tr') \<longleftrightarrow> path_join PATH_MAX l r \<noteq> None \<and> tr' = tr"
  "files_step B x y tr = (True, tr') \<longleftrightarrow> files_equal (b_opened B tr x) (b_opened B tr y) \<and> tr' = tr"
  "trees_step B x y tr = (True, tr') \<longleftrightarrow>
     trees_equal (b_walk B tr) (b_opened B tr) x (b_tree B tr x) y (b_tree B tr y) \<and> tr' = tr"
  "chmod_step B x tr = (True, tr') \<longleftrightarrow> b_chmod B tr x \<and> tr' = tr @ [Permitted x]"
  by (auto simp: run_def checked_def joined_def files_step_def trees_step_def chmod_step_def Let_def split: prod.splits bool.splits)

lemma steps_append_True:
  "run_steps (fs @ gs) tr = (True, tr') \<longleftrightarrow> (\<exists>t. run_steps fs tr = (True, t) \<and> run_steps gs t = (True, tr'))"
  by (induction fs arbitrary: tr) (simp_all add: steps_True del: run_steps.simps, blast)

declare run_steps.simps [simp del]

text \<open>The verification, once the installer has unpacked itself.\<close>

abbreviation verify_argv :: "release \<Rightarrow> string \<Rightarrow> string list" where
  "verify_argv rel work \<equiv> [below (rel_output rel) (run_name rel), ''--extract'', below work ''verified'']"

lemma verify_law:
  assumes "verify_step B rel work tr = (True, tr')"
  shows "\<exists>t. t = tr @ [Executed (Some (rel_root rel)) [''readelf'', ''-h'', below (rel_output rel) (run_name rel)] 0,
        Executed (Some (rel_root rel)) [below (rel_output rel) (run_name rel), ''--help''] 0,
        Executed (Some (rel_root rel)) (verify_argv rel work) 0] \<and>
    same_contents (b_opened B t) (below work ''source'') (b_tree B t (below work ''source''))
      (below work ''verified'') (b_tree B t (below work ''verified'')) \<and> (\<exists>e. tr' = t @ [e])"
  using assms unfolding verify_step_def Let_def by (simp add: steps_True trees_equal_law)

lemma append_True:
  "append_file room c out src = (True, out') \<Longrightarrow> \<exists>s. src = Some s \<and> \<not> fails s \<and> out' = out @ st_bytes s"
  using copy_blocks_exact[of 0 _ room out]
  by (auto simp: append_file_def copy_stream_def Let_def split: option.splits prod.splits)

lemma run_file_True:
  assumes "write_run_file B p x y tr = (True, tr')"
  shows "\<exists>n a b. b_size B tr y = Some n \<and> 0 < n \<and> b_opened B tr x = Some a \<and> b_opened B tr y = Some b \<and> \<not> fails a \<and> \<not> fails b \<and>
    tr' = tr @ [Written p (st_bytes a @ st_bytes b @ footer_text (nat n))]"
proof -
  obtain n where n: "b_size B tr y = Some n" "0 < n" "b_create B tr p"
    using assms by (auto simp: write_run_file_def split: option.splits if_splits)
  obtain o1 where o1: "append_file (b_room B tr) True [] (b_opened B tr x) = (True, o1)"
    using assms n by (auto simp: write_run_file_def split: prod.splits bool.splits)
  obtain o2 where o2: "append_file (b_room B tr) True o1 (b_opened B tr y) = (True, o2)"
    using assms n o1 by (auto simp: write_run_file_def split: prod.splits bool.splits)
  have "tr' = tr @ [Written p (o2 @ footer_text (nat n))]"
    using assms n o1 o2 by (auto simp: write_run_file_def fwrite_def Let_def split: option.splits)
  with append_True[OF o1] append_True[OF o2] n show ?thesis by auto
qed

abbreviation run_path :: "release \<Rightarrow> string" where "run_path rel \<equiv> below (rel_output rel) (run_name rel)"

lemma package_law:
  assumes "package_step B rel work tr = (True, tr')"
  shows "\<exists>t n a b z. b_size B t (below work ''source.tar.gz'') = Some n \<and> 0 < n \<and>
    b_opened B t (below work ''native-installer'') = Some a \<and> b_opened B t (below work ''source.tar.gz'') = Some b \<and>
    \<not> fails a \<and> \<not> fails b \<and>
    tr' = t @ [Written (run_path rel) (st_bytes a @ st_bytes b @ footer_text (nat n)), Permitted (run_path rel),
      Executed (Some (below work ''source'')) z 0]"
proof -
  obtain t u z where w: "write_run_file B (run_path rel) (below work ''native-installer'') (below work ''source.tar.gz'') t = (True, u)"
    and e: "tr' = u @ [Permitted (run_path rel), Executed (Some (below work ''source'')) z 0]"
    using assms unfolding package_step_def Let_def by (simp add: steps_True) blast
  from run_file_True[OF w] e show ?thesis by auto
qed

abbreviation source_of :: "string \<Rightarrow> string" where "source_of work \<equiv> below work ''source''"
abbreviation export_of :: "string \<Rightarrow> string" where "export_of work \<equiv> below (source_of work) common_relative"

lemma text_True: "write_text B p txt tr = (True, tr') \<Longrightarrow> tr' = tr @ [Written p txt]"
  by (auto simp: write_text_def fwrite_def Let_def split: if_splits option.splits)

lemma manifest_True:
  assumes "manifest_step B export tr = (True, tr')"
  shows "tr' = tr @ [Written (below export ''.system-settings-common-sha256'')
    (concat (map (manifest_line (b_output B tr None) export) (sort (tree_files [] (b_tree B tr export)))))]"
proof -
  obtain ok w where m: "write_common_manifest (b_walk B tr) (b_output B tr None) (b_create B tr (below export ''.system-settings-common-sha256''))
      (b_flush B tr (below export ''.system-settings-common-sha256'') \<and> b_close B tr (below export ''.system-settings-common-sha256''))
      export (b_tree B tr export) = (ok, w)" by (rule prod.exhaust)
  with assms have ok by (auto simp: manifest_step_def split: option.splits)
  then have m1: "ok = True" by simp
  note w = manifest_exact[OF m[unfolded m1]]
  from assms show ?thesis unfolding manifest_step_def m w by simp
qed

lemma date_True:
  assumes "date_step B source tr = (True, tr')"
  shows "\<exists>touched. tr' = tr @ [Dated touched] \<and>
    set touched = insert source (below source ` tree_paths [] (b_tree B tr source))"
proof -
  obtain ok touched where n: "normalize_tree_times (b_walk B tr) source [] (b_tree B tr source) [] = (ok, touched)" by (rule prod.exhaust)
  with assms have ok: "normalize_tree_times (b_walk B tr) source [] (b_tree B tr source) [] = (True, touched)" "tr' = tr @ [Dated touched]"
    by (simp_all add: date_step_def)
  from normalize_covers(1)[OF ok(1)] have "set touched = insert source (below source ` tree_paths [] (b_tree B tr source))"
    by (auto simp: directory_path_def split: if_splits)
  with ok(2) show ?thesis by blast
qed

lemma provenance_law:
  assumes "provenance_step B rel work tr = (True, tr')"
  shows "\<exists>t touched. t = tr @ [Written (below (export_of work) ''.system-settings-common-commit'') (rel_pin rel @ [CHR 0x0A])] \<and>
    tr' = t @ [Written (below (export_of work) ''.system-settings-common-sha256'')
        (concat (map (manifest_line (b_output B t None) (export_of work)) (sort (tree_files [] (b_tree B t (export_of work)))))),
      Dated touched] \<and>
    source_of work \<in> set touched"
proof -
  obtain t t2 where w: "write_text B (below (export_of work) ''.system-settings-common-commit'') (rel_pin rel @ [CHR 0x0A]) tr = (True, t)"
    and m: "manifest_step B (export_of work) t = (True, t2)" and d: "date_step B (source_of work) t2 = (True, tr')"
    using assms unfolding provenance_step_def Let_def by (simp add: steps_True) blast
  from text_True[OF w] manifest_True[OF m] date_True[OF d] show ?thesis by auto
qed

lemma pin_law:
  assumes "read_pin B base common tr = (Some pin, tr')"
  shows "capture_command (b_output B tr (Some base) pin_argv) 80 = Some pin \<and>
    capture_command (b_output B (tr @ [Read_output (Some base) pin_argv]) (Some base) (common_head_argv common)) 80 = Some pin \<and>
    tr' = tr @ [Read_output (Some base) pin_argv, Read_output (Some base) (common_head_argv common)]"
  using assms by (auto simp: read_pin_def capture_def split: option.splits if_splits)

lemma version_law: "read_version B base tr = Some v \<Longrightarrow> valid_version v"
  by (auto simp: read_version_def split: option.splits if_splits)

text \<open>The release that was read: a clean working tree, a valid version and Common at the commit it names.\<close>

definition release_checked :: "builder \<Rightarrow> release \<Rightarrow> trace \<Rightarrow> bool" where
  "release_checked B rel tr \<longleftrightarrow> valid_version (rel_version rel) \<and>
     (\<exists>early late. tr = early @ [Executed (Some (rel_root rel)) [''git'', ''diff'', ''--quiet'', ''HEAD'', ''--''] 0,
          Read_output (Some (rel_root rel)) pin_argv, Read_output (Some (rel_root rel)) (common_head_argv (rel_common rel))] @ late \<and>
        (let t = early @ [Executed (Some (rel_root rel)) [''git'', ''diff'', ''--quiet'', ''HEAD'', ''--''] 0]
         in capture_command (b_output B t (Some (rel_root rel)) pin_argv) 80 = Some (rel_pin rel) \<and>
            capture_command (b_output B (t @ [Read_output (Some (rel_root rel)) pin_argv]) (Some (rel_root rel))
              (common_head_argv (rel_common rel))) 80 = Some (rel_pin rel)))"

lemma release_law:
  assumes "read_release B arg tr = (Some rel, tr')" shows "release_checked B rel tr'"
proof -
  obtain h t1 where h: "read_head B tr = (h, t1)" by (rule prod.exhaust)
  from assms h obtain base epoch version common where e: "h = Some (base, epoch)" "read_version B base t1 = Some version"
      "path_join PATH_MAX base common_relative = Some common"
    by (auto simp: read_release_def split: option.splits)
  obtain p t2 where p: "read_pin B base common t1 = (p, t2)" by (rule prod.exhaust)
  obtain ok t3 where m: "mkdir_one B arg t2 = (ok, t3)" by (rule prod.exhaust)
  from assms h e p m obtain pin where q: "p = Some pin" "ok" "tr' = t3"
    and rel: "rel_root rel = base" "rel_version rel = version" "rel_common rel = common" "rel_pin rel = pin"
    by (auto simp: read_release_def split: option.splits bool.splits)
  have "t1 \<noteq> [] \<and> last t1 = Executed (Some base) [''git'', ''diff'', ''--quiet'', ''HEAD'', ''--''] 0"
    using head_reads[OF h] e(1) by blast
  then have t1: "t1 = butlast t1 @ [Executed (Some base) [''git'', ''diff'', ''--quiet'', ''HEAD'', ''--''] 0]"
    by (metis append_butlast_last_id)
  obtain es where t3: "t3 = t2 @ es" using m by (auto simp: mkdir_one_def split: mkdir_result.splits)
  note P = pin_law[OF p[unfolded q(1)]]
  have "tr' = butlast t1 @ [Executed (Some base) [''git'', ''diff'', ''--quiet'', ''HEAD'', ''--''] 0,
      Read_output (Some base) pin_argv, Read_output (Some base) (common_head_argv common)] @ es"
    using P t1 t3 q(3) by simp
  then show ?thesis unfolding release_checked_def rel Let_def
    using P t1 version_law[OF e(2)] by metis
qed

lemma reads_mono: "reads_only S a b \<Longrightarrow> S \<subseteq> T \<Longrightarrow> reads_only T a b"
  unfolding reads_only_def by blast

lemma workspace_confined:
  "confined (inside work) (run_steps [joined work ''source'', make_new B (source_of work), joined (source_of work) common_relative])"
  by (auto intro!: confining simp: inside_below)

lemma main_confined:
  assumes "builder_main B args = (code, tr)" "tr \<noteq> []"
  shows "\<exists>arg. args = [arg] \<and> reads_only ({arg} \<union> \<Union> (inside ` set_option (output_directory B arg)) \<union> \<Union> (inside ` set_option (b_mkdtemp B))) [] tr"
proof -
  have "length args = 1" using assms by (auto simp: builder_main_def split: if_splits)
  then obtain arg where arg: "args = [arg]" by (cases args) auto
  let ?S = "{arg} \<union> \<Union> (inside ` set_option (output_directory B arg)) \<union> \<Union> (inside ` set_option (b_mkdtemp B))"
  obtain r t0 where r: "read_release B arg [] = (r, t0)" by (rule prod.exhaust)
  note R = release_reads[OF r]
  have zero: "reads_only ?S [] t0" by (rule reads_mono[OF conjunct1[OF R]]) simp
  show ?thesis
  proof (cases "r = None \<or> b_mkdtemp B = None")
    case True
    with assms arg r have "tr = t0" by (auto simp: builder_main_def split: if_splits option.splits)
    with zero arg show ?thesis by blast
  next
    case False
    then obtain rel work where f: "r = Some rel" "b_mkdtemp B = Some work" by auto
    have out: "output_directory B arg = Some (rel_output rel)" using R f(1) by blast
    let ?steps = "[joined work ''source'', make_new B (source_of work), joined (source_of work) common_relative]"
    obtain ok1 t1 where w: "run_steps ?steps (t0 @ [Temporary work]) = (ok1, t1)" by (rule prod.exhaust)
    obtain ok2 t2 where b: "build_assets B rel work t1 = (ok2, t2)" by (rule prod.exhaust)
    have S: "inside work \<union> inside (rel_output rel) \<subseteq> ?S" "inside work \<subseteq> ?S" "work \<in> inside work" using f(2) out by (auto simp: inside_def)
    have ws: "{work} \<subseteq> ?S" using S by blast
    have "reads_only ?S t0 (t0 @ [Temporary work])" "reads_only ?S t2 (t2 @ [Cleared work])"
      by (intro reads_snoc; simp only: event_paths.simps ws)+
    moreover have "reads_only ?S (t0 @ [Temporary work]) t1"
      using workspace_confined[of work B] w S(2) reads_mono unfolding confined_def by blast
    moreover have "reads_only ?S t1 t2" using build_confined[of work rel B] b S(1) reads_mono unfolding confined_def by blast
    moreover have "tr = t1 \<or> tr = t2 @ [Cleared work]"
      using assms arg r f w b by (auto simp: builder_main_def Let_def split: if_splits bool.splits)
    ultimately have "reads_only ?S [] tr" using zero reads_trans by blast
    with arg show ?thesis by blast
  qed
qed

section \<open>Properties\<close>



section \<open>An instance\<close>

text \<open>A repository of one file in which every call works.\<close>

definition sample_stream :: stream where "sample_stream = \<lparr>st_bytes = ''1.2.3'', st_error_at = None\<rparr>"

definition sample_shape :: shape where "sample_shape = Folder [(''VERSION'', Regular_file)]"

definition sample_output :: "string list \<Rightarrow> string" where
  "sample_output argv =
     (if argv = [''git'', ''rev-parse'', ''--show-toplevel''] then ''/r''
      else if take 2 argv = [''git'', ''show''] then ''100''
      else if hd argv = ''sha256sum'' then replicate 64 CHR ''0''
      else ''abc'')"

definition sample_builder :: builder where
  "sample_builder = \<lparr>b_setenv = True, b_output = (\<lambda>_ _ argv. Some (sample_output argv, True)), b_status = (\<lambda>_ _ _. 0),
     b_chdir = (\<lambda>_. True), b_mkdir = (\<lambda>_ _. Mkdir_created), b_getcwd = Some ''/r'', b_mkdtemp = Some ''/t'',
     b_opened = (\<lambda>_ _. Some sample_stream),
     b_walk = (\<lambda>_. \<lparr>walk_opendir = (\<lambda>_. True), walk_closedir = (\<lambda>_. True), walk_lstat = (\<lambda>_. True), walk_utimes = (\<lambda>_. True),
        walk_realloc = (\<lambda>_. True), walk_strdup = (\<lambda>_. True)\<rparr>),
     b_tree = (\<lambda>_ _. sample_shape), b_create = (\<lambda>_ _. True), b_room = (\<lambda>_. None), b_flush = (\<lambda>_ _. True), b_close = (\<lambda>_ _. True),
     b_size = (\<lambda>_ _. Some 5), b_chmod = (\<lambda>_ _. True)\<rparr>"

definition sample_release :: release where
  "sample_release = \<lparr>rel_root = ''/r'', rel_epoch = 100, rel_version = ''1.2.3'', rel_common = ''/r/src/vendor/infiltratr-common'',
     rel_pin = ''abc'', rel_output = ''/o''\<rparr>"

definition succeeds :: "step \<Rightarrow> bool" where
  "succeeds f \<longleftrightarrow> (\<forall>tr. \<exists>tr'. f tr = (True, tr'))"

lemma succeeds_steps: "(\<forall>f \<in> set fs. succeeds f) \<Longrightarrow> succeeds (run_steps fs)"
proof (induction fs)
  case (Cons f fs)
  then have "succeeds f" "succeeds (run_steps fs)" by simp_all
  then show ?case unfolding succeeds_def steps_True by blast
qed (simp add: succeeds_def steps_True)

lemma sample_stream_ok: "\<not> fails sample_stream" "stream_limit sample_stream = 5"
  by (simp_all add: sample_stream_def fails_def stream_limit_def)

lemma sample_collect:
  "length base < 2000 \<Longrightarrow> fst (collect_files (b_walk sample_builder tr) base [] sample_shape empty_list)"
  by (simp add: sample_shape_def directory_path_def entry_path_def child_relative_def path_join_def PATH_MAX_def Let_def
      sample_builder_def common_markers_def path_list_add_def empty_list_def)

lemma sample_hash: "sha256_file (b_output sample_builder tr None) path = Some (replicate 64 CHR ''0'')"
proof -
  have d: "drop_trailing trimmed_byte (replicate 64 CHR ''0'') = replicate 64 CHR ''0''"
    by (simp add: drop_trailing_def trimmed_byte_def numeral_eq_Suc)
  have "capture_command (b_output sample_builder tr None [''sha256sum'', path]) 256 = Some (replicate 64 CHR ''0'')"
    by (simp add: capture_command_def sample_builder_def sample_output_def d)
  then show ?thesis by (simp add: sha256_file_def is_hex_def is_digit_def to_lower_def list_all_iff)
qed

lemma sample_steps:
  "succeeds (run sample_builder cwd argv)" "succeeds (mkdir_one sample_builder q)" "succeeds (make_new sample_builder q)"
  "succeeds (write_text sample_builder q txt)" "succeeds (chmod_step sample_builder q)" "b \<Longrightarrow> succeeds (checked b)"
  "path_join PATH_MAX x y \<noteq> None \<Longrightarrow> succeeds (joined x y)" "succeeds (files_step sample_builder x y)"
  by (simp_all add: succeeds_def steps_True)
     (simp_all add: sample_builder_def mkdir_one_def make_new_def write_text_def fwrite_def files_equal_exact sample_stream_ok)

lemma sample_manifest: "length export < 2000 \<Longrightarrow> succeeds (manifest_step sample_builder export)"
proof -
  assume l: "length export < 2000"
  have "\<exists>tr'. manifest_step sample_builder export tr = (True, tr')" for tr
  proof -
    obtain pl where c: "collect_files (b_walk sample_builder tr) export [] sample_shape empty_list = (True, pl)"
      using sample_collect[OF l, of tr] by (metis prod.collapse)
    from collect_exact(1)[OF c] have "sorted_items pl = [''VERSION'']"
      by (simp add: sorted_items_def empty_list_def sample_shape_def child_of_def common_markers_def)
    moreover have "path_join PATH_MAX export x = Some (below export x)" if "length x < 100" for x
      using l that by (simp add: path_join_def PATH_MAX_def)
    moreover have "b_tree sample_builder tr export = sample_shape" "b_create sample_builder tr x" "b_flush sample_builder tr x"
      "b_close sample_builder tr x" for x by (simp_all add: sample_builder_def)
    ultimately show ?thesis
      using sample_hash[of tr] by (simp add: manifest_step_def write_common_manifest_def c)
  qed
  then show ?thesis by (simp add: succeeds_def)
qed

lemma sample_dates: "length source < 2000 \<Longrightarrow> succeeds (date_step sample_builder source)"
  by (simp add: succeeds_def date_step_def sample_builder_def sample_shape_def directory_path_def entry_path_def child_relative_def
      path_join_def PATH_MAX_def Let_def)

lemma sample_trees: "length x < 2000 \<Longrightarrow> length y < 2000 \<Longrightarrow> succeeds (trees_step sample_builder x y)"
proof -
  assume l: "length x < 2000" "length y < 2000"
  have "trees_equal (b_walk sample_builder tr) (b_opened sample_builder tr) x sample_shape y sample_shape" for tr
    using l by (simp add: trees_equal_law sample_collect same_contents_def) (simp add: sample_builder_def sample_stream_ok)
  moreover have "b_tree sample_builder tr z = sample_shape" for tr z by (simp add: sample_builder_def)
  ultimately show ?thesis by (simp add: succeeds_def steps_True)
qed

lemma sample_written: "succeeds (write_run_file sample_builder q x y)"
proof -
  have c: "append_file None True out (Some sample_stream) = (True, out @ ''1.2.3'')" for out
    using copy_blocks_total[of 0 sample_stream out] sample_stream_ok
    by (simp add: append_file_def copy_stream_def) (simp add: sample_stream_def)
  have f: "b_size sample_builder tr y = Some 5" "b_create sample_builder tr q" "b_room sample_builder tr = None"
    "b_opened sample_builder tr z = Some sample_stream" "b_flush sample_builder tr q" "b_close sample_builder tr q" for tr z
    by (simp_all add: sample_builder_def)
  show ?thesis by (simp add: succeeds_def write_run_file_def f c fwrite_def)
qed

lemma sample_read: "\<exists>tr. read_release sample_builder ''/o'' [] = (Some sample_release, tr)"
proof -
  have cap: "capture sample_builder cwd argv n tr = (capture_command (Some (sample_output argv, True)) n, tr @ [Read_output cwd argv])"
    for cwd argv n tr by (simp add: capture_def sample_builder_def)
  have r: "run sample_builder cwd argv tr = (True, tr @ [Executed cwd argv 0])" for cwd argv tr
    by (simp add: run_def sample_builder_def)
  have e: "parse_epoch ''100'' = Some 100"
    by (simp add: parse_epoch_def is_space_byte_def is_digit_def decimal_def digit_value_def)
  have f: "b_chdir sample_builder z" "b_opened sample_builder tr z = Some sample_stream" for tr z
    by (simp_all add: sample_builder_def)
  have h: "\<exists>tr. read_head sample_builder [] = (Some (''/r'', 100), tr)"
    by (simp add: read_head_def cap r f e capture_command_def sample_output_def drop_trailing_def trimmed_byte_def PATH_MAX_def)
  have v: "read_version sample_builder ''/r'' tr = Some ''1.2.3''" for tr
    by (simp add: read_version_def path_join_def PATH_MAX_def f read_trimmed_def fread_exact sample_stream_ok)
       (simp add: sample_stream_def drop_trailing_def is_space_byte_def valid_version_def is_digit_def)
  have p: "\<exists>tr'. read_pin sample_builder ''/r'' ''/r/src/vendor/infiltratr-common'' tr = (Some ''abc'', tr')" for tr
    by (simp add: read_pin_def cap pin_argv_def common_head_argv_def capture_command_def sample_output_def drop_trailing_def
        trimmed_byte_def)
  have j: "path_join PATH_MAX ''/r'' common_relative = Some ''/r/src/vendor/infiltratr-common''"
    by (simp add: path_join_def PATH_MAX_def common_relative_def)
  have o: "resolve_output sample_builder ''/o'' = Some ''/o''" "\<exists>tr'. mkdir_one sample_builder ''/o'' tr = (True, tr')" for tr
    by (simp_all add: resolve_output_def PATH_MAX_def mkdir_one_def sample_builder_def)
  obtain t1 where t1: "read_head sample_builder [] = (Some (''/r'', 100), t1)" using h by blast
  obtain t2 where t2: "read_pin sample_builder ''/r'' ''/r/src/vendor/infiltratr-common'' t1 = (Some ''abc'', t2)" using p by blast
  obtain t3 where t3: "mkdir_one sample_builder ''/o'' t2 = (True, t3)" using o(2) by blast
  show ?thesis by (simp add: read_release_def t1 v j t2 t3 o(1) sample_release_def)
qed

lemma sample_builds: "\<exists>tr. builder_main sample_builder [''/o''] = (0, tr)"
proof -
  have join: "path_join PATH_MAX x y \<noteq> None" if "length x + length y < 4000" for x y
    using that by (simp add: path_join_def PATH_MAX_def)
  have ex: "succeeds (export_step sample_builder sample_release ''/t'')"
    unfolding export_step_def Let_def
    by (intro succeeds_steps) (auto intro!: sample_steps join simp: common_relative_def PATH_MAX_def)
  have pr: "succeeds (provenance_step sample_builder sample_release ''/t'')"
    unfolding provenance_step_def Let_def
    by (intro succeeds_steps) (auto intro!: sample_steps sample_manifest sample_dates join simp: common_relative_def sample_release_def)
  have pa: "succeeds (package_step sample_builder sample_release ''/t'')"
    unfolding package_step_def Let_def
    by (intro succeeds_steps)
       (auto intro!: sample_steps sample_written join simp: run_name_def zip_name_def sample_release_def PATH_MAX_def nat_text.simps)
  have ve: "succeeds (verify_step sample_builder sample_release ''/t'')"
    unfolding verify_step_def Let_def
    by (intro succeeds_steps) (auto intro!: sample_steps sample_trees join simp: common_relative_def)
  have "succeeds (build_assets sample_builder sample_release ''/t'')"
    unfolding build_assets_def by (intro succeeds_steps) (simp add: ex pr pa ve)
  moreover have "succeeds (run_steps [joined ''/t'' ''source'', make_new sample_builder ''/t/source'', joined ''/t/source'' common_relative])"
    by (intro succeeds_steps) (auto intro!: sample_steps join simp: common_relative_def)
  moreover obtain t0 where t0: "read_release sample_builder ''/o'' [] = (Some sample_release, t0)" using sample_read by blast
  ultimately obtain t1 t2 where
    "run_steps [joined ''/t'' ''source'', make_new sample_builder ''/t/source'', joined ''/t/source'' common_relative] (t0 @ [Temporary ''/t'']) = (True, t1)"
    "build_assets sample_builder sample_release ''/t'' t1 = (True, t2)" unfolding succeeds_def by blast
  moreover have "b_setenv sample_builder" "b_mkdtemp sample_builder = Some ''/t''" by (simp_all add: sample_builder_def)
  ultimately show ?thesis by (simp add: builder_main_def t0)
qed



end
