(* ===== verification/LocationSearch.thy ===== *)
theory LocationSearch
  imports "HOL-Library.Multiset" LocationPanel
begin

text \<open>
  \<open>location-search.c\<close>: a search for a place by geocode-glib, from the query to the one completion of its
  request. What the service answers is an argument of the completion; a text or a place that may be null is an
  option. A started request holds the reference of its \<open>GeocodeForward\<close> that the completion gives back.
\<close>

section \<open>The answer of the service\<close>

record geocode_location =
  gl_description :: "string option"
  gl_latitude :: double
  gl_longitude :: double

record geocode_place =
  gp_name :: "string option"
  gp_state :: "string option"
  gp_country :: "string option"
  gp_country_code :: "string option"
  gp_location :: "geocode_location option"

definition SS_LOCATION_QUERY_MAX_BYTES :: nat where "SS_LOCATION_QUERY_MAX_BYTES = 512"
definition SS_LOCATION_NAME_CAPACITY :: nat where "SS_LOCATION_NAME_CAPACITY = 256"
definition SS_LOCATION_COUNTRY_CAPACITY :: nat where "SS_LOCATION_COUNTRY_CAPACITY = 8"
definition ANSWER_COUNT :: nat where "ANSWER_COUNT = 8"

section \<open>Results\<close>

definition best_description :: "geocode_place \<Rightarrow> geocode_location \<Rightarrow> string" where
  "best_description place location =
     (case gl_description location of
        Some (c # cs) \<Rightarrow> c # cs
      | _ \<Rightarrow>
          (case (gp_name place, gp_state place, gp_country place) of
             (Some n, Some s, Some c) \<Rightarrow> n @ '', '' @ s @ '', '' @ c
           | (Some n, None, Some c) \<Rightarrow> n @ '', '' @ c
           | (Some n, _, None) \<Rightarrow> n
           | (None, _, _) \<Rightarrow> ''Unnamed location''))"

text \<open>The body of the loop: \<open>None\<close> continues with the next place.\<close>

definition result_of :: "geocode_place option \<Rightarrow> search_result option" where
  "result_of place =
     (case place of
        None \<Rightarrow> None
      | Some pl \<Rightarrow>
          (case gp_location pl of
             None \<Rightarrow> None
           | Some loc \<Rightarrow>
               if \<not> isfinite (gl_latitude loc) \<or> \<not> isfinite (gl_longitude loc) \<or>
                  dlt (gl_latitude loc) (Fin (- 90)) \<or> dlt (Fin 90) (gl_latitude loc) \<or>
                  dlt (gl_longitude loc) (Fin (- 180)) \<or> dlt (Fin 180) (gl_longitude loc)
               then None
               else
                 (let (name, needed) = strlcpy (best_description pl loc) SS_LOCATION_NAME_CAPACITY in
                  if SS_LOCATION_NAME_CAPACITY \<le> needed then None
                  else
                    (let (code, code_needed) =
                       (case gp_country_code pl of None \<Rightarrow> ([], 0)
                        | Some c \<Rightarrow> strlcpy c SS_LOCATION_COUNTRY_CAPACITY)
                     in if SS_LOCATION_COUNTRY_CAPACITY \<le> code_needed then None
                        else Some \<lparr>sr_display_name = name, sr_country_code = code,
                                   sr_latitude = gl_latitude loc, sr_longitude = gl_longitude loc\<rparr>))))"

fun collect_results :: "geocode_place option list \<Rightarrow> search_result list \<Rightarrow> search_result list" where
  "collect_results [] results = results"
| "collect_results (place # places) results =
     (if length results < ANSWER_COUNT
      then collect_results places (case result_of place of None \<Rightarrow> results | Some r \<Rightarrow> results @ [r])
      else results)"

section \<open>Requests\<close>

text \<open>A completion: who asked, the results, the message.\<close>

type_synonym 'u completion = "'u \<times> search_result list \<times> string option"

record 'u request =
  rq_callback :: bool
  rq_user_data :: 'u
  rq_forward_refs :: nat

text \<open>\<open>forward_new\<close> says whether the service object could be made; the two components of the result are the completions made at once and the request now in flight.\<close>

definition ss_location_search_async ::
  "glib \<Rightarrow> (string \<Rightarrow> bool) \<Rightarrow> string option \<Rightarrow> bool \<Rightarrow> 'u \<Rightarrow> 'u completion list \<times> 'u request option" where
  "ss_location_search_async gl forward_new query callback user_data =
     (let finish = (\<lambda>message. (if callback then [(user_data, [], Some message)] else [], None)) in
      case query of
        None \<Rightarrow> finish ''Enter a locality or place name.''
      | Some q \<Rightarrow>
          if q = [] then finish ''Enter a locality or place name.''
          else if \<not> g_utf8_validate gl q \<or> SS_LOCATION_QUERY_MAX_BYTES < length q
          then finish ''The locality search text is invalid or too long.''
          else if \<not> forward_new q then finish ''Unable to initialise location search.''
          else
            (let refs = (1 :: nat); refs1 = refs + 1; refs2 = refs1 - 1
             in ([], Some \<lparr>rq_callback = callback, rq_user_data = user_data, rq_forward_refs = refs2\<rparr>)))"

text \<open>\<open>places\<close> is \<open>None\<close> when the service failed or was cancelled; the last component is the references left.\<close>

definition search_finished ::
  "geocode_place option list option \<Rightarrow> string option \<Rightarrow> 'u request \<Rightarrow> 'u completion list \<times> nat" where
  "search_finished places error rq =
     (let results = (case places of None \<Rightarrow> [] | Some ps \<Rightarrow> collect_results ps [])
      in (if rq_callback rq then [(rq_user_data rq, results, error)] else [], rq_forward_refs rq - 1))"

section \<open>What a result is\<close>

definition result_ok :: "search_result \<Rightarrow> bool" where
  "result_ok r \<longleftrightarrow> valid_location (sr_latitude r) (sr_longitude r) \<and>
     length (sr_display_name r) < SS_LOCATION_NAME_CAPACITY \<and> length (sr_country_code r) < SS_LOCATION_COUNTRY_CAPACITY"

lemma result_of_ok: "result_of place = Some r \<Longrightarrow> result_ok r"
  by (auto simp: result_of_def result_ok_def valid_location_def strlcpy_def SS_LOCATION_NAME_CAPACITY_def
      SS_LOCATION_COUNTRY_CAPACITY_def Let_def split: option.splits if_splits elim!: isfinite.elims)

text \<open>Nothing is cut off: a text that does not fit is no result.\<close>

lemma result_of_whole:
  "result_of (Some pl) = Some r \<Longrightarrow>
     \<exists>loc. gp_location pl = Some loc \<and> sr_latitude r = gl_latitude loc \<and> sr_longitude r = gl_longitude loc \<and>
       sr_display_name r = best_description pl loc \<and>
       sr_country_code r = (case gp_country_code pl of None \<Rightarrow> [] | Some c \<Rightarrow> c)"
  by (auto simp: result_of_def strlcpy_def SS_LOCATION_NAME_CAPACITY_def SS_LOCATION_COUNTRY_CAPACITY_def Let_def
      split: option.splits if_splits)

text \<open>The loop is the first eight results of the places.\<close>

lemma collect_results_take:
  "length results \<le> ANSWER_COUNT \<Longrightarrow>
     collect_results places results = take ANSWER_COUNT (results @ List.map_filter result_of places)"
proof (induction places results rule: collect_results.induct)
  case (1 results)
  then show ?case by simp
next
  case (2 place places results)
  show ?case
  proof (cases "length results < ANSWER_COUNT")
    case False
    then show ?thesis using 2(2) by simp
  next
    case True
    then show ?thesis using 2(1)
      by (cases "result_of place") (simp_all add: map_filter_simps)
  qed
qed

lemma collect_results_ok: "r \<in> set (collect_results places []) \<Longrightarrow> result_ok r"
  using result_of_ok by (fastforce simp: collect_results_take List.map_filter_def dest!: in_set_takeD)

section \<open>Every request completes once\<close>

text \<open>The searches of a program: what is in flight, by the asker, and the completions made so far.\<close>

record searches =
  in_flight :: "nat request list"
  completions :: "nat completion list"
  asked :: "nat list"
  live_forwards :: nat

inductive search_step :: "glib \<Rightarrow> searches \<Rightarrow> searches \<Rightarrow> bool" for gl where
  begin_search: "u \<notin> set (asked s) \<Longrightarrow> ss_location_search_async gl forward_new query True u = (done, started) \<Longrightarrow>
     search_step gl s (s\<lparr>in_flight := in_flight s @ (case started of None \<Rightarrow> [] | Some rq \<Rightarrow> [rq]),
       completions := completions s @ done, asked := u # asked s,
       live_forwards := live_forwards s + (if started = None then 0 else 1)\<rparr>)"
| finish_search: "in_flight s = before @ rq # later \<Longrightarrow> search_finished places error rq = (done, refs) \<Longrightarrow>
     search_step gl s (s\<lparr>in_flight := before @ later, completions := completions s @ done,
       live_forwards := (if refs = 0 then live_forwards s - 1 else live_forwards s)\<rparr>)"

definition idle_searches :: searches where
  "idle_searches = \<lparr>in_flight = [], completions = [], asked = [], live_forwards = 0\<rparr>"

definition searches_ok :: "searches \<Rightarrow> bool" where
  "searches_ok s \<longleftrightarrow>
     (\<forall>rq \<in> set (in_flight s). rq_callback rq \<and> rq_forward_refs rq = 1) \<and>
     mset (map rq_user_data (in_flight s)) + mset (map fst (completions s)) = mset (asked s) \<and>
     distinct (asked s) \<and> live_forwards s = length (in_flight s) \<and>
     (\<forall>(u, results, message) \<in> set (completions s). length results \<le> ANSWER_COUNT \<and> list_all result_ok results)"

lemma async_cases:
  assumes "ss_location_search_async gl forward_new query True u = (done, started)"
  shows "(\<exists>message. done = [(u, [], Some message)] \<and> started = None) \<or>
    (done = [] \<and> started = Some \<lparr>rq_callback = True, rq_user_data = u, rq_forward_refs = 1\<rparr>)"
  using assms by (auto simp: ss_location_search_async_def Let_def split: option.splits if_splits)

lemma finished_results:
  assumes "rq_callback rq" "search_finished places error rq = (done, refs)"
  shows "\<exists>results. done = [(rq_user_data rq, results, error)] \<and> length results \<le> ANSWER_COUNT \<and>
    list_all result_ok results \<and> refs = rq_forward_refs rq - 1"
proof -
  have "length (collect_results ps []) \<le> ANSWER_COUNT" for ps by (simp add: collect_results_take)
  then show ?thesis using assms collect_results_ok
    by (auto simp: search_finished_def Let_def list_all_iff split: option.splits)
qed

lemma search_step_ok: "search_step gl s s' \<Longrightarrow> searches_ok s \<Longrightarrow> searches_ok s'"
proof (induction rule: search_step.induct)
  case (begin_search u s forward_new query "done" started)
  from async_cases[OF begin_search(2)] begin_search(1,3) show ?case
    by (elim disjE exE conjE) (auto simp: searches_ok_def)
next
  case (finish_search s before rq later places error "done" refs)
  then have rq: "rq_callback rq" "rq_forward_refs rq = 1" by (auto simp: searches_ok_def)
  from finished_results[OF rq(1) finish_search(2)] obtain results where
    "done = [(rq_user_data rq, results, error)]" "length results \<le> ANSWER_COUNT" "list_all result_ok results"
    "refs = rq_forward_refs rq - 1" by blast
  with finish_search(1,3) rq show ?case
    by (auto simp: searches_ok_def union_assoc union_commute union_lcomm split: if_splits)
qed

lemma idle_searches_ok: "searches_ok idle_searches"
  by (simp add: idle_searches_def searches_ok_def)

text \<open>
  C36: every search is answered exactly once: at any moment each asker is either in flight or has one
  completion, never both and never two; every completion, those of failed and cancelled searches too, brings
  at most eight results, all with coordinates a location may have and texts that were not cut; and the service
  object of a request is freed with its completion.
\<close>

theorem search_completes_once:
  assumes "(search_step gl)\<^sup>*\<^sup>* idle_searches s"
  shows "(\<forall>u \<in> set (asked s).
      (u \<in> rq_user_data ` set (in_flight s)) \<noteq> (\<exists>results message. (u, results, message) \<in> set (completions s))) \<and>
    distinct (map fst (completions s)) \<and> distinct (map rq_user_data (in_flight s)) \<and>
    live_forwards s = length (in_flight s) \<and>
    (\<forall>(u, results, message) \<in> set (completions s). length results \<le> ANSWER_COUNT \<and> list_all result_ok results)"
proof -
  have "searches_ok s" using assms
    by (induction rule: rtranclp_induct) (use idle_searches_ok search_step_ok in blast)+
  then have ok: "mset (map rq_user_data (in_flight s) @ map fst (completions s)) = mset (asked s)" "distinct (asked s)"
    "live_forwards s = length (in_flight s)"
    "\<forall>(u, results, message) \<in> set (completions s). length results \<le> ANSWER_COUNT \<and> list_all result_ok results"
    by (simp_all add: searches_ok_def)
  have split: "distinct (map rq_user_data (in_flight s) @ map fst (completions s))"
    "set (map rq_user_data (in_flight s) @ map fst (completions s)) = set (asked s)"
    using ok(1,2) mset_eq_setD mset_eq_imp_distinct_iff by metis+
  have "(u \<in> rq_user_data ` set (in_flight s)) \<noteq> (u \<in> fst ` set (completions s))" if "u \<in> set (asked s)" for u
    using split that by auto
  moreover have "u \<in> fst ` set (completions s) \<longleftrightarrow> (\<exists>results message. (u, results, message) \<in> set (completions s))" for u
    by force
  ultimately show ?thesis using split(1) ok(3,4) by auto
qed

section \<open>The panel and the search\<close>

text \<open>What the panel lists after a completion of its latest search is the list of results, each a possible location.\<close>

lemma listed_results_ok:
  assumes "search_finished places error rq = ([(u, r # results, message)], refs)" "g = search_generation p"
  shows "rows (location_search_complete (Some (map Some (r # results))) message True g p) = r # results \<and>
    (\<forall>x \<in> set (r # results). result_ok x)"
proof -
  have "r # results = collect_results (the places) []"
    using assms(1) by (auto simp: search_finished_def split: if_splits option.splits)
  then have "\<forall>x \<in> set (r # results). result_ok x" using collect_results_ok by metis
  moreover have "List.map_filter (\<lambda>x. x) (map Some xs) = xs" for xs :: "search_result list"
    by (induction xs) (simp_all add: map_filter_simps)
  ultimately show ?thesis
    using assms(2) by (simp add: location_search_complete_def Let_def ss_linux_date_time_panel_set_status_def map_filter_simps)
qed

section \<open>An instance\<close>

definition sample_place :: geocode_place where
  "sample_place = \<lparr>gp_name = Some ''Mooroopna'', gp_state = Some ''Victoria'', gp_country = Some ''Australia'',
     gp_country_code = Some ''AU'', gp_location = Some \<lparr>gl_description = None, gl_latitude = Fin (- 36), gl_longitude = Fin 145\<rparr>\<rparr>"

definition sample_found :: search_result where
  "sample_found = \<lparr>sr_display_name = ''Mooroopna, Victoria, Australia'', sr_country_code = ''AU'',
     sr_latitude = Fin (- 36), sr_longitude = Fin 145\<rparr>"

lemma sample_collected: "collect_results [None, Some sample_place] [] = [sample_found]"
  by (simp add: ANSWER_COUNT_def result_of_def sample_place_def sample_found_def best_description_def strlcpy_def
      SS_LOCATION_NAME_CAPACITY_def SS_LOCATION_COUNTRY_CAPACITY_def)

definition sample_searches :: searches where
  "sample_searches = \<lparr>in_flight = [], completions = [(1, [sample_found], None)], asked = [1], live_forwards = 0\<rparr>"

lemma sample_search_run: "(search_step sample_glib)\<^sup>*\<^sup>* idle_searches sample_searches"
proof -
  have a: "ss_location_search_async sample_glib (\<lambda>q. True) (Some ''Mooroopna'') True 1 =
      ([], Some \<lparr>rq_callback = True, rq_user_data = 1 :: nat, rq_forward_refs = 1\<rparr>)"
    by (simp add: ss_location_search_async_def sample_glib_def SS_LOCATION_QUERY_MAX_BYTES_def)
  have b: "search_finished (Some [None, Some sample_place]) None
      \<lparr>rq_callback = True, rq_user_data = 1 :: nat, rq_forward_refs = 1\<rparr> = ([(1, [sample_found], None)], 0)"
    by (simp add: search_finished_def sample_collected del: collect_results.simps)
  have "search_step sample_glib idle_searches
      (idle_searches\<lparr>in_flight := [\<lparr>rq_callback = True, rq_user_data = 1, rq_forward_refs = 1\<rparr>], asked := [1], live_forwards := 1\<rparr>)"
    using search_step.begin_search[of 1 idle_searches, OF _ a] by (simp add: idle_searches_def)
  moreover have "search_step sample_glib
      (idle_searches\<lparr>in_flight := [\<lparr>rq_callback = True, rq_user_data = 1, rq_forward_refs = 1\<rparr>], asked := [1], live_forwards := 1\<rparr>)
      sample_searches"
    using search_step.finish_search[of "idle_searches\<lparr>in_flight := [\<lparr>rq_callback = True, rq_user_data = 1, rq_forward_refs = 1\<rparr>],
        asked := [1], live_forwards := 1\<rparr>" "[]" _ "[]", OF _ b]
    by (simp add: idle_searches_def sample_searches_def)
  ultimately show ?thesis by (meson converse_rtranclp_into_rtranclp rtranclp.rtrancl_refl)
qed

theorem search_completes_once_witness: "list_all result_ok [sample_found] \<and> distinct (map fst (completions sample_searches))"
  using search_completes_once[OF sample_search_run] by (simp add: sample_searches_def)

end
