(* ===== verification/ModuleHost.thy ===== *)
theory ModuleHost
  imports PanelLoop
begin

text \<open>
  \<open>linux-builtin-module-host.c\<close>: the modules built into the program and their controllers, each made when its
  page is first opened and destroyed with the host. The table of the modules is an argument; a module is its
  three functions over the state \<open>'w\<close> they change, and what its constructor reads besides is \<open>'e\<close>.
\<close>

section \<open>Modules and their host\<close>

record ('c, 'w, 'e) module_descriptor =
  page_id :: string
  manifest_filename :: string
  module_create :: "'e \<Rightarrow> 'w \<Rightarrow> ('c option \<times> string option) \<times> 'w"
  module_widget :: "'c \<Rightarrow> nat option"
  module_destroy :: "'c \<Rightarrow> 'w \<Rightarrow> 'w"

record ('c, 'w, 'e) module_instance =
  in_descriptor :: "('c, 'w, 'e) module_descriptor"
  in_controller :: 'c

text \<open>The table of instances, by page identifier.\<close>

record ('c, 'w, 'e) module_host =
  instances :: "(string \<times> ('c, 'w, 'e) module_instance) list"

text \<open>What a scrolled window contains.\<close>

datatype page_child = Panel_widget nat | Unavailable_panel string string

definition find_module_descriptor ::
  "('c, 'w, 'e) module_descriptor list \<Rightarrow> string option \<Rightarrow> ('c, 'w, 'e) module_descriptor option" where
  "find_module_descriptor mods name =
     (case name of None \<Rightarrow> None | Some p \<Rightarrow> if p = [] then None else find (\<lambda>d. p = page_id d) mods)"

definition ss_builtin_module_host_module_count :: "('c, 'w, 'e) module_descriptor list \<Rightarrow> nat" where
  "ss_builtin_module_host_module_count mods = length mods"

definition ss_builtin_module_host_module_page_id :: "('c, 'w, 'e) module_descriptor list \<Rightarrow> nat \<Rightarrow> string option" where
  "ss_builtin_module_host_module_page_id mods index =
     (if index < length mods then Some (page_id (mods ! index)) else None)"

definition ss_builtin_module_host_module_manifest :: "('c, 'w, 'e) module_descriptor list \<Rightarrow> nat \<Rightarrow> string option" where
  "ss_builtin_module_host_module_manifest mods index =
     (if index < length mods then Some (manifest_filename (mods ! index)) else None)"

definition builtin_module_instance_free :: "('c, 'w, 'e) module_instance \<Rightarrow> 'w \<Rightarrow> 'w" where
  "builtin_module_instance_free inst w = module_destroy (in_descriptor inst) (in_controller inst) w"

definition ss_builtin_module_host_new :: "bool \<Rightarrow> ('c, 'w, 'e) module_host option" where
  "ss_builtin_module_host_new window = (if window then Some \<lparr>instances = []\<rparr> else None)"

definition ss_builtin_module_host_free :: "('c, 'w, 'e) module_host option \<Rightarrow> 'w \<Rightarrow> 'w" where
  "ss_builtin_module_host_free host w =
     (case host of None \<Rightarrow> w | Some h \<Rightarrow> fold (\<lambda>(p, inst). builtin_module_instance_free inst) (instances h) w)"

text \<open>\<open>container\<close> is the child of the page's container, \<open>None\<close> without a container; the result has the message of the error.\<close>

definition ss_builtin_module_host_ensure_page ::
  "('c, 'w, 'e) module_descriptor list \<Rightarrow> 'e \<Rightarrow> ('c, 'w, 'e) module_host option \<Rightarrow> string option \<Rightarrow>
   page_child option option \<Rightarrow> 'w \<Rightarrow>
   bool \<times> string option \<times> ('c, 'w, 'e) module_host option \<times> page_child option option \<times> 'w" where
  "ss_builtin_module_host_ensure_page mods e host name container w =
     (case (host, container) of
        (Some h, Some child) \<Rightarrow>
          (case find_module_descriptor mods name of
             None \<Rightarrow> (False, Some (''Unknown built-in System Settings page: '' @ (case name of None \<Rightarrow> ''(null)'' | Some p \<Rightarrow> p)),
                      host, container, w)
           | Some d \<Rightarrow>
               (let (ready, error, h1, w1) =
                  (case map_of (instances h) (page_id d) of
                     Some inst \<Rightarrow> (Some inst, None, h, w)
                   | None \<Rightarrow>
                       (case module_create d e w of
                          ((None, message), w2) \<Rightarrow> (None, message, h, w2)
                        | ((Some c, message), w2) \<Rightarrow>
                            (let inst = \<lparr>in_descriptor = d, in_controller = c\<rparr>
                             in (Some inst, None, h\<lparr>instances := (page_id d, inst) # instances h\<rparr>, w2))))
                in case ready of
                     None \<Rightarrow> (False, error, Some h1, container, w1)
                   | Some inst \<Rightarrow>
                       (case module_widget d (in_controller inst) of
                          None \<Rightarrow> (False, Some (''The built-in '' @ page_id d @ '' module did not provide a panel.''),
                                   Some h1, container, w1)
                        | Some panel \<Rightarrow>
                            (True, None, Some h1,
                             Some (if child \<noteq> Some (Panel_widget panel) then Some (Panel_widget panel) else child), w1))))
      | _ \<Rightarrow> (False, Some ''Invalid built-in module host or page container.'', host, container, w))"

definition ss_builtin_module_host_is_loaded :: "('c, 'w, 'e) module_host option \<Rightarrow> string option \<Rightarrow> bool" where
  "ss_builtin_module_host_is_loaded host name =
     (case (host, name) of (Some h, Some p) \<Rightarrow> map_of (instances h) p \<noteq> None | _ \<Rightarrow> False)"

section \<open>What a module promises\<close>

text \<open>The host of the table with one module: no controller in an idle state, or one that is live.\<close>

definition host_ok ::
  "('c, 'w, 'e) module_descriptor \<Rightarrow> ('c \<Rightarrow> 'w \<Rightarrow> bool) \<Rightarrow> ('w \<Rightarrow> bool) \<Rightarrow> ('c, 'w, 'e) module_host \<Rightarrow> 'w \<Rightarrow> bool" where
  "host_ok d live idle h w \<longleftrightarrow> (instances h = [] \<and> idle w) \<or>
     (\<exists>c. instances h = [(page_id d, \<lparr>in_descriptor = d, in_controller = c\<rparr>)] \<and> live c w)"

text \<open>
  The interface of a module: between its events its controller is \<open>live\<close> in the state it shares with the
  program, where a state without the controller is \<open>idle\<close>. \<open>works\<close> are the events of a controller and \<open>drifts\<close>
  what happens to the state meanwhile.
\<close>

locale settings_module =
  fixes d :: "('c, 'w, 'e) module_descriptor"
    and live :: "'c \<Rightarrow> 'w \<Rightarrow> bool"
    and idle :: "'w \<Rightarrow> bool"
    and works :: "'c \<times> 'w \<Rightarrow> 'c \<times> 'w \<Rightarrow> bool"
    and drifts :: "'w \<Rightarrow> 'w \<Rightarrow> bool"
    and root_widget :: nat
  assumes create_live: "idle w \<Longrightarrow> module_create d e w = ((Some c, m), w1) \<Longrightarrow> live c w1"
    and create_idle: "idle w \<Longrightarrow> module_create d e w = ((None, m), w1) \<Longrightarrow> idle w1"
    and works_live: "live c w \<Longrightarrow> works (c, w) (c1, w1) \<Longrightarrow> live c1 w1"
    and drifts_idle: "idle w \<Longrightarrow> drifts w w1 \<Longrightarrow> idle w1"
    and destroy_idle: "live c w \<Longrightarrow> idle (module_destroy d c w)"
    and widget_given: "module_widget d c = Some root_widget"
    and page_named: "page_id d \<noteq> []" "page_id d \<noteq> ''home''"
begin

abbreviation hosted :: "('c, 'w, 'e) module_host \<Rightarrow> 'w \<Rightarrow> bool" where
  "hosted \<equiv> host_ok d live idle"

lemma new_host_ok: "idle w \<Longrightarrow> ss_builtin_module_host_new window = Some h \<Longrightarrow> hosted h w"
  by (auto simp: ss_builtin_module_host_new_def host_ok_def split: if_splits)

lemma free_host_idle: "hosted h w \<Longrightarrow> idle (ss_builtin_module_host_free (Some h) w)"
  by (auto simp: host_ok_def ss_builtin_module_host_free_def builtin_module_instance_free_def destroy_idle)

lemma loaded_iff:
  "hosted h w \<Longrightarrow> ss_builtin_module_host_is_loaded (Some h) (Some p) \<longleftrightarrow> instances h \<noteq> [] \<and> p = page_id d"
  by (auto simp: host_ok_def ss_builtin_module_host_is_loaded_def split: if_splits)

lemma ensure_page_ok:
  assumes "hosted h w" "ss_builtin_module_host_ensure_page [d] e (Some h) (Some p) (Some child) w = (ok, error, host, container, w1)"
  shows "\<exists>h1. host = Some h1 \<and> hosted h1 w1 \<and>
    (if ok then p = page_id d \<and> container = Some (Some (Panel_widget root_widget)) \<and>
        ss_builtin_module_host_is_loaded (Some h1) (Some p)
     else container = Some child \<and> h1 = h)"
proof (cases "p = page_id d")
  case False
  then show ?thesis using assms
    by (auto simp: ss_builtin_module_host_ensure_page_def find_module_descriptor_def split: if_splits)
next
  case True
  then have find: "find_module_descriptor [d] (Some p) = Some d"
    using page_named by (simp add: find_module_descriptor_def)
  show ?thesis
  proof (cases "instances h = []")
    case False
    then obtain c where "instances h = [(page_id d, \<lparr>in_descriptor = d, in_controller = c\<rparr>)]" "live c w"
      using assms(1) by (auto simp: host_ok_def)
    then show ?thesis using assms find True widget_given
      by (auto simp: ss_builtin_module_host_ensure_page_def ss_builtin_module_host_is_loaded_def split: if_splits)
  next
    case empty: True
    then have idle: "idle w" using assms(1) by (simp add: host_ok_def)
    obtain r m w2 where cr: "module_create d e w = ((r, m), w2)" by (metis prod.collapse)
    show ?thesis
    proof (cases r)
      case None
      then show ?thesis using assms find empty cr create_idle[OF idle]
        by (auto simp: ss_builtin_module_host_ensure_page_def host_ok_def)
    next
      case (Some c)
      then show ?thesis using assms find empty cr create_live[OF idle] widget_given True
        by (auto simp: ss_builtin_module_host_ensure_page_def ss_builtin_module_host_is_loaded_def host_ok_def Let_def split: if_splits)
    qed
  qed
qed

text \<open>A controller is made at most once: with one there, opening the page changes neither it nor the state.\<close>

lemma ensure_page_once:
  assumes "hosted h w" "instances h \<noteq> []"
  shows "ss_builtin_module_host_ensure_page [d] e (Some h) (Some (page_id d)) (Some child) w =
    (True, None, Some h, Some (Some (Panel_widget root_widget)), w)"
  using assms page_named widget_given
  by (auto simp: host_ok_def ss_builtin_module_host_ensure_page_def find_module_descriptor_def)

lemma works_host_ok:
  assumes "hosted h w" "instances h = [(q, inst)]" "works (in_controller inst, w) (c1, w1)"
  shows "hosted (h\<lparr>instances := [(q, inst\<lparr>in_controller := c1\<rparr>)]\<rparr>) w1"
  using assms works_live by (auto simp: host_ok_def)

end

section \<open>The Date and Time module\<close>

definition SS_BUILTIN_PAGE_ID_DATE_TIME :: string where "SS_BUILTIN_PAGE_ID_DATE_TIME = ''date-time''"
definition SS_BUILTIN_MANIFEST_DATE_TIME :: string where "SS_BUILTIN_MANIFEST_DATE_TIME = ''date-time.settings-module''"

text \<open>What the constructor of the panel reads, and the message when it fails; the window is given.\<close>

record panel_environment =
  pe_allocated :: bool
  pe_policy_observer :: bool
  pe_metadata_observer :: bool
  pe_region :: regional_env
  pe_installed :: "clock_mode_info option list"
  pe_message :: "string option"

definition create_date_time_module :: "panel_environment \<Rightarrow> world \<Rightarrow> (panel option \<times> string option) \<times> world" where
  "create_date_time_module e w =
     (let (p, w1) = ss_linux_date_time_panel_new True (pe_allocated e) (pe_policy_observer e) (pe_metadata_observer e)
                      (pe_region e) (pe_installed e) w
      in ((p, if p = None then pe_message e else None), w1))"

definition destroy_date_time_module :: "panel \<Rightarrow> world \<Rightarrow> world" where
  "destroy_date_time_module p w = snd (ss_linux_date_time_panel_free p w)"

text \<open>The entry of the table; the root widget of a panel is there when the panel is.\<close>

definition date_time_module :: "nat \<Rightarrow> (panel, world, panel_environment) module_descriptor" where
  "date_time_module box =
     \<lparr>page_id = SS_BUILTIN_PAGE_ID_DATE_TIME, manifest_filename = SS_BUILTIN_MANIFEST_DATE_TIME,
      module_create = create_date_time_module, module_widget = (\<lambda>p. Some box), module_destroy = destroy_date_time_module\<rparr>"

definition builtin_modules :: "nat \<Rightarrow> (panel, world, panel_environment) module_descriptor list" where
  "builtin_modules box = [date_time_module box]"

definition calm_world :: "world \<Rightarrow> bool" where
  "calm_world w \<longleftrightarrow> world_ok w \<and> \<not> locality_locked w \<and> \<not> policy_locked w"

definition world_drifts :: "world \<Rightarrow> world \<Rightarrow> bool" where
  "world_drifts w w' \<longleftrightarrow> (\<exists>k. frame_but {} (kern w) k \<and> w' = w\<lparr>kern := k\<rparr>)"

lemma panel_created:
  assumes "calm_world w" "create_date_time_module e w = ((r, m), w1)"
  shows "if r = None then calm_world w1 else controller_ok (the r) w1"
proof -
  obtain p w2 where n: "ss_linux_date_time_panel_new True (pe_allocated e) (pe_policy_observer e) (pe_metadata_observer e)
      (pe_region e) (pe_installed e) w = (p, w2)" by (rule prod.exhaust)
  with assms have "r = p" "w1 = w2" by (auto simp: create_date_time_module_def)
  with new_panel_ready[OF _ _ _ n] assms(1) show ?thesis by (auto simp: calm_world_def)
qed

lemma panel_destroyed: "controller_ok p w \<Longrightarrow> calm_world (destroy_date_time_module p w)"
  using free_releases_everything[of p w] by (cases "ss_linux_date_time_panel_free p w")
    (auto simp: destroy_date_time_module_def calm_world_def)

lemma calm_drifts: "calm_world w \<Longrightarrow> world_drifts w w' \<Longrightarrow> calm_world w'"
  using frame_but_ok by (auto simp: calm_world_def world_drifts_def locality_locked_def policy_locked_def)

interpretation date_time: settings_module "date_time_module box" controller_ok calm_world panel_step world_drifts box for box
proof (unfold_locales, goal_cases)
  case (1 w e c m w1)
  with panel_created[of w e] show ?case by (auto simp: date_time_module_def)
next
  case (2 w e m w1)
  with panel_created[of w e] show ?case by (auto simp: date_time_module_def)
next
  case (3 c w c1 w1)
  then show ?case using panel_step_ok by blast
next
  case (4 w w1)
  then show ?case by (rule calm_drifts)
next
  case (5 c w)
  then show ?case by (simp add: date_time_module_def panel_destroyed)
qed (simp_all add: date_time_module_def SS_BUILTIN_PAGE_ID_DATE_TIME_def)

end
