(* ===== verification/ModuleCatalog.thy ===== *)
theory ModuleCatalog
  imports Glib
begin

text \<open>
  \<open>shell-module-catalog.c\<close>: what the shell shows of a module, read from its manifest. A manifest is a
  \<open>GKeyFile\<close>, its strings by group and key and its groups in their order; what loading a path gives is an
  argument. A warning is the path it names.
\<close>

section \<open>Manifests\<close>

record manifest =
  value_of :: "string \<Rightarrow> string \<Rightarrow> string option"
  groups_of :: "string list"

datatype manifest_file = Manifest manifest | No_such_manifest | Bad_manifest

record module_metadata =
  mm_title :: string
  mm_summary :: string
  mm_icon :: string
  mm_search_text :: string

record catalog_paths =
  module_source_dir :: string
  module_dir :: string

text \<open>The directories before the terminating null.\<close>

definition manifest_directories :: "catalog_paths \<Rightarrow> string option \<Rightarrow> string list" where
  "manifest_directories C directory =
     (case directory of
        Some (c # cs) \<Rightarrow> [c # cs]
      | _ \<Rightarrow> [module_source_dir C, module_dir C])"

fun load_from :: "glib \<Rightarrow> (string \<Rightarrow> manifest_file) \<Rightarrow> string \<Rightarrow> string list \<Rightarrow> manifest option \<times> string list" where
  "load_from gl load filename [] = (None, [])"
| "load_from gl load filename (directory # ds) =
     (if directory = [] then load_from gl load filename ds
      else
        (let path = g_build_filename gl [directory, filename] in
         case load path of
           Manifest m \<Rightarrow> (Some m, [])
         | No_such_manifest \<Rightarrow> load_from gl load filename ds
         | Bad_manifest \<Rightarrow> (let (m, warnings) = load_from gl load filename ds in (m, path # warnings))))"

definition load_module_manifest ::
  "glib \<Rightarrow> catalog_paths \<Rightarrow> (string \<Rightarrow> manifest_file) \<Rightarrow> string option \<Rightarrow> string option \<Rightarrow> manifest option \<times> string list" where
  "load_module_manifest gl C load filename directory =
     (case filename of
        None \<Rightarrow> (None, [])
      | Some f \<Rightarrow> if f = [] then (None, []) else load_from gl load f (manifest_directories C directory))"

section \<open>What is shown\<close>

definition append_manifest_value :: "string \<Rightarrow> manifest \<Rightarrow> string \<Rightarrow> string \<Rightarrow> string" where
  "append_manifest_value search m grp key =
     (case value_of m grp key of None \<Rightarrow> search | Some v \<Rightarrow> if v = [] then search else search @ CHR '' '' # v)"

definition manifest_string_or_fallback :: "manifest option \<Rightarrow> string \<Rightarrow> string option \<Rightarrow> string" where
  "manifest_string_or_fallback m key fallback =
     (let other = (case fallback of None \<Rightarrow> [] | Some f \<Rightarrow> f) in
      case m of None \<Rightarrow> other
      | Some mf \<Rightarrow> (case value_of mf ''Module'' key of None \<Rightarrow> other | Some v \<Rightarrow> if v = [] then other else v))"

fun append_targets :: "manifest \<Rightarrow> string list \<Rightarrow> string \<Rightarrow> string" where
  "append_targets m [] search = search"
| "append_targets m (g # gs) search =
     (if starts_with g ''Target ''
      then append_targets m gs (append_manifest_value (append_manifest_value search m g ''Title'') m g ''Keywords'')
      else append_targets m gs search)"

definition module_search_text_from_manifest :: "manifest option \<Rightarrow> string \<Rightarrow> string" where
  "module_search_text_from_manifest m fallback =
     (case m of None \<Rightarrow> fallback
      | Some mf \<Rightarrow>
          (let s1 = append_manifest_value [] mf ''Module'' ''Title'';
               s2 = append_manifest_value s1 mf ''Module'' ''Summary'';
               s3 = append_manifest_value s2 mf ''Search'' ''Keywords'';
               s4 = append_targets mf (groups_of mf) s3
           in if s4 \<noteq> [] then s4 else fallback))"

definition ss_shell_module_metadata_load ::
  "glib \<Rightarrow> catalog_paths \<Rightarrow> (string \<Rightarrow> manifest_file) \<Rightarrow> string option \<Rightarrow> string \<Rightarrow> string option \<Rightarrow> module_metadata" where
  "ss_shell_module_metadata_load gl C load manifest_filename page_id manifest_directory =
     (let m = fst (load_module_manifest gl C load manifest_filename manifest_directory);
          title = manifest_string_or_fallback m ''Title'' (Some page_id);
          summary = manifest_string_or_fallback m ''Summary'' (Some ''Settings module'')
      in \<lparr>mm_title = title, mm_summary = summary,
          mm_icon = manifest_string_or_fallback m ''Icon'' (Some ''preferences-system-symbolic''),
          mm_search_text = module_search_text_from_manifest m (title @ CHR '' '' # summary)\<rparr>)"

section \<open>The first manifest that loads\<close>

text \<open>The tree the program was built from comes before the installed modules, and an explicit directory replaces both.\<close>

definition loads :: "glib \<Rightarrow> (string \<Rightarrow> manifest_file) \<Rightarrow> string \<Rightarrow> string \<Rightarrow> manifest \<Rightarrow> bool" where
  "loads gl load f d m \<longleftrightarrow> d \<noteq> [] \<and> load (g_build_filename gl [d, f]) = Manifest m"

lemma load_from_exact:
  "fst (load_from gl load f ds) = Some m \<longleftrightarrow>
     (\<exists>i < length ds. loads gl load f (ds ! i) m \<and> (\<forall>j < i. \<forall>n. \<not> loads gl load f (ds ! j) n))"
proof (induction ds)
  case Nil
  then show ?case by simp
next
  case (Cons d ds)
  have "fst (load_from gl load f (d # ds)) = Some m \<longleftrightarrow>
      loads gl load f d m \<or> (\<forall>n. \<not> loads gl load f d n) \<and> fst (load_from gl load f ds) = Some m"
    by (auto simp: loads_def Let_def split: manifest_file.split prod.split)
  then show ?case by (simp only: first_Cons Cons.IH)
qed

text \<open>A broken manifest is reported and the search goes on.\<close>

lemma load_from_warnings:
  "p \<in> set (snd (load_from gl load f ds)) \<Longrightarrow> \<exists>d \<in> set ds. p = g_build_filename gl [d, f] \<and> load p = Bad_manifest"
  by (induction ds) (auto simp: Let_def split: if_splits manifest_file.splits prod.splits)

text \<open>The search text of a module with an entry that is not empty contains that entry.\<close>

lemma append_value_extends: "\<exists>t. append_manifest_value s m g k = s @ t"
  by (auto simp: append_manifest_value_def split: option.split)

lemma append_targets_extends: "\<exists>t. append_targets m gs s = s @ t"
proof (induction gs arbitrary: s)
  case Nil
  then show ?case by simp
next
  case (Cons g gs)
  show ?case
  proof (cases "starts_with g ''Target ''")
    case False
    then show ?thesis using Cons by simp
  next
    case True
    obtain a where a: "append_manifest_value s m g ''Title'' = s @ a" using append_value_extends by blast
    obtain b where b: "append_manifest_value (s @ a) m g ''Keywords'' = (s @ a) @ b" using append_value_extends by blast
    obtain c where "append_targets m gs ((s @ a) @ b) = ((s @ a) @ b) @ c" using Cons by blast
    then show ?thesis using True a b by simp
  qed
qed

lemma keywords_found:
  assumes "value_of m ''Search'' ''Keywords'' = Some w" "w \<noteq> []"
  shows "\<exists>a b. module_search_text_from_manifest (Some m) fallback = a @ w @ b"
proof -
  obtain t where t: "append_targets m (groups_of m) s = s @ t s" for s using append_targets_extends by metis
  define s2 where "s2 = append_manifest_value (append_manifest_value [] m ''Module'' ''Title'') m ''Module'' ''Summary''"
  have "module_search_text_from_manifest (Some m) fallback = s2 @ CHR '' '' # w @ t (s2 @ CHR '' '' # w)"
    using assms t by (simp add: module_search_text_from_manifest_def append_manifest_value_def[of s2] Let_def flip: s2_def)
  then show ?thesis by (metis append_Cons append_Nil append_assoc)
qed

text \<open>No text of a module is ever missing: the page identifier names a module without a manifest.\<close>

lemma metadata_complete:
  assumes "page_id \<noteq> []" "ss_shell_module_metadata_load gl C load filename page_id directory = md"
  shows "mm_title md \<noteq> [] \<and> mm_summary md \<noteq> [] \<and> mm_icon md \<noteq> [] \<and> mm_search_text md \<noteq> []"
  using assms(1) unfolding assms(2)[symmetric]
  by (auto simp: ss_shell_module_metadata_load_def manifest_string_or_fallback_def module_search_text_from_manifest_def
      Let_def split: option.split)

end
