(* ===== verification/ShellCommand.thy ===== *)
theory ShellCommand
  imports "HOL-Library.Word" Glib
begin

unbundle bit_operations_syntax

text \<open>
  \<open>shell-command.c\<close>: the search for an installed settings program that nobody but root can have replaced, and
  its launch. What the file system shows is an argument, a mode is the word \<open>st_mode\<close>, and a loop over the
  parents of a path is a partial function: \<open>None\<close> would be a loop that does not end.
\<close>

section \<open>The file system and the widgets\<close>

record file_status =
  status_uid :: nat
  status_mode :: "32 word"

record system_files =
  stat_of :: "string \<Rightarrow> file_status option"
  resolve_path :: "string \<Rightarrow> string option"
  is_executable_file :: "string \<Rightarrow> bool"

record widget =
  tooltip :: "string option"
  sensitive :: bool
  widget_refs :: nat

text \<open>A started process, or the message of the error; then what \<open>g_subprocess_wait_check\<close> reports.\<close>

datatype spawned = Spawned | Spawn_failed string

datatype exit_report = Exited_well | Exited_badly "string option"

definition S_IFMT :: "32 word" where "S_IFMT = 0xF000"
definition S_IFDIR :: "32 word" where "S_IFDIR = 0x4000"
definition S_IFREG :: "32 word" where "S_IFREG = 0x8000"
definition S_IWGRP :: "32 word" where "S_IWGRP = 0x0010"
definition S_IWOTH :: "32 word" where "S_IWOTH = 0x0002"

section \<open>Trust\<close>

definition mode_is_trusted :: "32 word \<Rightarrow> bool" where
  "mode_is_trusted mode \<longleftrightarrow> mode AND (S_IWGRP OR S_IWOTH) = 0"

definition trusted_directory :: "system_files \<Rightarrow> string \<Rightarrow> bool" where
  "trusted_directory S path \<longleftrightarrow>
     (case stat_of S path of
        None \<Rightarrow> False
      | Some status \<Rightarrow>
          status_mode status AND S_IFMT = S_IFDIR \<and> status_uid status = 0 \<and> mode_is_trusted (status_mode status))"

partial_function (option) parent_chain :: "glib \<Rightarrow> system_files \<Rightarrow> string \<Rightarrow> bool option" where
  "parent_chain gl S current =
     (if \<not> trusted_directory S current then Some False
      else if current = ''/'' then Some True
      else if g_path_get_dirname gl current = current then Some False
      else parent_chain gl S (g_path_get_dirname gl current))"

definition trusted_parent_chain :: "glib \<Rightarrow> system_files \<Rightarrow> string \<Rightarrow> bool option" where
  "trusted_parent_chain gl S resolved_path =
     (if char_at resolved_path 0 \<noteq> CHR ''/'' then Some False
      else parent_chain gl S (g_path_get_dirname gl resolved_path))"

text \<open>The outer option is that of the loop, the inner one a null pointer.\<close>

definition trusted_system_executable :: "glib \<Rightarrow> system_files \<Rightarrow> string \<Rightarrow> string \<Rightarrow> string option option" where
  "trusted_system_executable gl S directory candidate =
     (if \<not> trusted_directory S directory then Some None
      else
        (case resolve_path S candidate of
           None \<Rightarrow> Some None
         | Some resolved \<Rightarrow>
             (case stat_of S resolved of
                None \<Rightarrow> Some None
              | Some status \<Rightarrow>
                  if status_mode status AND S_IFMT \<noteq> S_IFREG \<or> status_uid status \<noteq> 0 \<or>
                     \<not> mode_is_trusted (status_mode status)
                  then Some None
                  else
                    (case trusted_parent_chain gl S resolved of
                       None \<Rightarrow> None
                     | Some chain \<Rightarrow>
                         if \<not> chain \<or> \<not> is_executable_file S resolved then Some None else Some (Some resolved)))))"

definition search_directories :: "string list" where
  "search_directories =
     [''/usr/bin'', ''/usr/sbin'', ''/bin'', ''/sbin'', ''/usr/local/bin'', ''/usr/local/sbin'']"

fun search_in :: "glib \<Rightarrow> system_files \<Rightarrow> string \<Rightarrow> string list \<Rightarrow> string option option" where
  "search_in gl S program [] = Some None"
| "search_in gl S program (directory # ds) =
     (case trusted_system_executable gl S directory (g_build_filename gl [directory, program]) of
        None \<Rightarrow> None
      | Some (Some resolved) \<Rightarrow> Some (Some resolved)
      | Some None \<Rightarrow> search_in gl S program ds)"

definition find_trusted_system_program :: "glib \<Rightarrow> system_files \<Rightarrow> string option \<Rightarrow> string option option" where
  "find_trusted_system_program gl S program =
     (case program of
        None \<Rightarrow> Some None
      | Some p \<Rightarrow> if p = [] \<or> strchr p CHR ''/'' \<noteq> None then Some None else search_in gl S p search_directories)"

section \<open>Launching\<close>

text \<open>The second component says whether a completion is awaited.\<close>

definition launch_command ::
  "(string list \<Rightarrow> spawned) \<Rightarrow> widget option \<Rightarrow> string option \<Rightarrow> string option \<Rightarrow> bool \<times> bool \<times> widget option" where
  "launch_command spawn source program argument =
     (case program of
        None \<Rightarrow> (False, False, source)
      | Some p \<Rightarrow>
          if p = [] then (False, False, source)
          else
            (case spawn (p # (case argument of None \<Rightarrow> [] | Some a \<Rightarrow> if a = [] then [] else [a])) of
               Spawn_failed message \<Rightarrow>
                 (False, False, map_option (\<lambda>w. w\<lparr>tooltip := Some message, sensitive := False\<rparr>) source)
             | Spawned \<Rightarrow>
                 (True, source \<noteq> None, map_option (\<lambda>w. w\<lparr>widget_refs := widget_refs w + 1\<rparr>) source)))"

definition launch_command_finished :: "exit_report \<Rightarrow> widget \<Rightarrow> widget" where
  "launch_command_finished report w =
     (let w1 =
        (case report of
           Exited_well \<Rightarrow> w
         | Exited_badly error \<Rightarrow>
             w\<lparr>tooltip := Some (case error of Some m \<Rightarrow> m
                 | None \<Rightarrow> ''The delegated settings tool exited without completing.'')\<rparr>)
      in w1\<lparr>widget_refs := widget_refs w1 - 1\<rparr>)"

section \<open>Paths\<close>

text \<open>The canonical absolute paths, the ones \<open>realpath\<close> returns.\<close>

definition proper_name :: "string \<Rightarrow> bool" where
  "proper_name c \<longleftrightarrow> c \<noteq> [] \<and> CHR ''/'' \<notin> set c"

definition absolute :: "string list \<Rightarrow> string" where
  "absolute cs = (if cs = [] then ''/'' else concat (map (\<lambda>c. CHR ''/'' # c) cs))"

definition canonical :: "string \<Rightarrow> bool" where
  "canonical p \<longleftrightarrow> (\<exists>cs. list_all proper_name cs \<and> p = absolute cs)"

definition paths_documented :: "glib \<Rightarrow> system_files \<Rightarrow> bool" where
  "paths_documented gl S \<longleftrightarrow>
     g_path_get_dirname gl ''/'' = ''/'' \<and>
     (\<forall>cs c. list_all proper_name (cs @ [c]) \<longrightarrow> g_path_get_dirname gl (absolute (cs @ [c])) = absolute cs) \<and>
     (\<forall>p r. resolve_path S p = Some r \<longrightarrow> canonical r)"

text \<open>Every directory above a path, the root included.\<close>

definition guarded :: "system_files \<Rightarrow> string list \<Rightarrow> bool" where
  "guarded S cs \<longleftrightarrow> (\<forall>n < length cs. trusted_directory S (absolute (take n cs)))"

lemma absolute_slash: "char_at (absolute cs) 0 = CHR ''/''"
  by (cases cs) (auto simp: absolute_def)

lemma absolute_longer: "proper_name c \<Longrightarrow> length (absolute cs) < length (absolute (cs @ [c])) \<or> cs = []"
  by (cases cs) (auto simp: absolute_def)

lemma absolute_root: "list_all proper_name cs \<Longrightarrow> absolute cs = ''/'' \<longleftrightarrow> cs = []"
proof (cases cs rule: rev_cases)
  case Nil
  then show ?thesis by (simp add: absolute_def)
next
  case (snoc ys y)
  assume "list_all proper_name cs"
  then have "1 < length (absolute cs)" using snoc by (simp add: absolute_def proper_name_def)
  then show ?thesis using snoc by (auto simp del: One_nat_def)
qed

lemma absolute_grows: "proper_name c \<Longrightarrow> absolute (cs @ [c]) \<noteq> absolute cs"
  by (cases "cs = []") (auto simp: absolute_def proper_name_def)

text \<open>The loop over the parents ends on a canonical path, and its result is the trust of all of them.\<close>

lemma parent_chain_exact:
  assumes doc: "paths_documented gl S"
  shows "list_all proper_name cs \<Longrightarrow>
    parent_chain gl S (absolute cs) = Some (\<forall>n \<le> length cs. trusted_directory S (absolute (take n cs)))"
proof (induction cs rule: rev_induct)
  case Nil
  then show ?case by (subst parent_chain.simps) (simp add: absolute_def)
next
  case (snoc c cs)
  then have names: "list_all proper_name cs" and "proper_name c" by auto
  have up: "g_path_get_dirname gl (absolute (cs @ [c])) = absolute cs"
    using doc snoc.prems by (auto simp: paths_documented_def)
  have ne: "absolute (cs @ [c]) \<noteq> ''/''" using absolute_root[OF snoc.prems] by simp
  have differs: "absolute cs \<noteq> absolute (cs @ [c])" using absolute_grows[OF \<open>proper_name c\<close>] by metis
  have split: "(\<forall>n \<le> length (cs @ [c]). trusted_directory S (absolute (take n (cs @ [c])))) \<longleftrightarrow>
      trusted_directory S (absolute (cs @ [c])) \<and> (\<forall>n \<le> length cs. trusted_directory S (absolute (take n cs)))"
    by (auto simp: le_Suc_eq)
  show ?case
    by (subst parent_chain.simps) (use up ne differs split snoc.IH[OF names] in auto)
qed

lemma trusted_parent_chain_exact:
  assumes doc: "paths_documented gl S" and names: "list_all proper_name cs" and ne: "cs \<noteq> []"
  shows "trusted_parent_chain gl S (absolute cs) = Some (guarded S cs)"
proof -
  obtain ds c where cs: "cs = ds @ [c]" using ne by (cases cs rule: rev_cases) auto
  have up: "g_path_get_dirname gl (absolute cs) = absolute ds"
    using doc names unfolding cs paths_documented_def by blast
  have "(\<forall>n \<le> length ds. trusted_directory S (absolute (take n ds))) \<longleftrightarrow> guarded S cs"
    by (auto simp: guarded_def cs less_Suc_eq_le)
  then show ?thesis
    using parent_chain_exact[OF doc, of ds] names
    by (simp add: trusted_parent_chain_def absolute_slash up[unfolded cs] cs)
qed

text \<open>At the root itself the loop asks for the root alone; the root is no regular file.\<close>

lemma trusted_parent_chain_root:
  "paths_documented gl S \<Longrightarrow> trusted_parent_chain gl S ''/'' = Some (trusted_directory S ''/'')"
  by (simp add: trusted_parent_chain_def paths_documented_def) (subst parent_chain.simps, simp)

section \<open>Programs that can be trusted\<close>

definition trusted_file :: "system_files \<Rightarrow> string \<Rightarrow> bool" where
  "trusted_file S p \<longleftrightarrow>
     (\<exists>st. stat_of S p = Some st \<and> status_mode st AND S_IFMT = S_IFREG \<and> status_uid st = 0 \<and>
           status_mode st AND S_IWGRP = 0 \<and> status_mode st AND S_IWOTH = 0)"

definition acceptable :: "glib \<Rightarrow> system_files \<Rightarrow> string \<Rightarrow> string \<Rightarrow> string \<Rightarrow> bool" where
  "acceptable gl S program directory r \<longleftrightarrow>
     trusted_directory S directory \<and> resolve_path S (g_build_filename gl [directory, program]) = Some r \<and>
     trusted_file S r \<and> is_executable_file S r \<and>
     (\<exists>cs. cs \<noteq> [] \<and> list_all proper_name cs \<and> r = absolute cs \<and> guarded S cs)"

lemma mode_is_trusted_iff: "mode_is_trusted m \<longleftrightarrow> m AND S_IWGRP = 0 \<and> m AND S_IWOTH = 0"
  by (auto simp: mode_is_trusted_def bit_eq_iff bit_simps)

text \<open>Whatever is returned can be replaced by nobody but root, and what can be returned is.\<close>

lemma trusted_system_executable_exact:
  assumes doc: "paths_documented gl S"
  shows "\<exists>res. trusted_system_executable gl S d (g_build_filename gl [d, program]) = Some res \<and>
           (\<forall>r. res = Some r \<longleftrightarrow> acceptable gl S program d r)"
proof -
  let ?c = "g_build_filename gl [d, program]"
  show ?thesis
  proof (cases "\<exists>r. trusted_directory S d \<and> resolve_path S ?c = Some r \<and> trusted_file S r")
    case False
    then have "\<nexists>r. acceptable gl S program d r" by (auto simp: acceptable_def)
    moreover have "trusted_system_executable gl S d ?c = Some None"
      using False by (auto simp: trusted_system_executable_def trusted_file_def mode_is_trusted_iff split: option.split)
    ultimately show ?thesis by auto
  next
    case True
    then obtain r where d: "trusted_directory S d" and r: "resolve_path S ?c = Some r" and f: "trusted_file S r" by blast
    obtain cs where cs: "list_all proper_name cs" "r = absolute cs"
      using doc r unfolding paths_documented_def canonical_def by blast
    have run: "trusted_system_executable gl S d ?c =
        (case trusted_parent_chain gl S r of None \<Rightarrow> None
         | Some chain \<Rightarrow> if \<not> chain \<or> \<not> is_executable_file S r then Some None else Some (Some r))"
      using d r f by (auto simp: trusted_system_executable_def trusted_file_def mode_is_trusted_iff split: option.split)
    show ?thesis
    proof (cases "cs = []")
      case True
      then have root: "r = ''/''" using cs by (simp add: absolute_def)
      have "\<not> trusted_directory S ''/''"
        using f by (auto simp: root trusted_directory_def trusted_file_def S_IFREG_def S_IFDIR_def)
      moreover have "\<nexists>r'. acceptable gl S program d r'"
        using r absolute_root by (fastforce simp: acceptable_def root dest: sym)
      ultimately show ?thesis by (simp add: run root trusted_parent_chain_root[OF doc])
    next
      case False
      have chain: "trusted_parent_chain gl S r = Some (guarded S cs)"
        using trusted_parent_chain_exact[OF doc cs(1) False] cs by simp
      have same: "guarded S ds = guarded S cs" if "list_all proper_name ds" "ds \<noteq> []" "r = absolute ds" for ds
        using trusted_parent_chain_exact[OF doc that(1,2)] chain that(3) by simp
      have "acceptable gl S program d r' \<longleftrightarrow> r' = r \<and> guarded S cs \<and> is_executable_file S r" for r'
      proof
        assume "acceptable gl S program d r'"
        then obtain ds where ds: "resolve_path S ?c = Some r'" "is_executable_file S r'" "ds \<noteq> []" "list_all proper_name ds"
            "r' = absolute ds" "guarded S ds"
          unfolding acceptable_def by blast
        have "r' = r" using ds(1) r by simp
        then show "r' = r \<and> guarded S cs \<and> is_executable_file S r" using ds same by metis
      next
        assume "r' = r \<and> guarded S cs \<and> is_executable_file S r"
        then show "acceptable gl S program d r'" unfolding acceptable_def using d r f cs False by blast
      qed
      then show ?thesis by (auto simp: run chain)
    qed
  qed
qed

lemma search_in_exact:
  assumes doc: "paths_documented gl S"
  shows "\<exists>res. search_in gl S program ds = Some res \<and>
           (\<forall>r. res = Some r \<longleftrightarrow> (\<exists>i < length ds. acceptable gl S program (ds ! i) r \<and>
                (\<forall>j < i. \<forall>r'. \<not> acceptable gl S program (ds ! j) r')))"
proof (induction ds)
  case Nil
  then show ?case by simp
next
  case (Cons d ds)
  obtain res where res: "trusted_system_executable gl S d (g_build_filename gl [d, program]) = Some res"
      "\<And>r. res = Some r \<longleftrightarrow> acceptable gl S program d r"
    using trusted_system_executable_exact[OF doc] by blast
  obtain rest where rest: "search_in gl S program ds = Some rest"
      "\<And>r. rest = Some r \<longleftrightarrow> (\<exists>i < length ds. acceptable gl S program (ds ! i) r \<and>
          (\<forall>j < i. \<forall>r'. \<not> acceptable gl S program (ds ! j) r'))"
    using Cons.IH by blast
  have "search_in gl S program (d # ds) = Some (if res = None then rest else res)"
    using res(1) rest(1) by (cases res) auto
  moreover have "(if res = None then rest else res) = Some r \<longleftrightarrow>
      acceptable gl S program d r \<or> (\<forall>r'. \<not> acceptable gl S program d r') \<and> rest = Some r" for r
    using res(2) by (cases res) (simp_all, metis)
  ultimately show ?case by (simp only: first_Cons rest(2)) blast
qed

text \<open>
  C18: the program that is launched is the canonical path of a root-owned executable regular file that
  neither group nor others may write, every directory above it is owned by root and writable by root alone,
  and it was found under the first of the fixed directories that has such a program; names with a slash and
  the empty name are never looked up, and a program there is not missed.
\<close>

theorem trusted_program_exact:
  assumes "paths_documented gl S"
  shows "\<exists>res. find_trusted_system_program gl S (Some program) = Some res \<and>
    (\<forall>r. res = Some r \<longleftrightarrow>
       program \<noteq> [] \<and> CHR ''/'' \<notin> set program \<and>
       (\<exists>i < length search_directories. acceptable gl S program (search_directories ! i) r \<and>
          (\<forall>j < i. \<forall>r'. \<not> acceptable gl S program (search_directories ! j) r')))"
proof (cases "program = [] \<or> CHR ''/'' \<in> set program")
  case True
  then show ?thesis by (auto simp: find_trusted_system_program_def strchr_None_iff)
next
  case False
  then have "find_trusted_system_program gl S (Some program) = search_in gl S program search_directories"
    using strchr_None_iff by (simp add: find_trusted_system_program_def)
  then show ?thesis using search_in_exact[OF assms, of program search_directories] False by simp
qed

section \<open>The search ends\<close>

lemma parent_chain_ends:
  assumes dir: "\<And>p. char_at p 0 = CHR ''/'' \<Longrightarrow>
      char_at (g_path_get_dirname gl p) 0 = CHR ''/'' \<and>
      (g_path_get_dirname gl p = p \<or> length (g_path_get_dirname gl p) < length p)"
  shows "char_at p 0 = CHR ''/'' \<Longrightarrow> parent_chain gl S p \<noteq> None"
proof (induction "length p" arbitrary: p rule: less_induct)
  case less
  then show ?case using dir[OF less.prems] less.hyps[of "g_path_get_dirname gl p"]
    by (subst parent_chain.simps) auto
qed

lemma search_in_ends:
  assumes dir: "\<And>p. char_at p 0 = CHR ''/'' \<Longrightarrow>
      char_at (g_path_get_dirname gl p) 0 = CHR ''/'' \<and>
      (g_path_get_dirname gl p = p \<or> length (g_path_get_dirname gl p) < length p)"
  shows "search_in gl S p ds \<noteq> None"
proof -
  have chain: "trusted_parent_chain gl S r \<noteq> None" for r
    using dir parent_chain_ends[OF dir] by (auto simp: trusted_parent_chain_def)
  have exec: "trusted_system_executable gl S d c \<noteq> None" for d c
    using chain by (auto simp: trusted_system_executable_def simp del: not_None_eq split: option.split)
  show ?thesis by (induction ds) (use exec in \<open>auto split: option.splits\<close>)
qed

text \<open>
  The search for a program ends on every name and every state of the file system, because the directory
  of an absolute path is a shorter one or the path itself.
\<close>

theorem trusted_search_ends:
  assumes dir: "\<And>p. char_at p 0 = CHR ''/'' \<Longrightarrow>
      char_at (g_path_get_dirname gl p) 0 = CHR ''/'' \<and>
      (g_path_get_dirname gl p = p \<or> length (g_path_get_dirname gl p) < length p)"
  shows "\<exists>res. find_trusted_system_program gl S program = Some res"
  using search_in_ends[OF dir] by (auto simp: find_trusted_system_program_def split: option.split)

section \<open>The widget that launches\<close>

text \<open>Each launch that awaits its completion holds one reference, which the completion gives back.\<close>

lemma launch_balanced:
  assumes "launch_command spawn (Some w) program argument = (ok, awaited, Some w1)"
  shows "awaited = ok" "widget_refs w1 = widget_refs w + (if awaited then 1 else 0)"
    "awaited \<Longrightarrow> widget_refs (launch_command_finished report w1) = widget_refs w"
    "awaited \<Longrightarrow> sensitive (launch_command_finished report w1) = sensitive w"
  using assms
  by (auto simp: launch_command_def launch_command_finished_def split: option.splits spawned.splits exit_report.splits if_splits)

text \<open>What is executed is the program given, with the argument when there is one.\<close>

lemma launch_executes:
  assumes "launch_command spawn source program argument = (True, awaited, source1)"
  shows "\<exists>p. program = Some p \<and> p \<noteq> [] \<and>
    spawn (p # (case argument of None \<Rightarrow> [] | Some a \<Rightarrow> if a = [] then [] else [a])) = Spawned"
  using assms by (auto simp: launch_command_def split: option.splits spawned.splits if_splits)

section \<open>An instance\<close>

definition dirname_of :: "string \<Rightarrow> string" where
  "dirname_of p = (let q = rev (tl (dropWhile (\<lambda>c. c \<noteq> CHR ''/'') (rev p))) in if q = [] then ''/'' else q)"

definition sample_paths :: glib where
  "sample_paths = sample_glib\<lparr>g_path_get_dirname := dirname_of\<rparr>"

definition sample_files :: system_files where
  "sample_files =
     \<lparr>stat_of = (\<lambda>p. if p \<in> set [''/'', ''/usr'', ''/usr/bin''] then Some \<lparr>status_uid = 0, status_mode = 0x41ED\<rparr>
                     else if p = ''/usr/bin/tool'' then Some \<lparr>status_uid = 0, status_mode = 0x81ED\<rparr> else None),
      resolve_path = (\<lambda>p. if p = ''/usr/bin/tool'' then Some p else None),
      is_executable_file = (\<lambda>p. True)\<rparr>"

lemma drop_name: "CHR ''/'' \<notin> set ys \<Longrightarrow> dropWhile (\<lambda>k. k \<noteq> CHR ''/'') (ys @ CHR ''/'' # xs) = CHR ''/'' # xs"
  by (induction ys) auto

lemma proper_absolute: "proper_name c \<Longrightarrow> dirname_of (absolute (cs @ [c])) = absolute cs"
proof -
  assume c: "proper_name c"
  have "dropWhile (\<lambda>k. k \<noteq> CHR ''/'') (rev c @ CHR ''/'' # xs) = CHR ''/'' # xs" for xs
    using c by (intro drop_name) (simp add: proper_name_def)
  then show ?thesis by (cases "cs = []") (auto simp: dirname_of_def absolute_def rev_concat rev_map comp_def)
qed

lemma sample_documented: "paths_documented sample_paths sample_files"
proof -
  have "canonical ''/usr/bin/tool''"
    unfolding canonical_def by (rule exI[of _ "[''usr'', ''bin'', ''tool'']"]) (simp add: proper_name_def absolute_def)
  then show ?thesis
    unfolding paths_documented_def
    by (intro conjI allI impI) (simp_all add: sample_paths_def sample_files_def dirname_of_def[of "''/''"] proper_absolute split: if_splits)
qed

lemma dirname_shorter: "char_at p 0 = CHR ''/'' \<Longrightarrow>
    char_at (dirname_of p) 0 = CHR ''/'' \<and> (dirname_of p = p \<or> length (dirname_of p) < length p)"
proof -
  assume p: "char_at p 0 = CHR ''/''"
  then have "CHR ''/'' \<in> set p" by (cases p) (auto simp: char_at_def)
  then obtain ys xs where split: "rev p = ys @ CHR ''/'' # xs" "CHR ''/'' \<notin> set ys"
    by (metis set_rev split_list_first)
  have drop: "dropWhile (\<lambda>c. c \<noteq> CHR ''/'') (rev p) = CHR ''/'' # xs"
    using split drop_name by simp
  have whole: "p = rev xs @ CHR ''/'' # rev ys" using split(1) by (metis rev_rev_ident rev_append rev.simps(2) append_assoc append_Cons append_Nil)
  show ?thesis
  proof (cases "xs = []")
    case True
    then show ?thesis using whole drop by (cases ys rule: rev_cases) (auto simp: dirname_of_def char_at_def)
  next
    case False
    then have "rev xs \<noteq> []" by simp
    moreover have "char_at (rev xs) 0 = CHR ''/''" using p False whole by (cases "rev xs") (auto simp: char_at_def)
    ultimately show ?thesis using whole drop by (simp add: dirname_of_def Let_def)
  qed
qed

lemma sample_trusted: "p \<in> set [''/'', ''/usr'', ''/usr/bin''] \<Longrightarrow> trusted_directory sample_files p"
  by (auto simp: trusted_directory_def sample_files_def mode_is_trusted_def S_IFMT_def S_IFDIR_def S_IWGRP_def S_IWOTH_def)

lemma sample_file: "trusted_file sample_files ''/usr/bin/tool''"
  by (simp add: trusted_file_def sample_files_def S_IFMT_def S_IFREG_def S_IWGRP_def S_IWOTH_def)

lemma sample_guarded:
  "[''usr'', ''bin'', ''tool''] \<noteq> [] \<and> list_all proper_name [''usr'', ''bin'', ''tool''] \<and>
   ''/usr/bin/tool'' = absolute [''usr'', ''bin'', ''tool''] \<and> guarded sample_files [''usr'', ''bin'', ''tool'']"
proof -
  have "trusted_directory sample_files (absolute (take n [''usr'', ''bin'', ''tool'']))" if "n < 3" for n :: nat
  proof -
    have "n = 0 \<or> n = 1 \<or> n = 2" using that by linarith
    then show ?thesis by (elim disjE) (simp_all add: absolute_def sample_trusted)
  qed
  then show ?thesis by (simp add: proper_name_def absolute_def guarded_def)
qed

theorem trusted_program_exact_witness:
  "find_trusted_system_program sample_paths sample_files (Some ''tool'') = Some (Some ''/usr/bin/tool'')"
proof -
  obtain res where res: "find_trusted_system_program sample_paths sample_files (Some ''tool'') = Some res"
      "\<And>r. res = Some r \<longleftrightarrow> ''tool'' \<noteq> [] \<and> CHR ''/'' \<notin> set ''tool'' \<and>
        (\<exists>i < length search_directories. acceptable sample_paths sample_files ''tool'' (search_directories ! i) r \<and>
          (\<forall>j < i. \<forall>r'. \<not> acceptable sample_paths sample_files ''tool'' (search_directories ! j) r'))"
    using trusted_program_exact[OF sample_documented, of "''tool''"] by metis
  have "acceptable sample_paths sample_files ''tool'' ''/usr/bin'' ''/usr/bin/tool''"
    unfolding acceptable_def
    by (intro conjI, simp add: sample_trusted, simp add: sample_paths_def sample_glib_def sample_files_def,
        simp add: sample_file, simp add: sample_files_def, rule exI, rule sample_guarded)
  then have "res = Some ''/usr/bin/tool''"
    unfolding res(2)
    by (intro conjI exI[of _ 0], simp, simp, simp add: search_directories_def, simp add: search_directories_def, simp)
  then show ?thesis using res(1) by simp
qed

theorem trusted_search_ends_witness: "\<exists>res. find_trusted_system_program sample_paths sample_files (Some ''tool'') = Some res"
  by (rule trusted_search_ends) (simp add: sample_paths_def dirname_shorter)

end
