(* ===== verification/ShellWindow.thy ===== *)
theory ShellWindow
  imports ModuleHost ModuleCatalog ShellCommand
begin

text \<open>
  \<open>shell-window.c\<close>: the window of the program, its navigation list, its search and its pages. Widgets are their
  values: the list is its rows and the selected one, the stack its names and the visible one, and a page's
  scrolled window its child. Selecting another row raises \<open>row-selected\<close> before the call returns, so opening a
  page, which selects its row, can enter itself; it is a partial function, \<open>None\<close> if it would never return.
  The search state and its widgets are given; the module host is \<open>None\<close> once the window is being closed.
\<close>

section \<open>State\<close>

definition SS_HOME_PAGE_ID :: string where "SS_HOME_PAGE_ID = ''home''"

datatype navigation_action =
    SHELL_NAVIGATION_ACTION_NONE | SHELL_NAVIGATION_ACTION_PAGE
  | SHELL_NAVIGATION_ACTION_EXTERNAL | SHELL_NAVIGATION_ACTION_ABOUT

record navigation_data =
  nv_page_id :: "string option"
  nv_search_text :: string
  nv_program :: "string option"
  nv_argument :: "string option"
  nv_action :: navigation_action

record navigation_row =
  row_icon :: string
  row_title :: string
  row_subtitle :: string
  row_navigation :: navigation_data
  row_widget :: widget

record module_page =
  pg_title :: string
  pg_row :: "nat option"
  pg_container :: "page_child option option"

record ('c, 'w, 'e) shell =
  sh_rows :: "navigation_row list"
  sh_selected :: "nat option"
  sh_query :: "string option"
  sh_stack :: "string list"
  sh_visible :: "string option"
  sh_home_row :: nat
  sh_host :: "('c, 'w, 'e) module_host option"
  sh_pages :: "string \<Rightarrow> module_page option"
  sh_executed :: "string list list"
  sh_abouts :: nat

section \<open>Pages\<close>

definition shell_navigation_data_attach :: "string option \<Rightarrow> string \<Rightarrow> navigation_data" where
  "shell_navigation_data_attach name terms =
     \<lparr>nv_page_id = name, nv_search_text = terms, nv_program = None, nv_argument = None,
      nv_action = (if name \<noteq> None then SHELL_NAVIGATION_ACTION_PAGE else SHELL_NAVIGATION_ACTION_NONE)\<rparr>"

definition shell_module_page_lookup :: "('c, 'w, 'e) shell \<Rightarrow> string option \<Rightarrow> module_page option" where
  "shell_module_page_lookup sh name =
     (case name of None \<Rightarrow> None | Some p \<Rightarrow> if p = [] then None else sh_pages sh p)"

definition shell_register_module_page ::
  "string option \<Rightarrow> string \<Rightarrow> nat \<Rightarrow> ('c, 'w, 'e) shell \<Rightarrow> ('c, 'w, 'e) shell" where
  "shell_register_module_page name title row sh =
     (case name of None \<Rightarrow> sh
      | Some p \<Rightarrow>
          if p = [] then sh
          else sh\<lparr>sh_pages := (sh_pages sh)(p \<mapsto>
                 \<lparr>pg_title = (if title \<noteq> [] then title else p), pg_row = Some row, pg_container = None\<rparr>)\<rparr>)"

definition shell_set_module_container ::
  "string option \<Rightarrow> page_child option option \<Rightarrow> ('c, 'w, 'e) shell \<Rightarrow> ('c, 'w, 'e) shell" where
  "shell_set_module_container name container sh =
     (case shell_module_page_lookup sh name of None \<Rightarrow> sh
      | Some page \<Rightarrow> sh\<lparr>sh_pages := (sh_pages sh)(the name \<mapsto> page\<lparr>pg_container := container\<rparr>)\<rparr>)"

text \<open>The second component of the state is what the modules change.\<close>

definition ensure_module_page ::
  "('c, 'w, 'e) module_descriptor list \<Rightarrow> 'e \<Rightarrow> string \<Rightarrow> ('c, 'w, 'e) shell \<times> 'w \<Rightarrow> bool \<times> ('c, 'w, 'e) shell \<times> 'w" where
  "ensure_module_page mods e name st =
     (let (sh, w) = st in
      case sh_host sh of
        None \<Rightarrow> (False, st)
      | Some h \<Rightarrow>
          (case shell_module_page_lookup sh (Some name) of
             None \<Rightarrow> (False, st)
           | Some page \<Rightarrow>
               (case pg_container page of
                  None \<Rightarrow> (False, st)
                | Some child \<Rightarrow>
                    if ss_builtin_module_host_is_loaded (sh_host sh) (Some name) then (True, st)
                    else
                      (let (ok, error, host, container, w1) =
                         ss_builtin_module_host_ensure_page mods e (sh_host sh) (Some name) (Some child) w;
                           sh1 = sh\<lparr>sh_host := host\<rparr>
                       in if ok then (True, shell_set_module_container (Some name) container sh1, w1)
                          else
                            (False,
                             shell_set_module_container (Some name)
                               (Some (Some (Unavailable_panel (pg_title page)
                                  (case error of Some m \<Rightarrow> m | None \<Rightarrow> ''Unable to initialise this settings module.'')))) sh1,
                             w1)))))"

definition gtk_stack_set_visible_child_name :: "string \<Rightarrow> ('c, 'w, 'e) shell \<Rightarrow> ('c, 'w, 'e) shell" where
  "gtk_stack_set_visible_child_name name sh = (if name \<in> set (sh_stack sh) then sh\<lparr>sh_visible := Some name\<rparr> else sh)"

text \<open>The row that belongs to a page, of \<open>shell_open_page\<close> and \<open>restore_navigation_selection\<close>.\<close>

definition page_row :: "string option \<Rightarrow> ('c, 'w, 'e) shell \<Rightarrow> nat option" where
  "page_row name sh =
     (case map_option pg_row (shell_module_page_lookup sh name) of
        Some (Some r) \<Rightarrow> Some r
      | _ \<Rightarrow> if name = Some SS_HOME_PAGE_ID then Some (sh_home_row sh) else None)"

text \<open>The page that selecting a row opens.\<close>

definition row_page :: "nat \<Rightarrow> ('c, 'w, 'e) shell \<Rightarrow> string option" where
  "row_page r sh =
     (if r < length (sh_rows sh) \<and> nv_action (row_navigation (sh_rows sh ! r)) = SHELL_NAVIGATION_ACTION_PAGE
      then nv_page_id (row_navigation (sh_rows sh ! r)) else None)"

definition show_page ::
  "('c, 'w, 'e) module_descriptor list \<Rightarrow> 'e \<Rightarrow> string \<Rightarrow> ('c, 'w, 'e) shell \<times> 'w \<Rightarrow> bool \<times> ('c, 'w, 'e) shell \<times> 'w" where
  "show_page mods e name st =
     (let (ready, sh1, w1) =
        (if shell_module_page_lookup (fst st) (Some name) \<noteq> None then ensure_module_page mods e name st else (True, st))
      in (ready, gtk_stack_set_visible_child_name name sh1, w1))"

partial_function (option) shell_open_page ::
  "('c, 'w, 'e) module_descriptor list \<Rightarrow> 'e \<Rightarrow> string \<Rightarrow> ('c, 'w, 'e) shell \<times> 'w \<Rightarrow>
   (bool \<times> ('c, 'w, 'e) shell \<times> 'w) option" where
  "shell_open_page mods e name st =
     (if name = [] then Some (False, st)
      else
        (let (ready, sh1, w1) = show_page mods e name st in
         case page_row (Some name) sh1 of
           None \<Rightarrow> Some (ready, sh1, w1)
         | Some r \<Rightarrow>
             if sh_selected sh1 = Some r then Some (ready, sh1, w1)
             else
               (case row_page r sh1 of
                  None \<Rightarrow> Some (ready, sh1\<lparr>sh_selected := Some r\<rparr>, w1)
                | Some other \<Rightarrow>
                    Option.bind (shell_open_page mods e other (sh1\<lparr>sh_selected := Some r\<rparr>, w1))
                      (\<lambda>(again, st2). Some (ready, st2)))))"

definition on_navigation_selected ::
  "('c, 'w, 'e) module_descriptor list \<Rightarrow> 'e \<Rightarrow> nat option \<Rightarrow> ('c, 'w, 'e) shell \<times> 'w \<Rightarrow> (('c, 'w, 'e) shell \<times> 'w) option" where
  "on_navigation_selected mods e row st =
     (case row of
        None \<Rightarrow> Some st
      | Some r \<Rightarrow>
          (case row_page r (fst st) of
             None \<Rightarrow> Some st
           | Some name \<Rightarrow> map_option snd (shell_open_page mods e name st)))"

text \<open>Selecting the selected row does nothing; selecting another one raises the signal.\<close>

definition gtk_list_box_select_row ::
  "('c, 'w, 'e) module_descriptor list \<Rightarrow> 'e \<Rightarrow> nat \<Rightarrow> ('c, 'w, 'e) shell \<times> 'w \<Rightarrow> (('c, 'w, 'e) shell \<times> 'w) option" where
  "gtk_list_box_select_row mods e r st =
     (if sh_selected (fst st) = Some r then Some st
      else on_navigation_selected mods e (Some r) ((fst st)\<lparr>sh_selected := Some r\<rparr>, snd st))"

definition restore_navigation_selection ::
  "('c, 'w, 'e) module_descriptor list \<Rightarrow> 'e \<Rightarrow> ('c, 'w, 'e) shell \<times> 'w \<Rightarrow> (('c, 'w, 'e) shell \<times> 'w) option" where
  "restore_navigation_selection mods e st =
     (case page_row (sh_visible (fst st)) (fst st) of None \<Rightarrow> Some st | Some r \<Rightarrow> gtk_list_box_select_row mods e r st)"

text \<open>The selection inside \<open>shell_open_page\<close> is this one.\<close>

lemma open_page_selects:
  "shell_open_page mods e name st =
     (if name = [] then Some (False, st)
      else
        (let (ready, st1) = show_page mods e name st in
         case page_row (Some name) (fst st1) of
           None \<Rightarrow> Some (ready, st1)
         | Some r \<Rightarrow> map_option (\<lambda>st2. (ready, st2)) (gtk_list_box_select_row mods e r st1)))"
proof (cases "name = []")
  case True
  then show ?thesis by (subst shell_open_page.simps) simp
next
  case False
  obtain ready sh1 w1 where s: "show_page mods e name st = (ready, sh1, w1)" by (metis prod.collapse)
  show ?thesis
    by (subst shell_open_page.simps)
      (use False s in \<open>auto simp: gtk_list_box_select_row_def on_navigation_selected_def row_page_def map_option_bind split: option.split bind_split\<close>)
qed

section \<open>Activation of a row\<close>

definition on_navigation_activated ::
  "(string list \<Rightarrow> spawned) \<Rightarrow> ('c, 'w, 'e) module_descriptor list \<Rightarrow> 'e \<Rightarrow> nat option \<Rightarrow> ('c, 'w, 'e) shell \<times> 'w \<Rightarrow>
   (('c, 'w, 'e) shell \<times> 'w) option" where
  "on_navigation_activated spawn mods e row st =
     (case row of
        None \<Rightarrow> Some st
      | Some r \<Rightarrow>
          if length (sh_rows (fst st)) \<le> r then Some st
          else
            (let (sh, w) = st; it = sh_rows sh ! r; nav = row_navigation it in
             if nv_action nav = SHELL_NAVIGATION_ACTION_EXTERNAL \<and> nv_program nav \<noteq> None then
               (let (launched, awaited, widget1) = launch_command spawn (Some (row_widget it)) (nv_program nav) (nv_argument nav);
                    argv = the (nv_program nav) # (case nv_argument nav of None \<Rightarrow> [] | Some a \<Rightarrow> if a = [] then [] else [a])
                in restore_navigation_selection mods e
                     (sh\<lparr>sh_rows := (sh_rows sh)[r := it\<lparr>row_widget := the widget1\<rparr>],
                         sh_executed := (if launched then argv # sh_executed sh else sh_executed sh)\<rparr>, w))
             else if nv_action nav = SHELL_NAVIGATION_ACTION_ABOUT then
               restore_navigation_selection mods e (sh\<lparr>sh_abouts := sh_abouts sh + 1\<rparr>, w)
             else Some st))"

section \<open>Search\<close>

text \<open>\<open>contains_ci\<close> is \<open>infiltratr_ascii_contains_ci\<close>.\<close>

definition navigation_filter :: "(string \<Rightarrow> string \<Rightarrow> bool) \<Rightarrow> ('c, 'w, 'e) shell \<Rightarrow> nat \<Rightarrow> bool" where
  "navigation_filter contains_ci sh r =
     (case sh_query sh of
        Some (c # cs) \<Rightarrow> r < length (sh_rows sh) \<and> contains_ci (nv_search_text (row_navigation (sh_rows sh ! r))) (c # cs)
      | _ \<Rightarrow> True)"

definition on_search_changed :: "string option \<Rightarrow> ('c, 'w, 'e) shell \<Rightarrow> ('c, 'w, 'e) shell" where
  "on_search_changed entry_text sh = sh\<lparr>sh_query := Some (case entry_text of Some t \<Rightarrow> t | None \<Rightarrow> [])\<rparr>"

section \<open>Building the window\<close>

definition make_navigation_row :: "string \<Rightarrow> string \<Rightarrow> string \<Rightarrow> string option \<Rightarrow> string \<Rightarrow> navigation_row" where
  "make_navigation_row icon title subtitle name terms =
     \<lparr>row_icon = icon, row_title = title, row_subtitle = subtitle,
      row_navigation = shell_navigation_data_attach name terms,
      row_widget = \<lparr>tooltip = None, sensitive = True, widget_refs = 1\<rparr>\<rparr>"

text \<open>\<open>None\<close> if the search for the program would not end.\<close>

definition make_external_navigation_row ::
  "glib \<Rightarrow> system_files \<Rightarrow> string \<Rightarrow> string \<Rightarrow> string \<Rightarrow> string \<Rightarrow> string \<Rightarrow> string option \<Rightarrow> navigation_row option" where
  "make_external_navigation_row gl S icon title subtitle terms program argument =
     (case find_trusted_system_program gl S (Some program) of
        None \<Rightarrow> None
      | Some path \<Rightarrow>
          (let row = make_navigation_row icon title subtitle None terms;
               nav = (row_navigation row)\<lparr>nv_action := SHELL_NAVIGATION_ACTION_EXTERNAL, nv_program := path, nv_argument := argument\<rparr>;
               shown = (if path = None then (row_widget row)\<lparr>sensitive := False, tooltip := Some ''This system tool is not installed.''\<rparr>
                        else row_widget row)
           in Some (row\<lparr>row_navigation := nav, row_widget := shown\<rparr>)))"

definition make_about_navigation_row :: navigation_row where
  "make_about_navigation_row =
     (let row = make_navigation_row ''help-about-symbolic'' ''About'' ''System information'' None ''about system information version''
      in row\<lparr>row_navigation := (row_navigation row)\<lparr>nv_action := SHELL_NAVIGATION_ACTION_ABOUT\<rparr>\<rparr>)"

text \<open>The first child added to a stack becomes the visible one.\<close>

definition gtk_stack_add_named :: "string \<Rightarrow> ('c, 'w, 'e) shell \<Rightarrow> ('c, 'w, 'e) shell" where
  "gtk_stack_add_named name sh =
     sh\<lparr>sh_stack := sh_stack sh @ [name], sh_visible := (if sh_visible sh = None then Some name else sh_visible sh)\<rparr>"

definition append_builtin_module_row ::
  "(string option \<Rightarrow> string \<Rightarrow> module_metadata) \<Rightarrow> ('c, 'w, 'e) module_descriptor list \<Rightarrow> nat \<Rightarrow>
   ('c, 'w, 'e) shell \<Rightarrow> ('c, 'w, 'e) shell" where
  "append_builtin_module_row metadata_load mods index sh =
     (case ss_builtin_module_host_module_page_id mods index of
        None \<Rightarrow> sh
      | Some name \<Rightarrow>
          if name = [] then sh
          else
            (let md = metadata_load (ss_builtin_module_host_module_manifest mods index) name;
                 row = make_navigation_row (mm_icon md) (mm_title md) (mm_summary md) (Some name) (mm_search_text md);
                 sh1 = sh\<lparr>sh_rows := sh_rows sh @ [row]\<rparr>;
                 sh2 = shell_register_module_page (Some name) (mm_title md) (length (sh_rows sh)) sh1;
                 sh3 = shell_set_module_container (Some name) (Some None) sh2
             in gtk_stack_add_named name sh3))"

definition append_builtin_module_rows ::
  "(string option \<Rightarrow> string \<Rightarrow> module_metadata) \<Rightarrow> ('c, 'w, 'e) module_descriptor list \<Rightarrow>
   ('c, 'w, 'e) shell \<Rightarrow> ('c, 'w, 'e) shell" where
  "append_builtin_module_rows metadata_load mods sh =
     fold (append_builtin_module_row metadata_load mods) [0 ..< ss_builtin_module_host_module_count mods] sh"

text \<open>The rows of \<open>build_sidebar\<close> after the modules: icon, title, subtitle, search text, program and argument.\<close>

definition external_rows :: "(string \<times> string \<times> string \<times> string \<times> string \<times> string option) list" where
  "external_rows =
    [(''preferences-desktop-locale-symbolic'', ''Region & Language'', ''Language, formats & input'',
      ''region language locale formats input'', ''mintlocale'', None),
     (''preferences-desktop-theme-symbolic'', ''Appearance'', ''Cinnamon themes & desktop appearance'',
      ''appearance theme themes desktop cinnamon'', ''cinnamon-settings'', Some ''themes''),
     (''audio-volume-high-symbolic'', ''Sound'', ''Audio devices & volume'',
      ''sound audio devices volume speakers'', ''cinnamon-settings'', Some ''sound''),
     (''network-wired-symbolic'', ''Network'', ''Wi-Fi, wired & internet'',
      ''network wifi wireless ethernet internet'', ''cinnamon-settings'', Some ''network''),
     (''bluetooth-active-symbolic'', ''Bluetooth'', ''Devices & pairing'',
      ''bluetooth devices pairing'', ''blueman-manager'', None),
     (''battery-good-symbolic'', ''Power'', ''Battery & power management'',
      ''power battery energy management'', ''cinnamon-settings'', Some ''power''),
     (''system-users-symbolic'', ''Users & Accounts'', ''Account settings & login'',
      ''users accounts login password'', ''cinnamon-settings'', Some ''user''),
     (''security-high-symbolic'', ''Privacy & Security'', ''Permissions & system security'',
      ''privacy security permissions'', ''cinnamon-settings'', Some ''privacy''),
     (''computer-symbolic'', ''System Information'', ''Hardware and operating-system details'',
      ''hardware system information operating system details'', ''cinnamon-settings'', Some ''info''),
     (''system-software-install-symbolic'', ''Software & Updates'', ''Updates, drivers & repositories'',
      ''software updates drivers repositories packages'', ''software'', None)]"

fun append_external_rows ::
  "glib \<Rightarrow> system_files \<Rightarrow> (string \<times> string \<times> string \<times> string \<times> string \<times> string option) list \<Rightarrow>
   ('c, 'w, 'e) shell \<Rightarrow> ('c, 'w, 'e) shell option" where
  "append_external_rows gl S [] sh = Some sh"
| "append_external_rows gl S ((icon, title, subtitle, terms, program, argument) # rest) sh =
     (case make_external_navigation_row gl S icon title subtitle terms program argument of
        None \<Rightarrow> None
      | Some row \<Rightarrow> append_external_rows gl S rest (sh\<lparr>sh_rows := sh_rows sh @ [row]\<rparr>))"

definition build_sidebar ::
  "glib \<Rightarrow> system_files \<Rightarrow> (string option \<Rightarrow> string \<Rightarrow> module_metadata) \<Rightarrow> ('c, 'w, 'e) module_descriptor list \<Rightarrow>
   ('c, 'w, 'e) shell \<Rightarrow> ('c, 'w, 'e) shell option" where
  "build_sidebar gl S metadata_load mods sh =
     (let home_row = make_navigation_row ''go-home-symbolic'' ''Home'' ''Overview & quick access'' (Some SS_HOME_PAGE_ID)
                       ''home overview quick access system'';
          sh1 = sh\<lparr>sh_home_row := length (sh_rows sh), sh_rows := sh_rows sh @ [home_row]\<rparr>;
          sh2 = append_builtin_module_rows metadata_load mods sh1
      in map_option (\<lambda>sh3. sh3\<lparr>sh_rows := sh_rows sh3 @ [make_about_navigation_row]\<rparr>)
           (append_external_rows gl S external_rows sh2))"

definition empty_shell :: "('c, 'w, 'e) module_host \<Rightarrow> ('c, 'w, 'e) shell" where
  "empty_shell h = \<lparr>sh_rows = [], sh_selected = None, sh_query = None, sh_stack = [], sh_visible = None, sh_home_row = 0,
     sh_host = Some h, sh_pages = (\<lambda>p. None), sh_executed = [], sh_abouts = 0\<rparr>"

text \<open>The activation that makes the window; the provider of the Home page is there.\<close>

definition ss_shell_window_activate ::
  "glib \<Rightarrow> system_files \<Rightarrow> catalog_paths \<Rightarrow> (string \<Rightarrow> manifest_file) \<Rightarrow> string option \<Rightarrow>
   ('c, 'w, 'e) module_descriptor list \<Rightarrow> 'e \<Rightarrow> 'w \<Rightarrow> (('c, 'w, 'e) shell \<times> 'w) option" where
  "ss_shell_window_activate gl S C load manifest_directory mods e w =
     (case ss_builtin_module_host_new True of
        None \<Rightarrow> None
      | Some h \<Rightarrow>
          (case build_sidebar gl S (\<lambda>f p. ss_shell_module_metadata_load gl C load f p manifest_directory) mods (empty_shell h) of
             None \<Rightarrow> None
           | Some sh \<Rightarrow> map_option snd (shell_open_page mods e SS_HOME_PAGE_ID (gtk_stack_add_named SS_HOME_PAGE_ID sh, w))))"

definition open_home_page ::
  "('c, 'w, 'e) module_descriptor list \<Rightarrow> 'e \<Rightarrow> string option \<Rightarrow> ('c, 'w, 'e) shell \<times> 'w \<Rightarrow> (('c, 'w, 'e) shell \<times> 'w) option" where
  "open_home_page mods e name st =
     (case name of None \<Rightarrow> Some st | Some p \<Rightarrow> if p = [] then Some st else map_option snd (shell_open_page mods e p st))"

definition on_close_requested :: "('c, 'w, 'e) shell \<times> 'w \<Rightarrow> ('c, 'w, 'e) shell \<times> 'w" where
  "on_close_requested st =
     (let (sh, w) = st in (sh\<lparr>sh_host := None\<rparr>, ss_builtin_module_host_free (sh_host sh) w))"

text \<open>The size of the window from the geometry of its monitor, when it has one.\<close>

definition adaptive_default_size :: "(int \<times> int) option \<Rightarrow> int \<times> int" where
  "adaptive_default_size geometry =
     (case geometry of
        None \<Rightarrow> (1180, 760)
      | Some (gw, gh) \<Rightarrow>
          (if 0 < gw then min 1180 (max 1 (gw * 9 div 10)) else 1180,
           if 0 < gh then min 760 (max 1 (gh * 9 div 10)) else 760))"

section \<open>The events of the window\<close>

text \<open>A click selects a row and activates it, the keyboard selects, a finished process is noted at its row.\<close>

inductive shell_step ::
  "('c, 'w, 'e) module_descriptor \<Rightarrow> ('c \<times> 'w \<Rightarrow> 'c \<times> 'w \<Rightarrow> bool) \<Rightarrow> ('w \<Rightarrow> 'w \<Rightarrow> bool) \<Rightarrow> (string \<Rightarrow> string \<Rightarrow> bool) \<Rightarrow>
   ('c, 'w, 'e) shell \<times> 'w \<Rightarrow> ('c, 'w, 'e) shell \<times> 'w \<Rightarrow> bool" for d works drifts contains_ci where
  click: "navigation_filter contains_ci (fst st) r \<Longrightarrow> gtk_list_box_select_row [d] e r st = Some st1 \<Longrightarrow>
     on_navigation_activated spawn [d] e (Some r) st1 = Some st2 \<Longrightarrow> shell_step d works drifts contains_ci st st2"
| keyboard: "gtk_list_box_select_row [d] e r st = Some st1 \<Longrightarrow> shell_step d works drifts contains_ci st st1"
| unselect: "shell_step d works drifts contains_ci (sh, w) (sh\<lparr>sh_selected := None\<rparr>, w)"
| search: "shell_step d works drifts contains_ci (sh, w) (on_search_changed t sh, w)"
| from_home: "open_home_page [d] e name st = Some st1 \<Longrightarrow> shell_step d works drifts contains_ci st st1"
| finished: "r < length (sh_rows sh) \<Longrightarrow> it = sh_rows sh ! r \<Longrightarrow>
     shell_step d works drifts contains_ci (sh, w)
       (sh\<lparr>sh_rows := (sh_rows sh)[r := it\<lparr>row_widget := launch_command_finished report (row_widget it)\<rparr>]\<rparr>, w)"
| module_works: "sh_host sh = Some h \<Longrightarrow> instances h = [(q, inst)] \<Longrightarrow> works (in_controller inst, w) (c1, w1) \<Longrightarrow>
     shell_step d works drifts contains_ci (sh, w)
       (sh\<lparr>sh_host := Some (h\<lparr>instances := [(q, inst\<lparr>in_controller := c1\<rparr>)]\<rparr>)\<rparr>, w1)"
| outside: "sh_host sh = Some h \<Longrightarrow> instances h = [] \<Longrightarrow> drifts w w1 \<Longrightarrow> shell_step d works drifts contains_ci (sh, w) (sh, w1)"

section \<open>The shell with its module\<close>

text \<open>The rows and pages that stay: the first row is Home, the second the module, no other opens a page.\<close>

definition module_child :: "('c, 'w, 'e) module_descriptor \<Rightarrow> ('c, 'w, 'e) shell \<Rightarrow> page_child option" where
  "module_child d sh = Option.bind (Option.bind (sh_pages sh (page_id d)) pg_container) (\<lambda>x. x)"

definition shell_static :: "('c, 'w, 'e) module_descriptor \<Rightarrow> ('c, 'w, 'e) shell \<Rightarrow> bool" where
  "shell_static d sh \<longleftrightarrow>
     sh_stack sh = [page_id d, SS_HOME_PAGE_ID] \<and> sh_home_row sh = 0 \<and>
     (\<forall>p. p \<noteq> page_id d \<longrightarrow> sh_pages sh p = None) \<and>
     (case sh_pages sh (page_id d) of None \<Rightarrow> False | Some page \<Rightarrow> pg_row page = Some 1 \<and> pg_container page \<noteq> None) \<and>
     (\<forall>r. row_page r sh = (if r = 0 then Some SS_HOME_PAGE_ID else if r = 1 then Some (page_id d) else None))"

definition shell_pages_ok ::
  "('c, 'w, 'e) module_descriptor \<Rightarrow> ('c \<Rightarrow> 'w \<Rightarrow> bool) \<Rightarrow> ('w \<Rightarrow> bool) \<Rightarrow> nat \<Rightarrow> ('c, 'w, 'e) shell \<Rightarrow> 'w \<Rightarrow> bool" where
  "shell_pages_ok d live idle root_widget sh w \<longleftrightarrow>
     shell_static d sh \<and>
     (\<exists>h. sh_host sh = Some h \<and> host_ok d live idle h w \<and>
        (module_child d sh = Some (Panel_widget root_widget) \<longleftrightarrow> instances h \<noteq> [])) \<and>
     (sh_visible sh = Some (page_id d) \<and> module_child d sh \<noteq> None \<or> sh_visible sh = Some SS_HOME_PAGE_ID)"

text \<open>A selected row of a page shows that page.\<close>

definition selection_ok :: "('c, 'w, 'e) shell \<Rightarrow> bool" where
  "selection_ok sh \<longleftrightarrow> (\<forall>r q. sh_selected sh = Some r \<and> row_page r sh = Some q \<longrightarrow> sh_visible sh = Some q)"

definition programs_ok :: "(string \<Rightarrow> bool) \<Rightarrow> ('c, 'w, 'e) shell \<Rightarrow> bool" where
  "programs_ok trusted sh \<longleftrightarrow>
     (\<forall>row \<in> set (sh_rows sh). \<forall>p. nv_program (row_navigation row) = Some p \<longrightarrow> trusted p) \<and>
     (\<forall>argv \<in> set (sh_executed sh). argv \<noteq> [] \<and> trusted (hd argv))"

definition shell_ok ::
  "('c, 'w, 'e) module_descriptor \<Rightarrow> ('c \<Rightarrow> 'w \<Rightarrow> bool) \<Rightarrow> ('w \<Rightarrow> bool) \<Rightarrow> nat \<Rightarrow> (string \<Rightarrow> bool) \<Rightarrow>
   ('c, 'w, 'e) shell \<times> 'w \<Rightarrow> bool" where
  "shell_ok d live idle root_widget trusted st \<longleftrightarrow>
     shell_pages_ok d live idle root_widget (fst st) (snd st) \<and> selection_ok (fst st) \<and> programs_ok trusted (fst st)"

lemma row_page_fields:
  "row_page r (sh\<lparr>sh_selected := x\<rparr>) = row_page r sh" "row_page r (sh\<lparr>sh_visible := v\<rparr>) = row_page r sh"
  "row_page r (sh\<lparr>sh_host := h\<rparr>) = row_page r sh" "row_page r (sh\<lparr>sh_pages := ps\<rparr>) = row_page r sh"
  "row_page r (sh\<lparr>sh_query := qu\<rparr>) = row_page r sh" "row_page r (sh\<lparr>sh_executed := ex\<rparr>) = row_page r sh"
  "row_page r (sh\<lparr>sh_abouts := n\<rparr>) = row_page r sh"
  by (simp_all add: row_page_def)

lemma row_page_widget:
  "row_navigation it = row_navigation (sh_rows sh ! k) \<Longrightarrow> row_page r (sh\<lparr>sh_rows := (sh_rows sh)[k := it]\<rparr>) = row_page r sh"
  by (cases "r = k") (auto simp: row_page_def)

context settings_module
begin

abbreviation pages_ok :: "('c, 'w, 'e) shell \<Rightarrow> 'w \<Rightarrow> bool" where
  "pages_ok \<equiv> shell_pages_ok d live idle root_widget"

lemma home_differs [simp]: "SS_HOME_PAGE_ID \<noteq> page_id d" "page_id d \<noteq> SS_HOME_PAGE_ID" "SS_HOME_PAGE_ID \<noteq> []"
  using page_named by (auto simp: SS_HOME_PAGE_ID_def)

lemma lookup_static:
  assumes "shell_static d sh"
  shows "shell_module_page_lookup sh (Some SS_HOME_PAGE_ID) = None"
    "\<exists>page child. shell_module_page_lookup sh (Some (page_id d)) = Some page \<and> sh_pages sh (page_id d) = Some page \<and>
       pg_row page = Some 1 \<and> pg_container page = Some child \<and> module_child d sh = child"
    "page_row (Some SS_HOME_PAGE_ID) sh = Some 0" "page_row (Some (page_id d)) sh = Some 1"
  using assms page_named
  by (auto simp: shell_static_def shell_module_page_lookup_def module_child_def page_row_def split: option.splits)

text \<open>Showing a page.\<close>

lemma ensure_ok:
  assumes "pages_ok sh w" "ensure_module_page [d] e (page_id d) (sh, w) = (ready, sh1, w1)"
  shows "\<exists>h1 page1 child1. sh1 = sh\<lparr>sh_host := Some h1, sh_pages := (sh_pages sh)(page_id d \<mapsto> page1)\<rparr> \<and>
    pg_row page1 = Some 1 \<and> pg_container page1 = Some (Some child1) \<and>
    hosted h1 w1 \<and> (child1 = Panel_widget root_widget \<longleftrightarrow> instances h1 \<noteq> []) \<and> (ready \<longleftrightarrow> instances h1 \<noteq> [])"
proof -
  obtain h where h: "sh_host sh = Some h" "hosted h w" "module_child d sh = Some (Panel_widget root_widget) \<longleftrightarrow> instances h \<noteq> []"
    using assms(1) by (auto simp: shell_pages_ok_def)
  have st: "shell_static d sh" using assms(1) by (simp add: shell_pages_ok_def)
  obtain page child where l: "shell_module_page_lookup sh (Some (page_id d)) = Some page" "sh_pages sh (page_id d) = Some page"
    "pg_row page = Some 1" "pg_container page = Some child" "module_child d sh = child"
    using lookup_static(2)[OF st] by blast
  have lh: "shell_module_page_lookup (sh\<lparr>sh_host := x\<rparr>) n = shell_module_page_lookup sh n" for x n
    by (simp add: shell_module_page_lookup_def split: option.split)
  show ?thesis
  proof (cases "instances h = []")
    case False
    then have "ensure_module_page [d] e (page_id d) (sh, w) = (True, sh, w)"
      using h l loaded_iff[OF h(2)] by (simp add: ensure_module_page_def)
    moreover have "sh = sh\<lparr>sh_host := Some h, sh_pages := (sh_pages sh)(page_id d \<mapsto> page)\<rparr>"
      using h(1) l(2) by (simp add: fun_upd_idem)
    ultimately show ?thesis using assms(2) h l(3-5) False by (metis prod.inject)
  next
    case True
    obtain ok error host container w2 where en:
      "ss_builtin_module_host_ensure_page [d] e (Some h) (Some (page_id d)) (Some child) w = (ok, error, host, container, w2)"
      by (metis prod.collapse)
    from ensure_page_ok[OF h(2) en] obtain h1 where h1: "host = Some h1" "hosted h1 w2"
      "if ok then container = Some (Some (Panel_widget root_widget)) \<and> instances h1 \<noteq> [] else h1 = h"
      using loaded_iff by (auto split: if_splits)
    have run: "ensure_module_page [d] e (page_id d) (sh, w) =
       (if ok then (True, shell_set_module_container (Some (page_id d)) container (sh\<lparr>sh_host := host\<rparr>), w2)
        else (False, shell_set_module_container (Some (page_id d)) (Some (Some (Unavailable_panel (pg_title page)
          (case error of Some m \<Rightarrow> m | None \<Rightarrow> ''Unable to initialise this settings module.'')))) (sh\<lparr>sh_host := host\<rparr>), w2))"
      using h(1) l(1,4) en True loaded_iff[OF h(2)] by (simp add: ensure_module_page_def)
    define shown where "shown = (if ok then Panel_widget root_widget else Unavailable_panel (pg_title page)
        (case error of Some m \<Rightarrow> m | None \<Rightarrow> ''Unable to initialise this settings module.''))"
    have "(ready, sh1, w1) = (ok, sh\<lparr>sh_host := Some h1, sh_pages := (sh_pages sh)(page_id d \<mapsto> page\<lparr>pg_container := Some (Some shown)\<rparr>)\<rparr>, w2)"
      using assms(2) run h1 l(1) by (simp add: shell_set_module_container_def lh shown_def split: if_splits)
    moreover have "shown = Panel_widget root_widget \<longleftrightarrow> instances h1 \<noteq> []" "ok \<longleftrightarrow> instances h1 \<noteq> []"
      using h1(3) True by (auto simp: shown_def split: if_splits)
    moreover have "pg_row (page\<lparr>pg_container := Some (Some shown)\<rparr>) = Some 1"
      "pg_container (page\<lparr>pg_container := Some (Some shown)\<rparr>) = Some (Some shown)" using l(3) by simp_all
    ultimately show ?thesis using h1(2) by blast
  qed
qed

lemma show_page_ok:
  assumes "pages_ok sh w" "q = page_id d \<or> q = SS_HOME_PAGE_ID" "show_page [d] e q (sh, w) = (ready, sh1, w1)"
  shows "pages_ok sh1 w1 \<and> sh_visible sh1 = Some q \<and> sh_selected sh1 = sh_selected sh \<and> sh_rows sh1 = sh_rows sh \<and>
    sh_executed sh1 = sh_executed sh"
proof (cases "q = SS_HOME_PAGE_ID")
  case True
  have st: "shell_static d sh" using assms(1) by (simp add: shell_pages_ok_def)
  then have run: "show_page [d] e q (sh, w) = (True, sh\<lparr>sh_visible := Some q\<rparr>, w)"
    using lookup_static(1)[OF st] by (simp add: show_page_def True gtk_stack_set_visible_child_name_def shell_static_def)
  then have r: "sh1 = sh\<lparr>sh_visible := Some q\<rparr>" "w1 = w" using assms(3) by simp_all
  show ?thesis using assms(1) unfolding r
    by (simp add: shell_pages_ok_def shell_static_def module_child_def row_page_fields True)
next
  case False
  then have q: "q = page_id d" using assms(2) by simp
  have st: "shell_static d sh" using assms(1) by (simp add: shell_pages_ok_def)
  obtain ok sh2 w2 where en: "ensure_module_page [d] e q (sh, w) = (ok, sh2, w2)" by (metis prod.collapse)
  from ensure_ok[OF assms(1) en[unfolded q]] obtain h1 page1 child1 where
    e: "sh2 = sh\<lparr>sh_host := Some h1, sh_pages := (sh_pages sh)(page_id d \<mapsto> page1)\<rparr>"
      "pg_row page1 = Some 1" "pg_container page1 = Some (Some child1)"
      "hosted h1 w2" "child1 = Panel_widget root_widget \<longleftrightarrow> instances h1 \<noteq> []" by blast
  have "show_page [d] e q (sh, w) = (ok, gtk_stack_set_visible_child_name q sh2, w2)"
    using en lookup_static(2)[OF st] by (auto simp: show_page_def q)
  then have r: "sh1 = sh2\<lparr>sh_visible := Some q\<rparr>" "w1 = w2"
    using assms(3) st e(1) by (auto simp: gtk_stack_set_visible_child_name_def shell_static_def q)
  show ?thesis using st e(2-5) unfolding r e(1)
    by (auto simp: shell_pages_ok_def shell_static_def module_child_def row_page_fields q)
qed

text \<open>Opening a page of the list returns: it enters itself at most once, and then its row is selected.\<close>

lemma open_page_ok:
  assumes "pages_ok sh w" "q = page_id d \<and> k = 1 \<or> q = SS_HOME_PAGE_ID \<and> k = 0"
  shows "\<exists>ready sh1 w1. shell_open_page [d] e q (sh, w) = Some (ready, sh1, w1) \<and> pages_ok sh1 w1 \<and>
    sh_visible sh1 = Some q \<and> sh_selected sh1 = Some k \<and> sh_rows sh1 = sh_rows sh \<and> sh_executed sh1 = sh_executed sh"
proof -
  have q: "q = page_id d \<or> q = SS_HOME_PAGE_ID" "q \<noteq> []" using assms(2) page_named home_differs by metis+
  have open_at: "\<exists>ready sh1 w1. show_page [d] e q (sh, w) = (ready, sh1, w1) \<and> pages_ok sh1 w1 \<and> sh_visible sh1 = Some q \<and>
      sh_selected sh1 = sh_selected sh \<and> sh_rows sh1 = sh_rows sh \<and> sh_executed sh1 = sh_executed sh \<and>
      page_row (Some q) sh1 = Some k \<and> row_page k sh1 = Some q" if ok: "pages_ok sh w" for sh w
  proof -
    obtain ready sh1 w1 where s: "show_page [d] e q (sh, w) = (ready, sh1, w1)" by (metis prod.collapse)
    note P = show_page_ok[OF ok q(1) s]
    then have st: "shell_static d sh1" by (simp add: shell_pages_ok_def)
    have "page_row (Some q) sh1 = Some k" using lookup_static(3,4)[OF st] assms(2) by auto
    moreover have "row_page k sh1 = Some q" using st assms(2) by (auto simp: shell_static_def)
    ultimately show ?thesis using s P by blast
  qed
  have closed: "pages_ok (sh\<lparr>sh_selected := x\<rparr>) w = pages_ok sh w" for sh w x
    by (simp add: shell_pages_ok_def shell_static_def module_child_def row_page_fields)
  have stops: "\<exists>ready sh1 w1. shell_open_page [d] e q (sh, w) = Some (ready, sh1, w1) \<and> pages_ok sh1 w1 \<and>
      sh_visible sh1 = Some q \<and> sh_selected sh1 = Some k \<and> sh_rows sh1 = sh_rows sh \<and> sh_executed sh1 = sh_executed sh"
    if ok: "pages_ok sh w" "sh_selected sh = Some k" for sh w
  proof -
    obtain ready sh1 w1 where s: "show_page [d] e q (sh, w) = (ready, sh1, w1)" "pages_ok sh1 w1" "sh_visible sh1 = Some q"
      "sh_selected sh1 = Some k" "sh_rows sh1 = sh_rows sh" "sh_executed sh1 = sh_executed sh" "page_row (Some q) sh1 = Some k"
      using open_at[OF ok(1)] ok(2) by metis
    then have "shell_open_page [d] e q (sh, w) = Some (ready, sh1, w1)"
      using q(2) by (subst shell_open_page.simps) simp
    with s show ?thesis by blast
  qed
  obtain ready sh1 w1 where s: "show_page [d] e q (sh, w) = (ready, sh1, w1)" "pages_ok sh1 w1" "sh_visible sh1 = Some q"
    "sh_selected sh1 = sh_selected sh" "sh_rows sh1 = sh_rows sh" "sh_executed sh1 = sh_executed sh"
    "page_row (Some q) sh1 = Some k" "row_page k sh1 = Some q"
    using open_at[OF assms(1)] by metis
  show ?thesis
  proof (cases "sh_selected sh = Some k")
    case True
    then show ?thesis using stops[OF assms(1)] by blast
  next
    case False
    have "pages_ok (sh1\<lparr>sh_selected := Some k\<rparr>) w1" using s(2) closed by simp
    from stops[OF this] obtain again sh2 w2 where t:
      "shell_open_page [d] e q (sh1\<lparr>sh_selected := Some k\<rparr>, w1) = Some (again, sh2, w2)" "pages_ok sh2 w2"
      "sh_visible sh2 = Some q" "sh_selected sh2 = Some k" "sh_rows sh2 = sh_rows sh1" "sh_executed sh2 = sh_executed sh1"
      by auto
    have "shell_open_page [d] e q (sh, w) = Some (ready, sh2, w2)"
      by (subst shell_open_page.simps) (use s q(2) False t(1) in simp)
    with t s show ?thesis by auto
  qed
qed

text \<open>A page that is not in the list is not shown.\<close>

lemma open_other_page:
  assumes "pages_ok sh w" "q \<noteq> page_id d" "q \<noteq> SS_HOME_PAGE_ID"
  shows "\<exists>ready. shell_open_page [d] e q (sh, w) = Some (ready, sh, w)"
proof -
  have st: "shell_static d sh" using assms(1) by (simp add: shell_pages_ok_def)
  have l: "shell_module_page_lookup sh (Some q) = None"
    using st assms(2) by (simp add: shell_static_def shell_module_page_lookup_def)
  have "show_page [d] e q (sh, w) = (True, sh, w)" "page_row (Some q) sh = None"
    using l st assms(2,3) by (simp_all add: show_page_def gtk_stack_set_visible_child_name_def shell_static_def page_row_def)
  then show ?thesis by (subst shell_open_page.simps) auto
qed

abbreviation fine :: "(string \<Rightarrow> bool) \<Rightarrow> ('c, 'w, 'e) shell \<times> 'w \<Rightarrow> bool" where
  "fine \<equiv> shell_ok d live idle root_widget"

lemma fine_fields:
  "pages_ok (sh\<lparr>sh_selected := x\<rparr>) w = pages_ok sh w" "pages_ok (sh\<lparr>sh_query := qu\<rparr>) w = pages_ok sh w"
  "pages_ok (sh\<lparr>sh_executed := ex\<rparr>) w = pages_ok sh w" "pages_ok (sh\<lparr>sh_abouts := n\<rparr>) w = pages_ok sh w"
  by (simp_all add: shell_pages_ok_def shell_static_def module_child_def row_page_fields)

lemma fine_programs: "programs_ok trusted sh \<Longrightarrow> sh_rows sh1 = sh_rows sh \<Longrightarrow> sh_executed sh1 = sh_executed sh \<Longrightarrow> programs_ok trusted sh1"
  by (simp add: programs_ok_def)

lemma list_row: "pages_ok sh w \<Longrightarrow> row_page r sh = Some q \<longleftrightarrow> q = SS_HOME_PAGE_ID \<and> r = 0 \<or> q = page_id d \<and> r = 1"
  by (auto simp: shell_pages_ok_def shell_static_def)

lemma open_fine:
  assumes "fine trusted (sh, w)"
  shows "\<exists>ready st1. shell_open_page [d] e q (sh, w) = Some (ready, st1) \<and> fine trusted st1 \<and>
    (q \<in> set (sh_stack sh) \<longrightarrow> sh_visible (fst st1) = Some q \<and> sh_selected (fst st1) = page_row (Some q) (fst st1)) \<and>
    (\<forall>k. row_page k sh = Some q \<longrightarrow> sh_selected (fst st1) = Some k)"
proof -
  have ok: "pages_ok sh w" "selection_ok sh" "programs_ok trusted sh" using assms by (simp_all add: shell_ok_def)
  have stack: "sh_stack sh = [page_id d, SS_HOME_PAGE_ID]" using ok(1) by (simp add: shell_pages_ok_def shell_static_def)
  show ?thesis
  proof (cases "q \<in> set (sh_stack sh)")
    case False
    then have other: "q \<noteq> page_id d" "q \<noteq> SS_HOME_PAGE_ID" using stack by auto
    obtain ready where "shell_open_page [d] e q (sh, w) = Some (ready, sh, w)" using open_other_page[OF ok(1) other] by blast
    then show ?thesis using False other assms list_row[OF ok(1)] by auto
  next
    case True
    then obtain k :: nat where k: "q = page_id d \<and> k = 1 \<or> q = SS_HOME_PAGE_ID \<and> k = 0" using stack by auto
    from open_page_ok[OF ok(1) k, of e] obtain ready sh1 w1 where
      o: "shell_open_page [d] e q (sh, w) = Some (ready, sh1, w1)" "pages_ok sh1 w1" "sh_visible sh1 = Some q"
      "sh_selected sh1 = Some k" "sh_rows sh1 = sh_rows sh" "sh_executed sh1 = sh_executed sh" by blast
    have st: "shell_static d sh1" using o(2) by (simp add: shell_pages_ok_def)
    have "selection_ok sh1" using list_row[OF o(2)] o(3,4) k by (auto simp: selection_ok_def)
    moreover have "programs_ok trusted sh1" using ok(3) o(5,6) by (rule fine_programs)
    moreover have "page_row (Some q) sh1 = Some k" using lookup_static(3,4)[OF st] k by auto
    ultimately have fine: "fine trusted (sh1, w1)" "sh_visible sh1 = Some q \<and> sh_selected sh1 = page_row (Some q) sh1"
      using o(2-4) by (simp_all add: shell_ok_def)
    have "k' = k" if "row_page k' sh = Some q" for k' using that list_row[OF ok(1)] k home_differs by metis
    then have "\<forall>k. row_page k sh = Some q \<longrightarrow> sh_selected sh1 = Some k" using o(4) by blast
    then show ?thesis using o(1) fine by (intro exI[of _ ready] exI[of _ "(sh1, w1)"]) simp
  qed
qed

lemma select_fine:
  assumes "fine trusted (sh, w)"
  shows "\<exists>st1. gtk_list_box_select_row [d] e r (sh, w) = Some st1 \<and> fine trusted st1 \<and> sh_selected (fst st1) = Some r"
proof (cases "sh_selected sh = Some r")
  case True
  then show ?thesis using assms by (simp add: gtk_list_box_select_row_def)
next
  case False
  have ok: "pages_ok sh w" "selection_ok sh" "programs_ok trusted sh" using assms by (simp_all add: shell_ok_def)
  let ?sh = "sh\<lparr>sh_selected := Some r\<rparr>"
  have P: "pages_ok ?sh w" "programs_ok trusted ?sh" using ok by (simp_all add: fine_fields programs_ok_def)
  show ?thesis
  proof (cases "row_page r sh")
    case None
    then have "fine trusted (?sh, w)" using P by (simp add: shell_ok_def selection_ok_def row_page_fields)
    then show ?thesis using False None by (simp add: gtk_list_box_select_row_def on_navigation_selected_def row_page_fields)
  next
    case (Some q)
    then have k: "q = page_id d \<and> r = 1 \<or> q = SS_HOME_PAGE_ID \<and> r = 0" using list_row[OF ok(1)] by auto
    from open_page_ok[OF P(1) k, of e] obtain ready sh1 w1 where
      o: "shell_open_page [d] e q (?sh, w) = Some (ready, sh1, w1)" "pages_ok sh1 w1" "sh_visible sh1 = Some q"
      "sh_selected sh1 = Some r" "sh_rows sh1 = sh_rows ?sh" "sh_executed sh1 = sh_executed ?sh" by blast
    have "selection_ok sh1" using list_row[OF o(2)] o(3,4) k by (auto simp: selection_ok_def)
    moreover have "programs_ok trusted sh1" using P(2) o(5,6) by (rule fine_programs)
    ultimately show ?thesis using False Some o
      by (simp add: gtk_list_box_select_row_def on_navigation_selected_def row_page_fields shell_ok_def)
  qed
qed

lemma restore_fine:
  assumes "fine trusted (sh, w)"
  shows "\<exists>st1. restore_navigation_selection [d] e (sh, w) = Some st1 \<and> fine trusted st1 \<and>
    (\<forall>q \<in> set (sh_stack sh). sh_visible sh = Some q \<longrightarrow>
       sh_selected (fst st1) = page_row (Some q) sh \<and> sh_visible (fst st1) = Some q)"
proof (cases "page_row (sh_visible sh) sh")
  case None
  have st: "shell_static d sh" using assms by (simp add: shell_ok_def shell_pages_ok_def)
  then have "sh_visible sh \<noteq> Some q" if "q \<in> set (sh_stack sh)" for q
    using None lookup_static(3,4)[OF st] that by (auto simp: shell_static_def)
  then show ?thesis using None assms by (simp add: restore_navigation_selection_def)
next
  case (Some r)
  from select_fine[OF assms, of e r] obtain st1 where s: "gtk_list_box_select_row [d] e r (sh, w) = Some st1" "fine trusted st1"
    "sh_selected (fst st1) = Some r" by blast
  have ok: "pages_ok sh w" using assms by (simp add: shell_ok_def)
  then have st: "shell_static d sh" by (simp add: shell_pages_ok_def)
  have "sh_visible (fst st1) = Some q" if q: "q \<in> set (sh_stack sh)" "sh_visible sh = Some q" for q
  proof -
    have stack: "sh_stack sh = [page_id d, SS_HOME_PAGE_ID]" using st by (simp add: shell_static_def)
    have "row_page r sh = Some q" using Some q(2) lookup_static(3,4)[OF st] q(1)[unfolded stack] list_row[OF ok, of r q] by auto
    moreover have ok1: "pages_ok (fst st1) (snd st1)" using s(2) by (simp add: shell_ok_def)
    ultimately have "row_page r (fst st1) = Some q" using list_row[OF ok, of r q] list_row[OF ok1, of r q] by simp
    then show ?thesis using s(2,3) by (simp add: shell_ok_def selection_ok_def)
  qed
  then show ?thesis using Some s by (auto simp: restore_navigation_selection_def)
qed

text \<open>A row's widget may change; what the row does stays.\<close>

lemma widget_fine:
  assumes "fine trusted (sh, w)" "k < length (sh_rows sh)" "\<forall>argv \<in> set ex. argv \<noteq> [] \<and> trusted (hd argv)"
  shows "fine trusted (sh\<lparr>sh_rows := (sh_rows sh)[k := (sh_rows sh ! k)\<lparr>row_widget := u\<rparr>], sh_executed := ex\<rparr>, w)"
proof -
  have r: "row_page x (sh\<lparr>sh_rows := (sh_rows sh)[k := (sh_rows sh ! k)\<lparr>row_widget := u\<rparr>], sh_executed := ex\<rparr>) = row_page x sh" for x
    by (simp add: row_page_fields row_page_widget)
  have p: "\<forall>row \<in> set (sh_rows sh). \<forall>p. nv_program (row_navigation row) = Some p \<longrightarrow> trusted p"
    using assms(1) by (simp add: shell_ok_def programs_ok_def)
  have at_k: "\<forall>p. nv_program (row_navigation (sh_rows sh ! k)) = Some p \<longrightarrow> trusted p"
    using p nth_mem[OF assms(2)] by blast
  have "\<forall>row \<in> set ((sh_rows sh)[k := (sh_rows sh ! k)\<lparr>row_widget := u\<rparr>]). \<forall>p. nv_program (row_navigation row) = Some p \<longrightarrow> trusted p"
    using p at_k by (auto dest!: set_update_subset_insert[THEN subsetD])
  then show ?thesis using assms(1,3) r
    by (auto simp: shell_ok_def programs_ok_def selection_ok_def shell_pages_ok_def shell_static_def module_child_def)
qed

lemma activated_fine:
  assumes "fine trusted (sh, w)"
  shows "\<exists>st1. on_navigation_activated spawn [d] e row (sh, w) = Some st1 \<and> fine trusted st1"
proof (cases "\<exists>r. row = Some r \<and> r < length (sh_rows sh)")
  case False
  then show ?thesis using assms by (auto simp: on_navigation_activated_def split: option.split)
next
  case True
  then obtain r where r: "row = Some r" "r < length (sh_rows sh)" by blast
  define it where "it = sh_rows sh ! r"
  have mem: "it \<in> set (sh_rows sh)" using r by (simp add: it_def)
  show ?thesis
  proof (cases "nv_action (row_navigation it) = SHELL_NAVIGATION_ACTION_EXTERNAL \<and> nv_program (row_navigation it) \<noteq> None")
    case True
    then obtain p where p: "nv_program (row_navigation it) = Some p" by blast
    then have t: "trusted p" using assms mem by (auto simp: shell_ok_def programs_ok_def)
    obtain launched awaited widget1 where l:
      "launch_command spawn (Some (row_widget it)) (nv_program (row_navigation it)) (nv_argument (row_navigation it)) = (launched, awaited, widget1)"
      by (metis prod.collapse)
    define argv where "argv = p # (case nv_argument (row_navigation it) of None \<Rightarrow> [] | Some a \<Rightarrow> if a = [] then [] else [a])"
    define ex where "ex = (if launched then argv # sh_executed sh else sh_executed sh)"
    have run: "on_navigation_activated spawn [d] e row (sh, w) = restore_navigation_selection [d] e
        (sh\<lparr>sh_rows := (sh_rows sh)[r := (sh_rows sh ! r)\<lparr>row_widget := the widget1\<rparr>], sh_executed := ex\<rparr>, w)"
      using r True l p by (simp add: on_navigation_activated_def it_def[symmetric] argv_def ex_def Let_def not_le)
    have "\<forall>a \<in> set ex. a \<noteq> [] \<and> trusted (hd a)"
      using assms t by (auto simp: ex_def argv_def shell_ok_def programs_ok_def)
    from restore_fine[OF widget_fine[OF assms r(2) this, of "the widget1"], of e] show ?thesis unfolding run by blast
  next
    case False
    have "fine trusted (sh\<lparr>sh_abouts := sh_abouts sh + 1\<rparr>, w)"
      using assms by (auto simp: shell_ok_def fine_fields selection_ok_def programs_ok_def row_page_fields)
    from restore_fine[OF this, of e] obtain st1 where
      "restore_navigation_selection [d] e (sh\<lparr>sh_abouts := sh_abouts sh + 1\<rparr>, w) = Some st1" "fine trusted st1" by blast
    then show ?thesis using r False assms by (cases st1) (auto simp: on_navigation_activated_def it_def[symmetric] Let_def not_le)
  qed
qed

end

end
