(* ===== verification/ShellLoop.thy ===== *)
theory ShellLoop
  imports ShellWindow
begin

text \<open>
  The event loop of the whole window: \<open>shell-window.c\<close> with the module host, the module catalog, the trusted
  programs and the Date and Time panel as the module. The window is followed from its activation through every
  order of its events to its closing.
\<close>

section \<open>The window after its activation\<close>

definition trusted_program :: "glib \<Rightarrow> system_files \<Rightarrow> string \<Rightarrow> bool" where
  "trusted_program gl S p \<longleftrightarrow> (\<exists>program. find_trusted_system_program gl S (Some program) = Some (Some p))"

lemma external_row_law:
  "make_external_navigation_row gl S icon title subtitle terms program argument = Some row \<Longrightarrow>
     nv_action (row_navigation row) = SHELL_NAVIGATION_ACTION_EXTERNAL \<and>
     (\<forall>p. nv_program (row_navigation row) = Some p \<longrightarrow> trusted_program gl S p)"
  by (auto simp: make_external_navigation_row_def trusted_program_def Let_def split: option.splits)

lemma external_rows_law:
  "append_external_rows gl S es sh = Some sh1 \<Longrightarrow>
     \<exists>xs. sh1 = sh\<lparr>sh_rows := sh_rows sh @ xs\<rparr> \<and>
       (\<forall>row \<in> set xs. nv_action (row_navigation row) = SHELL_NAVIGATION_ACTION_EXTERNAL \<and>
          (\<forall>p. nv_program (row_navigation row) = Some p \<longrightarrow> trusted_program gl S p))"
proof (induction gl S es sh rule: append_external_rows.induct)
  case (1 gl S sh)
  then show ?case by (intro exI[of _ "[]"]) simp
next
  case (2 gl S icon title subtitle terms program argument rest sh)
  then obtain row where row: "make_external_navigation_row gl S icon title subtitle terms program argument = Some row"
    "append_external_rows gl S rest (sh\<lparr>sh_rows := sh_rows sh @ [row]\<rparr>) = Some sh1"
    by (auto split: option.splits)
  from 2(1)[OF row] obtain xs where
    "sh1 = sh\<lparr>sh_rows := sh_rows sh @ row # xs\<rparr>"
    "\<forall>row \<in> set xs. nv_action (row_navigation row) = SHELL_NAVIGATION_ACTION_EXTERNAL \<and>
       (\<forall>p. nv_program (row_navigation row) = Some p \<longrightarrow> trusted_program gl S p)" by auto
  then show ?case using external_row_law[OF row(1)] by (intro exI[of _ "row # xs"]) auto
qed

lemma row_page_other: "nv_action (row_navigation it) \<noteq> SHELL_NAVIGATION_ACTION_PAGE \<Longrightarrow> it = sh_rows sh ! r \<Longrightarrow> row_page r sh = None"
  by (simp add: row_page_def)

context settings_module
begin

lemma sidebar_ok:
  assumes "build_sidebar gl S md [d] (empty_shell h) = Some sh" "hosted h w" "instances h = []"
  shows "pages_ok ((gtk_stack_add_named SS_HOME_PAGE_ID sh)\<lparr>sh_visible := Some SS_HOME_PAGE_ID\<rparr>) w \<and>
    programs_ok (trusted_program gl S) sh \<and> sh_selected sh = None"
proof -
  define home where "home = make_navigation_row ''go-home-symbolic'' ''Home'' ''Overview & quick access'' (Some SS_HOME_PAGE_ID)
      ''home overview quick access system''"
  define meta where "meta = md (Some (manifest_filename d)) (page_id d)"
  define row where "row = make_navigation_row (mm_icon meta) (mm_title meta) (mm_summary meta) (Some (page_id d)) (mm_search_text meta)"
  define page where "page = \<lparr>pg_title = (if mm_title meta \<noteq> [] then mm_title meta else page_id d), pg_row = Some 1,
      pg_container = Some (None :: page_child option)\<rparr>"
  have ne: "page_id d \<noteq> []" by (rule page_named)
  define sh2 where "sh2 = (empty_shell h)\<lparr>sh_rows := [home, row], sh_pages := [page_id d \<mapsto> page],
      sh_stack := [page_id d], sh_visible := Some (page_id d)\<rparr>"
  have mods: "append_builtin_module_rows md [d] ((empty_shell h)\<lparr>sh_home_row := 0, sh_rows := [home]\<rparr>) = sh2"
    using ne by (simp add: append_builtin_module_rows_def ss_builtin_module_host_module_count_def append_builtin_module_row_def
        ss_builtin_module_host_module_page_id_def ss_builtin_module_host_module_manifest_def shell_register_module_page_def
        shell_set_module_container_def shell_module_page_lookup_def gtk_stack_add_named_def empty_shell_def sh2_def
        Let_def meta_def row_def page_def fun_eq_iff)
  obtain sh3 where sh3: "append_external_rows gl S external_rows sh2 = Some sh3"
    "sh = sh3\<lparr>sh_rows := sh_rows sh3 @ [make_about_navigation_row]\<rparr>"
    using assms(1) by (auto simp: build_sidebar_def Let_def home_def[symmetric] mods[unfolded empty_shell_def, simplified] mods empty_shell_def)
  from external_rows_law[OF sh3(1)] obtain xs where xs: "sh3 = sh2\<lparr>sh_rows := sh_rows sh2 @ xs\<rparr>"
    "\<forall>it \<in> set xs. nv_action (row_navigation it) = SHELL_NAVIGATION_ACTION_EXTERNAL \<and>
       (\<forall>p. nv_program (row_navigation it) = Some p \<longrightarrow> trusted_program gl S p)" by blast
  have sh: "sh = sh2\<lparr>sh_rows := home # row # xs @ [make_about_navigation_row]\<rparr>"
    by (simp add: sh3(2) xs(1) sh2_def)
  have about: "nv_action (row_navigation make_about_navigation_row) = SHELL_NAVIGATION_ACTION_ABOUT"
    "nv_program (row_navigation make_about_navigation_row) = None"
    by (simp_all add: make_about_navigation_row_def Let_def make_navigation_row_def shell_navigation_data_attach_def)
  have first: "row_navigation home = shell_navigation_data_attach (Some SS_HOME_PAGE_ID) ''home overview quick access system''"
    "row_navigation row = shell_navigation_data_attach (Some (page_id d)) (mm_search_text meta)"
    by (simp_all add: home_def row_def make_navigation_row_def)
  have page: "row_page r sh = (if r = 0 then Some SS_HOME_PAGE_ID else if r = 1 then Some (page_id d) else None)" for r
  proof -
    consider "r = 0" | "r = 1" | n where "r = Suc (Suc n)" by (metis One_nat_def not0_implies_Suc)
    then show ?thesis
    proof cases
      case (3 n)
      have "row_page r sh = None"
      proof (cases "n < length xs")
        case True
        then have "nv_action (row_navigation (xs ! n)) = SHELL_NAVIGATION_ACTION_EXTERNAL" using xs(2) by simp
        then show ?thesis using True by (simp add: row_page_def sh 3 nth_append)
      next
        case False
        then show ?thesis using about by (auto simp: row_page_def sh 3 nth_append less_Suc_eq)
      qed
      then show ?thesis using 3 by simp
    qed (simp_all add: row_page_def sh first shell_navigation_data_attach_def)
  qed
  have "programs_ok (trusted_program gl S) sh"
    using xs(2) about first by (auto simp: programs_ok_def sh sh2_def empty_shell_def shell_navigation_data_attach_def)
  moreover have "row_page r ((gtk_stack_add_named SS_HOME_PAGE_ID sh)\<lparr>sh_visible := v\<rparr>) = row_page r sh" for r v
    by (simp add: row_page_def gtk_stack_add_named_def)
  ultimately show ?thesis
    using page assms(2,3)
    by (simp add: shell_pages_ok_def shell_static_def module_child_def gtk_stack_add_named_def sh sh2_def empty_shell_def page_def)
qed

lemma open_home_visible:
  assumes "pages_ok (sh\<lparr>sh_visible := Some SS_HOME_PAGE_ID\<rparr>) w"
  shows "shell_open_page [d] e SS_HOME_PAGE_ID (sh, w) = shell_open_page [d] e SS_HOME_PAGE_ID (sh\<lparr>sh_visible := Some SS_HOME_PAGE_ID\<rparr>, w)"
proof -
  have st: "shell_static d (sh\<lparr>sh_visible := Some SS_HOME_PAGE_ID\<rparr>)" using assms by (simp add: shell_pages_ok_def)
  have "shell_module_page_lookup sh (Some SS_HOME_PAGE_ID) = None" "SS_HOME_PAGE_ID \<in> set (sh_stack sh)"
    using lookup_static(1)[OF st] st by (simp_all add: shell_module_page_lookup_def shell_static_def)
  then have "show_page [d] e SS_HOME_PAGE_ID (sh, w) = show_page [d] e SS_HOME_PAGE_ID (sh\<lparr>sh_visible := Some SS_HOME_PAGE_ID\<rparr>, w)"
    by (simp add: show_page_def gtk_stack_set_visible_child_name_def shell_module_page_lookup_def)
  then show ?thesis by (simp add: shell_open_page.simps[of _ _ _ "(sh, w)"] shell_open_page.simps[of _ _ _ "(sh\<lparr>sh_visible := Some SS_HOME_PAGE_ID\<rparr>, w)"])
qed

lemma activate_fine:
  assumes "idle w" "ss_shell_window_activate gl S C load dir [d] e w = Some st"
  shows "fine (trusted_program gl S) st"
proof -
  obtain sh where sh: "build_sidebar gl S (\<lambda>f p. ss_shell_module_metadata_load gl C load f p dir) [d] (empty_shell \<lparr>instances = []\<rparr>) = Some sh"
    "map_option snd (shell_open_page [d] e SS_HOME_PAGE_ID (gtk_stack_add_named SS_HOME_PAGE_ID sh, w)) = Some st"
    using assms(2) by (auto simp: ss_shell_window_activate_def ss_builtin_module_host_new_def split: option.splits)
  have h: "hosted \<lparr>instances = []\<rparr> w" using assms(1) by (simp add: host_ok_def)
  let ?sh = "(gtk_stack_add_named SS_HOME_PAGE_ID sh)\<lparr>sh_visible := Some SS_HOME_PAGE_ID\<rparr>"
  note B = sidebar_ok[OF sh(1) h]
  have "sh_selected ?sh = None" "programs_ok (trusted_program gl S) ?sh"
    using B by (auto simp: programs_ok_def gtk_stack_add_named_def)
  then have "fine (trusted_program gl S) (?sh, w)" using B by (simp add: shell_ok_def selection_ok_def)
  from open_fine[OF this, of e SS_HOME_PAGE_ID] obtain ready st1 where
    o: "shell_open_page [d] e SS_HOME_PAGE_ID (?sh, w) = Some (ready, st1)" "fine (trusted_program gl S) st1" by blast
  have "st1 = st" using sh(2) o(1) open_home_visible[of "gtk_stack_add_named SS_HOME_PAGE_ID sh" w e] B by simp
  then show ?thesis using o(2) by simp
qed

lemma activate_returns:
  assumes "idle w" "\<And>program. find_trusted_system_program gl S (Some program) \<noteq> None"
  shows "ss_shell_window_activate gl S C load dir [d] e w \<noteq> None"
proof -
  have row: "make_external_navigation_row gl S a b c t p x \<noteq> None" for a b c t p x
    using assms(2)[of p] by (auto simp: make_external_navigation_row_def Let_def)
  have rows: "append_external_rows gl S es sh \<noteq> None" for es and sh :: "('c, 'w, 'e) shell"
  proof (induction es arbitrary: sh)
    case (Cons x es)
    obtain a b c t p y where x: "x = (a, b, c, t, p, y)" by (rule prod_cases6)
    obtain it where "make_external_navigation_row gl S a b c t p y = Some it" using row[of a b c t p y] by blast
    then show ?case using Cons[of "sh\<lparr>sh_rows := sh_rows sh @ [it]\<rparr>"] by (simp add: x)
  qed simp
  then have "build_sidebar gl S (\<lambda>f p. ss_shell_module_metadata_load gl C load f p dir) [d] (empty_shell \<lparr>instances = []\<rparr>) \<noteq> None"
    by (simp add: build_sidebar_def Let_def)
  then obtain sh where sh: "build_sidebar gl S (\<lambda>f p. ss_shell_module_metadata_load gl C load f p dir) [d] (empty_shell \<lparr>instances = []\<rparr>) = Some sh"
    by blast
  have h: "hosted \<lparr>instances = []\<rparr> w" using assms(1) by (simp add: host_ok_def)
  note B = sidebar_ok[OF sh h]
  let ?sh = "(gtk_stack_add_named SS_HOME_PAGE_ID sh)\<lparr>sh_visible := Some SS_HOME_PAGE_ID\<rparr>"
  have "\<exists>ready sh1 w1. shell_open_page [d] e SS_HOME_PAGE_ID (?sh, w) = Some (ready, sh1, w1)"
    using open_page_ok[of ?sh w SS_HOME_PAGE_ID 0 e] B by auto
  then show ?thesis
    using sh open_home_visible[of "gtk_stack_add_named SS_HOME_PAGE_ID sh" w e] B
    by (auto simp: ss_shell_window_activate_def ss_builtin_module_host_new_def)
qed

section \<open>Events\<close>

lemma step_fine: "shell_step d works drifts contains_ci st st' \<Longrightarrow> fine trusted st \<Longrightarrow> fine trusted st'"
proof (induction rule: shell_step.induct)
  case (click st r e st1 spawn st2)
  then have "fine trusted st1" using select_fine[of trusted "fst st" "snd st" e r] by auto
  then show ?case using click(3) activated_fine[of trusted "fst st1" "snd st1" spawn e "Some r"] by auto
next
  case (keyboard e r st st1)
  then show ?case using select_fine[of trusted "fst st" "snd st" e r] by auto
next
  case (unselect sh w)
  then show ?case by (simp add: shell_ok_def fine_fields selection_ok_def programs_ok_def)
next
  case (search sh w t)
  then show ?case by (auto simp: shell_ok_def fine_fields selection_ok_def programs_ok_def on_search_changed_def row_page_fields)
next
  case (from_home e name st st1)
  then show ?case using open_fine[of trusted "fst st" "snd st" e "the name"]
    by (auto simp: open_home_page_def split: option.splits if_splits)
next
  case (finished r sh it w report)
  have "\<forall>argv \<in> set (sh_executed sh). argv \<noteq> [] \<and> trusted (hd argv)"
    using finished(3) by (simp add: shell_ok_def programs_ok_def)
  from widget_fine[OF finished(3,1) this] finished(2) show ?case by simp
next
  case (module_works sh h q inst w c1 w1)
  then have "pages_ok sh w" by (simp add: shell_ok_def)
  then have "hosted h w" using module_works(1) by (simp add: shell_pages_ok_def)
  then have "hosted (h\<lparr>instances := [(q, inst\<lparr>in_controller := c1\<rparr>)]\<rparr>) w1"
    using works_host_ok module_works(2,3) by blast
  then show ?case using module_works
    by (auto simp: shell_ok_def shell_pages_ok_def shell_static_def module_child_def selection_ok_def programs_ok_def row_page_fields)
next
  case (outside sh h w w1)
  then show ?case using drifts_idle by (auto simp: shell_ok_def shell_pages_ok_def host_ok_def)
qed

lemma run_fine: "(shell_step d works drifts contains_ci)\<^sup>*\<^sup>* st st' \<Longrightarrow> fine trusted st \<Longrightarrow> fine trusted st'"
  by (induction rule: rtranclp_induct) (auto intro: step_fine)

lemma close_idle: "fine trusted st \<Longrightarrow> on_close_requested st = (sh1, w1) \<Longrightarrow> sh_host sh1 = None \<and> idle w1"
  using free_host_idle by (auto simp: on_close_requested_def shell_ok_def shell_pages_ok_def split: prod.splits)

text \<open>With the host gone a module's page can no longer be opened.\<close>

lemma closed_page: "sh_host sh = None \<Longrightarrow> ensure_module_page [d] e name (sh, w) = (False, sh, w)"
  by (simp add: ensure_module_page_def)

text \<open>
  Opening the page from elsewhere selects its row, which opens it once more: a constructor that fails is run a
  second time, and what is returned is what the first one did.
\<close>

lemma failed_module_tried_twice:
  assumes "fine trusted (sh, w)" "sh_host sh = Some h" "instances h = []" "sh_selected sh \<noteq> Some 1"
    and "module_create d e w = ((None, m1), w1)" "module_create d e w1 = ((None, m2), w2)"
  shows "\<exists>sh2. shell_open_page [d] e (page_id d) (sh, w) = Some (False, sh2, w2)"
proof -
  have fails: "\<exists>sh'. show_page [d] e (page_id d) (sh, w) = (False, sh', w') \<and> sh_host sh' = Some h \<and>
      sh_selected sh' = sh_selected sh \<and> pages_ok sh' w' \<and> page_row (Some (page_id d)) sh' = Some 1 \<and> row_page 1 sh' = Some (page_id d)"
    if p: "pages_ok sh w" "sh_host sh = Some h" "module_create d e w = ((None, m), w')" for sh w m w'
  proof -
    have st: "shell_static d sh" using p(1) by (simp add: shell_pages_ok_def)
    obtain page child where l: "shell_module_page_lookup sh (Some (page_id d)) = Some page" "pg_container page = Some child"
      using lookup_static(2)[OF st] by blast
    have en: "ss_builtin_module_host_ensure_page [d] e (Some h) (Some (page_id d)) (Some child) w = (False, m, Some h, Some child, w')"
      using p(3) assms(3) page_named by (simp add: ss_builtin_module_host_ensure_page_def find_module_descriptor_def)
    obtain ready sh' w'' where s: "show_page [d] e (page_id d) (sh, w) = (ready, sh', w'')" by (metis prod.collapse)
    have set_host: "sh_host (shell_set_module_container n x y) = sh_host y" for n x and y :: "('c, 'w, 'e) shell"
      by (simp add: shell_set_module_container_def split: option.split)
    obtain shown where en2: "ensure_module_page [d] e (page_id d) (sh, w) =
        (False, shell_set_module_container (Some (page_id d)) shown (sh\<lparr>sh_host := Some h\<rparr>), w')"
      using l en p(2) assms(3) by (simp add: ensure_module_page_def ss_builtin_module_host_is_loaded_def)
    have "ready = False \<and> w'' = w' \<and> sh_host sh' = Some h"
      using s l(1) en2 set_host by (auto simp: show_page_def gtk_stack_set_visible_child_name_def split: if_splits)
    moreover have q: "pages_ok sh' w'' \<and> sh_selected sh' = sh_selected sh" using show_page_ok[OF p(1) _ s] by simp
    moreover have "page_row (Some (page_id d)) sh' = Some 1 \<and> row_page 1 sh' = Some (page_id d)"
      using q lookup_static(4)[of sh'] by (simp add: shell_pages_ok_def shell_static_def)
    ultimately show ?thesis using s by blast
  qed
  have ok: "pages_ok sh w" using assms(1) by (simp add: shell_ok_def)
  obtain sh1 where a: "show_page [d] e (page_id d) (sh, w) = (False, sh1, w1)" "sh_host sh1 = Some h" "sh_selected sh1 = sh_selected sh"
    "pages_ok sh1 w1" "page_row (Some (page_id d)) sh1 = Some 1" "row_page 1 sh1 = Some (page_id d)"
    using fails[OF ok assms(2,5)] by blast
  have "pages_ok (sh1\<lparr>sh_selected := Some 1\<rparr>) w1" using a(4) by (simp add: fine_fields)
  from fails[OF this _ assms(6)] a(2) obtain sh2 where
    b: "show_page [d] e (page_id d) (sh1\<lparr>sh_selected := Some 1\<rparr>, w1) = (False, sh2, w2)" "sh_selected sh2 = Some 1"
      "page_row (Some (page_id d)) sh2 = Some 1" by auto
  have "shell_open_page [d] e (page_id d) (sh1\<lparr>sh_selected := Some 1\<rparr>, w1) = Some (False, sh2, w2)"
    using b page_named by (subst shell_open_page.simps) simp
  then show ?thesis using a assms(4) page_named by (subst shell_open_page.simps) simp
qed

end

section \<open>The window with the Date and Time panel\<close>

text \<open>A trusted program is one that was accepted under one of the fixed directories.\<close>

lemma trusted_program_acceptable:
  assumes "paths_documented gl S" "trusted_program gl S p"
  shows "\<exists>program. \<exists>dir \<in> set search_directories. acceptable gl S program dir p"
proof -
  obtain program where "find_trusted_system_program gl S (Some program) = Some (Some p)"
    using assms(2) by (auto simp: trusted_program_def)
  then have "search_in gl S program search_directories = Some (Some p)"
    by (auto simp: find_trusted_system_program_def split: if_splits)
  then show ?thesis using search_in_exact[OF assms(1), of program search_directories] nth_mem by fastforce
qed

text \<open>
  C17: from the activation of the window on, in every order of clicks, key presses, searches, quick actions,
  finished processes, events of the panel and of other processes: a selected row of a page shows that page; the
  page of the panel is never shown empty, it has the panel or the reason why there is none; the panel is made
  when its page is first opened and at most one is there, in the state its own event loop keeps, and without one
  no lock is owned; and every program the window started is an executable that only root can have replaced.
\<close>

theorem shell_event_loop:
  assumes "ss_shell_window_activate gl S C load dir (builtin_modules box) e w = Some st"
    and "calm_world w" "paths_documented gl S"
    and "(shell_step (date_time_module box) panel_step world_drifts contains_ci)\<^sup>*\<^sup>* st (sh, w1)"
  shows "(\<forall>r q. sh_selected sh = Some r \<and> row_page r sh = Some q \<longrightarrow> sh_visible sh = Some q) \<and>
    (sh_visible sh = Some ''date-time'' \<and> module_child (date_time_module box) sh \<noteq> None \<or> sh_visible sh = Some ''home'') \<and>
    (\<exists>h. sh_host sh = Some h \<and>
       (case instances h of [] \<Rightarrow> calm_world w1 \<and> module_child (date_time_module box) sh \<noteq> Some (Panel_widget box)
        | [(q, inst)] \<Rightarrow> q = ''date-time'' \<and> controller_ok (in_controller inst) w1 \<and>
             module_child (date_time_module box) sh = Some (Panel_widget box)
        | _ \<Rightarrow> False)) \<and>
    (\<forall>argv \<in> set (sh_executed sh). \<exists>program. \<exists>d \<in> set search_directories. acceptable gl S program d (hd argv))"
proof -
  have "shell_ok (date_time_module box) controller_ok calm_world box (trusted_program gl S) st"
    using date_time.activate_fine[OF assms(2)] assms(1) by (simp add: builtin_modules_def)
  from date_time.run_fine[OF assms(4) this]
  have f: "shell_ok (date_time_module box) controller_ok calm_world box (trusted_program gl S) (sh, w1)" .
  have id: "page_id (date_time_module box) = ''date-time''"
    by (simp add: date_time_module_def SS_BUILTIN_PAGE_ID_DATE_TIME_def)
  have "\<forall>argv \<in> set (sh_executed sh). trusted_program gl S (hd argv)" using f by (simp add: shell_ok_def programs_ok_def)
  then have "\<forall>argv \<in> set (sh_executed sh). \<exists>program. \<exists>d \<in> set search_directories. acceptable gl S program d (hd argv)"
    using trusted_program_acceptable[OF assms(3)] by blast
  then show ?thesis using f
    by (auto simp: shell_ok_def selection_ok_def shell_pages_ok_def host_ok_def id SS_HOME_PAGE_ID_def split: list.split)
qed



section \<open>An instance\<close>

definition sample_environment :: panel_environment where
  "sample_environment = \<lparr>pe_allocated = True, pe_policy_observer = True, pe_metadata_observer = True, pe_region = no_region,
     pe_installed = [], pe_message = None\<rparr>"

definition sample_catalog :: catalog_paths where
  "sample_catalog = \<lparr>module_source_dir = [], module_dir = ''/usr/share/infiltrator/system-settings/modules''\<rparr>"

definition sample_activation :: "(((panel, world, panel_environment) shell) \<times> world) option" where
  "sample_activation = ss_shell_window_activate sample_paths sample_files sample_catalog (\<lambda>p. No_such_manifest) None
     (builtin_modules 7) sample_environment legacy_world"

lemma legacy_calm: "calm_world legacy_world"
  using legacy_ok by (simp add: calm_world_def)

lemma sample_activated: "\<exists>sh w. sample_activation = Some (sh, w)"
proof -
  have "find_trusted_system_program sample_paths sample_files (Some program) \<noteq> None" for program
    using search_in_ends[of sample_paths sample_files program search_directories] dirname_shorter
    by (simp add: find_trusted_system_program_def sample_paths_def)
  from date_time.activate_returns[OF legacy_calm this] show ?thesis
    by (force simp: sample_activation_def builtin_modules_def)
qed

theorem shell_event_loop_witness:
  "\<exists>sh w. sample_activation = Some (sh, w) \<and> (\<exists>h. sh_host sh = Some h)"
proof -
  obtain sh w where a: "sample_activation = Some (sh, w)" using sample_activated by blast
  from shell_event_loop[OF a[unfolded sample_activation_def] legacy_calm sample_documented rtranclp.rtrancl_refl] a
  show ?thesis by blast
qed



end
