(* ===== verification/HomeStatus.thy ===== *)
theory HomeStatus
  imports "HOL-Library.Multiset" NativePayload Glib
begin

text \<open>
  \<open>home-status.c\<close>: the system status on the Home page, its parser of \<open>/proc/uptime\<close>, the snapshot of what the
  system reports, and the ticker that keeps the labels up to date while the page is on the screen. What the
  system reports is an argument of every reading; sources and signal handlers are lists of identifiers.
\<close>

section \<open>The uptime\<close>

definition after_fraction :: "string \<Rightarrow> string option" where
  "after_fraction rest =
     (if char_at rest 0 = CHR ''.''
      then (if \<not> is_digit (char_at (tl rest) 0) then None else Some (dropWhile is_digit (tl rest)))
      else Some rest)"

definition ss_home_status_parse_uptime_seconds :: "string option \<Rightarrow> 64 word option" where
  "ss_home_status_parse_uptime_seconds contents =
     (case contents of
        None \<Rightarrow> None
      | Some s \<Rightarrow>
          if \<not> is_digit (char_at s 0) then None
          else
            (case strtoull (takeWhile is_digit s) of
               None \<Rightarrow> None
             | Some seconds \<Rightarrow>
                 (case after_fraction (dropWhile is_digit s) of
                    None \<Rightarrow> None
                  | Some end_text \<Rightarrow> if \<not> ascii_isspace (char_at end_text 0) then None else Some seconds)))"

text \<open>A number without leading zeros, as \<open>printf\<close> writes it.\<close>

fun print_decimal :: "nat \<Rightarrow> string" where
  "print_decimal n = (if n < 10 then [char_of (48 + n)] else print_decimal (n div 10) @ [char_of (48 + n mod 10)])"

declare print_decimal.simps [simp del]

definition uptime_text :: "64 word \<Rightarrow> string" where
  "uptime_text secs =
     (let days = secs div 86400; hours = (secs mod 86400) div 3600; minutes = (secs mod 3600) div 60 in
      if 0 < days then print_decimal (unat days) @ ''d '' @ print_decimal (unat hours) @ ''h''
      else if 0 < hours then print_decimal (unat hours) @ ''h '' @ print_decimal (unat minutes) @ ''m''
      else print_decimal (unat minutes) @ ''m'')"

definition format_uptime :: "string option \<Rightarrow> string" where
  "format_uptime proc_uptime =
     (case ss_home_status_parse_uptime_seconds proc_uptime of None \<Rightarrow> ''Unknown'' | Some secs \<Rightarrow> uptime_text secs)"

section \<open>The snapshot\<close>

datatype connectivity = CONNECTIVITY_LOCAL | CONNECTIVITY_LIMITED | CONNECTIVITY_PORTAL | CONNECTIVITY_FULL | CONNECTIVITY_OTHER

definition network_connectivity_text :: "connectivity \<Rightarrow> string" where
  "network_connectivity_text c =
     (case c of
        CONNECTIVITY_LOCAL \<Rightarrow> ''Local network only''
      | CONNECTIVITY_LIMITED \<Rightarrow> ''Limited connectivity''
      | CONNECTIVITY_PORTAL \<Rightarrow> ''Sign-in required''
      | CONNECTIVITY_FULL \<Rightarrow> ''Full internet access''
      | CONNECTIVITY_OTHER \<Rightarrow> ''Connectivity unknown'')"

record network_report =
  online :: bool
  metered :: bool
  reach :: connectivity

record desktop_report =
  theme_name :: "string option"
  prefer_dark :: bool

record system_report =
  proc_uptime :: "string option"
  format_locale :: "string option"
  languages :: "string list"
  local_zone :: "string option"
  desktop :: "desktop_report option"
  network :: "network_report option"

record status_snapshot =
  sn_uptime :: string
  sn_timezone :: string
  sn_region_value :: string
  sn_region_detail :: string
  sn_appearance_value :: string
  sn_appearance_detail :: string
  sn_network_value :: string
  sn_network_detail :: string

text \<open>The bullet of the texts in UTF-8.\<close>

definition bullet :: string where "bullet = [CHR 0xE2, CHR 0x80, CHR 0xA2]"

definition current_language_label :: "system_report \<Rightarrow> string" where
  "current_language_label y = (case languages y of [] \<Rightarrow> ''Unknown'' | l # ls \<Rightarrow> l)"

definition current_format_locale_label :: "system_report \<Rightarrow> string" where
  "current_format_locale_label y = (case format_locale y of Some (c # cs) \<Rightarrow> c # cs | _ \<Rightarrow> ''Unknown'')"

definition ss_home_status_snapshot_read :: "system_report \<Rightarrow> status_snapshot" where
  "ss_home_status_snapshot_read y =
     (let format = current_format_locale_label y;
          theme = (case desktop y of None \<Rightarrow> None | Some dk \<Rightarrow> theme_name dk);
          dark = (case desktop y of None \<Rightarrow> False | Some dk \<Rightarrow> prefer_dark dk);
          net = (case network y of None \<Rightarrow> \<lparr>online = False, metered = False, reach = CONNECTIVITY_LOCAL\<rparr> | Some nw \<Rightarrow> nw)
      in \<lparr>sn_uptime = format_uptime (proc_uptime y),
          sn_timezone = (case local_zone y of None \<Rightarrow> ''Unknown'' | Some z \<Rightarrow> z),
          sn_region_value = format,
          sn_region_detail = ''Date/time format locale '' @ bullet @ '' '' @ format @ '' '' @ bullet @ '' Interface language '' @ bullet @
            '' '' @ current_language_label y,
          sn_appearance_value = (case theme of None \<Rightarrow> ''System theme'' | Some t \<Rightarrow> t),
          sn_appearance_detail = (if dark then ''Dark'' else ''Light'') @ '' presentation'',
          sn_network_value = (if online net then ''Connected'' else ''Offline''),
          sn_network_detail = network_connectivity_text (reach net) @
            (if metered net then CHR '' '' # bullet @ '' Metered'' else [])\<rparr>)"

section \<open>The ticker\<close>

text \<open>The eight labels with the count of the texts set; a source is an identifier with its seconds.\<close>

record status_ticker =
  st_labels :: "string list"
  st_sets :: nat
  st_source_id :: nat
  st_settings :: bool
  st_network :: bool
  st_theme_name_id :: nat
  st_theme_dark_id :: nat
  st_network_available_id :: nat
  st_network_metered_id :: nat
  st_network_connectivity_id :: nat
  st_sources :: "(nat \<times> nat) list"
  st_handlers :: "nat list"
  st_next_id :: nat

definition snapshot_texts :: "status_snapshot \<Rightarrow> string list" where
  "snapshot_texts sn = [sn_uptime sn, sn_timezone sn, sn_region_value sn, sn_region_detail sn, sn_appearance_value sn,
     sn_appearance_detail sn, sn_network_value sn, sn_network_detail sn]"

text \<open>A label and its count of sets.\<close>

definition label_set_text_if_changed :: "string \<Rightarrow> string \<times> nat \<Rightarrow> string \<times> nat" where
  "label_set_text_if_changed text label = (if fst label \<noteq> text then (text, snd label + 1) else label)"

definition refresh_home_status :: "system_report \<Rightarrow> status_ticker \<Rightarrow> status_ticker" where
  "refresh_home_status y tk =
     (let shown = map2 (\<lambda>text label. label_set_text_if_changed text (label, 0)) (snapshot_texts (ss_home_status_snapshot_read y)) (st_labels tk)
      in tk\<lparr>st_labels := map fst shown, st_sets := st_sets tk + sum_list (map snd shown)\<rparr>)"

definition connect :: "status_ticker \<Rightarrow> nat \<times> status_ticker" where
  "connect tk = (st_next_id tk, tk\<lparr>st_handlers := st_next_id tk # st_handlers tk, st_next_id := st_next_id tk + 1\<rparr>)"

definition disconnect :: "nat \<Rightarrow> status_ticker \<Rightarrow> status_ticker" where
  "disconnect i tk = (if i \<noteq> 0 then tk\<lparr>st_handlers := remove1 i (st_handlers tk)\<rparr> else tk)"

definition stop_home_status_ticker :: "status_ticker \<Rightarrow> status_ticker" where
  "stop_home_status_ticker tk =
     (let t1 = (if st_source_id tk \<noteq> 0
                then tk\<lparr>st_sources := filter (\<lambda>(i, s). i \<noteq> st_source_id tk) (st_sources tk), st_source_id := 0\<rparr> else tk);
          t2 = (if st_settings t1 then disconnect (st_theme_dark_id t1) (disconnect (st_theme_name_id t1) t1) else t1);
          t3 = (if st_network t2
                then disconnect (st_network_connectivity_id t2)
                       (disconnect (st_network_metered_id t2) (disconnect (st_network_available_id t2) t2))
                else t2)
      in t3\<lparr>st_theme_name_id := 0, st_theme_dark_id := 0, st_network_available_id := 0, st_network_metered_id := 0,
             st_network_connectivity_id := 0, st_settings := False, st_network := False\<rparr>)"

definition start_home_status_ticker :: "system_report \<Rightarrow> status_ticker \<Rightarrow> status_ticker" where
  "start_home_status_ticker y tk =
     (if st_source_id tk \<noteq> 0 then tk
      else
        (let t1 = tk\<lparr>st_settings := desktop y \<noteq> None, st_network := network y \<noteq> None\<rparr>;
             t2 = (if st_settings t1
                   then (let (a, u1) = connect t1; (b, u2) = connect u1
                         in u2\<lparr>st_theme_name_id := a, st_theme_dark_id := b\<rparr>) else t1);
             t3 = (if st_network t2
                   then (let (a, u1) = connect t2; (b, u2) = connect u1; (c, u3) = connect u2
                         in u3\<lparr>st_network_available_id := a, st_network_metered_id := b, st_network_connectivity_id := c\<rparr>) else t2);
             t4 = refresh_home_status y t3
         in t4\<lparr>st_source_id := st_next_id t4, st_sources := (st_next_id t4, 60) # st_sources t4, st_next_id := st_next_id t4 + 1\<rparr>))"

definition home_status_ticker_free :: "status_ticker \<Rightarrow> status_ticker" where
  "home_status_ticker_free tk = stop_home_status_ticker tk"

text \<open>\<open>ss_home_status_attach\<close> on the labels of the page.\<close>

definition ss_home_status_attach :: "string list \<Rightarrow> status_ticker" where
  "ss_home_status_attach labels = \<lparr>st_labels = labels, st_sets = 0, st_source_id = 0, st_settings = False, st_network = False,
     st_theme_name_id = 0, st_theme_dark_id = 0, st_network_available_id = 0, st_network_metered_id = 0,
     st_network_connectivity_id = 0, st_sources = [], st_handlers = [], st_next_id = 1\<rparr>"

text \<open>Mapping and unmapping in any order, the minute's tick, and the notifications of a connected handler.\<close>

inductive status_step :: "status_ticker \<Rightarrow> status_ticker \<Rightarrow> bool" where
  mapped: "status_step tk (start_home_status_ticker y tk)"
| unmapped: "status_step tk (stop_home_status_ticker tk)"
| tick: "(i, s) \<in> set (st_sources tk) \<Longrightarrow> status_step tk (refresh_home_status y tk)"
| notified: "i \<in> set (st_handlers tk) \<Longrightarrow> status_step tk (refresh_home_status y tk)"

section \<open>The parser accepts the kernel's format and nothing else\<close>

text \<open>The text: digits, possibly a period with digits, and white space.\<close>

definition uptime_format :: "string \<Rightarrow> string \<Rightarrow> bool" where
  "uptime_format ds s \<longleftrightarrow> ds \<noteq> [] \<and> list_all is_digit ds \<and>
     (\<exists>c t. ascii_isspace c \<and>
        (s = ds @ c # t \<or> (\<exists>fs. fs \<noteq> [] \<and> list_all is_digit fs \<and> s = ds @ CHR ''.'' # fs @ c # t)))"

lemma space_facts: "ascii_isspace c \<Longrightarrow> \<not> is_digit c \<and> c \<noteq> CHR ''.'' \<and> c \<noteq> CHR 0x00"
  by (auto simp: ascii_isspace_def is_digit_def)

lemma period_no_digit [simp]: "\<not> is_digit CHR ''.''"
  by (simp add: is_digit_def)

lemma take_drop_digits:
  "list_all is_digit ds \<Longrightarrow> \<not> is_digit (char_at rest 0) \<Longrightarrow> takeWhile is_digit (ds @ rest) = ds \<and> dropWhile is_digit (ds @ rest) = rest"
  by (induction ds) (cases rest, auto)

lemma drop_digit_head: "\<not> is_digit (char_at (dropWhile is_digit s) 0)"
  by (induction s) auto

lemma first_space: "ascii_isspace (char_at r 0) \<Longrightarrow> \<exists>c t. r = c # t \<and> ascii_isspace c"
  by (cases r) (auto simp: ascii_isspace_def)

lemma uptime_parsed:
  assumes p: "ss_home_status_parse_uptime_seconds (Some s) = Some seconds"
  shows "\<exists>ds. uptime_format ds s \<and> decimal ds < 2 ^ 64 \<and> seconds = of_nat (decimal ds)"
proof -
  define ds where "ds = takeWhile is_digit s"
  define rest where "rest = dropWhile is_digit s"
  obtain r where r: "is_digit (char_at s 0)" "decimal ds < 2 ^ 64" "seconds = of_nat (decimal ds)" "after_fraction rest = Some r"
    "ascii_isspace (char_at r 0)"
    using p by (auto simp: ss_home_status_parse_uptime_seconds_def strtoull_def ds_def rest_def split: option.splits if_splits)
  have s: "s = ds @ rest" by (simp add: ds_def rest_def)
  have ds: "list_all is_digit ds" "ds \<noteq> []"
    using r(1) by (auto simp: ds_def list_all_iff dest: set_takeWhileD) (cases s, auto)
  obtain c t where c: "r = c # t" "ascii_isspace c" using first_space[OF r(5)] by blast
  have "uptime_format ds s"
  proof (cases "char_at rest 0 = CHR ''.''")
    case False
    then have "rest = c # t" using r(4) c(1) by (simp add: after_fraction_def)
    then show ?thesis using ds c(2) s by (auto simp: uptime_format_def)
  next
    case True
    then obtain u where u: "rest = CHR ''.'' # u" by (cases rest) auto
    then have f: "is_digit (char_at u 0)" "dropWhile is_digit u = c # t"
      using r(4) c(1) by (auto simp: after_fraction_def split: if_splits)
    define fs where "fs = takeWhile is_digit u"
    have "u = fs @ c # t" using f(2) takeWhile_dropWhile_id[of is_digit u] by (simp add: fs_def)
    moreover have "fs \<noteq> []" using f(1) by (cases u) (auto simp: fs_def)
    moreover have "list_all is_digit fs" by (auto simp: fs_def list_all_iff dest: set_takeWhileD)
    ultimately show ?thesis using ds c(2) s u by (auto simp: uptime_format_def)
  qed
  with r show ?thesis by blast
qed

lemma uptime_reads:
  assumes "uptime_format ds s" "decimal ds < 2 ^ 64"
  shows "ss_home_status_parse_uptime_seconds (Some s) = Some (of_nat (decimal ds))"
proof -
  obtain c t rest where f: "ds \<noteq> []" "list_all is_digit ds" "ascii_isspace c"
    "s = ds @ rest" "rest = c # t \<or> (\<exists>fs. fs \<noteq> [] \<and> list_all is_digit fs \<and> rest = CHR ''.'' # fs @ c # t)"
    using assms(1) unfolding uptime_format_def by blast
  note sp = space_facts[OF f(3)]
  have nd: "\<not> is_digit (char_at rest 0)" using f(5) sp by auto
  have td: "takeWhile is_digit s = ds" "dropWhile is_digit s = rest"
    using take_drop_digits[OF f(2) nd] f(4) by simp_all
  have first: "is_digit (char_at s 0)" using f(1,2,4) by (cases ds) auto
  have "after_fraction rest = Some (c # t)"
    using f(5)
  proof (elim disjE exE conjE)
    fix fs assume fs: "fs \<noteq> []" "list_all is_digit fs" "rest = CHR ''.'' # fs @ c # t"
    have "is_digit (char_at (fs @ c # t) 0)" using fs(1,2) by (cases fs) auto
    moreover have "dropWhile is_digit (fs @ c # t) = c # t" using take_drop_digits[OF fs(2), of "c # t"] sp by simp
    ultimately show ?thesis by (simp add: after_fraction_def fs(3))
  qed (use sp in \<open>simp add: after_fraction_def\<close>)
  then show ?thesis
    using first f(3) assms(2) by (simp add: ss_home_status_parse_uptime_seconds_def td strtoull_def)
qed

text \<open>
  C37: the uptime is read exactly from the texts that are digits, possibly followed by a period and digits, and
  then white space, and the seconds are those digits' value, when it fits in 64 bits; no locale is consulted and
  every other text is refused.
\<close>

theorem uptime_exact:
  "ss_home_status_parse_uptime_seconds (Some s) = Some seconds \<longleftrightarrow>
     (\<exists>ds. uptime_format ds s \<and> decimal ds < 2 ^ 64 \<and> seconds = of_nat (decimal ds))"
  using uptime_parsed uptime_reads by blast

section \<open>The ticker runs while the page is shown\<close>

definition signal_ids :: "status_ticker \<Rightarrow> nat list" where
  "signal_ids tk =
     (if st_settings tk then [st_theme_name_id tk, st_theme_dark_id tk] else []) @
     (if st_network tk then [st_network_available_id tk, st_network_metered_id tk, st_network_connectivity_id tk] else [])"

definition ticker_ok :: "status_ticker \<Rightarrow> bool" where
  "ticker_ok tk \<longleftrightarrow> length (st_labels tk) = 8 \<and> 0 < st_next_id tk \<and>
     mset (st_handlers tk) = mset (signal_ids tk) \<and> distinct (signal_ids tk) \<and> 0 \<notin> set (signal_ids tk) \<and>
     (if st_source_id tk = 0 then st_sources tk = [] \<and> \<not> st_settings tk \<and> \<not> st_network tk else st_sources tk = [(st_source_id tk, 60)])"


lemma set_if_changed [simp]: "fst (label_set_text_if_changed text label) = text"
  by (cases label) (simp add: label_set_text_if_changed_def)

lemma set_all: "length ts = length ls \<Longrightarrow>
    map fst (map2 (\<lambda>text label. label_set_text_if_changed text (label, 0)) ts ls) = ts"
  for ts ls :: "string list"
  by (induction ts ls rule: list_induct2) simp_all

lemma set_again: "sum_list (map snd (map2 (\<lambda>text label. label_set_text_if_changed text (label, 0)) ts ts)) = 0"
  for ts :: "string list"
  by (induction ts) (simp_all add: label_set_text_if_changed_def)

lemma refresh_labels:
  assumes "length (st_labels tk) = 8"
  shows "st_labels (refresh_home_status y tk) = snapshot_texts (ss_home_status_snapshot_read y)"
  using set_all[of "snapshot_texts (ss_home_status_snapshot_read y)" "st_labels tk"] assms
  by (simp add: refresh_home_status_def Let_def snapshot_texts_def)

lemma refresh_again:
  assumes "length (st_labels tk) = 8"
  shows "st_sets (refresh_home_status y (refresh_home_status y tk)) = st_sets (refresh_home_status y tk)"
  using refresh_labels[OF assms, of y] set_again[of "snapshot_texts (ss_home_status_snapshot_read y)"]
  by (simp add: refresh_home_status_def[of y "refresh_home_status y tk"] Let_def)

lemma refresh_keeps:
  "st_source_id (refresh_home_status y tk) = st_source_id tk" "st_sources (refresh_home_status y tk) = st_sources tk"
  "st_handlers (refresh_home_status y tk) = st_handlers tk" "signal_ids (refresh_home_status y tk) = signal_ids tk"
  "st_next_id (refresh_home_status y tk) = st_next_id tk" "st_settings (refresh_home_status y tk) = st_settings tk"
  "st_network (refresh_home_status y tk) = st_network tk" "st_theme_name_id (refresh_home_status y tk) = st_theme_name_id tk"
  "st_theme_dark_id (refresh_home_status y tk) = st_theme_dark_id tk"
  "st_network_available_id (refresh_home_status y tk) = st_network_available_id tk"
  "st_network_metered_id (refresh_home_status y tk) = st_network_metered_id tk"
  "st_network_connectivity_id (refresh_home_status y tk) = st_network_connectivity_id tk"
  by (simp_all add: refresh_home_status_def Let_def signal_ids_def)

lemma refresh_ok: "ticker_ok tk \<Longrightarrow> ticker_ok (refresh_home_status y tk)"
  using refresh_labels[of tk y] by (simp add: ticker_ok_def refresh_keeps snapshot_texts_def)

lemma status_stop_ok:
  assumes "ticker_ok tk"
  shows "ticker_ok (stop_home_status_ticker tk) \<and> st_source_id (stop_home_status_ticker tk) = 0 \<and>
    st_sources (stop_home_status_ticker tk) = [] \<and> st_handlers (stop_home_status_ticker tk) = []"
proof -
  have m: "mset (st_handlers tk) = mset (signal_ids tk)" "0 \<notin> set (signal_ids tk)"
    using assms by (simp_all add: ticker_ok_def)
  have "mset (st_handlers (stop_home_status_ticker tk)) = {#}"
    using m by (auto simp: stop_home_status_ticker_def disconnect_def signal_ids_def Let_def mset_remove1 simp del: mset_zero_iff mset_zero_iff_right)
  then have none: "st_handlers (stop_home_status_ticker tk) = []" by simp
  then show ?thesis using assms
    by (auto simp: ticker_ok_def stop_home_status_ticker_def disconnect_def signal_ids_def Let_def split: if_splits)
qed

lemma start_ok:
  assumes "ticker_ok tk"
  shows "ticker_ok (start_home_status_ticker y tk) \<and> st_source_id (start_home_status_ticker y tk) \<noteq> 0"
proof (cases "st_source_id tk = 0")
  case False
  then show ?thesis using assms by (simp add: start_home_status_ticker_def)
next
  case True
  then have q: "st_sources tk = []" "st_handlers tk = []" "0 < st_next_id tk" "length (st_labels tk) = 8"
    using assms by (auto simp: ticker_ok_def signal_ids_def)
  have len: "length (st_labels (refresh_home_status y x)) = 8" if "length (st_labels x) = 8" for x
    using refresh_labels[OF that] by (simp add: snapshot_texts_def)
  show ?thesis using True q
    by (auto simp: start_home_status_ticker_def Let_def connect_def ticker_ok_def signal_ids_def refresh_keeps len)
qed

lemma status_run_ok: "status_step\<^sup>*\<^sup>* tk tk' \<Longrightarrow> ticker_ok tk \<Longrightarrow> ticker_ok tk'"
proof (induction rule: rtranclp_induct)
  case (step x z)
  then have "ticker_ok x" by blast
  with step(2) show ?case by cases (use start_ok status_stop_ok refresh_ok in blast)+
qed


section \<open>An instance\<close>

definition sample_report :: system_report where
  "sample_report = \<lparr>proc_uptime = Some ''93784.52 12.0'', format_locale = Some ''en_AU.UTF-8'', languages = [''en_AU''],
     local_zone = Some ''Australia/Melbourne'', desktop = Some \<lparr>theme_name = Some ''Mint-Y'', prefer_dark = True\<rparr>,
     network = Some \<lparr>online = True, metered = False, reach = CONNECTIVITY_FULL\<rparr>\<rparr>"

lemma sample_uptime: "format_uptime (Some ''93784.52 12.0'') = ''1d 2h''"
proof -
  have "uptime_format ''93784'' ''93784.52 12.0''"
    unfolding uptime_format_def
    by (intro conjI exI[of _ "CHR '' ''"] exI[of _ "''12.0''"] disjI2 exI[of _ "''52''"]) (simp_all add: is_digit_def ascii_isspace_def)
  moreover have "decimal ''93784'' = 93784" by (simp add: decimal_def digit_value_def)
  ultimately have "ss_home_status_parse_uptime_seconds (Some ''93784.52 12.0'') = Some 93784"
    using uptime_reads[of "''93784''" "''93784.52 12.0''"] by simp
  then show ?thesis
    by (simp add: format_uptime_def uptime_text_def Let_def print_decimal.simps char_of_def bit_iff_odd)
qed


end
