(* ===== verification/HomePage.thy ===== *)
theory HomePage
  imports HomePresenter ShellCommand
begin

text \<open>
  \<open>home-temporal-provider.c\<close>, which makes the presenter of the clock and date when it is first needed, and the
  operations of \<open>home-page.c\<close>: the ticker that shows them while the page is on the screen, the buttons that open
  a page or launch a program, the pictures and the layout. The construction of the widgets is left out.
\<close>

section \<open>The provider\<close>

text \<open>A provider is its presenter, \<open>None\<close> before the first use; \<open>fs\<close> and \<open>path\<close> are for the presenter's observer.\<close>

type_synonym home_provider = "presenter option"

definition ss_home_temporal_provider_new :: home_provider where
  "ss_home_temporal_provider_new = None"

definition ss_home_temporal_provider_page_id :: "home_provider option \<Rightarrow> string option" where
  "ss_home_temporal_provider_page_id provider = (if provider = None then None else Some ''date-time'')"

definition ss_home_temporal_provider_free :: "home_provider \<Rightarrow> home_provider" where
  "ss_home_temporal_provider_free pv = map_option ss_home_temporal_presenter_free pv"

definition ensure_presenter ::
  "runtime \<Rightarrow> file_system \<Rightarrow> string list option \<Rightarrow> home_provider \<Rightarrow> world \<Rightarrow> home_provider \<times> world" where
  "ensure_presenter R fs path pv w = (case pv of None \<Rightarrow> ss_home_temporal_presenter_new R fs path w | Some hp \<Rightarrow> (Some hp, w))"

definition ss_home_temporal_provider_format ::
  "common \<Rightarrow> runtime \<Rightarrow> file_system \<Rightarrow> string list option \<Rightarrow> instant option \<Rightarrow> home_provider \<Rightarrow> world \<Rightarrow>
   presentation option \<times> home_provider \<times> world" where
  "ss_home_temporal_provider_format cm R fs path time pv w =
     (case ensure_presenter R fs path pv w of
        (None, w1) \<Rightarrow> (None, None, w1)
      | (Some hp, w1) \<Rightarrow>
          (let (shown, hp1) = ss_home_temporal_presenter_format_now cm R time hp in (shown, Some hp1, w1)))"

definition ss_home_temporal_provider_refresh_interval_ms ::
  "runtime \<Rightarrow> file_system \<Rightarrow> string list option \<Rightarrow> home_provider \<Rightarrow> world \<Rightarrow> nat \<times> home_provider \<times> world" where
  "ss_home_temporal_provider_refresh_interval_ms R fs path pv w =
     (let (pv1, w1) = ensure_presenter R fs path pv w in (ss_home_temporal_presenter_refresh_interval_ms pv1, pv1, w1))"

section \<open>The ticker\<close>

record home_ticker =
  ht_clock :: string
  ht_date :: string
  ht_system_time :: string
  ht_source_id :: nat
  ht_interval :: nat
  ht_sources :: "(nat \<times> nat) list"
  ht_next :: nat

text \<open>A null text is shown as an empty one.\<close>

definition label_text :: "string option \<Rightarrow> string" where
  "label_text text = (case text of None \<Rightarrow> [] | Some t \<Rightarrow> t)"

definition add_tick_source :: "nat \<Rightarrow> home_ticker \<Rightarrow> home_ticker" where
  "add_tick_source interval tk =
     tk\<lparr>ht_source_id := ht_next tk, ht_sources := (ht_next tk, interval) # ht_sources tk, ht_next := ht_next tk + 1\<rparr>"

text \<open>The result says whether the source that called goes on.\<close>

definition refresh_home_temporal ::
  "common \<Rightarrow> runtime \<Rightarrow> file_system \<Rightarrow> string list option \<Rightarrow> instant option \<Rightarrow> home_ticker \<Rightarrow> home_provider \<Rightarrow> world \<Rightarrow>
   bool \<times> home_ticker \<times> home_provider \<times> world" where
  "refresh_home_temporal cm R fs path time tk pv w =
     (let (shown, pv1, w1) = ss_home_temporal_provider_format cm R fs path time pv w;
          tk1 = (case shown of None \<Rightarrow> tk
                 | Some s \<Rightarrow> tk\<lparr>ht_clock := label_text (clock_text s), ht_date := label_text (date_text s),
                                ht_system_time := label_text (system_time_text s)\<rparr>);
          (desired, pv2, w2) = ss_home_temporal_provider_refresh_interval_ms R fs path pv1 w1
      in if desired \<noteq> ht_interval tk1
         then (False, add_tick_source desired (tk1\<lparr>ht_source_id := 0, ht_interval := desired\<rparr>), pv2, w2)
         else (True, tk1, pv2, w2))"

definition stop_home_temporal_ticker :: "home_ticker \<Rightarrow> home_ticker" where
  "stop_home_temporal_ticker tk =
     (if ht_source_id tk \<noteq> 0
      then tk\<lparr>ht_sources := filter (\<lambda>(i, n). i \<noteq> ht_source_id tk) (ht_sources tk), ht_source_id := 0\<rparr> else tk)"

definition start_home_temporal_ticker ::
  "common \<Rightarrow> runtime \<Rightarrow> file_system \<Rightarrow> string list option \<Rightarrow> instant option \<Rightarrow> home_ticker \<Rightarrow> home_provider \<Rightarrow> world \<Rightarrow>
   home_ticker \<times> home_provider \<times> world" where
  "start_home_temporal_ticker cm R fs path time tk pv w =
     (if ht_source_id tk \<noteq> 0 then (tk, pv, w)
      else
        (let (interval, pv1, w1) = ss_home_temporal_provider_refresh_interval_ms R fs path pv w;
             (goes_on, tk1, pv2, w2) = refresh_home_temporal cm R fs path time (tk\<lparr>ht_interval := interval\<rparr>) pv1 w1
         in ((if ht_source_id tk1 = 0 then add_tick_source (ht_interval tk1) tk1 else tk1), pv2, w2)))"

definition fire_tick ::
  "common \<Rightarrow> runtime \<Rightarrow> file_system \<Rightarrow> string list option \<Rightarrow> instant option \<Rightarrow> nat \<Rightarrow> home_ticker \<Rightarrow> home_provider \<Rightarrow> world \<Rightarrow>
   home_ticker \<times> home_provider \<times> world" where
  "fire_tick cm R fs path time i tk pv w =
     (if i \<notin> fst ` set (ht_sources tk) then (tk, pv, w)
      else
        (let (goes_on, tk1, pv1, w1) = refresh_home_temporal cm R fs path time tk pv w
         in ((if goes_on then tk1 else tk1\<lparr>ht_sources := filter (\<lambda>(j, n). j \<noteq> i) (ht_sources tk1)\<rparr>), pv1, w1)))"

text \<open>The texts the page starts with.\<close>

definition first_texts :: "presentation option \<Rightarrow> string \<times> string \<times> string" where
  "first_texts shown =
     (case shown of None \<Rightarrow> (''Unknown'', [], ''Unknown'')
      | Some s \<Rightarrow> (label_text (clock_text s), label_text (date_text s), label_text (system_time_text s)))"

definition new_home_ticker :: "presentation option \<Rightarrow> home_ticker" where
  "new_home_ticker shown =
     (let (c, d, s) = first_texts shown
      in \<lparr>ht_clock = c, ht_date = d, ht_system_time = s, ht_source_id = 0, ht_interval = 0, ht_sources = [], ht_next = 1\<rparr>)"

section \<open>Buttons and pictures\<close>

text \<open>What pressing the button opens.\<close>

definition open_date_time_from_home :: "home_provider option \<Rightarrow> (string \<Rightarrow> 'a) option \<Rightarrow> 'a option" where
  "open_date_time_from_home provider navigate =
     (case (navigate, ss_home_temporal_provider_page_id provider) of
        (Some go, Some (c # cs)) \<Rightarrow> Some (go (c # cs))
      | _ \<Rightarrow> None)"

record program_action =
  pa_program :: string
  pa_argument :: "string option"

text \<open>The outer option is that of the search; the action of the button when it gets one.\<close>

definition connect_program_action ::
  "glib \<Rightarrow> system_files \<Rightarrow> string \<Rightarrow> string option \<Rightarrow> string option \<Rightarrow> widget \<Rightarrow> (bool \<times> program_action option \<times> widget) option" where
  "connect_program_action gl S program argument missing_tooltip button =
     (case find_trusted_system_program gl S (Some program) of
        None \<Rightarrow> None
      | Some None \<Rightarrow>
          Some (False, None,
            button\<lparr>sensitive := False, tooltip := Some (case missing_tooltip of Some t \<Rightarrow> t | None \<Rightarrow> ''This application is not installed.'')\<rparr>)
      | Some (Some path) \<Rightarrow> Some (True, Some \<lparr>pa_program = path, pa_argument = argument\<rparr>, button))"

definition launch_external_program :: "(string list \<Rightarrow> spawned) \<Rightarrow> program_action option \<Rightarrow> widget \<Rightarrow> bool \<times> bool \<times> widget option" where
  "launch_external_program spawn action button =
     (case action of None \<Rightarrow> (False, False, Some button)
      | Some a \<Rightarrow> launch_command spawn (Some button) (Some (pa_program a)) (pa_argument a))"

text \<open>The text of an overview row, and the buttons of the page: those that launch a program, with their help text.\<close>

definition append_overview_row :: "string option \<Rightarrow> string" where
  "append_overview_row value = (case value of Some (c # cs) \<Rightarrow> c # cs | _ \<Rightarrow> ''Unknown'')"

record quick_action =
  qa_icon :: string
  qa_title :: string
  qa_copy :: string
  qa_works :: bool
  qa_action :: "program_action option"
  qa_widget :: widget

definition make_quick_action :: "string \<Rightarrow> string \<Rightarrow> string \<Rightarrow> quick_action" where
  "make_quick_action icon title copy =
     \<lparr>qa_icon = icon, qa_title = title, qa_copy = copy, qa_works = False, qa_action = None,
      qa_widget = \<lparr>tooltip = None, sensitive = True, widget_refs = 1\<rparr>\<rparr>"

definition make_program_action ::
  "glib \<Rightarrow> system_files \<Rightarrow> string \<Rightarrow> string \<Rightarrow> string \<Rightarrow> string \<Rightarrow> string option \<Rightarrow> quick_action option" where
  "make_program_action gl S icon title copy program argument =
     (let button = make_quick_action icon title copy in
      map_option (\<lambda>(works, action, widget1). button\<lparr>qa_works := works, qa_action := action, qa_widget := widget1\<rparr>)
        (connect_program_action gl S program argument (Some ''This application is not installed.'') (qa_widget button)))"

definition quick_programs :: "(string \<times> string \<times> string \<times> string \<times> string option) list" where
  "quick_programs =
    [(''preferences-desktop-locale-symbolic'', ''Change Region'', ''Language, formats & location'', ''mintlocale'', None),
     (''video-display-symbolic'', ''Configure Display'', ''Scaling, layout & monitors'', ''cinnamon-settings'', Some ''display''),
     (''system-software-install-symbolic'', ''Software & Updates'', ''Apps, packages & updates'', ''software'', None)]"

text \<open>A button of the page launches nothing but what the trusted search found for it; one without is insensitive.\<close>

lemma home_button_trusted:
  assumes "make_program_action gl S icon title copy program argument = Some b" "paths_documented gl S"
  shows "(case qa_action b of
      None \<Rightarrow> \<not> qa_works b \<and> \<not> sensitive (qa_widget b) \<and> (\<forall>spawn. \<not> fst (launch_external_program spawn (qa_action b) (qa_widget b)))
    | Some a \<Rightarrow> qa_works b \<and> (\<exists>d \<in> set search_directories. acceptable gl S program d (pa_program a)))"
proof -
  obtain works action widget1 where c: "connect_program_action gl S program argument (Some ''This application is not installed.'')
      (qa_widget (make_quick_action icon title copy)) = Some (works, action, widget1)"
    and b: "qa_works b = works" "qa_action b = action" "qa_widget b = widget1"
    using assms(1) by (auto simp: make_program_action_def Let_def)
  show ?thesis
  proof (cases "find_trusted_system_program gl S (Some program)")
    case None
    then show ?thesis using c by (simp add: connect_program_action_def)
  next
    case (Some res)
    show ?thesis
    proof (cases res)
      case None
      then have "widget1 = (qa_widget (make_quick_action icon title copy))\<lparr>sensitive := False,
          tooltip := Some ''This application is not installed.''\<rparr>" "\<not> works" "action = None"
        using c Some by (simp_all add: connect_program_action_def)
      then show ?thesis using b by (simp add: launch_external_program_def)
    next
      fix r
      assume r: "res = Some r"
      then have "search_in gl S program search_directories = Some (Some r)"
        using Some by (auto simp: find_trusted_system_program_def split: if_splits)
      then have "\<exists>d \<in> set search_directories. acceptable gl S program d r"
        using search_in_exact[OF assms(2), of program search_directories] nth_mem by fastforce
      moreover have "action = Some \<lparr>pa_program = r, pa_argument = argument\<rparr>" "works"
        using c Some r by (simp_all add: connect_program_action_def)
      ultimately show ?thesis using b by simp
    qed
  qed
qed

text \<open>The path of a picture: the installed file, else the one of the source tree, when it is a regular file.\<close>

definition ui_asset_path :: "glib \<Rightarrow> (string \<Rightarrow> bool) \<Rightarrow> string \<Rightarrow> string \<Rightarrow> string option \<Rightarrow> string option" where
  "ui_asset_path gl is_regular asset_dir source_dir filename =
     (case filename of
        None \<Rightarrow> None
      | Some f \<Rightarrow>
          if f = [] then None
          else
            (let installed = g_build_filename gl [asset_dir, f];
                 path = (if \<not> is_regular installed \<and> source_dir \<noteq> [] then g_build_filename gl [source_dir, f] else installed)
             in if is_regular path then Some path else None))"

section \<open>Layout\<close>

record home_layout =
  hl_columns :: nat
  hl_hero_height :: int
  hl_rows_horizontal :: bool
  hl_previews_per_line :: nat

definition home_layout_columns_for_width :: "int \<Rightarrow> nat" where
  "home_layout_columns_for_width width = (if 760 \<le> width then 2 else 1)"

definition home_layout_apply_width :: "int \<Rightarrow> home_layout \<Rightarrow> home_layout" where
  "home_layout_apply_width width l =
     (let columns = home_layout_columns_for_width width in
      if hl_columns l = columns then l
      else \<lparr>hl_columns = columns, hl_hero_height = (if columns = 2 then 238 else 300), hl_rows_horizontal = (columns = 2),
            hl_previews_per_line = (if columns = 2 then 3 else 1)\<rparr>)"

definition home_layout_width_changed :: "int \<Rightarrow> home_layout \<Rightarrow> home_layout" where
  "home_layout_width_changed width l = (if 0 < width then home_layout_apply_width width l else l)"

text \<open>The layout depends on the last positive width alone, whatever the widths before.\<close>

definition layout_of :: "int \<Rightarrow> home_layout" where
  "layout_of width = (if 760 \<le> width
     then \<lparr>hl_columns = 2, hl_hero_height = 238, hl_rows_horizontal = True, hl_previews_per_line = 3\<rparr>
     else \<lparr>hl_columns = 1, hl_hero_height = 300, hl_rows_horizontal = False, hl_previews_per_line = 1\<rparr>)"

lemma layout_last_width:
  "hl_columns l = 0 \<Longrightarrow> filter (\<lambda>n. 0 < n) widths \<noteq> [] \<Longrightarrow>
     fold home_layout_width_changed widths l = layout_of (last (filter (\<lambda>n. 0 < n) widths))"
proof (induction widths rule: rev_induct)
  case Nil
  then show ?case by simp
next
  case (snoc n ns)
  show ?case
  proof (cases "0 < n")
    case False
    then show ?thesis using snoc by (simp add: home_layout_width_changed_def)
  next
    case True
    define x where "x = fold home_layout_width_changed ns l"
    have "x = l \<or> (\<exists>m. x = layout_of m)"
    proof (cases "filter (\<lambda>n. 0 < n) ns = []")
      case True
      then have "fold home_layout_width_changed ns y = y" for y
        by (induction ns arbitrary: y) (auto simp: home_layout_width_changed_def split: if_splits)
      then show ?thesis by (simp add: x_def)
    next
      case False
      then show ?thesis using snoc by (auto simp: x_def)
    qed
    moreover have "fold home_layout_width_changed (ns @ [n]) l = home_layout_apply_width n x"
      using True by (simp add: x_def home_layout_width_changed_def[of n])
    ultimately show ?thesis using True snoc(2)
      by (auto simp: home_layout_apply_width_def home_layout_columns_for_width_def layout_of_def Let_def split: if_splits)
  qed
qed

section \<open>The page's event loop\<close>

text \<open>Mapping, unmapping, ticks and the events of the presenter, with resources that stay installed.\<close>

inductive home_page_step ::
  "common \<Rightarrow> runtime \<Rightarrow> home_ticker \<times> home_provider \<Rightarrow> home_ticker \<times> home_provider \<Rightarrow> bool" for cm R where
  mapped: "start_home_temporal_ticker cm R fs path time tk pv w = (tk1, pv1, w1) \<Longrightarrow> home_page_step cm R (tk, pv) (tk1, pv1)"
| unmapped: "home_page_step cm R (tk, pv) (stop_home_temporal_ticker tk, pv)"
| tick: "fire_tick cm R fs path time i tk pv w = (tk1, pv1, w1) \<Longrightarrow> home_page_step cm R (tk, pv) (tk1, pv1)"
| presenter_event: "home_step {(cm, R)} hp hp1 \<Longrightarrow> home_page_step cm R (tk, Some hp) (tk, Some hp1)"

definition provider_ok :: "common \<Rightarrow> runtime \<Rightarrow> home_provider \<Rightarrow> bool" where
  "provider_ok cm R pv \<longleftrightarrow> (\<forall>hp. pv = Some hp \<longrightarrow> home_run {(cm, R)} R hp)"

definition ticks_ok :: "home_ticker \<Rightarrow> bool" where
  "ticks_ok tk \<longleftrightarrow> 0 < ht_next tk \<and> ht_source_id tk < ht_next tk \<and>
     (if ht_source_id tk = 0 then ht_sources tk = []
      else ht_interval tk = HOME_TEMPORAL_REFRESH_INTERVAL_MS \<and> ht_sources tk = [(ht_source_id tk, ht_interval tk)])"

lemma run_extends: "home_run {(cm, R)} R hp \<Longrightarrow> home_step {(cm, R)} hp hp1 \<Longrightarrow> home_run {(cm, R)} R hp1"
  unfolding home_run_def by (meson rtranclp.rtrancl_into_rtrancl)

lemma ensure_presenter_ok:
  "ensure_presenter R fs path pv w = (pv1, w1) \<Longrightarrow> provider_ok cm R pv \<Longrightarrow> provider_ok cm R pv1 \<and> (pv \<noteq> None \<longrightarrow> pv1 = pv)"
proof (cases pv)
  case None
  assume "ensure_presenter R fs path pv w = (pv1, w1)"
  with None have n: "ss_home_temporal_presenter_new R fs path w = (pv1, w1)" by (simp add: ensure_presenter_def)
  have "home_run {(cm, R)} R hp" if "pv1 = Some hp" for hp
    using n that unfolding home_run_def by blast
  then show ?thesis by (simp add: provider_ok_def None)
qed (auto simp: ensure_presenter_def)

lemma provider_format_ok:
  assumes "ss_home_temporal_provider_format cm R fs path time pv w = (shown, pv1, w1)" "provider_ok cm R pv"
  shows "provider_ok cm R pv1 \<and>
    (\<forall>hp. pv = Some hp \<and> hp_policy_valid hp \<longrightarrow>
       shown = ss_home_temporal_presentation_format cm R (Some (hp_policy hp)) time (hp_use_24h hp))"
proof -
  obtain pv2 w2 where e: "ensure_presenter R fs path pv w = (pv2, w2)" by (rule prod.exhaust)
  note E = ensure_presenter_ok[OF e assms(2)]
  show ?thesis
  proof (cases pv2)
    case None
    then show ?thesis using assms(1) e E by (cases pv) (auto simp: ss_home_temporal_provider_format_def provider_ok_def)
  next
    case (Some hp)
    obtain x hp1 where f: "ss_home_temporal_presenter_format_now cm R time hp = (x, hp1)" by (rule prod.exhaust)
    have run: "home_run {(cm, R)} R hp" using E Some by (simp add: provider_ok_def)
    have "home_step {(cm, R)} hp hp1" using home_step.shown[of cm R "{(cm, R)}" hp time] f by simp
    from run_extends[OF run this] have "home_run {(cm, R)} R hp1" .
    moreover have "shown = x" "pv1 = Some hp1" using assms(1) e Some f by (auto simp: ss_home_temporal_provider_format_def)
    ultimately show ?thesis using format_now_cached[OF home_run_cache[OF run] f] E Some by (auto simp: provider_ok_def)
  qed
qed

lemma interval_ok:
  assumes "ss_home_temporal_provider_refresh_interval_ms R fs path pv w = (n, pv1, w1)" "provider_ok cm R pv"
  shows "n = HOME_TEMPORAL_REFRESH_INTERVAL_MS \<and> provider_ok cm R pv1 \<and> (pv \<noteq> None \<longrightarrow> pv1 = pv)"
proof -
  obtain pv2 w2 where e: "ensure_presenter R fs path pv w = (pv2, w2)" by (rule prod.exhaust)
  from ensure_presenter_ok[OF e assms(2)] show ?thesis using assms(1) e
    by (auto simp: ss_home_temporal_provider_refresh_interval_ms_def ss_home_temporal_presenter_refresh_interval_ms_def)
qed

text \<open>A refresh at the right interval changes no source; the labels are what the provider gives.\<close>

lemma refresh_law:
  assumes "refresh_home_temporal cm R fs path time tk pv w = (goes_on, tk1, pv1, w1)" "provider_ok cm R pv"
    and "ht_interval tk = HOME_TEMPORAL_REFRESH_INTERVAL_MS"
  shows "goes_on \<and> provider_ok cm R pv1 \<and> ht_source_id tk1 = ht_source_id tk \<and> ht_sources tk1 = ht_sources tk \<and>
    ht_interval tk1 = ht_interval tk \<and> ht_next tk1 = ht_next tk \<and>
    (\<exists>shown pv2 w2. ss_home_temporal_provider_format cm R fs path time pv w = (shown, pv2, w2) \<and>
       (ht_clock tk1, ht_date tk1, ht_system_time tk1) =
         (if shown = None then (ht_clock tk, ht_date tk, ht_system_time tk) else first_texts shown))"
proof -
  obtain shown pv2 w2 where f: "ss_home_temporal_provider_format cm R fs path time pv w = (shown, pv2, w2)" by (rule prod_cases3)
  obtain n pv3 w3 where i: "ss_home_temporal_provider_refresh_interval_ms R fs path pv2 w2 = (n, pv3, w3)" by (rule prod_cases3)
  have p: "provider_ok cm R pv2" using provider_format_ok[OF f assms(2)] by blast
  note I = interval_ok[OF i p]
  show ?thesis using assms(1,3) f i I
    by (cases shown) (auto simp: refresh_home_temporal_def first_texts_def)
qed

lemma start_law:
  assumes "start_home_temporal_ticker cm R fs path time tk pv w = (tk1, pv1, w1)" "provider_ok cm R pv" "ticks_ok tk"
  shows "ticks_ok tk1 \<and> provider_ok cm R pv1 \<and> ht_source_id tk1 \<noteq> 0"
proof (cases "ht_source_id tk = 0")
  case False
  then show ?thesis using assms by (simp add: start_home_temporal_ticker_def)
next
  case True
  obtain n pv2 w2 where i: "ss_home_temporal_provider_refresh_interval_ms R fs path pv w = (n, pv2, w2)" by (rule prod_cases3)
  note I = interval_ok[OF i assms(2)]
  obtain g tk2 pv3 w3 where r: "refresh_home_temporal cm R fs path time (tk\<lparr>ht_interval := n\<rparr>) pv2 w2 = (g, tk2, pv3, w3)"
    by (metis prod.collapse)
  have "ht_interval (tk\<lparr>ht_interval := n\<rparr>) = HOME_TEMPORAL_REFRESH_INTERVAL_MS" using I by simp
  note L = refresh_law[OF r _ this]
  have "tk1 = (if ht_source_id tk2 = 0 then add_tick_source (ht_interval tk2) tk2 else tk2)" "pv1 = pv3"
    using assms(1) True i r by (simp_all add: start_home_temporal_ticker_def)
  then show ?thesis using L I True assms(3) by (auto simp: ticks_ok_def add_tick_source_def)
qed

lemma tick_law:
  assumes "fire_tick cm R fs path time i tk pv w = (tk1, pv1, w1)" "provider_ok cm R pv" "ticks_ok tk"
  shows "ticks_ok tk1 \<and> provider_ok cm R pv1"
proof (cases "i \<in> fst ` set (ht_sources tk)")
  case False
  then show ?thesis using assms by (simp add: fire_tick_def)
next
  case True
  then have n: "ht_interval tk = HOME_TEMPORAL_REFRESH_INTERVAL_MS" using assms(3) by (auto simp: ticks_ok_def split: if_splits)
  obtain g tk2 pv2 w2 where r: "refresh_home_temporal cm R fs path time tk pv w = (g, tk2, pv2, w2)" by (metis prod.collapse)
  from refresh_law[OF r assms(2) n] show ?thesis using assms(1,3) True r by (auto simp: fire_tick_def ticks_ok_def)
qed

lemma home_page_run_ok:
  "(home_page_step cm R)\<^sup>*\<^sup>* st st' \<Longrightarrow> ticks_ok (fst st) \<and> provider_ok cm R (snd st) \<Longrightarrow> ticks_ok (fst st') \<and> provider_ok cm R (snd st')"
proof (induction rule: rtranclp_induct)
  case (step x y)
  then have "ticks_ok (fst x)" "provider_ok cm R (snd x)" by blast+
  with step(2) show ?case
  proof (cases rule: home_page_step.cases)
    case (mapped fs path time tk pv w tk1 pv1 w1)
    then show ?thesis using start_law[OF mapped(3)] \<open>ticks_ok (fst x)\<close> \<open>provider_ok cm R (snd x)\<close> by simp
  next
    case (unmapped tk pv)
    then show ?thesis using \<open>ticks_ok (fst x)\<close> \<open>provider_ok cm R (snd x)\<close> by (auto simp: ticks_ok_def stop_home_temporal_ticker_def)
  next
    case (tick fs path time i tk pv w tk1 pv1 w1)
    then show ?thesis using tick_law[OF tick(3)] \<open>ticks_ok (fst x)\<close> \<open>provider_ok cm R (snd x)\<close> by simp
  next
    case (presenter_event hp hp1 tk)
    then show ?thesis using run_extends \<open>ticks_ok (fst x)\<close> \<open>provider_ok cm R (snd x)\<close> by (auto simp: provider_ok_def)
  qed
qed

text \<open>
  C22: the Home page shows the policy. In every order of mapping, unmapping, ticks and events of its presenter there
  is at most one tick source, once a minute, none after an unmapping, and a tick with a policy shows exactly the
  texts that formatting this policy afresh gives, or keeps what is shown when there are none; no presenter is made
  a second time.
\<close>

theorem home_page_shows_policy:
  assumes "(home_page_step cm R)\<^sup>*\<^sup>* (new_home_ticker shown, ss_home_temporal_provider_new) (tk, pv)"
  shows "(ht_sources tk = [] \<or> ht_sources tk = [(ht_source_id tk, 60000)]) \<and> ht_sources (stop_home_temporal_ticker tk) = [] \<and>
    (\<forall>hp tk1 pv1 w1. pv = Some hp \<and> hp_policy_valid hp \<and> ht_source_id tk \<noteq> 0 \<and>
       fire_tick cm R fs path time (ht_source_id tk) tk pv w = (tk1, pv1, w1) \<longrightarrow>
       ht_sources tk1 = ht_sources tk \<and> pv1 \<noteq> None \<and> w1 = w \<and>
       (ht_clock tk1, ht_date tk1, ht_system_time tk1) =
         (case ss_home_temporal_presentation_format cm R (Some (hp_policy hp)) time (hp_use_24h hp) of
            None \<Rightarrow> (ht_clock tk, ht_date tk, ht_system_time tk) | Some s \<Rightarrow> first_texts (Some s)))"
proof -
  have "ticks_ok (new_home_ticker shown)" "provider_ok cm R ss_home_temporal_provider_new"
    by (auto simp: new_home_ticker_def ticks_ok_def provider_ok_def ss_home_temporal_provider_new_def split: prod.split)
  with home_page_run_ok[OF assms] have ok: "ticks_ok tk" "provider_ok cm R pv" by simp_all
  have "ht_sources tk1 = ht_sources tk \<and> pv1 \<noteq> None \<and> w1 = w \<and>
       (ht_clock tk1, ht_date tk1, ht_system_time tk1) =
         (case ss_home_temporal_presentation_format cm R (Some (hp_policy hp)) time (hp_use_24h hp) of
            None \<Rightarrow> (ht_clock tk, ht_date tk, ht_system_time tk) | Some s \<Rightarrow> first_texts (Some s))"
    if h: "pv = Some hp" "hp_policy_valid hp" "ht_source_id tk \<noteq> 0" "fire_tick cm R fs path time (ht_source_id tk) tk pv w = (tk1, pv1, w1)"
    for hp tk1 pv1 w1
  proof -
    have s: "ht_sources tk = [(ht_source_id tk, ht_interval tk)]" "ht_interval tk = HOME_TEMPORAL_REFRESH_INTERVAL_MS"
      using ok(1) h(3) by (simp_all add: ticks_ok_def)
    obtain g tk2 pv2 w2 where r: "refresh_home_temporal cm R fs path time tk pv w = (g, tk2, pv2, w2)" by (metis prod.collapse)
    note L = refresh_law[OF r ok(2) s(2)]
    have e: "tk1 = tk2" "pv1 = pv2" "w1 = w2" using h(4) s(1) r L by (auto simp: fire_tick_def)
    obtain x hp1 where f: "ss_home_temporal_presenter_format_now cm R time hp = (x, hp1)" by (rule prod.exhaust)
    have pf: "ss_home_temporal_provider_format cm R fs path time pv w = (x, Some hp1, w)"
      using h(1) f by (simp add: ss_home_temporal_provider_format_def ensure_presenter_def)
    have "pv2 = Some hp1" "w2 = w"
      using r pf by (auto simp: refresh_home_temporal_def Let_def ss_home_temporal_provider_refresh_interval_ms_def
          ensure_presenter_def split: if_splits)
    moreover have "x = ss_home_temporal_presentation_format cm R (Some (hp_policy hp)) time (hp_use_24h hp)"
      using provider_format_ok[OF pf ok(2)] h(1,2) by blast
    ultimately show ?thesis using L pf e by (auto split: option.split)
  qed
  then show ?thesis using ok(1)
    by (auto simp: ticks_ok_def stop_home_temporal_ticker_def HOME_TEMPORAL_REFRESH_INTERVAL_MS_def split: if_splits)
qed

section \<open>An instance\<close>

lemma mapped_waiting:
  "start_home_temporal_ticker sample_common sample_runtime bare_home (Some sample_target) time (new_home_ticker None) None unreadable_world
     = (add_tick_source 60000 ((new_home_ticker None)\<lparr>ht_interval := 60000\<rparr>), Some waiting_presenter,
        snd (ss_home_temporal_presenter_new sample_runtime bare_home (Some sample_target) unreadable_world))"
proof -
  obtain w1 where n: "ss_home_temporal_presenter_new sample_runtime bare_home (Some sample_target) unreadable_world = (Some waiting_presenter, w1)"
    using waiting_new by (metis prod.collapse)
  have "\<not> hp_policy_valid waiting_presenter"
    by (simp add: waiting_presenter_def schedule_policy_reload_retry_def zeroed_presenter_def Let_def)
  then have f: "ss_home_temporal_presenter_format_now cm R t waiting_presenter = (None, waiting_presenter)" for cm R t
    by (simp add: ss_home_temporal_presenter_format_now_def)
  show ?thesis
    by (simp add: start_home_temporal_ticker_def ss_home_temporal_provider_refresh_interval_ms_def ensure_presenter_def n f
        refresh_home_temporal_def ss_home_temporal_provider_format_def ss_home_temporal_presenter_refresh_interval_ms_def
        HOME_TEMPORAL_REFRESH_INTERVAL_MS_def new_home_ticker_def first_texts_def)
qed

theorem home_page_shows_policy_witness:
  "\<exists>tk hp. ht_sources tk = [(1, 60000)] \<and>
     (let tk1 = fst (fire_tick sample_common sample_runtime bare_home None (Some sample_instant) 1 tk (Some hp) sample_world)
      in ht_sources tk1 = [(1, 60000)] \<and> (ht_clock tk1, ht_date tk1, ht_system_time tk1) =
         (case ss_home_temporal_presentation_format sample_common sample_runtime (Some (sample_policy\<lparr>show_seconds := False\<rparr>))
                 (Some sample_instant) True of
            None \<Rightarrow> (ht_clock tk, ht_date tk, ht_system_time tk) | Some s \<Rightarrow> first_texts (Some s)))"
proof -
  define tk where "tk = add_tick_source 60000 ((new_home_ticker None)\<lparr>ht_interval := 60000\<rparr>)"
  define hp where "hp = fst (fire_reload 1 waiting_presenter sample_world)"
  have "home_page_step sample_common sample_runtime (new_home_ticker None, ss_home_temporal_provider_new) (tk, Some waiting_presenter)"
    unfolding ss_home_temporal_provider_new_def tk_def by (rule home_page_step.mapped[OF mapped_waiting])
  moreover have "home_page_step sample_common sample_runtime (tk, Some waiting_presenter) (tk, Some hp)"
    unfolding hp_def by (intro home_page_step.presenter_event home_step.reload)
  ultimately have r: "(home_page_step sample_common sample_runtime)\<^sup>*\<^sup>* (new_home_ticker None, ss_home_temporal_provider_new) (tk, Some hp)"
    by (meson r_into_rtranclp rtranclp.rtrancl_into_rtrancl)
  have h: "hp_policy_valid hp" "hp_policy hp = sample_policy\<lparr>show_seconds := False\<rparr>" "hp_use_24h hp = True"
    using sample_loads(1,3) waiting_fields
    by (simp_all add: hp_def fire_reload_def retry_policy_reload_def presenter_reload_policy_def drop_source_def
        ss_platform_temporal_policy_store_def) (simp add: waiting_presenter_def schedule_policy_reload_retry_def zeroed_presenter_def Let_def)
  have t: "ht_source_id tk = 1" "ht_sources tk = [(1, 60000)]"
    by (simp_all add: tk_def add_tick_source_def new_home_ticker_def first_texts_def)
  obtain tk1 pv1 w1 where f: "fire_tick sample_common sample_runtime bare_home None (Some sample_instant) (ht_source_id tk) tk (Some hp)
      sample_world = (tk1, pv1, w1)" by (rule prod_cases3)
  show ?thesis
  proof (intro exI[of _ tk] exI[of _ hp])
    show "ht_sources tk = [(1, 60000)] \<and>
      (let tk1 = fst (fire_tick sample_common sample_runtime bare_home None (Some sample_instant) 1 tk (Some hp) sample_world)
       in ht_sources tk1 = [(1, 60000)] \<and> (ht_clock tk1, ht_date tk1, ht_system_time tk1) =
         (case ss_home_temporal_presentation_format sample_common sample_runtime (Some (sample_policy\<lparr>show_seconds := False\<rparr>))
                 (Some sample_instant) True of
            None \<Rightarrow> (ht_clock tk, ht_date tk, ht_system_time tk) | Some s \<Rightarrow> first_texts (Some s)))"
      using home_page_shows_policy[OF r] h t f by (simp add: Let_def)
  qed
qed

end
