(* ===== verification/LinuxTheme.thy ===== *)
theory LinuxTheme
  imports "HOL-Library.Word" Prelude
begin

unbundle bit_operations_syntax

text \<open>
  \<open>linux-theme.c\<close>, which keeps one style sheet of the program on the display, and the pictures of
  \<open>linux-ui-helpers.c\<close>, which are read after the first frame. A style sheet is what it is printed from: a palette,
  metrics and a typography of Common; its text is left out.
\<close>

section \<open>Colours\<close>

definition hex_digit :: "nat \<Rightarrow> char" where
  "hex_digit n = char_of (if n < 10 then 48 + n else 87 + n)"

text \<open>\<open>%06x\<close> of a number below \<open>2 ^ 24\<close>.\<close>

definition rgb_css :: "32 word \<Rightarrow> string" where
  "rgb_css rgb =
     (let n = unat (rgb AND 0xFFFFFF) in CHR ''#'' # map (\<lambda>i. hex_digit (n div 16 ^ (5 - i) mod 16)) [0 ..< 6])"

definition hex_value :: "char \<Rightarrow> nat" where
  "hex_value c = (if code_of c < 58 then code_of c - 48 else code_of c - 87)"

definition hex_number :: "string \<Rightarrow> nat" where
  "hex_number s = foldl (\<lambda>n c. 16 * n + hex_value c) 0 s"

lemma hex_value_digit: "n < 16 \<Longrightarrow> hex_value (hex_digit n) = n"
  by (simp add: hex_value_def hex_digit_def)

lemma hex_shift: "16 * (n div 16 ^ Suc k) + n div 16 ^ k mod 16 = n div 16 ^ (k :: nat)" for n :: nat
  by (metis div_mult2_eq mult_div_mod_eq power_Suc2)

lemma six_digits: "n < 16 ^ 6 \<Longrightarrow>
    16 * (16 * (16 * (16 * (16 * (n div 16 ^ 5 mod 16) + n div 16 ^ 4 mod 16) + n div 16 ^ 3 mod 16) + n div 16 ^ 2 mod 16) +
      n div 16 mod 16) + n mod 16 = (n :: nat)"
proof -
  assume "n < 16 ^ 6"
  then have "n div 16 ^ 5 mod 16 = n div 16 ^ 5" by (simp add: less_mult_imp_div_less)
  then show ?thesis
    using hex_shift[of n 4] hex_shift[of n 3] hex_shift[of n 2] hex_shift[of n 1] hex_shift[of n 0] by simp
qed

text \<open>A colour is read back as its low 24 bits.\<close>

lemma rgb_css_read_back: "length (rgb_css rgb) = 7 \<and> hex_number (tl (rgb_css rgb)) = unat (rgb AND 0xFFFFFF)"
proof -
  define n where "n = unat (rgb AND 0xFFFFFF)"
  have "n < 16 ^ 6"
  proof -
    have "rgb AND 0xFFFFFF = take_bit 24 rgb" by (simp add: take_bit_eq_mask mask_eq_exp_minus_1)
    then have "n = take_bit 24 (unat rgb)" by (simp add: n_def unsigned_take_bit_eq)
    then show ?thesis using take_bit_nat_less_exp[of 24 "unat rgb"] by simp
  qed
  from six_digits[OF this] show ?thesis
    by (simp add: rgb_css_def Let_def n_def[symmetric] hex_number_def upt_rec hex_value_digit)
qed

section \<open>The style sheet of the program\<close>

record 't typography =
  ui_family :: "string option"
  brand_family :: "string option"
  faces :: 't

text \<open>What Common and GTK give: the settings are whether dark is preferred and the name of the theme.\<close>

record ('p, 'm, 't) theme_library =
  ascii_contains_ci :: "string \<Rightarrow> string \<Rightarrow> bool"
  theme_resolve :: "bool \<Rightarrow> 'p option"
  design_metrics :: "'m option"
  typography_of :: "'t typography option"

record desktop_theme =
  gtk_settings :: "(bool \<times> string option) option"
  has_display :: bool

type_synonym ('p, 'm, 't) sheet = "'p \<times> 'm \<times> 't typography"

record ('p, 'm, 't) theme =
  common_theme_provider :: "nat option"
  common_theme_watch_installed :: bool
  common_theme_state_valid :: bool
  common_theme_dark :: bool
  common_theme_generation :: "32 word"
  on_display :: "(nat \<times> ('p, 'm, 't) sheet) list"
  next_provider :: nat
  theme_handlers :: "string list"

definition initial_theme :: "('p, 'm, 't) theme" where
  "initial_theme = \<lparr>common_theme_provider = None, common_theme_watch_installed = False, common_theme_state_valid = False,
     common_theme_dark = False, common_theme_generation = 0, on_display = [], next_provider = 1, theme_handlers = []\<rparr>"

definition system_prefers_dark :: "('p, 'm, 't) theme_library \<Rightarrow> desktop_theme \<Rightarrow> bool" where
  "system_prefers_dark C D =
     (case gtk_settings D of
        None \<Rightarrow> False
      | Some (prefer_dark, theme_name) \<Rightarrow>
          prefer_dark \<or> (case theme_name of None \<Rightarrow> False | Some n \<Rightarrow> ascii_contains_ci C n ''dark''))"

definition sheet_for :: "('p, 'm, 't) theme_library \<Rightarrow> bool \<Rightarrow> ('p, 'm, 't) sheet option" where
  "sheet_for C dark =
     (case (theme_resolve C dark, design_metrics C, typography_of C) of
        (Some p, Some m, Some t) \<Rightarrow> if ui_family t = None \<or> brand_family t = None then None else Some (p, m, t)
      | _ \<Rightarrow> None)"

text \<open>The new provider takes the place of the old one.\<close>

definition replace_provider :: "bool \<Rightarrow> ('p, 'm, 't) sheet \<Rightarrow> ('p, 'm, 't) theme \<Rightarrow> ('p, 'm, 't) theme" where
  "replace_provider dark sheet th =
     (let provider = next_provider th;
          kept = (case common_theme_provider th of None \<Rightarrow> on_display th
                  | Some old \<Rightarrow> filter (\<lambda>(i, s). i \<noteq> old) (on_display th))
      in th\<lparr>common_theme_provider := Some provider, on_display := (provider, sheet) # kept,
            next_provider := provider + 1, common_theme_dark := dark, common_theme_state_valid := True,
            common_theme_generation := common_theme_generation th + 1\<rparr>)"

definition ss_linux_theme_install ::
  "('p, 'm, 't) theme_library \<Rightarrow> desktop_theme \<Rightarrow> ('p, 'm, 't) theme \<Rightarrow> ('p, 'm, 't) theme" where
  "ss_linux_theme_install C D th =
     (let dark = system_prefers_dark C D in
      if common_theme_provider th \<noteq> None \<and> common_theme_state_valid th \<and> common_theme_dark th = dark then th
      else
        (case sheet_for C dark of
           None \<Rightarrow> th
         | Some sheet \<Rightarrow> if \<not> has_display D then th else replace_provider dark sheet th))"

definition ss_linux_theme_watch :: "desktop_theme \<Rightarrow> ('p, 'm, 't) theme \<Rightarrow> ('p, 'm, 't) theme" where
  "ss_linux_theme_watch D th =
     (if common_theme_watch_installed th then th
      else
        (case gtk_settings D of
           None \<Rightarrow> th
         | Some v \<Rightarrow>
             th\<lparr>theme_handlers := theme_handlers th @ [''notify::gtk-theme-name'', ''notify::gtk-application-prefer-dark-theme''],
                common_theme_watch_installed := True\<rparr>))"

definition ss_linux_theme_generation :: "('p, 'm, 't) theme \<Rightarrow> 32 word" where
  "ss_linux_theme_generation th = common_theme_generation th"

text \<open>Opening a window installs and watches; a signal of the desktop installs.\<close>

inductive theme_step :: "('p, 'm, 't) theme_library \<Rightarrow> ('p, 'm, 't) theme \<Rightarrow> ('p, 'm, 't) theme \<Rightarrow> bool" for C where
  opened: "theme_step C th (ss_linux_theme_watch D (ss_linux_theme_install C D th))"
| changed: "signal \<in> set (theme_handlers th) \<Longrightarrow> theme_step C th (ss_linux_theme_install C D th)"

definition theme_ok :: "('p, 'm, 't) theme_library \<Rightarrow> ('p, 'm, 't) theme \<Rightarrow> bool" where
  "theme_ok C th \<longleftrightarrow>
     (case common_theme_provider th of
        None \<Rightarrow> on_display th = [] \<and> next_provider th = 1
      | Some i \<Rightarrow> common_theme_state_valid th \<and> i < next_provider th \<and>
          (\<exists>sheet. sheet_for C (common_theme_dark th) = Some sheet \<and> on_display th = [(i, sheet)])) \<and>
     common_theme_generation th = word_of_nat (next_provider th - 1) \<and> 0 < next_provider th \<and>
     theme_handlers th =
       (if common_theme_watch_installed th then [''notify::gtk-theme-name'', ''notify::gtk-application-prefer-dark-theme''] else [])"

lemma install_ok:
  assumes "theme_ok C th"
  shows "theme_ok C (ss_linux_theme_install C D th)"
proof (cases "sheet_for C (system_prefers_dark C D)")
  case None
  then show ?thesis using assms by (simp add: ss_linux_theme_install_def replace_provider_def Let_def)
next
  case (Some sheet)
  obtain p m t where "sheet = (p, m, t)" by (rule prod_cases3)
  moreover have "word_of_nat (next_provider th) = (word_of_nat (next_provider th - 1) + 1 :: 32 word)"
    using assms by (simp add: theme_ok_def of_nat_diff)
  ultimately show ?thesis using assms Some
    by (auto simp: ss_linux_theme_install_def replace_provider_def Let_def theme_ok_def split: option.splits)
qed

lemma watch_ok: "theme_ok C th \<Longrightarrow> theme_ok C (ss_linux_theme_watch D th)"
  by (auto simp: ss_linux_theme_watch_def theme_ok_def split: option.splits)

inductive_cases theme_stepE [elim!]: "theme_step C th th'"

lemma theme_run_ok: "(theme_step C)\<^sup>*\<^sup>* th th' \<Longrightarrow> theme_ok C th \<Longrightarrow> theme_ok C th'"
proof (induction rule: rtranclp_induct)
  case (step x y)
  then show ?case by (auto intro: install_ok watch_ok)
qed

text \<open>
  C39: in every order of windows and changes of the desktop there is at most one style sheet of the program on the
  display, made for the preference that was last installed, and at most one handler of each signal; the
  generation counts the style sheets made, modulo \<open>2 ^ 32\<close>. When it can be made, the style sheet after an
  installation is the one of the present preference, and a further installation changes nothing.
\<close>

theorem theme_follows_desktop:
  assumes "(theme_step C)\<^sup>*\<^sup>* initial_theme th"
  shows "length (on_display th) \<le> 1 \<and> distinct (theme_handlers th) \<and>
    ss_linux_theme_generation th = word_of_nat (next_provider th - 1) \<and>
    (let th1 = ss_linux_theme_install C D th in
       (sheet_for C (system_prefers_dark C D) \<noteq> None \<and> (has_display D \<or> on_display th \<noteq> [] \<and> common_theme_dark th = system_prefers_dark C D) \<longrightarrow>
          map (Some \<circ> snd) (on_display th1) = [sheet_for C (system_prefers_dark C D)]) \<and>
       ss_linux_theme_install C D th1 = th1 \<and>
       ss_linux_theme_generation th1 - ss_linux_theme_generation th = (if th1 = th then 0 else 1))"
proof -
  have "theme_ok C (initial_theme :: ('a, 'b, 'c) theme)" by (simp add: theme_ok_def initial_theme_def)
  from theme_run_ok[OF assms this] have ok: "theme_ok C th" .
  from install_ok[OF this, of D] have ok1: "theme_ok C (ss_linux_theme_install C D th)" .
  define th1 where "th1 = ss_linux_theme_install C D th"
  have len: "length (on_display th) \<le> 1" "distinct (theme_handlers th)"
    "ss_linux_theme_generation th = word_of_nat (next_provider th - 1)"
    using ok by (auto simp: theme_ok_def ss_linux_theme_generation_def split: option.splits)
  have a: "th1 = th \<or> common_theme_provider th1 = Some (next_provider th) \<and> common_theme_state_valid th1 \<and>
      common_theme_dark th1 = system_prefers_dark C D \<and> common_theme_generation th1 = common_theme_generation th + 1 \<and>
      next_provider th1 = next_provider th + 1"
    by (simp add: th1_def ss_linux_theme_install_def replace_provider_def Let_def split: option.split)
  have again: "ss_linux_theme_install C D th1 = th1"
  proof (cases "th1 = th")
    case True
    then show ?thesis by (simp add: th1_def)
  next
    case False
    then show ?thesis using a by (simp add: ss_linux_theme_install_def replace_provider_def)
  qed
  have gen: "ss_linux_theme_generation th1 - ss_linux_theme_generation th = (if th1 = th then 0 else 1)"
    using a by (auto simp: ss_linux_theme_generation_def)
  have shown: "map (Some \<circ> snd) (on_display th1) = [sheet_for C (system_prefers_dark C D)]"
    if h: "sheet_for C (system_prefers_dark C D) \<noteq> None"
      "has_display D \<or> on_display th \<noteq> [] \<and> common_theme_dark th = system_prefers_dark C D"
  proof -
    have "common_theme_provider th1 \<noteq> None \<and> common_theme_dark th1 = system_prefers_dark C D"
      using h ok by (auto simp: th1_def ss_linux_theme_install_def replace_provider_def Let_def theme_ok_def split: option.splits)
    then show ?thesis using ok1 by (auto simp: th1_def[symmetric] theme_ok_def split: option.splits)
  qed
  show ?thesis unfolding Let_def th1_def[symmetric] using len again gen shown by blast
qed

section \<open>Pictures read after the first frame\<close>

text \<open>A load is the picture, the file name and its source; a source has a delay in milliseconds.\<close>

record picture_loader =
  deferred_picture_sequence :: "32 word"
  loads :: "(nat \<times> string \<times> nat) list"
  picture_sources :: "(nat \<times> nat) list"
  pictures_alive :: "nat list"
  pictures_read :: "(nat \<times> string) list"
  next_id :: nat

definition no_pictures :: picture_loader where
  "no_pictures = \<lparr>deferred_picture_sequence = 0, loads = [], picture_sources = [], pictures_alive = [], pictures_read = [], next_id = 1\<rparr>"

definition picture_delay :: "32 word \<Rightarrow> nat" where
  "picture_delay sequence = 16 + unat (sequence mod 8) * 16"

definition ss_linux_ui_picture_new_for_filename :: "string option \<Rightarrow> picture_loader \<Rightarrow> nat \<times> picture_loader" where
  "ss_linux_ui_picture_new_for_filename filename pl =
     (let picture = next_id pl; pl1 = pl\<lparr>next_id := picture + 1, pictures_alive := picture # pictures_alive pl\<rparr> in
      case filename of
        None \<Rightarrow> (picture, pl1)
      | Some f \<Rightarrow>
          if f = [] then (picture, pl1)
          else
            (let source = next_id pl1 in
             (picture, pl1\<lparr>deferred_picture_sequence := deferred_picture_sequence pl1 + 1, next_id := source + 1,
                picture_sources := (source, picture_delay (deferred_picture_sequence pl1)) # picture_sources pl1,
                loads := (picture, f, source) # loads pl1\<rparr>)))"

text \<open>The source that fires is removed; freeing the load then finds no source to remove.\<close>

definition deferred_picture_load_cb :: "nat \<Rightarrow> picture_loader \<Rightarrow> picture_loader" where
  "deferred_picture_load_cb source pl =
     (case find (\<lambda>(p, f, s). s = source) (loads pl) of
        None \<Rightarrow> pl
      | Some (picture, f, s) \<Rightarrow>
          pl\<lparr>pictures_read := (if f \<noteq> [] then (picture, f) # pictures_read pl else pictures_read pl),
             loads := filter (\<lambda>(p, f, s). p \<noteq> picture) (loads pl),
             picture_sources := filter (\<lambda>(i, d). i \<noteq> source) (picture_sources pl)\<rparr>)"

definition deferred_picture_load_free :: "nat \<times> string \<times> nat \<Rightarrow> picture_loader \<Rightarrow> picture_loader" where
  "deferred_picture_load_free load pl =
     (let (p, f, source) = load in
      if source \<noteq> 0 then pl\<lparr>picture_sources := filter (\<lambda>(i, d). i \<noteq> source) (picture_sources pl)\<rparr> else pl)"

text \<open>The end of a picture frees the load it carries.\<close>

definition picture_destroyed :: "nat \<Rightarrow> picture_loader \<Rightarrow> picture_loader" where
  "picture_destroyed picture pl =
     (let gone = filter (\<lambda>(p, f, s). p = picture) (loads pl);
          pl1 = fold deferred_picture_load_free gone pl
      in pl1\<lparr>loads := filter (\<lambda>(p, f, s). p \<noteq> picture) (loads pl), pictures_alive := remove1 picture (pictures_alive pl)\<rparr>)"

inductive picture_step :: "picture_loader \<Rightarrow> picture_loader \<Rightarrow> bool" where
  made: "picture_step pl (snd (ss_linux_ui_picture_new_for_filename filename pl))"
| fires: "source \<in> fst ` set (picture_sources pl) \<Longrightarrow> picture_step pl (deferred_picture_load_cb source pl)"
| destroyed: "picture \<in> set (pictures_alive pl) \<Longrightarrow> picture_step pl (picture_destroyed picture pl)"

definition pictures_ok :: "picture_loader \<Rightarrow> bool" where
  "pictures_ok pl \<longleftrightarrow>
     map (\<lambda>(p, f, s). s) (loads pl) = map fst (picture_sources pl) \<and>
     distinct (map fst (picture_sources pl)) \<and> distinct (map fst (loads pl)) \<and> distinct (pictures_alive pl) \<and>
     distinct (map fst (pictures_read pl)) \<and> 0 < next_id pl \<and>
     (\<forall>p f s. (p, f, s) \<in> set (loads pl) \<longrightarrow>
        p \<in> set (pictures_alive pl) \<and> f \<noteq> [] \<and> 0 < s \<and> s < next_id pl \<and> p \<notin> set (map fst (pictures_read pl))) \<and>
     (\<forall>i d. (i, d) \<in> set (picture_sources pl) \<longrightarrow> 16 \<le> d \<and> d \<le> 128) \<and>
     (\<forall>p \<in> set (pictures_alive pl). p < next_id pl) \<and> (\<forall>p \<in> set (map fst (pictures_read pl)). p < next_id pl)"

lemma filter_one:
  "distinct (map fst L) \<Longrightarrow> (p, f, s) \<in> set L \<Longrightarrow> filter (\<lambda>(p', f', s'). p' = p) L = [(p, f, s)]"
proof (induction L)
  case (Cons x L)
  obtain q g r where x: "x = (q, g, r)" by (rule prod_cases3)
  show ?case
  proof (cases "q = p")
    case True
    then have "x = (p, f, s)" "p \<notin> fst ` set L" using Cons(2,3) x by force+
    then have "filter (\<lambda>(p', a). p' = p) L = []" by (force simp: filter_empty_conv)
    then show ?thesis using \<open>x = (p, f, s)\<close> by simp
  next
    case False
    then show ?thesis using Cons x by auto
  qed
qed simp

lemma filter_same:
  assumes "distinct (map fst L)" "distinct (map (\<lambda>(p, f, s). s) L)" "(p, f, s) \<in> set L"
  shows "filter (\<lambda>(p', f', s'). p' \<noteq> p) L = filter (\<lambda>(p', f', s'). s' \<noteq> s) L"
proof (rule filter_cong[OF refl])
  fix x
  assume x: "x \<in> set L"
  have "x = (p, f, s)" if "fst x = p" using eq_key_imp_eq_value[OF assms(1), of p "snd x" "(f, s)"] that x assms(3) by (cases x) auto
  moreover have "x = (p, f, s)" if "snd (snd x) = s"
    using inj_onD[OF iffD1[OF distinct_map, OF assms(2), THEN conjunct2], of x "(p, f, s)"] that x assms(3) by (cases x) auto
  ultimately show "(case x of (p', f', s') \<Rightarrow> p' \<noteq> p) = (case x of (p', f', s') \<Rightarrow> s' \<noteq> s)" by (cases x) auto
qed

lemma filter_third: "map (\<lambda>(p, f, s). s) (filter (\<lambda>(p, f, s). s \<noteq> x) L) = filter (\<lambda>i. i \<noteq> x) (map (\<lambda>(p, f, s). s) L)"
  by (induction L) auto

lemma filter_first: "map fst (filter (\<lambda>(i, d). i \<noteq> x) S) = filter (\<lambda>i. i \<noteq> x) (map fst S)"
  by (induction S) auto

text \<open>Taking a load away with its source keeps the rest.\<close>

lemma remove_load_ok:
  assumes ok: "pictures_ok pl" and x: "(p, f, s) \<in> set (loads pl)"
  shows "pictures_ok (pl\<lparr>loads := filter (\<lambda>(p', f', s'). p' \<noteq> p) (loads pl), picture_sources := filter (\<lambda>(i, d). i \<noteq> s) (picture_sources pl)\<rparr>)"
proof -
  have d: "distinct (map fst (loads pl))" "map (\<lambda>(p, f, s). s) (loads pl) = map fst (picture_sources pl)"
    "distinct (map fst (picture_sources pl))" using ok by (simp_all add: pictures_ok_def)
  have "map (\<lambda>(p, f, s). s) (filter (\<lambda>(p', f', s'). p' \<noteq> p) (loads pl)) = map fst (filter (\<lambda>(i, d). i \<noteq> s) (picture_sources pl))"
    using filter_same[OF d(1) _ x] d(2,3) filter_third[of s "loads pl"] filter_first[of s "picture_sources pl"] by simp
  moreover have "distinct (map fst (filter (\<lambda>(p', f', s'). p' \<noteq> p) (loads pl)))"
    "distinct (map fst (filter (\<lambda>(i, d). i \<noteq> s) (picture_sources pl)))"
    using d(1,3) by (simp_all add: distinct_map_filter)
  ultimately show ?thesis using ok unfolding pictures_ok_def by simp blast
qed

lemma made_ok:
  assumes ok: "pictures_ok pl"
  shows "pictures_ok (snd (ss_linux_ui_picture_new_for_filename filename pl))"
proof -
  have "unat (sequence mod 8) \<le> 7" for sequence :: "32 word"
    using word_mod_less_divisor[of 8 sequence] by (simp add: word_less_nat_alt)
  then have delay: "16 \<le> picture_delay sequence \<and> picture_delay sequence \<le> 128" for sequence by (simp add: picture_delay_def)
  have fresh: "next_id pl \<notin> set (pictures_alive pl)" "next_id pl \<notin> set (map fst (pictures_read pl))"
    "next_id pl \<notin> set (map fst (loads pl))" "Suc (next_id pl) \<notin> set (map fst (picture_sources pl))"
    "\<And>p f s. (p, f, s) \<in> set (loads pl) \<Longrightarrow> s < next_id pl"
    using ok unfolding pictures_ok_def by (blast, blast, fastforce, metis (no_types, lifting) Suc_lessD case_prod_unfold
      imageE less_irrefl list.set_map prod.collapse, blast)
  show ?thesis
  proof (cases "filename = None \<or> filename = Some []")
    case True
    then have "snd (ss_linux_ui_picture_new_for_filename filename pl) =
        pl\<lparr>next_id := Suc (next_id pl), pictures_alive := next_id pl # pictures_alive pl\<rparr>"
      by (auto simp: ss_linux_ui_picture_new_for_filename_def Let_def)
    then show ?thesis using ok fresh(1) unfolding pictures_ok_def by (simp add: less_Suc_eq)
  next
    case False
    then obtain g where g: "filename = Some g" "g \<noteq> []" by auto
    show ?thesis using ok fresh delay g
      unfolding pictures_ok_def by (simp add: ss_linux_ui_picture_new_for_filename_def Let_def less_Suc_eq)
  qed
qed

lemma fires_ok:
  assumes ok: "pictures_ok pl" and src: "source \<in> fst ` set (picture_sources pl)"
  shows "\<exists>p f. (p, f, source) \<in> set (loads pl) \<and> pictures_ok (deferred_picture_load_cb source pl) \<and>
    pictures_read (deferred_picture_load_cb source pl) = (p, f) # pictures_read pl \<and>
    map fst (picture_sources (deferred_picture_load_cb source pl)) = filter (\<lambda>i. i \<noteq> source) (map fst (picture_sources pl))"
proof -
  have m: "map (\<lambda>(p, f, s). s) (loads pl) = map fst (picture_sources pl)" using ok by (simp add: pictures_ok_def)
  have "source \<in> set (map (\<lambda>(p, f, s). s) (loads pl))" using src unfolding m by simp
  then obtain x where fd: "find (\<lambda>(p, f, s). s = source) (loads pl) = Some x"
    by (cases "find (\<lambda>(p, f, s). s = source) (loads pl)") (auto simp: find_None_iff)
  then have "x \<in> set (loads pl)" "(\<lambda>(p, f, s). s = source) x" by (auto simp: find_Some_iff in_set_conv_nth)
  then obtain p f where x: "x = (p, f, source)" "(p, f, source) \<in> set (loads pl)" by (cases x) auto
  have f: "f \<noteq> []" "p \<notin> set (map fst (pictures_read pl))" "p \<in> set (pictures_alive pl)"
    using ok x(2) unfolding pictures_ok_def by blast+
  then have lt: "p < next_id pl" using ok unfolding pictures_ok_def by blast
  define pl1 where "pl1 = pl\<lparr>loads := filter (\<lambda>(p', f', s'). p' \<noteq> p) (loads pl), picture_sources := filter (\<lambda>(i, d). i \<noteq> source) (picture_sources pl)\<rparr>"
  have ok1: "pictures_ok pl1" unfolding pl1_def by (rule remove_load_ok[OF ok x(2)])
  have e: "deferred_picture_load_cb source pl = pl1\<lparr>pictures_read := (p, f) # pictures_read pl\<rparr>"
    using fd x(1) f by (simp add: deferred_picture_load_cb_def pl1_def)
  have r: "pictures_read pl1 = pictures_read pl" "\<And>p' f' s'. (p', f', s') \<in> set (loads pl1) \<Longrightarrow> p' \<noteq> p" "next_id pl1 = next_id pl"
    by (auto simp: pl1_def)
  have "pictures_ok (pl1\<lparr>pictures_read := (p, f) # pictures_read pl\<rparr>)"
    using ok1 f(2) lt r unfolding pictures_ok_def by simp
  moreover have "map fst (picture_sources (pl1\<lparr>pictures_read := (p, f) # pictures_read pl\<rparr>)) = filter (\<lambda>i. i \<noteq> source) (map fst (picture_sources pl))"
    by (simp add: pl1_def filter_first)
  ultimately show ?thesis using x(2) unfolding e by auto
qed

lemma destroyed_ok:
  assumes ok: "pictures_ok pl" and alive: "picture \<in> set (pictures_alive pl)"
  shows "pictures_ok (picture_destroyed picture pl)"
proof -
  have d: "distinct (pictures_alive pl)" using ok by (simp add: pictures_ok_def)
  have alone: "pictures_ok (q\<lparr>pictures_alive := remove1 picture (pictures_alive q)\<rparr>)"
    if "pictures_ok q" "\<And>p f s. (p, f, s) \<in> set (loads q) \<Longrightarrow> p \<noteq> picture" for q
  proof -
    have "set (remove1 picture (pictures_alive q)) = set (pictures_alive q) - {picture}"
      using that(1) by (simp add: pictures_ok_def set_remove1_eq)
    then show ?thesis using that unfolding pictures_ok_def by (simp add: distinct_remove1)
  qed
  show ?thesis
  proof (cases "picture \<in> fst ` set (loads pl)")
    case False
    then have n: "\<And>p f s. (p, f, s) \<in> set (loads pl) \<Longrightarrow> p \<noteq> picture" by force
    then have g: "filter (\<lambda>(p, f, s). p = picture) (loads pl) = []" "filter (\<lambda>(p, f, s). p \<noteq> picture) (loads pl) = loads pl"
      by (auto simp: filter_empty_conv filter_id_conv)
    have "picture_destroyed picture pl = pl\<lparr>pictures_alive := remove1 picture (pictures_alive pl)\<rparr>"
      unfolding picture_destroyed_def Let_def g by simp
    then show ?thesis using alone[OF ok n] by simp
  next
    case True
    then obtain f s where x: "(picture, f, s) \<in> set (loads pl)" by auto
    have "distinct (map fst (loads pl))" "0 < s" using ok x unfolding pictures_ok_def by blast+
    from filter_one[OF this(1) x] this(2)
    have e: "picture_destroyed picture pl = (pl\<lparr>loads := filter (\<lambda>(p', f', s'). p' \<noteq> picture) (loads pl),
        picture_sources := filter (\<lambda>(i, d). i \<noteq> s) (picture_sources pl)\<rparr>)\<lparr>pictures_alive := remove1 picture (pictures_alive pl)\<rparr>"
      by (simp add: picture_destroyed_def Let_def deferred_picture_load_free_def)
    show ?thesis using alone[OF remove_load_ok[OF ok x]] unfolding e by auto
  qed
qed

inductive_cases picture_stepE [elim!]: "picture_step pl pl'"

lemma picture_run_ok: "picture_step\<^sup>*\<^sup>* pl pl' \<Longrightarrow> pictures_ok pl \<Longrightarrow> pictures_ok pl'"
  by (induction rule: rtranclp_induct) (use fires_ok in \<open>blast intro: made_ok destroyed_ok\<close>)+

text \<open>
  Pictures read after the first frame. Whatever is made, read and destroyed in whatever order, every pending
  source belongs to one load of one living picture, its delay is between 16 and 128 milliseconds, no picture is
  read twice, and when a source fires its picture, which is alive, is read and the source is gone.
\<close>

theorem pictures_read_once:
  assumes "picture_step\<^sup>*\<^sup>* no_pictures pl"
  shows "map (\<lambda>(p, f, s). s) (loads pl) = map fst (picture_sources pl) \<and> distinct (map fst (picture_sources pl)) \<and>
    (\<forall>(p, f, s) \<in> set (loads pl). p \<in> set (pictures_alive pl)) \<and> (\<forall>(i, d) \<in> set (picture_sources pl). 16 \<le> d \<and> d \<le> 128) \<and>
    distinct (map fst (pictures_read pl)) \<and>
    (\<forall>source \<in> fst ` set (picture_sources pl). \<exists>p f. p \<in> set (pictures_alive pl) \<and> f \<noteq> [] \<and>
       pictures_read (deferred_picture_load_cb source pl) = (p, f) # pictures_read pl \<and>
       source \<notin> fst ` set (picture_sources (deferred_picture_load_cb source pl)))"
proof -
  have "pictures_ok no_pictures" by (simp add: pictures_ok_def no_pictures_def)
  from picture_run_ok[OF assms this] have ok: "pictures_ok pl" .
  have "\<exists>p f. p \<in> set (pictures_alive pl) \<and> f \<noteq> [] \<and>
       pictures_read (deferred_picture_load_cb source pl) = (p, f) # pictures_read pl \<and>
       source \<notin> fst ` set (picture_sources (deferred_picture_load_cb source pl))"
    if src: "source \<in> fst ` set (picture_sources pl)" for source
  proof -
    obtain p f where r: "(p, f, source) \<in> set (loads pl)"
      "pictures_read (deferred_picture_load_cb source pl) = (p, f) # pictures_read pl"
      "map fst (picture_sources (deferred_picture_load_cb source pl)) = filter (\<lambda>i. i \<noteq> source) (map fst (picture_sources pl))"
      using fires_ok[OF ok src] by blast
    from r(3) have "source \<notin> set (map fst (picture_sources (deferred_picture_load_cb source pl)))" by simp
    then have "source \<notin> fst ` set (picture_sources (deferred_picture_load_cb source pl))" by simp
    moreover have "p \<in> set (pictures_alive pl)" "f \<noteq> []" using ok r(1) by (auto simp: pictures_ok_def)
    ultimately show ?thesis using r(2) by blast
  qed
  then show ?thesis using ok by (auto simp: pictures_ok_def)
qed

section \<open>Instances\<close>

definition sample_library :: "(nat, nat, nat) theme_library" where
  "sample_library = \<lparr>ascii_contains_ci = (\<lambda>a b. a = ''Mint-Y-Dark'' \<and> b = ''dark''), theme_resolve = (\<lambda>dark. Some (if dark then 1 else 2)),
     design_metrics = Some 0, typography_of = Some \<lparr>ui_family = Some ''MB Corpo S'', brand_family = Some ''MB Corpo A Cond'', faces = 0\<rparr>\<rparr>"

definition light_desktop :: desktop_theme where
  "light_desktop = \<lparr>gtk_settings = Some (False, Some ''Mint-Y''), has_display = True\<rparr>"

theorem theme_follows_desktop_witness:
  "let th = ss_linux_theme_watch light_desktop (ss_linux_theme_install sample_library light_desktop initial_theme);
       th1 = ss_linux_theme_install sample_library (light_desktop\<lparr>gtk_settings := Some (False, Some ''Mint-Y-Dark'')\<rparr>) th
   in map (fst \<circ> snd) (on_display th) = [2] \<and> map (fst \<circ> snd) (on_display th1) = [1] \<and> ss_linux_theme_generation th1 = 2"
proof -
  define D where "D = light_desktop\<lparr>gtk_settings := Some (False, Some ''Mint-Y-Dark'')\<rparr>"
  define th where "th = ss_linux_theme_watch light_desktop (ss_linux_theme_install sample_library light_desktop initial_theme)"
  have r: "(theme_step sample_library)\<^sup>*\<^sup>* initial_theme th" unfolding th_def by (rule r_into_rtranclp) (rule theme_step.opened)
  have th: "map (fst \<circ> snd) (on_display th) = [2]" "ss_linux_theme_generation th = 1" "ss_linux_theme_install sample_library D th \<noteq> th"
    by (simp_all add: th_def D_def ss_linux_theme_watch_def ss_linux_theme_install_def replace_provider_def system_prefers_dark_def sheet_for_def Let_def
        initial_theme_def light_desktop_def sample_library_def ss_linux_theme_generation_def)
  have d: "sheet_for sample_library (system_prefers_dark sample_library D) \<noteq> None" "has_display D"
    "\<exists>m t. sheet_for sample_library (system_prefers_dark sample_library D) = Some (1, m, t)"
    by (simp_all add: D_def system_prefers_dark_def sheet_for_def light_desktop_def sample_library_def)
  define th1 where "th1 = ss_linux_theme_install sample_library D th"
  note T = theme_follows_desktop[OF r, of D, unfolded Let_def, folded th1_def]
  from T d(1,2) have m: "map (Some \<circ> snd) (on_display th1) = [sheet_for sample_library (system_prefers_dark sample_library D)]"
    by blast
  from T have "ss_linux_theme_generation th1 - ss_linux_theme_generation th = (if th1 = th then 0 else 1)" by blast
  then have g: "ss_linux_theme_generation th1 - ss_linux_theme_generation th = 1" using th(3) by (simp add: th1_def)
  from m d(3) have "map (fst \<circ> snd) (on_display th1) = [1]" by auto
  moreover have "ss_linux_theme_generation th1 = 2" using g th(2) by (simp add: diff_eq_eq)
  ultimately show ?thesis using th(1) unfolding Let_def th1_def th_def D_def by blast
qed

theorem pictures_read_once_witness:
  "\<exists>pl. map fst (picture_sources pl) = [2] \<and> (\<exists>p f. pictures_read (deferred_picture_load_cb 2 pl) = [(p, f)] \<and> p \<in> set (pictures_alive pl))"
proof -
  define pl where "pl = snd (ss_linux_ui_picture_new_for_filename (Some ''hero-asset.png'') no_pictures)"
  have r: "picture_step\<^sup>*\<^sup>* no_pictures pl" unfolding pl_def by (rule r_into_rtranclp) (rule picture_step.made)
  have p: "map fst (picture_sources pl) = [2]" "pictures_read pl = []"
    by (simp_all add: pl_def ss_linux_ui_picture_new_for_filename_def no_pictures_def Let_def)
  then have "2 \<in> fst ` set (picture_sources pl)" by (metis list.set_intros(1) set_map)
  then show ?thesis using pictures_read_once[OF r] p by (metis (no_types, lifting))
qed

end
