(* ===== verification/PanelUi.thy ===== *)
theory PanelUi
  imports SystemTimePanel
begin

text \<open>
  \<open>linux-date-time-panel-ui.c\<close>: the choice lists of the panel and its adaptive layout. A list is the texts it
  shows; what is chosen is read back by the functions of \<open>PanelState\<close> and \<open>SystemTimePanel\<close>. The construction of
  the widgets is left out.
\<close>

section \<open>The lists\<close>

record choice_list =
  choices :: "string list"
  offered :: bool
  help_text :: "string option"

text \<open>The names \<open>clock_mode_strings\<close> appends, beside the identifiers of \<open>PanelController\<close>.\<close>

definition clock_mode_names :: "clock_mode_info option list \<Rightarrow> string list" where
  "clock_mode_names installed =
     map mode_name (filter (\<lambda>info. \<not> ss_native_clock_mode_is_legacy_default (Some (mode_id info)))
                      (List.map_filter (\<lambda>info. info) installed))"

definition calendar_strings :: "common \<Rightarrow> string list" where
  "calendar_strings cm = map snd (calendar_catalogue cm)"

definition first_day_strings :: "string list" where
  "first_day_strings = [''Use locale default'', ''Sunday'', ''Monday'']"

definition fill_timezone_strings :: "glib \<Rightarrow> regional_env \<Rightarrow> string \<Rightarrow> system_time_ui \<Rightarrow> system_time_ui" where
  "fill_timezone_strings gl E zone u =
     (let zones = ss_regional_context_list_timezones gl E (Some zone) in u\<lparr>timezone_ids := Some zones, timezone_strings := zones\<rparr>)"

text \<open>A list without resources is not offered.\<close>

definition resource_list :: "string \<Rightarrow> string list \<Rightarrow> choice_list" where
  "resource_list missing texts =
     (let available = (0 < length texts) in
      \<lparr>choices = texts, offered = available, help_text = (if available then None else Some missing)\<rparr>)"

definition clock_choices :: "clock_mode_info option list \<Rightarrow> choice_list" where
  "clock_choices installed = resource_list ''No clock resources available'' (clock_mode_names installed)"

definition calendar_choices :: "common \<Rightarrow> choice_list" where
  "calendar_choices cm = resource_list ''No calendar resources available'' (calendar_strings cm)"

section \<open>Layout\<close>

record panel_layout =
  applied_columns :: nat
  hero_horizontal :: bool
  cards_horizontal :: bool
  cards_homogeneous :: bool
  manual_state_valid :: bool
  manual_stacked :: bool
  manual_horizontal :: bool

definition date_time_layout_columns_for_width :: "int \<Rightarrow> nat" where
  "date_time_layout_columns_for_width width = (if 760 \<le> width then 2 else 1)"

definition date_time_layout_apply_width :: "int \<Rightarrow> panel_layout \<Rightarrow> panel_layout" where
  "date_time_layout_apply_width width l =
     (let columns = date_time_layout_columns_for_width width; stacked = (width < 520);
          l1 = (if applied_columns l \<noteq> columns
                then l\<lparr>applied_columns := columns, hero_horizontal := (columns = 2), cards_horizontal := (columns = 2),
                       cards_homogeneous := (columns = 2)\<rparr> else l)
      in if \<not> manual_state_valid l1 \<or> manual_stacked l1 \<noteq> stacked
         then l1\<lparr>manual_state_valid := True, manual_stacked := stacked, manual_horizontal := \<not> stacked\<rparr> else l1)"

text \<open>Also \<open>date_time_layout_mapped\<close>.\<close>

definition date_time_layout_width_changed :: "int \<Rightarrow> panel_layout \<Rightarrow> panel_layout" where
  "date_time_layout_width_changed width l = (if 0 < width then date_time_layout_apply_width width l else l)"

definition panel_layout_of :: "int \<Rightarrow> panel_layout" where
  "panel_layout_of width =
     \<lparr>applied_columns = (if 760 \<le> width then 2 else 1), hero_horizontal = (760 \<le> width), cards_horizontal = (760 \<le> width),
      cards_homogeneous = (760 \<le> width), manual_state_valid = True, manual_stacked = (width < 520), manual_horizontal = (520 \<le> width)\<rparr>"

definition layout_current :: "panel_layout \<Rightarrow> bool" where
  "layout_current l \<longleftrightarrow> applied_columns l = 0 \<and> \<not> manual_state_valid l \<or> (\<exists>n. l = panel_layout_of n)"

lemma apply_width: "layout_current l \<Longrightarrow> date_time_layout_apply_width n l = panel_layout_of n"
  by (cases l) (auto simp: layout_current_def date_time_layout_apply_width_def date_time_layout_columns_for_width_def panel_layout_of_def Let_def
      split: if_splits)

lemma layout_kept: "layout_current l \<Longrightarrow> layout_current (date_time_layout_width_changed n l)"
  using apply_width by (auto simp: date_time_layout_width_changed_def layout_current_def)

lemma layout_after: "layout_current l \<Longrightarrow> layout_current (fold date_time_layout_width_changed widths l)"
  by (induction widths arbitrary: l) (auto intro: layout_kept)

text \<open>The layout is the one of the last width, whatever the widths before.\<close>

lemma panel_layout_last:
  "layout_current l \<Longrightarrow> 0 < n \<Longrightarrow> fold date_time_layout_width_changed (widths @ [n]) l = panel_layout_of n"
  using apply_width[OF layout_after] by (simp add: date_time_layout_width_changed_def[of n])

section \<open>Choosing\<close>

lemma index_from_found: "x \<in> set xs \<Longrightarrow> index_from xs x i < i + length xs \<and> i \<le> index_from xs x i \<and> xs ! (index_from xs x i - i) = x"
proof (induction xs arbitrary: i)
  case (Cons y ys)
  show ?case
  proof (cases "y = x")
    case False
    with Cons.prems Cons.IH[of "i + 1"] have *: "index_from ys x (i + 1) < i + 1 + length ys \<and> i + 1 \<le> index_from ys x (i + 1) \<and> ys ! (index_from ys x (i + 1) - (i + 1)) = x"
      by auto
    then have "(y # ys) ! (index_from ys x (i + 1) - i) = x"
      by (simp add: nth_Cons' )
    then show ?thesis using * False by simp
  qed simp
qed simp

lemma index_of_found: "x \<in> set xs \<Longrightarrow> \<exists>j. index_of_id xs x i = Some j \<and> i \<le> j \<and> j < i + length xs \<and> xs ! (j - i) = x"
proof (induction xs arbitrary: i)
  case (Cons y ys)
  show ?case
  proof (cases "y = x")
    case False
    with Cons obtain j where j: "index_of_id ys x (i + 1) = Some j" "i + 1 \<le> j" "j < i + 1 + length ys" "ys ! (j - (i + 1)) = x" by force
    then have "(y # ys) ! (j - i) = x" by (simp add: nth_Cons')
    then show ?thesis using j False by auto
  qed simp
qed simp

lemma mode_lists:
  "clock_mode_strings installed = map mode_id L \<and> clock_mode_names installed = map mode_name L \<and>
   (\<forall>info. info \<in> set L \<longleftrightarrow> Some info \<in> set installed \<and> mode_id info \<noteq> ''standard'')"
  if "L = filter (\<lambda>info. \<not> ss_native_clock_mode_is_legacy_default (Some (mode_id info))) (List.map_filter (\<lambda>info. info) installed)"
proof -
  have "info \<in> set (List.map_filter (\<lambda>info. info) installed) \<longleftrightarrow> Some info \<in> set installed" for info
    by (force simp: List.map_filter_def image_iff)
  then show ?thesis using that by (auto simp: clock_mode_strings_def clock_mode_names_def ss_native_clock_mode_is_legacy_default_def)
qed


section \<open>An instance\<close>

definition sample_installed :: "clock_mode_info option list" where
  "sample_installed = [Some (sample_mode ''standard''), None, Some (sample_mode ''standard-12''), Some (sample_mode ''sidereal'')]"


end
